(* ===== verification/Prelude.thy ===== *)
theory Prelude
  imports Main "HOL-Library.Word" "HOL-Library.Sublist"
begin

text \<open>
  Shared vocabulary of the development: bytes and byte strings, Go errors as
  values, the result of a fallible Go function (a value, an error or a panic),
  readers and writers as the \<^verbatim>\<open>io\<close> package gives them to the code, and the
  generic facts about lists and words that the component theories use.
  A Go \<^verbatim>\<open>string\<close> is a HOL \<^typ>\<open>string\<close>, one \<^typ>\<open>char\<close> per byte; a
  \<^verbatim>\<open>[]byte\<close> that crosses the wire is a list of 8-bit words.
\<close>

unbundle bit_operations_syntax

subsection \<open>Bytes\<close>

type_synonym byte = "8 word"
type_synonym bytes = "byte list"

definition byte_of_char :: "char \<Rightarrow> byte" where
  "byte_of_char c = of_char c"

definition char_of_byte :: "byte \<Rightarrow> char" where
  "char_of_byte b = char_of (unat b)"

abbreviation bytes_of :: "string \<Rightarrow> bytes" where
  "bytes_of s \<equiv> map byte_of_char s"

abbreviation string_of :: "bytes \<Rightarrow> string" where
  "string_of bs \<equiv> map char_of_byte bs"

lemma unat_of_char [simp]: "unat (of_char c :: byte) = of_char c"
proof -
  have "(of_char c :: byte) = of_nat (of_char c)"
    by (simp add: of_char_def)
  moreover have "of_char c < (256::nat)"
    by (rule nat_of_char_less_256)
  ultimately show ?thesis
    by (simp add: unat_of_nat)
qed

lemma char_of_byte_of_char [simp]: "char_of_byte (byte_of_char c) = c"
  by (simp add: char_of_byte_def byte_of_char_def)

lemma byte_of_char_of_byte [simp]: "byte_of_char (char_of_byte b) = b"
proof -
  have "unat b < 256"
    using unsigned_less [of b] by simp
  then have "of_char (char_of (unat b)) = unat b"
    by (simp add: of_char_of)
  then show ?thesis
    by (metis byte_of_char_def char_of_byte_def unat_of_char word_unat_eq_iff)
qed

subsection \<open>Errors as values\<close>

text \<open>
  Error identities the code tests with \<^verbatim>\<open>errors.Is\<close>. A \<^verbatim>\<open>fmt.Errorf\<close> with
  one \<^verbatim>\<open>%w\<close> is \<open>EWrap before cause after\<close>, with two it is \<open>EWrap2\<close>.
\<close>

datatype sentinel =
    IoEOF | IoUnexpectedEOF | ECONNRESET | EPIPE | OsErrNotExist
  | ErrJobGone | ErrJobForbidden | ErrAllocFileGone | ErrSessionNotFound
  | ErrAllocNotReady | ErrBindingNoMatch | ErrBindingAmbiguous
  | ErrBindingTerminal | ErrStagePathInvalid

datatype goerr =
    ESent sentinel
  | ENew string
  | EWrap string goerr string
  | EWrap2 string goerr string goerr string

fun sentinelText :: "sentinel \<Rightarrow> string" where
  "sentinelText IoEOF = ''EOF''"
| "sentinelText IoUnexpectedEOF = ''unexpected EOF''"
| "sentinelText ECONNRESET = ''connection reset by peer''"
| "sentinelText EPIPE = ''broken pipe''"
| "sentinelText OsErrNotExist = ''file does not exist''"
| "sentinelText ErrJobGone = ''nomad: job gone''"
| "sentinelText ErrJobForbidden = ''nomad: forbidden''"
| "sentinelText ErrAllocFileGone = ''nomad: alloc file gone''"
| "sentinelText ErrSessionNotFound = ''session not found''"
| "sentinelText ErrAllocNotReady = ''allocation not ready''"
| "sentinelText ErrBindingNoMatch = ''sidecar binding recovery: no matching child''"
| "sentinelText ErrBindingAmbiguous = ''sidecar binding recovery: matching children are ambiguous''"
| "sentinelText ErrBindingTerminal = ''sidecar binding recovery: matching child is terminal''"
| "sentinelText ErrStagePathInvalid = ''staged file path is invalid''"

primrec errIs :: "goerr \<Rightarrow> sentinel \<Rightarrow> bool" where
  "errIs (ESent t) s = (t = s)"
| "errIs (ENew m) s = False"
| "errIs (EWrap a e b) s = errIs e s"
| "errIs (EWrap2 a e b f c) s = (errIs e s \<or> errIs f s)"

primrec errText :: "goerr \<Rightarrow> string" where
  "errText (ESent t) = sentinelText t"
| "errText (ENew m) = m"
| "errText (EWrap a e b) = a @ errText e @ b"
| "errText (EWrap2 a e b f c) = a @ errText e @ b @ errText f @ c"

text \<open>The outcome of a Go function whose last result is an error: a value, an error,
  a panic, or no return at all (a wait that nothing ends).\<close>

datatype 'a result = Ok 'a | Err goerr | Panic string | Hang

primrec bindR :: "'a result \<Rightarrow> ('a \<Rightarrow> 'b result) \<Rightarrow> 'b result" where
  "bindR (Ok x) f = f x"
| "bindR (Err e) f = Err e"
| "bindR (Panic m) f = Panic m"
| "bindR Hang f = Hang"

lemma bindR_Ok_iff [simp]:
  "bindR r f = Ok y \<longleftrightarrow> (\<exists>x. r = Ok x \<and> f x = Ok y)"
  by (cases r) auto

lemma bindR_assoc: "bindR (bindR r f) g = bindR r (\<lambda>x. bindR (f x) g)"
  by (cases r) auto

subsection \<open>Readers and writers\<close>

text \<open>
  A reader is the bytes that will still arrive and the error the connection
  reports after them; \<open>io_ReadFull\<close> is \<^verbatim>\<open>io.ReadFull\<close>: a short read of at
  least one byte that ends in \<^verbatim>\<open>io.EOF\<close> is \<^verbatim>\<open>io.ErrUnexpectedEOF\<close>.
  A writer records what the peer has accepted and how many more bytes it will
  accept before the connection fails.
\<close>

record reader =
  rd_data :: bytes
  rd_end :: goerr

record writer =
  wr_out :: bytes
  wr_room :: nat
  wr_err :: goerr

definition io_ReadFull :: "nat \<Rightarrow> reader \<Rightarrow> (bytes \<times> reader) result" where
  "io_ReadFull n r =
    (if n \<le> length (rd_data r)
     then Ok (take n (rd_data r), r\<lparr>rd_data := drop n (rd_data r)\<rparr>)
     else if rd_data r \<noteq> [] \<and> rd_end r = ESent IoEOF
     then Err (ESent IoUnexpectedEOF)
     else Err (rd_end r))"

definition io_Write :: "bytes \<Rightarrow> writer \<Rightarrow> goerr option \<times> writer" where
  "io_Write p w =
    (if length p \<le> wr_room w
     then (None, w\<lparr>wr_out := wr_out w @ p, wr_room := wr_room w - length p\<rparr>)
     else (Some (wr_err w),
           w\<lparr>wr_out := wr_out w @ take (wr_room w) p, wr_room := 0\<rparr>))"

lemma io_ReadFull_append [simp]:
  "length p = n \<Longrightarrow>
   io_ReadFull n \<lparr>rd_data = p @ rest, rd_end = e\<rparr> = Ok (p, \<lparr>rd_data = rest, rd_end = e\<rparr>)"
  by (auto simp: io_ReadFull_def)

lemma io_ReadFull_short:
  "length bs < n \<Longrightarrow>
   io_ReadFull n \<lparr>rd_data = bs, rd_end = e\<rparr> =
     Err (if bs \<noteq> [] \<and> e = ESent IoEOF then ESent IoUnexpectedEOF else e)"
  by (auto simp: io_ReadFull_def)

subsection \<open>Lists\<close>

lemma strict_prefix_append_cases:
  assumes "strict_prefix q (xs @ ys)"
  shows "strict_prefix q xs \<or> (\<exists>q'. q = xs @ q' \<and> strict_prefix q' ys)"
  using assms
  by (metis prefix_append prefix_order.less_le same_prefix_prefix
      strict_prefixE append_self_conv prefix_order.order_refl strict_prefixI)

lemma strict_prefix_length_less: "strict_prefix q xs \<Longrightarrow> length q < length xs"
  by (simp add: prefix_length_less)

end
