(* ===== verification/Exec_WS.thy ===== *)
theory Exec_WS
  imports Prelude
begin

text \<open>
  The WebSocket framing of the alloc-exec channel: the client side
  (\<^verbatim>\<open>runtime/exec_ws.go\<close>) and the fake server's side (\<^verbatim>\<open>fakenomad/ws.go\<close>).
  A frame is written to a connection that may break after any byte and read
  from one that may end after any byte. The locale \<open>frame_codec\<close> is the
  contract between a writer and a reader of frames; it is interpreted for both
  directions of the channel.
\<close>

subsection \<open>Constants and the length field\<close>

definition wsOpText :: byte where
  "wsOpText = 0x1"

definition wsOpClose :: byte where
  "wsOpClose = 0x8"

text \<open>\<^verbatim>\<open>binary.BigEndian.PutUint16/PutUint64\<close> and \<^verbatim>\<open>Uint16/Uint64\<close>, by width in bytes.\<close>

fun putBE :: "nat \<Rightarrow> nat \<Rightarrow> bytes" where
  "putBE 0 v = []"
| "putBE (Suc k) v = of_nat (v div 256 ^ k) # putBE k v"

definition getBE :: "bytes \<Rightarrow> nat" where
  "getBE bs = foldl (\<lambda>a b. a * 256 + unat b) 0 bs"

text \<open>The frame head, with the mask bit of the second byte as a parameter.\<close>

definition frameHead :: "byte \<Rightarrow> byte \<Rightarrow> nat \<Rightarrow> bytes" where
  "frameHead maskBit opcode len =
    (if len \<le> 125 then [0x80 OR opcode, maskBit OR of_nat len]
     else if len \<le> 0xffff then [0x80 OR opcode, maskBit OR 126] @ putBE 2 len
     else [0x80 OR opcode, maskBit OR 127] @ putBE 8 len)"

definition xorMask :: "bytes \<Rightarrow> bytes \<Rightarrow> bytes" where
  "xorMask key p = map (\<lambda>(i, b). b XOR key ! (i mod 4)) (enumerate 0 p)"

text \<open>\<^verbatim>\<open>make([]byte, n)\<close> panics above the address-space limit of the Go runtime.\<close>

definition makeBytes :: "nat \<Rightarrow> unit result" where
  "makeBytes n = (if n \<le> 2 ^ 48 then Ok () else Panic ''runtime error: makeslice: len out of range'')"

subsection \<open>Writing frames\<close>

text \<open>\<open>rnd\<close> is the outcome of \<^verbatim>\<open>rand.Read(maskKey[:])\<close>.\<close>

definition wsWriteMaskedFrame ::
  "goerr + bytes \<Rightarrow> byte \<Rightarrow> bytes \<Rightarrow> writer \<Rightarrow> goerr option \<times> writer" where
  "wsWriteMaskedFrame rnd opcode payload w =
    (case rnd of
      Inl e \<Rightarrow> (Some e, w)
    | Inr maskKey \<Rightarrow>
        (let masked = xorMask maskKey payload;
             hd2 = frameHead 0x80 opcode (length payload)
         in case io_Write hd2 w of
              (Some e, w1) \<Rightarrow> (Some e, w1)
            | (None, w1) \<Rightarrow>
                (case io_Write maskKey w1 of
                   (Some e, w2) \<Rightarrow> (Some e, w2)
                 | (None, w2) \<Rightarrow> io_Write masked w2)))"

definition fakenomad_wsWriteFrame :: "byte \<Rightarrow> bytes \<Rightarrow> writer \<Rightarrow> goerr option \<times> writer" where
  "fakenomad_wsWriteFrame opcode payload w =
    (case io_Write (frameHead 0 opcode (length payload)) w of
       (Some e, w1) \<Rightarrow> (Some e, w1)
     | (None, w1) \<Rightarrow> if length payload = 0 then (None, w1) else io_Write payload w1)"

text \<open>Frames written one after the other, stopping at the first error, as the
  stdin loop of \<^verbatim>\<open>execAllocObserved\<close> and the reply of \<^verbatim>\<open>handleExecWS\<close> do.\<close>

fun sendMaskedFrames :: "(bytes \<times> byte \<times> bytes) list \<Rightarrow> writer \<Rightarrow> goerr option \<times> writer" where
  "sendMaskedFrames [] w = (None, w)"
| "sendMaskedFrames ((key, opc, p) # fs) w =
    (case wsWriteMaskedFrame (Inr key) opc p w of
       (Some e, w1) \<Rightarrow> (Some e, w1)
     | (None, w1) \<Rightarrow> sendMaskedFrames fs w1)"

fun sendPlainFrames :: "(unit \<times> byte \<times> bytes) list \<Rightarrow> writer \<Rightarrow> goerr option \<times> writer" where
  "sendPlainFrames [] w = (None, w)"
| "sendPlainFrames ((u, opc, p) # fs) w =
    (case fakenomad_wsWriteFrame opc p w of
       (Some e, w1) \<Rightarrow> (Some e, w1)
     | (None, w1) \<Rightarrow> sendPlainFrames fs w1)"

subsection \<open>Reading frames\<close>

definition readLength :: "byte \<Rightarrow> reader \<Rightarrow> (nat \<times> reader) result" where
  "readLength b r =
    (let len = unat (b AND 0x7f) in
     if len = 126 then bindR (io_ReadFull 2 r) (\<lambda>(ext, r). Ok (getBE ext, r))
     else if len = 127 then bindR (io_ReadFull 8 r) (\<lambda>(ext, r). Ok (getBE ext, r))
     else Ok (len, r))"

definition wsReadFrame :: "reader \<Rightarrow> (byte \<times> bytes \<times> reader) result" where
  "wsReadFrame r =
    bindR (io_ReadFull 2 r) (\<lambda>(head, r).
    let opcode = head ! 0 AND 0x0f; masked = (head ! 1 AND 0x80 \<noteq> 0) in
    bindR (readLength (head ! 1) r) (\<lambda>(len, r).
    if masked then Err (ENew ''nomad exec websocket: unexpected masked server frame'')
    else bindR (makeBytes len) (\<lambda>_.
         bindR (io_ReadFull len r) (\<lambda>(payload, r). Ok (opcode, payload, r)))))"

definition fakenomad_wsReadFrame :: "reader \<Rightarrow> (byte \<times> bytes \<times> reader) result" where
  "fakenomad_wsReadFrame r =
    bindR (io_ReadFull 2 r) (\<lambda>(head, r).
    let opcode = head ! 0 AND 0x0f; masked = (head ! 1 AND 0x80 \<noteq> 0) in
    bindR (readLength (head ! 1) r) (\<lambda>(len, r).
    if \<not> masked then Err (ENew ''fakenomad: client frame must be masked'')
    else bindR (io_ReadFull 4 r) (\<lambda>(maskKey, r).
         bindR (makeBytes len) (\<lambda>_.
         bindR (io_ReadFull len r) (\<lambda>(payload, r).
           Ok (opcode, xorMask maskKey payload, r))))))"

text \<open>Reading frames until the connection ends, as both receive loops do.\<close>

fun readFrames ::
  "(reader \<Rightarrow> (byte \<times> bytes \<times> reader) result) \<Rightarrow> nat \<Rightarrow> reader
     \<Rightarrow> (byte \<times> bytes) list \<times> unit result" where
  "readFrames dec 0 r = ([], Ok ())"
| "readFrames dec (Suc n) r =
    (case dec r of
       Ok (opc, p, r') \<Rightarrow> (let (fs, e) = readFrames dec n r' in ((opc, p) # fs, e))
     | Err e \<Rightarrow> ([], Err e)
     | Panic m \<Rightarrow> ([], Panic m)
     | Hang \<Rightarrow> ([], Hang))"

subsection \<open>The length field round trip\<close>

lemma length_putBE [simp]: "length (putBE k v) = k"
  by (induction k) auto

lemma getBE_Cons_acc:
  "foldl (\<lambda>a b. a * 256 + unat b) acc bs = acc * 256 ^ length bs + getBE (bs :: bytes)"
proof (induction bs arbitrary: acc)
  case (Cons b bs)
  have "foldl (\<lambda>a b. a * 256 + unat b) acc (b # bs)
      = (acc * 256 + unat b) * 256 ^ length bs + getBE bs"
    using Cons.IH by simp
  moreover have "getBE (b # bs) = unat b * 256 ^ length bs + getBE bs"
    using Cons.IH [of "unat b"] by (simp add: getBE_def)
  ultimately show ?case
    by (simp add: algebra_simps)
qed (simp add: getBE_def)

lemma getBE_Nil [simp]: "getBE [] = 0"
  by (simp add: getBE_def)

lemma getBE_Cons [simp]: "getBE (b # bs) = unat b * 256 ^ length bs + getBE bs"
  using getBE_Cons_acc [of "unat b" bs] by (simp add: getBE_def)

lemma getBE_putBE_mod: "getBE (putBE k v) = v mod 256 ^ k"
proof (induction k)
  case (Suc k)
  have "getBE (putBE (Suc k) v) = (v div 256 ^ k) mod 256 * 256 ^ k + v mod 256 ^ k"
    by (simp add: Suc unat_of_nat)
  also have "\<dots> = v mod (256 ^ k * 256)"
    by (metis add.commute mod_mult2_eq mult.commute)
  finally show ?case
    by (simp add: mult.commute)
qed simp

lemma getBE_putBE [simp]: "v < 256 ^ k \<Longrightarrow> getBE (putBE k v) = v"
  by (simp add: getBE_putBE_mod)

subsection \<open>Masking\<close>

lemma length_xorMask [simp]: "length (xorMask key p) = length p"
  by (simp add: xorMask_def)

lemma nth_xorMask [simp]: "i < length p \<Longrightarrow> xorMask key p ! i = p ! i XOR key ! (i mod 4)"
  by (simp add: xorMask_def nth_enumerate_eq)

lemma xorMask_involutive [simp]: "xorMask key (xorMask key p) = p"
  by (rule nth_equalityI) (simp_all add: xor.assoc)

subsection \<open>Frame heads\<close>

text \<open>An opcode the four-bit field of a frame head can carry.\<close>

definition opcodeFits :: "byte \<Rightarrow> bool" where
  "opcodeFits opcode \<longleftrightarrow> opcode AND 0x0f = opcode"

lemma head_opcode [simp]:
  "opcodeFits opcode \<Longrightarrow> (0x80 OR opcode) AND 0x0f = (opcode :: byte)"
  by (simp add: opcodeFits_def bit.conj_disj_distrib2)

lemma small_and_7f: "n \<le> 127 \<Longrightarrow> (of_nat n :: byte) AND 0x7f = of_nat n"
proof -
  assume "n \<le> 127"
  then have "take_bit 7 n = n"
    by (simp add: take_bit_nat_eq_self_iff)
  then have "take_bit 7 (of_nat n :: byte) = of_nat n"
    by (simp add: take_bit_of_nat)
  moreover have "(0x7f :: byte) = mask 7"
    by (simp add: mask_eq_exp_minus_1)
  ultimately show ?thesis
    by (simp add: take_bit_eq_mask)
qed

lemma small_and_80: "n \<le> 127 \<Longrightarrow> (of_nat n :: byte) AND 0x80 = 0"
proof -
  assume "n \<le> 127"
  then have "(of_nat n :: byte) AND 0x80 = (of_nat n AND 0x7f) AND 0x80"
    by (simp add: small_and_7f)
  then show ?thesis
    by (simp add: and.assoc)
qed

lemma length_bits [simp]:
  assumes "n \<le> 127"
  shows "((0x80 :: byte) OR of_nat n) AND 0x7f = of_nat n"
    and "((0x80 :: byte) OR of_nat n) AND 0x80 = 0x80"
    and "((0 :: byte) OR of_nat n) AND 0x7f = of_nat n"
    and "((0 :: byte) OR of_nat n) AND 0x80 = 0"
  using assms by (simp_all add: bit.conj_disj_distrib2 small_and_7f small_and_80)

lemma unat_small [simp]: "n \<le> 127 \<Longrightarrow> unat (of_nat n :: byte) = n"
  by (simp add: unat_of_nat)

text \<open>
  A frame head, split into its two fixed bytes and the extended length that
  \<open>readLength\<close> consumes.
\<close>

definition lengthCode :: "nat \<Rightarrow> nat" where
  "lengthCode len = (if len \<le> 125 then len else if len \<le> 0xffff then 126 else 127)"

definition lengthExt :: "nat \<Rightarrow> bytes" where
  "lengthExt len = (if len \<le> 125 then [] else if len \<le> 0xffff then putBE 2 len else putBE 8 len)"

lemma lengthCode_le [simp]: "lengthCode len \<le> 127"
  by (simp add: lengthCode_def)

lemma frameHead_split:
  "frameHead mb opcode len = [0x80 OR opcode, mb OR of_nat (lengthCode len)] @ lengthExt len"
  by (simp add: frameHead_def lengthCode_def lengthExt_def)

lemma io_ReadFull_two [simp]:
  "io_ReadFull 2 \<lparr>rd_data = a # b # rest, rd_end = e\<rparr> = Ok ([a, b], \<lparr>rd_data = rest, rd_end = e\<rparr>)"
  by (simp add: io_ReadFull_def numeral_2_eq_2)

lemma readLength_code:
  assumes "len < 2 ^ 64" and "b AND 0x7f = of_nat (lengthCode len)"
  shows "readLength b \<lparr>rd_data = lengthExt len @ rest, rd_end = e\<rparr>
       = Ok (len, \<lparr>rd_data = rest, rd_end = e\<rparr>)"
  using assms by (auto simp: readLength_def lengthExt_def lengthCode_def)

subsection \<open>Torn streams\<close>

text \<open>A read that fails because the connection ended: it reports the connection's
  own error or \<^verbatim>\<open>io.ErrUnexpectedEOF\<close>, and delivers nothing.\<close>

definition torn :: "goerr \<Rightarrow> 'a result \<Rightarrow> bool" where
  "torn e r \<longleftrightarrow> r = Err e \<or> r = Err (ESent IoUnexpectedEOF)"

lemma torn_bindR [simp, intro]: "torn e r \<Longrightarrow> torn e (bindR r f)"
  by (auto simp: torn_def)

lemma io_ReadFull_torn [intro]:
  "length bs < n \<Longrightarrow> torn e (io_ReadFull n \<lparr>rd_data = bs, rd_end = e\<rparr>)"
  by (auto simp: io_ReadFull_short torn_def)

lemma readLength_torn:
  assumes "strict_prefix q (lengthExt len)" and "b AND 0x7f = of_nat (lengthCode len)"
  shows "torn e (readLength b \<lparr>rd_data = q, rd_end = e\<rparr>)"
  using assms strict_prefix_length_less [OF assms(1)]
  by (auto simp: readLength_def lengthExt_def lengthCode_def split: if_splits)

subsection \<open>The contract between a frame writer and a frame reader\<close>

text \<open>How many of the frames whose wire lengths are \<open>ls\<close> lie wholly in the first
  \<open>n\<close> bytes of the stream.\<close>

fun framesWithin :: "nat \<Rightarrow> nat list \<Rightarrow> nat" where
  "framesWithin n [] = 0"
| "framesWithin n (l # ls) = (if l \<le> n then Suc (framesWithin (n - l) ls) else 0)"

lemma framesWithin_all: "sum_list ls \<le> n \<Longrightarrow> framesWithin n ls = length ls"
  by (induction n ls rule: framesWithin.induct) auto

text \<open>
  \<open>enc\<close> is the wire image of one frame under a key, \<open>dec\<close> the reader of one
  frame, \<open>fits\<close> the frames the writer may send. The laws: a whole frame is
  read back and nothing after it is consumed; a frame cut short, or a
  connection that has ended, delivers nothing.
\<close>

locale frame_codec =
  fixes enc :: "'k \<Rightarrow> byte \<Rightarrow> bytes \<Rightarrow> bytes"
    and dec :: "reader \<Rightarrow> (byte \<times> bytes \<times> reader) result"
    and fits :: "'k \<Rightarrow> byte \<Rightarrow> bytes \<Rightarrow> bool"
  assumes dec_enc: "fits k opc p \<Longrightarrow>
      dec \<lparr>rd_data = enc k opc p @ rest, rd_end = e\<rparr> = Ok (opc, p, \<lparr>rd_data = rest, rd_end = e\<rparr>)"
    and dec_torn: "fits k opc p \<Longrightarrow> strict_prefix q (enc k opc p) \<Longrightarrow>
      torn e (dec \<lparr>rd_data = q, rd_end = e\<rparr>)"
    and dec_end: "torn e (dec \<lparr>rd_data = [], rd_end = e\<rparr>)"
begin

abbreviation wires :: "('k \<times> byte \<times> bytes) list \<Rightarrow> bytes list" where
  "wires fs \<equiv> map (\<lambda>(k, opc, p). enc k opc p) fs"

lemma wires_lengths:
  "length (concat (wires fs)) = (\<Sum>(k, opc, p)\<leftarrow>fs. length (enc k opc p))"
  "map length (wires fs) = map (\<lambda>(k, opc, p). length (enc k opc p)) fs"
  by (induction fs) auto

lemma readFrames_torn:
  "torn e (dec \<lparr>rd_data = q, rd_end = e\<rparr>) \<Longrightarrow>
   readFrames dec (Suc n) \<lparr>rd_data = q, rd_end = e\<rparr> \<in> {([], Err e), ([], Err (ESent IoUnexpectedEOF))}"
  by (auto simp: torn_def)

text \<open>A cut at any byte delivers exactly the frames before the cut, then an error.\<close>

lemma stream_cut:
  assumes "\<forall>(k, opc, p) \<in> set fs. fits k opc p"
  shows "\<exists>err \<in> {e, ESent IoUnexpectedEOF}.
    readFrames dec (Suc (length fs)) \<lparr>rd_data = take n (concat (wires fs)), rd_end = e\<rparr>
      = (take (framesWithin n (map length (wires fs))) (map snd fs), Err err)"
  using assms
proof (induction fs arbitrary: n)
  case Nil
  show ?case
    using readFrames_torn [OF dec_end [of e], of 0] by auto
next
  case (Cons f fs)
  obtain k opc p where f: "f = (k, opc, p)" by (cases f)
  then have fits: "fits k opc p" using Cons.prems by auto
  show ?case
  proof (cases "length (enc k opc p) \<le> n")
    case True
    have "dec \<lparr>rd_data = take n (concat (wires (f # fs))), rd_end = e\<rparr>
        = Ok (opc, p, \<lparr>rd_data = take (n - length (enc k opc p)) (concat (wires fs)), rd_end = e\<rparr>)"
      using True dec_enc [OF fits] by (simp add: f)
    then show ?thesis
      using Cons.IH [of "n - length (enc k opc p)"] Cons.prems True by (auto simp: f)
  next
    case False
    then have "strict_prefix (take n (enc k opc p)) (enc k opc p)"
      by (metis not_le prefix_order.dual_order.not_eq_order_implies_strict take_all_iff take_is_prefix)
    from readFrames_torn [OF dec_torn [OF fits this, of e], where n = "length (f # fs)"] False show ?thesis
      by (auto simp: f)
  qed
qed

lemma stream_whole:
  assumes "\<forall>(k, opc, p) \<in> set fs. fits k opc p"
  shows "\<exists>err \<in> {e, ESent IoUnexpectedEOF}.
    readFrames dec (Suc (length fs)) \<lparr>rd_data = concat (wires fs), rd_end = e\<rparr>
      = (map snd fs, Err err)"
  using stream_cut [OF assms, of e "length (concat (wires fs))"]
  by (simp add: framesWithin_all length_concat comp_def)

end

subsection \<open>Both directions of the channel meet the contract\<close>

definition maskedWire :: "bytes \<Rightarrow> byte \<Rightarrow> bytes \<Rightarrow> bytes" where
  "maskedWire key opc p = frameHead 0x80 opc (length p) @ key @ xorMask key p"

definition plainWire :: "unit \<Rightarrow> byte \<Rightarrow> bytes \<Rightarrow> bytes" where
  "plainWire u opc p = frameHead 0 opc (length p) @ p"

definition maskedFits :: "bytes \<Rightarrow> byte \<Rightarrow> bytes \<Rightarrow> bool" where
  "maskedFits key opc p \<longleftrightarrow> length key = 4 \<and> opcodeFits opc \<and> length p \<le> 2 ^ 48"

definition plainFits :: "unit \<Rightarrow> byte \<Rightarrow> bytes \<Rightarrow> bool" where
  "plainFits u opc p \<longleftrightarrow> opcodeFits opc \<and> length p \<le> 2 ^ 48"

lemma wsReadFrame_plainWire:
  assumes "plainFits u opc p"
  shows "wsReadFrame \<lparr>rd_data = plainWire u opc p @ rest, rd_end = e\<rparr>
       = Ok (opc, p, \<lparr>rd_data = rest, rd_end = e\<rparr>)"
proof -
  have len: "length p < 2 ^ 64" using assms by (simp add: plainFits_def)
  have "io_ReadFull 2 \<lparr>rd_data = plainWire u opc p @ rest, rd_end = e\<rparr>
    = Ok ([0x80 OR opc, 0 OR of_nat (lengthCode (length p))],
          \<lparr>rd_data = lengthExt (length p) @ p @ rest, rd_end = e\<rparr>)"
    by (simp add: plainWire_def frameHead_split)
  then show ?thesis
    using assms readLength_code [OF len]
    by (simp add: wsReadFrame_def plainFits_def makeBytes_def small_and_7f small_and_80)
qed

lemma fakenomad_wsReadFrame_maskedWire:
  assumes "maskedFits key opc p"
  shows "fakenomad_wsReadFrame \<lparr>rd_data = maskedWire key opc p @ rest, rd_end = e\<rparr>
       = Ok (opc, p, \<lparr>rd_data = rest, rd_end = e\<rparr>)"
proof -
  have len: "length p < 2 ^ 64" using assms by (simp add: maskedFits_def)
  have "io_ReadFull 2 \<lparr>rd_data = maskedWire key opc p @ rest, rd_end = e\<rparr>
    = Ok ([0x80 OR opc, 0x80 OR of_nat (lengthCode (length p))],
          \<lparr>rd_data = lengthExt (length p) @ key @ xorMask key p @ rest, rd_end = e\<rparr>)"
    by (simp add: maskedWire_def frameHead_split)
  then show ?thesis
    using assms readLength_code [OF len]
    by (simp add: fakenomad_wsReadFrame_def maskedFits_def makeBytes_def)
qed

lemma wsReadFrame_torn:
  assumes "plainFits u opc p" and "strict_prefix q (plainWire u opc p)"
  shows "torn e (wsReadFrame \<lparr>rd_data = q, rd_end = e\<rparr>)"
proof (cases "length q < 2")
  case True
  then show ?thesis
    by (auto simp: wsReadFrame_def)
next
  case False
  then obtain q1 where q: "q = [0x80 OR opc, 0 OR of_nat (lengthCode (length p))] @ q1"
    and q1: "strict_prefix q1 (lengthExt (length p) @ p)"
    using assms(2) strict_prefix_append_cases [of q "[0x80 OR opc, 0 OR of_nat (lengthCode (length p))]"]
      strict_prefix_length_less
    unfolding plainWire_def frameHead_split append_assoc by fastforce
  have rd2: "io_ReadFull 2 \<lparr>rd_data = q, rd_end = e\<rparr>
    = Ok ([0x80 OR opc, 0 OR of_nat (lengthCode (length p))], \<lparr>rd_data = q1, rd_end = e\<rparr>)"
    by (simp add: q)
  have len: "length p < 2 ^ 64" using assms by (simp add: plainFits_def)
  from strict_prefix_append_cases [OF q1] show ?thesis
  proof
    assume "strict_prefix q1 (lengthExt (length p))"
    then show ?thesis
      using rd2 readLength_torn [where len = "length p"]
      by (simp add: wsReadFrame_def small_and_7f)
  next
    assume "\<exists>q'. q1 = lengthExt (length p) @ q' \<and> strict_prefix q' p"
    then obtain q' where "q1 = lengthExt (length p) @ q'" "length q' < length p"
      using strict_prefix_length_less by auto
    then show ?thesis
      using rd2 assms readLength_code [OF len]
      by (auto simp: wsReadFrame_def small_and_7f small_and_80 plainFits_def makeBytes_def)
  qed
qed

lemma fakenomad_wsReadFrame_torn:
  assumes "maskedFits key opc p" and "strict_prefix q (maskedWire key opc p)"
  shows "torn e (fakenomad_wsReadFrame \<lparr>rd_data = q, rd_end = e\<rparr>)"
proof (cases "length q < 2")
  case True
  then show ?thesis
    by (auto simp: fakenomad_wsReadFrame_def)
next
  case False
  then obtain q1 where q: "q = [0x80 OR opc, 0x80 OR of_nat (lengthCode (length p))] @ q1"
    and q1: "strict_prefix q1 (lengthExt (length p) @ key @ xorMask key p)"
    using assms(2) strict_prefix_append_cases [of q "[0x80 OR opc, 0x80 OR of_nat (lengthCode (length p))]"]
      strict_prefix_length_less
    unfolding maskedWire_def frameHead_split append_assoc by fastforce
  have rd2: "io_ReadFull 2 \<lparr>rd_data = q, rd_end = e\<rparr>
    = Ok ([0x80 OR opc, 0x80 OR of_nat (lengthCode (length p))], \<lparr>rd_data = q1, rd_end = e\<rparr>)"
    by (simp add: q)
  have len: "length p < 2 ^ 64" using assms by (simp add: maskedFits_def)
  from strict_prefix_append_cases [OF q1] show ?thesis
  proof
    assume "strict_prefix q1 (lengthExt (length p))"
    then show ?thesis
      using rd2 readLength_torn [where len = "length p"]
      by (simp add: fakenomad_wsReadFrame_def)
  next
    assume "\<exists>q'. q1 = lengthExt (length p) @ q' \<and> strict_prefix q' (key @ xorMask key p)"
    then obtain q' where q': "q1 = lengthExt (length p) @ q'" "strict_prefix q' (key @ xorMask key p)"
      by auto
    then have "readLength (0x80 OR of_nat (lengthCode (length p))) \<lparr>rd_data = q1, rd_end = e\<rparr>
        = Ok (length p, \<lparr>rd_data = q', rd_end = e\<rparr>)"
      using readLength_code [OF len] by simp
    then have body: "fakenomad_wsReadFrame \<lparr>rd_data = q, rd_end = e\<rparr> =
      bindR (io_ReadFull 4 \<lparr>rd_data = q', rd_end = e\<rparr>) (\<lambda>(maskKey, r).
         bindR (io_ReadFull (length p) r) (\<lambda>(payload, r).
           Ok ((0x80 OR opc) AND 0x0f, xorMask maskKey payload, r)))"
      using rd2 assms by (simp add: fakenomad_wsReadFrame_def maskedFits_def makeBytes_def)
    from strict_prefix_append_cases [OF q'(2)] show ?thesis
      using assms strict_prefix_length_less unfolding body
      by (fastforce simp: maskedFits_def)
  qed
qed

lemma reads_end:
  "torn e (wsReadFrame \<lparr>rd_data = [], rd_end = e\<rparr>)"
  "torn e (fakenomad_wsReadFrame \<lparr>rd_data = [], rd_end = e\<rparr>)"
  by (simp_all add: wsReadFrame_def fakenomad_wsReadFrame_def io_ReadFull_torn)

interpretation toServer: frame_codec maskedWire fakenomad_wsReadFrame maskedFits
  by unfold_locales
    (simp_all add: fakenomad_wsReadFrame_maskedWire fakenomad_wsReadFrame_torn reads_end)

interpretation toClient: frame_codec plainWire wsReadFrame plainFits
  by unfold_locales (simp_all add: wsReadFrame_plainWire wsReadFrame_torn reads_end)

subsection \<open>What reaches the peer when the connection breaks while writing\<close>

lemma io_Write_append:
  "io_Write (a @ b) w =
    (case io_Write a w of (Some e, w1) \<Rightarrow> (Some e, w1) | (None, w1) \<Rightarrow> io_Write b w1)"
  by (auto simp: io_Write_def)

lemma io_Write_Nil [simp]: "io_Write [] w = (None, w)"
  by (simp add: io_Write_def)

lemma io_Write_fst: "fst (io_Write p w) = (if length p \<le> wr_room w then None else Some (wr_err w))"
  by (simp add: io_Write_def)

lemma io_Write_out: "wr_out (snd (io_Write p w)) = wr_out w @ take (wr_room w) p"
  by (simp add: io_Write_def)

lemma wsWriteMaskedFrame_wire:
  "wsWriteMaskedFrame (Inr key) opc p w = io_Write (maskedWire key opc p) w"
  by (simp add: wsWriteMaskedFrame_def maskedWire_def io_Write_append Let_def
      split: prod.split option.split)

lemma fakenomad_wsWriteFrame_wire:
  "fakenomad_wsWriteFrame opc p w = io_Write (plainWire u opc p) w"
  by (simp add: fakenomad_wsWriteFrame_def plainWire_def io_Write_append split: prod.split option.split)

lemma sendMaskedFrames_wire: "sendMaskedFrames fs w = io_Write (concat (toServer.wires fs)) w"
  by (induction fs w rule: sendMaskedFrames.induct)
    (auto simp: wsWriteMaskedFrame_wire io_Write_append split: prod.split option.split)

lemma sendPlainFrames_wire: "sendPlainFrames fs w = io_Write (concat (toClient.wires fs)) w"
  by (induction fs w rule: sendPlainFrames.induct)
    (auto simp: fakenomad_wsWriteFrame_wire [of _ _ _ "()"] io_Write_append split: prod.split option.split)

text \<open>C8. Whatever frames the client sends over a connection that fails after
  \<open>n\<close> bytes, the server reads exactly the frames that fit wholly in those bytes,
  in order and unaltered, and then an error; the client reports success exactly
  when every byte was accepted.\<close>

theorem client_frames_reach_server:
  assumes "\<forall>(key, opc, p) \<in> set fs. maskedFits key opc p"
  shows "\<exists>err \<in> {e, ESent IoUnexpectedEOF}.
    readFrames fakenomad_wsReadFrame (Suc (length fs))
        \<lparr>rd_data = wr_out (snd (sendMaskedFrames fs \<lparr>wr_out = [], wr_room = n, wr_err = we\<rparr>)), rd_end = e\<rparr>
      = (take (framesWithin n (map (\<lambda>(key, opc, p). length (maskedWire key opc p)) fs)) (map snd fs), Err err)
    \<and> (fst (sendMaskedFrames fs \<lparr>wr_out = [], wr_room = n, wr_err = we\<rparr>) = None
        \<longleftrightarrow> (\<Sum>(key, opc, p)\<leftarrow>fs. length (maskedWire key opc p)) \<le> n)"
  using toServer.stream_cut [OF assms, of e n]
  unfolding toServer.wires_lengths(2) sendMaskedFrames_wire io_Write_out io_Write_fst toServer.wires_lengths(1)
  by (simp del: readFrames.simps)

theorem client_frames_reach_server_witness:
  "\<exists>err \<in> {ESent IoEOF, ESent IoUnexpectedEOF}.
    readFrames fakenomad_wsReadFrame 3
        \<lparr>rd_data = wr_out (snd (sendMaskedFrames [([1,2,3,4], wsOpText, [7,8,9]), ([5,6,7,8], wsOpClose, [])]
           \<lparr>wr_out = [], wr_room = 10, wr_err = ESent EPIPE\<rparr>)), rd_end = ESent IoEOF\<rparr>
      = ([(wsOpText, [7,8,9])], Err err)"
proof -
  let ?fs = "[([1,2,3,4], wsOpText, [7,8,9]), ([5,6,7,8], wsOpClose, [])]"
  have "\<forall>(key, opc, p) \<in> set ?fs. maskedFits key opc p"
    by (simp add: maskedFits_def opcodeFits_def wsOpText_def wsOpClose_def)
  from client_frames_reach_server [OF this, of "ESent IoEOF" 10 "ESent EPIPE"] show ?thesis
    by (auto simp: maskedWire_def frameHead_def numeral_3_eq_3)
qed

text \<open>C27. The same for the server's replies: the client reads exactly the frames
  that arrived whole, in order and unaltered, and then an error.\<close>

theorem server_frames_reach_client:
  assumes "\<forall>(u, opc, p) \<in> set fs. plainFits u opc p"
  shows "\<exists>err \<in> {e, ESent IoUnexpectedEOF}.
    readFrames wsReadFrame (Suc (length fs))
        \<lparr>rd_data = wr_out (snd (sendPlainFrames fs \<lparr>wr_out = [], wr_room = n, wr_err = we\<rparr>)), rd_end = e\<rparr>
      = (take (framesWithin n (map (\<lambda>(u, opc, p). length (plainWire u opc p)) fs)) (map snd fs), Err err)
    \<and> (fst (sendPlainFrames fs \<lparr>wr_out = [], wr_room = n, wr_err = we\<rparr>) = None
        \<longleftrightarrow> (\<Sum>(u, opc, p)\<leftarrow>fs. length (plainWire u opc p)) \<le> n)"
  using toClient.stream_cut [OF assms, of e n]
  unfolding toClient.wires_lengths(2) sendPlainFrames_wire io_Write_out io_Write_fst toClient.wires_lengths(1)
  by (simp del: readFrames.simps)

theorem server_frames_reach_client_witness:
  "\<exists>err \<in> {ESent IoEOF, ESent IoUnexpectedEOF}.
    readFrames wsReadFrame 3
        \<lparr>rd_data = wr_out (snd (sendPlainFrames [((), wsOpText, [7,8,9]), ((), wsOpText, [1,2])]
           \<lparr>wr_out = [], wr_room = 9, wr_err = ESent EPIPE\<rparr>)), rd_end = ESent IoEOF\<rparr>
      = ([(wsOpText, [7,8,9]), (wsOpText, [1,2])], Err err)"
proof -
  let ?fs = "[((), wsOpText, [7,8,9]), ((), wsOpText, [1,2])]"
  have "\<forall>(u, opc, p) \<in> set ?fs. plainFits u opc p"
    by (simp add: plainFits_def opcodeFits_def wsOpText_def)
  from server_frames_reach_client [OF this, of "ESent IoEOF" 9 "ESent EPIPE"] show ?thesis
    by (auto simp: plainWire_def frameHead_def numeral_3_eq_3)
qed

text \<open>Each reader refuses a frame that belongs to the other direction: the
  client a masked one, the server an unmasked one, whatever follows it.\<close>

lemma readers_refuse_other_direction:
  assumes "length key = 4" and "opcodeFits opc" and "length p \<le> 2 ^ 48"
  shows "wsReadFrame \<lparr>rd_data = maskedWire key opc p @ rest, rd_end = e\<rparr>
           = Err (ENew ''nomad exec websocket: unexpected masked server frame'')
       \<and> fakenomad_wsReadFrame \<lparr>rd_data = plainWire () opc p @ rest, rd_end = e\<rparr>
           = Err (ENew ''fakenomad: client frame must be masked'')"
proof -
  have len: "length p < 2 ^ 64" using assms by simp
  show ?thesis
    using readLength_code [OF len]
    by (simp add: wsReadFrame_def fakenomad_wsReadFrame_def maskedWire_def plainWire_def
        frameHead_split small_and_7f small_and_80)
qed

text \<open>C30. A server frame whose 64-bit length is beyond what the Go runtime can
  allocate makes the client's reader panic; the length is taken from the wire
  with no bound of its own.\<close>

theorem huge_length_panics:
  assumes "2 ^ 48 < n" and "n < 2 ^ 64"
  shows "wsReadFrame \<lparr>rd_data = [0x81, 127] @ putBE 8 n @ rest, rd_end = e\<rparr>
    = Panic ''runtime error: makeslice: len out of range''"
  using assms
  by (simp add: wsReadFrame_def readLength_def makeBytes_def)

theorem huge_length_panics_witness:
  "wsReadFrame \<lparr>rd_data = [0x81, 127] @ putBE 8 (2 ^ 63) @ [], rd_end = ESent IoEOF\<rparr>
    = Panic ''runtime error: makeslice: len out of range''"
  by (rule huge_length_panics) simp_all

end
