(* ===== verification/Go_Strings.thy ===== *)
theory Go_Strings
  imports Prelude "HOL-Library.Char_ord" "HOL-Library.List_Lexorder"
begin

text \<open>
  The part of Go's \<^verbatim>\<open>strings\<close>, \<^verbatim>\<open>strconv\<close> and \<^verbatim>\<open>encoding/base64\<close> packages that
  the runtime calls, as executable functions on byte strings, with the facts the
  components need: separators and joins, trimming, searching, and the base64
  round trip.
\<close>

subsection \<open>Prefixes, suffixes, searching\<close>

definition hasPrefix :: "string \<Rightarrow> string \<Rightarrow> bool" where
  "hasPrefix s p \<longleftrightarrow> take (length p) s = p"

definition hasSuffix :: "string \<Rightarrow> string \<Rightarrow> bool" where
  "hasSuffix s p \<longleftrightarrow> length p \<le> length s \<and> drop (length s - length p) s = p"

fun containsS :: "string \<Rightarrow> string \<Rightarrow> bool" where
  "containsS [] p \<longleftrightarrow> p = []"
| "containsS (c # s) p \<longleftrightarrow> hasPrefix (c # s) p \<or> containsS s p"

definition trimPrefix :: "string \<Rightarrow> string \<Rightarrow> string" where
  "trimPrefix s p = (if hasPrefix s p then drop (length p) s else s)"

definition trimSuffix :: "string \<Rightarrow> string \<Rightarrow> string" where
  "trimSuffix s p = (if hasSuffix s p then take (length s - length p) s else s)"

lemma hasPrefix_append [simp]: "hasPrefix (p @ s) p"
  by (simp add: hasPrefix_def)

lemma hasPrefix_iff: "hasPrefix s p \<longleftrightarrow> (\<exists>t. s = p @ t)"
  by (metis append_take_drop_id hasPrefix_append hasPrefix_def)

lemma hasSuffix_iff: "hasSuffix s p \<longleftrightarrow> (\<exists>t. s = t @ p)"
proof
  assume "hasSuffix s p"
  then show "\<exists>t. s = t @ p"
    by (metis append_take_drop_id hasSuffix_def)
qed (auto simp: hasSuffix_def)

lemma containsS_iff: "containsS s p \<longleftrightarrow> (\<exists>a b. s = a @ p @ b)"
proof (induction s)
  case (Cons c s)
  have "(\<exists>a b. c # s = a @ p @ b) \<longleftrightarrow> (\<exists>b. c # s = p @ b) \<or> (\<exists>a b. s = a @ p @ b)"
    by (metis append_Cons append_Nil neq_Nil_conv list.inject)
  then show ?case
    using Cons.IH by (simp add: hasPrefix_iff)
qed auto

lemma containsS_append1 [simp]: "containsS s p \<Longrightarrow> containsS (a @ s) p"
  by (metis append.assoc containsS_iff)

lemma containsS_append2 [simp]: "containsS s p \<Longrightarrow> containsS (s @ a) p"
  by (metis append.assoc containsS_iff)

subsection \<open>Trimming white space\<close>

text \<open>
  The UTF-8 encodings of the code points \<^verbatim>\<open>unicode.IsSpace\<close> accepts. No encoding is
  a proper prefix or suffix of another, and none is made of continuation bytes
  only, so stripping encodings from the ends is what \<^verbatim>\<open>strings.TrimSpace\<close> does.
\<close>

definition spaceCodes :: "string list" where
  "spaceCodes =
    [[CHR 0x09], [CHR 0x0A], [CHR 0x0B], [CHR 0x0C],
     [CHR 0x0D], [CHR 0x20], [CHR 0xC2, CHR 0x85], [CHR 0xC2, CHR 0xA0],
     [CHR 0xE1, CHR 0x9A, CHR 0x80], [CHR 0xE2, CHR 0x80, CHR 0x80], [CHR 0xE2, CHR 0x80, CHR 0x81], [CHR 0xE2, CHR 0x80, CHR 0x82],
     [CHR 0xE2, CHR 0x80, CHR 0x83], [CHR 0xE2, CHR 0x80, CHR 0x84], [CHR 0xE2, CHR 0x80, CHR 0x85], [CHR 0xE2, CHR 0x80, CHR 0x86],
     [CHR 0xE2, CHR 0x80, CHR 0x87], [CHR 0xE2, CHR 0x80, CHR 0x88], [CHR 0xE2, CHR 0x80, CHR 0x89], [CHR 0xE2, CHR 0x80, CHR 0x8A],
     [CHR 0xE2, CHR 0x80, CHR 0xA8], [CHR 0xE2, CHR 0x80, CHR 0xA9], [CHR 0xE2, CHR 0x80, CHR 0xAF], [CHR 0xE2, CHR 0x81, CHR 0x9F],
     [CHR 0xE3, CHR 0x80, CHR 0x80]]"

lemma spaceCodes_nonempty: "p \<in> set spaceCodes \<Longrightarrow> p \<noteq> []"
  by (auto simp: spaceCodes_def)

function trimSpaceLeft :: "string \<Rightarrow> string" where
  "trimSpaceLeft s =
    (case find (hasPrefix s) spaceCodes of
       None \<Rightarrow> s
     | Some p \<Rightarrow> trimSpaceLeft (drop (length p) s))"
  by pat_completeness auto
termination
proof (relation "measure length", simp)
  fix s p
  assume "find (hasPrefix s) spaceCodes = Some p"
  then have "p \<in> set spaceCodes" and "hasPrefix s p"
    by (auto simp: find_Some_iff)
  then have "p \<noteq> []" and "length p \<le> length s"
    using spaceCodes_nonempty by (auto simp: hasPrefix_iff)
  then show "(drop (length p) s, s) \<in> measure length"
    by (cases s) auto
qed

function trimSpaceRight :: "string \<Rightarrow> string" where
  "trimSpaceRight s =
    (case find (hasSuffix s) spaceCodes of
       None \<Rightarrow> s
     | Some p \<Rightarrow> trimSpaceRight (take (length s - length p) s))"
  by pat_completeness auto
termination
proof (relation "measure length", simp)
  fix s p
  assume "find (hasSuffix s) spaceCodes = Some p"
  then have "p \<in> set spaceCodes" and "hasSuffix s p"
    by (auto simp: find_Some_iff)
  then have "p \<noteq> []" and "length p \<le> length s"
    using spaceCodes_nonempty by (auto simp: hasSuffix_iff)
  then show "(take (length s - length p) s, s) \<in> measure length"
    by (cases p) auto
qed

declare trimSpaceLeft.simps [simp del]
declare trimSpaceRight.simps [simp del]

definition trimSpace :: "string \<Rightarrow> string" where
  "trimSpace s = trimSpaceRight (trimSpaceLeft s)"

lemma trimSpaceLeft_Nil [simp]: "trimSpaceLeft [] = []"
proof -
  have "find (hasPrefix []) spaceCodes = None"
    by (auto simp: find_None_iff hasPrefix_iff dest: spaceCodes_nonempty)
  then show ?thesis by (simp add: trimSpaceLeft.simps)
qed

lemma trimSpaceRight_Nil [simp]: "trimSpaceRight [] = []"
proof -
  have "find (hasSuffix []) spaceCodes = None"
    by (auto simp: find_None_iff hasSuffix_iff dest: spaceCodes_nonempty)
  then show ?thesis by (simp add: trimSpaceRight.simps)
qed

lemma trimSpace_Nil [simp]: "trimSpace [] = []"
  by (simp add: trimSpace_def)

text \<open>A byte that occurs in no space encoding survives trimming.\<close>

lemma trimSpaceLeft_keeps:
  assumes "\<forall>p \<in> set spaceCodes. c \<notin> set p"
  shows "c \<in> set s \<Longrightarrow> c \<in> set (trimSpaceLeft s)"
proof (induction s rule: trimSpaceLeft.induct)
  case (1 s)
  show ?case
  proof (cases "find (hasPrefix s) spaceCodes")
    case (Some p)
    then have "hasPrefix s p" "c \<notin> set p" using assms by (auto simp: find_Some_iff)
    then have "c \<in> set (drop (length p) s)" using 1(2) by (auto simp: hasPrefix_iff)
    then show ?thesis using 1(1) [OF Some] Some by (subst trimSpaceLeft.simps) simp
  qed (use 1 in \<open>subst trimSpaceLeft.simps, simp\<close>)
qed

lemma trimSpaceRight_keeps:
  assumes "\<forall>p \<in> set spaceCodes. c \<notin> set p"
  shows "c \<in> set s \<Longrightarrow> c \<in> set (trimSpaceRight s)"
proof (induction s rule: trimSpaceRight.induct)
  case (1 s)
  show ?case
  proof (cases "find (hasSuffix s) spaceCodes")
    case (Some p)
    then have "hasSuffix s p" "c \<notin> set p" using assms by (auto simp: find_Some_iff)
    then have "c \<in> set (take (length s - length p) s)" using 1(2) by (auto simp: hasSuffix_iff)
    then show ?thesis using 1(1) [OF Some] Some by (subst trimSpaceRight.simps) simp
  qed (use 1 in \<open>subst trimSpaceRight.simps, simp\<close>)
qed

lemma trimSpace_nonempty:
  assumes "\<forall>p \<in> set spaceCodes. c \<notin> set p" and "c \<in> set s"
  shows "trimSpace s \<noteq> []"
  using trimSpaceRight_keeps [OF assms(1) trimSpaceLeft_keeps [OF assms]] by (auto simp: trimSpace_def)

lemma braces_no_space: "\<forall>p \<in> set spaceCodes. CHR 0x7B \<notin> set p" "\<forall>p \<in> set spaceCodes. CHR ''['' \<notin> set p"
  by (simp_all add: spaceCodes_def)

definition trimLeftChars :: "char set \<Rightarrow> string \<Rightarrow> string" where
  "trimLeftChars cs s = dropWhile (\<lambda>c. c \<in> cs) s"

definition trimRightChars :: "char set \<Rightarrow> string \<Rightarrow> string" where
  "trimRightChars cs s = rev (dropWhile (\<lambda>c. c \<in> cs) (rev s))"

subsection \<open>Splitting and joining\<close>

fun splitChar :: "char \<Rightarrow> string \<Rightarrow> string list" where
  "splitChar d [] = [[]]"
| "splitChar d (c # s) =
    (if c = d then [] # splitChar d s
     else (case splitChar d s of [] \<Rightarrow> [[c]] | w # ws \<Rightarrow> (c # w) # ws))"

fun joinStrings :: "string \<Rightarrow> string list \<Rightarrow> string" where
  "joinStrings sep [] = []"
| "joinStrings sep [w] = w"
| "joinStrings sep (w # v # ws) = w @ sep @ joinStrings sep (v # ws)"

lemma splitChar_nonempty [simp]: "splitChar d s \<noteq> []"
  by (induction s) (auto split: list.split)

lemma splitChar_append: "splitChar c (p @ c # q) = splitChar c p @ splitChar c q"
  by (induction p) (auto split: list.split)

lemma splitChar_plain: "c \<notin> set q \<Longrightarrow> splitChar c q = [q]"
  by (induction q) auto

lemma splitChar_join:
  "ws \<noteq> [] \<Longrightarrow> \<forall>w \<in> set ws. d \<notin> set w \<Longrightarrow> splitChar d (joinStrings [d] ws) = ws"
proof (induction ws rule: list_nonempty_induct)
  case (single w)
  then have "d \<notin> set w" by simp
  then have "splitChar d w = [w]" by (induction w) auto
  then show ?case by simp
next
  case (cons w ws)
  have "d \<notin> set w \<Longrightarrow> splitChar d (w @ d # r) = w # splitChar d r" for w r
    by (induction w) auto
  then show ?case using cons by (cases ws) simp_all
qed

lemma joinStrings_splitChar: "joinStrings [d] (splitChar d s) = s"
proof (induction s)
  case (Cons c s)
  then show ?case
    by (cases "splitChar d s") (auto, (metis joinStrings.simps list.exhaust append_Nil append_Cons)+)
qed simp

subsection \<open>Letter case\<close>

text \<open>
  \<^verbatim>\<open>strings.ToLower\<close> as far as a comparison with an ASCII word can see it: ASCII
  letters, and the two non-ASCII letters whose lower case is ASCII (the Kelvin
  sign, and the dotted capital I).
\<close>

definition lowerChar :: "char \<Rightarrow> char" where
  "lowerChar c = (let n = of_char c :: nat in if 65 \<le> n \<and> n \<le> 90 then char_of (n + 32) else c)"

fun toLower :: "string \<Rightarrow> string" where
  "toLower [] = []"
| "toLower [a] = [lowerChar a]"
| "toLower [a, b] =
    (if [a, b] = [CHR 0xC4, CHR 0xB0] then ''i'' else [lowerChar a, lowerChar b])"
| "toLower (a # b # c # s) =
    (if [a, b, c] = [CHR 0xE2, CHR 0x84, CHR 0xAA] then CHR ''k'' # toLower s
     else if [a, b] = [CHR 0xC4, CHR 0xB0] then CHR ''i'' # toLower (c # s)
     else lowerChar a # toLower (b # c # s))"

subsection \<open>Numbers in decimal\<close>

function natText :: "nat \<Rightarrow> string" where
  "natText n = (if n < 10 then [char_of (48 + n)] else natText (n div 10) @ [char_of (48 + n mod 10)])"
  by pat_completeness auto
termination by (relation "measure id") auto

declare natText.simps [simp del]

definition intText :: "int \<Rightarrow> string" where
  "intText i = (if i < 0 then CHR ''-'' # natText (nat (- i)) else natText (nat i))"

definition isLetter :: "char \<Rightarrow> bool" where
  "isLetter c = (let n = of_char c :: nat in n \<in> {65..90} \<or> n \<in> {97..122})"

definition isDigit :: "char \<Rightarrow> bool" where
  "isDigit c \<longleftrightarrow> 48 \<le> (of_char c :: nat) \<and> of_char c \<le> (57 :: nat)"

definition digitsVal :: "string \<Rightarrow> nat" where
  "digitsVal s = foldl (\<lambda>a c. a * 10 + (of_char c - 48)) 0 s"

lemma digitsVal_snoc: "digitsVal (s @ [c]) = digitsVal s * 10 + (of_char c - 48)"
  by (simp add: digitsVal_def)

lemma digitsVal_natText [simp]: "digitsVal (natText n) = n"
proof (induction n rule: natText.induct)
  case (1 n)
  show ?case
  proof (cases "n < 10")
    case True
    then show ?thesis
      by (subst natText.simps) (simp add: digitsVal_def of_char_of)
  next
    case False
    then show ?thesis
      using 1 by (subst natText.simps) (simp add: digitsVal_snoc of_char_of)
  qed
qed

lemma natText_inject [simp]: "natText m = natText n \<longleftrightarrow> m = n"
  by (metis digitsVal_natText)

subsection \<open>Quoted strings\<close>

text \<open>
  \<^verbatim>\<open>strconv.Quote\<close> and the \<^verbatim>\<open>%q\<close> verb, exact for ASCII; bytes above 127 are kept,
  as the library does for printable characters.
\<close>

definition quoteEscape :: "char \<Rightarrow> string" where
  "quoteEscape c =
    (let n = of_char c :: nat in
     if n = 34 \<or> n = 92 then [CHR 0x5C, c]
     else if n = 7 then [CHR 0x5C, CHR ''a'']
     else if n = 8 then [CHR 0x5C, CHR ''b'']
     else if n = 9 then [CHR 0x5C, CHR ''t'']
     else if n = 10 then [CHR 0x5C, CHR ''n'']
     else if n = 11 then [CHR 0x5C, CHR ''v'']
     else if n = 12 then [CHR 0x5C, CHR ''f'']
     else if n = 13 then [CHR 0x5C, CHR ''r'']
     else if n < 32 \<or> n = 127
       then [CHR 0x5C, CHR ''x'', ''0123456789abcdef'' ! (n div 16), ''0123456789abcdef'' ! (n mod 16)]
     else [c])"

definition goQuote :: "string \<Rightarrow> string" where
  "goQuote s = [CHR 0x22] @ concat (map quoteEscape s) @ [CHR 0x22]"

text \<open>\<^verbatim>\<open>filepath.Base\<close>.\<close>

definition pathBase :: "string \<Rightarrow> string" where
  "pathBase p =
    (if p = [] then ''.''
     else let q = trimRightChars {CHR ''/''} p in
       if q = [] then ''/'' else last (splitChar (CHR ''/'') q))"

text \<open>\<^verbatim>\<open>strconv.Atoi\<close>: an optional sign and decimal digits, within 64 bits.\<close>

definition parseInt :: "string \<Rightarrow> int option" where
  "parseInt s =
    (let ds = (case s of [] \<Rightarrow> [] | c # cs \<Rightarrow> if c = CHR ''-'' \<or> c = CHR ''+'' then cs else s);
         v = (if s \<noteq> [] \<and> hd s = CHR ''-'' then - int (digitsVal ds) else int (digitsVal ds))
     in if ds = [] \<or> \<not> list_all isDigit ds \<or> v < - (2 ^ 63) \<or> 2 ^ 63 \<le> v then None else Some v)"

definition atoiError :: "string \<Rightarrow> goerr" where
  "atoiError s =
    (let ds = (case s of [] \<Rightarrow> [] | c # cs \<Rightarrow> if c = CHR ''-'' \<or> c = CHR ''+'' then cs else s)
     in ENew (''strconv.Atoi: parsing '' @ goQuote s @
          (if ds = [] \<or> \<not> list_all isDigit ds then '': invalid syntax'' else '': value out of range'')))"

subsection \<open>Words, runes and paths\<close>

definition containsAny :: "string \<Rightarrow> string \<Rightarrow> bool" where
  "containsAny s cs = list_ex (\<lambda>c. c \<in> set cs) s"

text \<open>\<^verbatim>\<open>strings.Fields\<close>; the first argument is the word read so far.\<close>

function fieldsFrom :: "string \<Rightarrow> string \<Rightarrow> string list" where
  "fieldsFrom cur [] = (if cur = [] then [] else [cur])"
| "fieldsFrom cur (c # cs) =
    (case find (hasPrefix (c # cs)) spaceCodes of
       Some p \<Rightarrow> (if cur = [] then [] else [cur]) @ fieldsFrom [] (drop (length p) (c # cs))
     | None \<Rightarrow> fieldsFrom (cur @ [c]) cs)"
  by pat_completeness auto
termination
proof (relation "measure (\<lambda>(cur, s). length s)")
  fix cur c cs p
  assume "find (hasPrefix (c # cs)) spaceCodes = Some p"
  then have "p \<in> set spaceCodes" by (auto simp: find_Some_iff)
  then have "p \<noteq> []" by (rule spaceCodes_nonempty)
  then show "(([], drop (length p) (c # cs)), cur, c # cs) \<in> measure (\<lambda>(cur, s). length s)"
    by (cases p) auto
qed simp_all

definition strFields :: "string \<Rightarrow> string list" where
  "strFields s = fieldsFrom [] s"

text \<open>The length of the UTF-8 encoding at the head of a byte string, 0 when it is invalid.\<close>

definition isCont :: "char \<Rightarrow> bool" where
  "isCont c \<longleftrightarrow> 128 \<le> (of_char c :: nat) \<and> (of_char c :: nat) < 192"

definition byteIn :: "nat \<Rightarrow> nat \<Rightarrow> char \<Rightarrow> bool" where
  "byteIn lo hi c \<longleftrightarrow> lo \<le> (of_char c :: nat) \<and> (of_char c :: nat) \<le> hi"

fun utf8Len :: "string \<Rightarrow> nat" where
  "utf8Len [] = 0"
| "utf8Len (a # s) =
    (if byteIn 0 127 a then 1
     else case s of
       [] \<Rightarrow> 0
     | b # s2 \<Rightarrow>
        if byteIn 0xC2 0xDF a \<and> isCont b then 2
        else case s2 of
          [] \<Rightarrow> 0
        | c # s3 \<Rightarrow>
           if (byteIn 0xE0 0xE0 a \<and> byteIn 0xA0 0xBF b \<or> (byteIn 0xE1 0xEC a \<or> byteIn 0xEE 0xEF a) \<and> isCont b
               \<or> byteIn 0xED 0xED a \<and> byteIn 0x80 0x9F b) \<and> isCont c then 3
           else case s3 of
             [] \<Rightarrow> 0
           | d # s4 \<Rightarrow>
              if (byteIn 0xF0 0xF0 a \<and> byteIn 0x90 0xBF b \<or> byteIn 0xF1 0xF3 a \<and> isCont b
                  \<or> byteIn 0xF4 0xF4 a \<and> byteIn 0x80 0x8F b) \<and> isCont c \<and> isCont d then 4 else 0)"

text \<open>The runes of a string, each in its encoding; an invalid byte reads as \<^verbatim>\<open>U+FFFD\<close>.\<close>

definition runeError :: string where
  "runeError = [CHR 0xEF, CHR 0xBF, CHR 0xBD]"

function runes :: "string \<Rightarrow> string list" where
  "runes s =
    (if s = [] then []
     else let n = utf8Len s in
       if n = 0 then runeError # runes (tl s) else take n s # runes (drop n s))"
  by pat_completeness auto
termination
  by (relation "measure length") auto

declare runes.simps [simp del]

lemma runes_Nil [simp]: "runes [] = []"
  by (simp add: runes.simps)

lemma runes_ascii:
  "list_all (byteIn 0 127) s \<Longrightarrow> runes s = map (\<lambda>c. [c]) s"
proof (induction s)
  case (Cons c s)
  then have "utf8Len (c # s) = 1" by simp
  then show ?case using Cons by (subst runes.simps) simp
qed simp

text \<open>\<^verbatim>\<open>filepath.Clean\<close> and \<^verbatim>\<open>filepath.Join\<close>: the components that remain after \<^verbatim>\<open>.\<close> and
  \<^verbatim>\<open>..\<close> are resolved, in reverse.\<close>

fun cleanParts :: "bool \<Rightarrow> string list \<Rightarrow> string list \<Rightarrow> string list" where
  "cleanParts rooted out [] = out"
| "cleanParts rooted out (p # ps) =
    (if p = [] \<or> p = ''.'' then cleanParts rooted out ps
     else if p = ''..'' then
       (case out of
          [] \<Rightarrow> cleanParts rooted (if rooted then [] else [''..'']) ps
        | q # qs \<Rightarrow> if q = ''..'' then cleanParts rooted (''..'' # out) ps else cleanParts rooted qs ps)
     else cleanParts rooted (p # out) ps)"

definition isAbs :: "string \<Rightarrow> bool" where
  "isAbs p \<longleftrightarrow> hasPrefix p ''/''"

definition pathClean :: "string \<Rightarrow> string" where
  "pathClean p =
    (let body = joinStrings ''/'' (rev (cleanParts (isAbs p) [] (splitChar (CHR ''/'') p)))
     in if isAbs p then ''/'' @ body else if body = [] then ''.'' else body)"

definition pathJoin :: "string list \<Rightarrow> string" where
  "pathJoin ps =
    (let qs = filter (\<lambda>p. p \<noteq> []) ps in if qs = [] then [] else pathClean (joinStrings ''/'' qs))"

text \<open>The character \<^verbatim>\<open>U+2014\<close> of the messages, in UTF-8.\<close>

definition emDash :: string where
  "emDash = [CHR 0xE2, CHR 0x80, CHR 0x94]"

text \<open>\<^verbatim>\<open>strings.ReplaceAll\<close> for a pattern that is not empty.\<close>

function replaceAll :: "string \<Rightarrow> string \<Rightarrow> string \<Rightarrow> string" where
  "replaceAll old new s =
    (if s = [] \<or> old = [] then s
     else if hasPrefix s old then new @ replaceAll old new (drop (length old) s)
     else hd s # replaceAll old new (tl s))"
  by pat_completeness auto
termination
  by (relation "measure (\<lambda>(old, new, s). length s)") auto

declare replaceAll.simps [simp del]

text \<open>A plain name joined to a directory: the directory is cleaned, the name stays.\<close>

lemma cleanParts_snoc:
  "e \<noteq> [] \<Longrightarrow> e \<noteq> ''.'' \<Longrightarrow> e \<noteq> ''..'' \<Longrightarrow> cleanParts rooted out (ps @ [e]) = e # cleanParts rooted out ps"
  by (induction ps arbitrary: out) (auto split: list.split)

lemma joinStrings_snoc: "ws \<noteq> [] \<Longrightarrow> joinStrings d (ws @ [w]) = joinStrings d ws @ d @ w"
  by (induction d ws rule: joinStrings.induct) auto

lemma pathJoin_plain:
  assumes "root \<noteq> []"
  shows "\<exists>pre. \<forall>e. e \<noteq> [] \<and> e \<noteq> ''.'' \<and> e \<noteq> ''..'' \<and> CHR ''/'' \<notin> set e \<longrightarrow> pathJoin [root, e] = pre @ e"
proof -
  define ps where "ps = rev (cleanParts (isAbs root) [] (splitChar (CHR ''/'') root))"
  define pre where "pre = (if isAbs root then ''/'' else []) @ (if ps = [] then [] else joinStrings ''/'' ps @ ''/'')"
  have "pathJoin [root, e] = pre @ e" if "e \<noteq> []" "e \<noteq> ''.''" "e \<noteq> ''..''" "CHR ''/'' \<notin> set e" for e
  proof -
    have parts: "splitChar (CHR ''/'') (root @ CHR ''/'' # e) = splitChar (CHR ''/'') root @ [e]"
      by (simp add: splitChar_append splitChar_plain that(4))
    have "isAbs (root @ CHR ''/'' # e) = isAbs root" using assms by (cases root) (simp_all add: isAbs_def hasPrefix_def)
    then show ?thesis
      using assms that
      by (cases "ps = []") (simp_all add: pathJoin_def pathClean_def parts cleanParts_snoc pre_def ps_def [symmetric] joinStrings_snoc Let_def)
  qed
  then show ?thesis by blast
qed

end
