(* ===== verification/Data_Model.thy ===== *)
theory Data_Model
  imports Go_Strings
begin

text \<open>
  The records that several components share: the start configuration of the exec
  wire (\<^verbatim>\<open>staging.go\<close>), the sidecar binding and the reap record
  (\<^verbatim>\<open>sidecar.go\<close>). A \<^verbatim>\<open>map[string]string\<close> is an association list read with
  \<open>mapGet\<close> (the zero value for a missing key); a \<^verbatim>\<open>time.Time\<close> is the number of
  nanoseconds since the zero time, so \<^verbatim>\<open>IsZero\<close> is \<open>0\<close>; a \<^verbatim>\<open>time.Duration\<close> is
  a number of nanoseconds.
\<close>

type_synonym gomap = "(string \<times> string) list"
type_synonym gotime = int
type_synonym duration = int

definition mapGet :: "gomap \<Rightarrow> string \<Rightarrow> string" where
  "mapGet m k = (case map_of m k of None \<Rightarrow> [] | Some v \<Rightarrow> v)"

text \<open>The keys of a map, collected and sorted as the code does before rendering.\<close>

definition sortedKeys :: "(string \<times> 'v) list \<Rightarrow> string list" where
  "sortedKeys m = sort (remdups (map fst m))"

definition mapSet :: "string \<Rightarrow> 'v \<Rightarrow> (string \<times> 'v) list \<Rightarrow> (string \<times> 'v) list" where
  "mapSet k v m = (k, v) # filter (\<lambda>e. fst e \<noteq> k) m"

definition mapDel :: "string \<Rightarrow> (string \<times> 'v) list \<Rightarrow> (string \<times> 'v) list" where
  "mapDel k m = filter (\<lambda>e. fst e \<noteq> k) m"

record copyEntry =
  Src :: string
  RelDst :: string

record stageFile =
  sfPath :: string
  sfContent :: string
  sfMode :: int

record stageConfig =
  cfgWorkDir :: string
  cfgEnv :: gomap
  cfgCommand :: string
  cfgNudge :: string
  cfgProcessNames :: "string list"
  cfgReadyPromptPrefix :: string
  cfgReadyDelayMs :: int
  cfgLifecycle :: string
  cfgPreStart :: "string list"
  cfgSessionSetup :: "string list"
  cfgSessionSetupScript :: string
  cfgSessionLive :: "string list"
  cfgPackOverlayDirs :: "string list"
  cfgOverlayDir :: string
  cfgCopyFiles :: "copyEntry list"

definition emptyConfig :: stageConfig where
  "emptyConfig =
    \<lparr>cfgWorkDir = [], cfgEnv = [], cfgCommand = [], cfgNudge = [], cfgProcessNames = [],
     cfgReadyPromptPrefix = [], cfgReadyDelayMs = 0, cfgLifecycle = [], cfgPreStart = [],
     cfgSessionSetup = [], cfgSessionSetupScript = [], cfgSessionLive = [],
     cfgPackOverlayDirs = [], cfgOverlayDir = [], cfgCopyFiles = []\<rparr>"

record binding =
  SessionName :: string
  ChildJobID :: string
  Namespace :: string
  Nonce :: string
  CreatedAt :: gotime
  EgressComplete :: bool
  EvidenceLost :: bool
  StagePending :: bool
  Launched :: bool
  AgentPID :: int
  WorkDir :: string
  ProviderCommand :: string
  PromptedAt :: "gotime option"
  PromptStatus :: string
  PromptPaneTail :: string
  PromptPending :: "stageConfig option"
  Lifecycle :: string
  ExitReason :: string
  CityCheckoutSHA :: string
  CityCheckoutStatus :: string

text \<open>The composite literal \<^verbatim>\<open>binding{SessionName: ...}\<close> with every other field zero.\<close>

definition newBinding :: "string \<Rightarrow> binding" where
  "newBinding name =
    \<lparr>SessionName = name, ChildJobID = [], Namespace = [], Nonce = [], CreatedAt = 0,
     EgressComplete = False, EvidenceLost = False, StagePending = False, Launched = False,
     AgentPID = 0, WorkDir = [], ProviderCommand = [], PromptedAt = None, PromptStatus = [],
     PromptPaneTail = [], PromptPending = None, Lifecycle = [], ExitReason = [],
     CityCheckoutSHA = [], CityCheckoutStatus = []\<rparr>"

record tombstone =
  tsSessionName :: string
  tsChildJobID :: string
  tsAllocID :: string
  tsCreatedAt :: gotime
  tsAge :: string
  tsLaunched :: bool
  tsAgentPID :: int
  tsReason :: string
  tsTombstonedAt :: gotime

lemma newBinding_SessionName [simp]: "SessionName (newBinding n) = n"
  by (simp add: newBinding_def)

lemma map_of_mapSet [simp]: "map_of (mapSet k v m) = (map_of m)(k \<mapsto> v)"
proof -
  have "map_of (filter (\<lambda>e. fst e \<noteq> k) m) k' = (if k' = k then None else map_of m k')" for k'
    by (induction m) auto
  then show ?thesis by (auto simp: mapSet_def fun_eq_iff)
qed

lemma map_of_mapDel [simp]: "map_of (mapDel k m) = (map_of m)(k := None)"
proof -
  have "map_of (filter (\<lambda>e. fst e \<noteq> k) m) k' = (if k' = k then None else map_of m k')" for k'
    by (induction m) auto
  then show ?thesis by (auto simp: mapDel_def fun_eq_iff)
qed

lemma mapDel_subset: "set (mapDel k m) \<subseteq> set m"
  by (auto simp: mapDel_def)

lemma sortedKeys_sorted [simp]: "sorted (sortedKeys m)" and sortedKeys_distinct [simp]: "distinct (sortedKeys m)"
  and set_sortedKeys [simp]: "set (sortedKeys m) = fst ` set m"
  by (simp_all add: sortedKeys_def)

end
