(* ===== verification/Go_Monad.thy ===== *)
theory Go_Monad
  imports Prelude
begin

text \<open>
  Stateful Go code as functions from a state to an outcome and a state. An
  early \<^verbatim>\<open>return err\<close> is the error branch of \<open>bindS\<close>; a call whose error is
  inspected is \<open>attempt\<close>; \<^verbatim>\<open>defer\<close> is \<open>finallyS\<close>. \<open>keeps\<close> is the
  preservation judgement with one rule per construct, collected in
  \<open>keeps_intros\<close>; \<open>wp\<close> computes the weakest precondition.
\<close>

named_theorems keeps_intros \<open>preservation rules of the program constructs\<close>
named_theorems wp_simps \<open>weakest precondition equations of the program constructs\<close>

type_synonym ('s, 'a) prog = "'s \<Rightarrow> 'a result \<times> 's"

definition returnS :: "'a \<Rightarrow> ('s, 'a) prog" where
  "returnS x s = (Ok x, s)"

definition failS :: "goerr \<Rightarrow> ('s, 'a) prog" where
  "failS e s = (Err e, s)"

definition hangS :: "('s, 'a) prog" where
  "hangS s = (Hang, s)"

definition getS :: "('s \<Rightarrow> 'a) \<Rightarrow> ('s, 'a) prog" where
  "getS f s = (Ok (f s), s)"

definition modifyS :: "('s \<Rightarrow> 's) \<Rightarrow> ('s, unit) prog" where
  "modifyS f s = (Ok (), f s)"

definition bindS :: "('s, 'a) prog \<Rightarrow> ('a \<Rightarrow> ('s, 'b) prog) \<Rightarrow> ('s, 'b) prog" where
  "bindS p f s =
    (case p s of
       (Ok x, s') \<Rightarrow> f x s'
     | (Err e, s') \<Rightarrow> (Err e, s')
     | (Panic m, s') \<Rightarrow> (Panic m, s')
     | (Hang, s') \<Rightarrow> (Hang, s'))"

text \<open>\<^verbatim>\<open>x, err := f()\<close>: the error as a value.\<close>

definition attempt :: "('s, 'a) prog \<Rightarrow> ('s, goerr + 'a) prog" where
  "attempt p s =
    (case p s of
       (Ok x, s') \<Rightarrow> (Ok (Inr x), s')
     | (Err e, s') \<Rightarrow> (Ok (Inl e), s')
     | (Panic m, s') \<Rightarrow> (Panic m, s')
     | (Hang, s') \<Rightarrow> (Hang, s'))"

text \<open>\<^verbatim>\<open>if err != nil { return fmt.Errorf("before%wafter", err) }\<close>.\<close>

definition wrapS :: "string \<Rightarrow> string \<Rightarrow> ('s, 'a) prog \<Rightarrow> ('s, 'a) prog" where
  "wrapS a b p s = (case p s of (Err e, s') \<Rightarrow> (Err (EWrap a e b), s') | (r, s') \<Rightarrow> (r, s'))"

definition finallyS :: "('s, 'a) prog \<Rightarrow> ('s \<Rightarrow> 's) \<Rightarrow> ('s, 'a) prog" where
  "finallyS p f s = (case p s of (Hang, s') \<Rightarrow> (Hang, s') | (r, s') \<Rightarrow> (r, f s'))"

text \<open>A pure fallible computation inside a program.\<close>

definition liftR :: "'a result \<Rightarrow> ('s, 'a) prog" where
  "liftR r s = (r, s)"

definition whenS :: "bool \<Rightarrow> ('s, unit) prog \<Rightarrow> ('s, unit) prog" where
  "whenS b p = (if b then p else returnS ())"

lemmas prog_defs = returnS_def failS_def hangS_def getS_def modifyS_def bindS_def attempt_def
  wrapS_def finallyS_def liftR_def

lemma bindS_return [simp]: "bindS (returnS x) f = f x"
  by (simp add: fun_eq_iff bindS_def returnS_def)

lemma bindS_fail [simp]: "bindS (failS e) f = failS e"
  by (simp add: fun_eq_iff bindS_def failS_def)

lemma bindS_assoc: "bindS (bindS p f) g = bindS p (\<lambda>x. bindS (f x) g)"
  by (auto simp: fun_eq_iff bindS_def split: prod.split result.split)

subsection \<open>Weakest preconditions\<close>

definition wp :: "('s, 'a) prog \<Rightarrow> ('a result \<Rightarrow> 's \<Rightarrow> bool) \<Rightarrow> 's \<Rightarrow> bool" where
  "wp p Q s = (case p s of (r, s') \<Rightarrow> Q r s')"

lemma wp_return [wp_simps]: "wp (returnS x) Q s = Q (Ok x) s"
  by (simp add: wp_def returnS_def)

lemma wp_fail [wp_simps]: "wp (failS e) Q s = Q (Err e) s"
  by (simp add: wp_def failS_def)

lemma wp_hang [wp_simps]: "wp hangS Q s = Q Hang s"
  by (simp add: wp_def hangS_def)

lemma wp_get [wp_simps]: "wp (getS f) Q s = Q (Ok (f s)) s"
  by (simp add: wp_def getS_def)

lemma wp_modify [wp_simps]: "wp (modifyS f) Q s = Q (Ok ()) (f s)"
  by (simp add: wp_def modifyS_def)

lemma wp_lift [wp_simps]: "wp (liftR r) Q s = Q r s"
  by (simp add: wp_def liftR_def)

lemma wp_bind [wp_simps]:
  "wp (bindS p f) Q s =
    wp p (\<lambda>r s'. case r of Ok x \<Rightarrow> wp (f x) Q s' | Err e \<Rightarrow> Q (Err e) s'
                        | Panic m \<Rightarrow> Q (Panic m) s' | Hang \<Rightarrow> Q Hang s') s"
  by (auto simp: wp_def bindS_def split: prod.split result.split)

lemma wp_attempt [wp_simps]:
  "wp (attempt p) Q s =
    wp p (\<lambda>r s'. case r of Ok x \<Rightarrow> Q (Ok (Inr x)) s' | Err e \<Rightarrow> Q (Ok (Inl e)) s'
                        | Panic m \<Rightarrow> Q (Panic m) s' | Hang \<Rightarrow> Q Hang s') s"
  by (auto simp: wp_def attempt_def split: prod.split result.split)

lemma wp_wrap [wp_simps]:
  "wp (wrapS a b p) Q s =
    wp p (\<lambda>r s'. case r of Ok x \<Rightarrow> Q (Ok x) s' | Err e \<Rightarrow> Q (Err (EWrap a e b)) s'
                        | Panic m \<Rightarrow> Q (Panic m) s' | Hang \<Rightarrow> Q Hang s') s"
  by (auto simp: wp_def wrapS_def split: prod.split result.split)

lemma wp_finally [wp_simps]:
  "wp (finallyS p f) Q s = wp p (\<lambda>r s'. if r = Hang then Q Hang s' else Q r (f s')) s"
  by (auto simp: wp_def finallyS_def split: prod.split result.split)

lemma wp_mono: "wp p Q s \<Longrightarrow> (\<And>r s'. Q r s' \<Longrightarrow> R r s') \<Longrightarrow> wp p R s"
  by (auto simp: wp_def split: prod.splits)

lemma wp_conj: "wp p Q s \<Longrightarrow> wp p R s \<Longrightarrow> wp p (\<lambda>r s'. Q r s' \<and> R r s') s"
  by (auto simp: wp_def split: prod.splits)

lemma wp_iff: "wp p Q s \<longleftrightarrow> Q (fst (p s)) (snd (p s))"
  by (simp add: wp_def case_prod_beta)

subsection \<open>Preservation\<close>

text \<open>\<open>keeps I p\<close>: on every outcome, including errors, the program leaves \<open>I\<close> true.\<close>

definition keeps :: "('s \<Rightarrow> bool) \<Rightarrow> ('s, 'a) prog \<Rightarrow> bool" where
  "keeps I p \<longleftrightarrow> (\<forall>s. I s \<longrightarrow> I (snd (p s)))"

lemma keepsI: "(\<And>s. I s \<Longrightarrow> I (snd (p s))) \<Longrightarrow> keeps I p"
  by (simp add: keeps_def)

lemma keepsD: "keeps I p \<Longrightarrow> I s \<Longrightarrow> I (snd (p s))"
  by (simp add: keeps_def)

lemma keeps_return [keeps_intros]: "keeps I (returnS x)"
  by (simp add: keeps_def returnS_def)

lemma keeps_fail [keeps_intros]: "keeps I (failS e)"
  by (simp add: keeps_def failS_def)

lemma keeps_hang [keeps_intros]: "keeps I hangS"
  by (simp add: keeps_def hangS_def)

lemma keeps_get [keeps_intros]: "keeps I (getS f)"
  by (simp add: keeps_def getS_def)

lemma keeps_lift [keeps_intros]: "keeps I (liftR r)"
  by (simp add: keeps_def liftR_def)

lemma keeps_modify: "(\<And>s. I s \<Longrightarrow> I (f s)) \<Longrightarrow> keeps I (modifyS f)"
  by (simp add: keeps_def modifyS_def)

lemma keeps_bind [keeps_intros]:
  "keeps I p \<Longrightarrow> (\<And>x. keeps I (f x)) \<Longrightarrow> keeps I (bindS p f)"
proof (rule keepsI)
  fix s
  assume p: "keeps I p" and f: "\<And>x. keeps I (f x)" and s: "I s"
  have "I (snd (p s))" by (rule keepsD [OF p s])
  then show "I (snd (bindS p f s))"
    using keepsD [OF f] by (cases "p s"; cases "fst (p s)") (simp_all add: bindS_def)
qed

lemma keeps_attempt [keeps_intros]: "keeps I p \<Longrightarrow> keeps I (attempt p)"
  by (rule keepsI, drule (1) keepsD) (auto simp: attempt_def split: prod.split result.split)

lemma keeps_wrap [keeps_intros]: "keeps I p \<Longrightarrow> keeps I (wrapS a b p)"
  by (rule keepsI, drule (1) keepsD) (auto simp: wrapS_def split: prod.split result.split)

lemma keeps_finally: "keeps I p \<Longrightarrow> (\<And>s. I s \<Longrightarrow> I (f s)) \<Longrightarrow> keeps I (finallyS p f)"
  by (rule keepsI, drule (1) keepsD) (auto simp: finallyS_def split: prod.split result.split)

lemma keeps_if [keeps_intros]:
  "(b \<Longrightarrow> keeps I p) \<Longrightarrow> (\<not> b \<Longrightarrow> keeps I q) \<Longrightarrow> keeps I (if b then p else q)"
  by simp

lemma keeps_when [keeps_intros]: "(b \<Longrightarrow> keeps I p) \<Longrightarrow> keeps I (whenS b p)"
  by (simp add: whenS_def keeps_return)

lemma keeps_sum [keeps_intros]:
  "(\<And>e. keeps I (f e)) \<Longrightarrow> (\<And>x. keeps I (g x)) \<Longrightarrow> keeps I (case r of Inl e \<Rightarrow> f e | Inr x \<Rightarrow> g x)"
  by (cases r) auto

lemma keeps_option [keeps_intros]:
  "keeps I p \<Longrightarrow> (\<And>x. keeps I (g x)) \<Longrightarrow> keeps I (case r of None \<Rightarrow> p | Some x \<Rightarrow> g x)"
  by (cases r) auto

lemma keeps_prod [keeps_intros]:
  "(\<And>x y. keeps I (f x y)) \<Longrightarrow> keeps I (case r of (x, y) \<Rightarrow> f x y)"
  by (cases r) auto

lemma keeps_let [keeps_intros]: "(\<And>x. keeps I (f x)) \<Longrightarrow> keeps I (let x = e in f x)"
  by simp

subsection \<open>Returning\<close>

text \<open>\<open>settles I p\<close>: started in \<open>I\<close>, the program returns, with a value, an error or a panic,
  and leaves \<open>I\<close> true.\<close>

named_theorems settles_intros \<open>rules for programs that return\<close>

definition settles :: "('s \<Rightarrow> bool) \<Rightarrow> ('s, 'a) prog \<Rightarrow> bool" where
  "settles I p \<longleftrightarrow> (\<forall>s. I s \<longrightarrow> fst (p s) \<noteq> Hang \<and> I (snd (p s)))"

lemma settlesI: "(\<And>s. I s \<Longrightarrow> fst (p s) \<noteq> Hang \<and> I (snd (p s))) \<Longrightarrow> settles I p"
  by (simp add: settles_def)

lemma settlesD: "settles I p \<Longrightarrow> I s \<Longrightarrow> fst (p s) \<noteq> Hang \<and> I (snd (p s))"
  by (simp add: settles_def)

lemma settles_keeps: "keeps I p \<Longrightarrow> (\<And>s. fst (p s) \<noteq> Hang) \<Longrightarrow> settles I p"
  by (simp add: settles_def keeps_def)

lemma settles_simple [settles_intros]:
  "settles I (returnS x)" "settles I (failS e)" "settles I (getS f)" "(r \<noteq> Hang \<Longrightarrow> settles I (liftR r))"
  by (simp_all add: settles_def returnS_def failS_def getS_def liftR_def)

lemma settles_modify: "(\<And>s. I s \<Longrightarrow> I (f s)) \<Longrightarrow> settles I (modifyS f)"
  by (simp add: settles_def modifyS_def)

lemma settles_bind_run:
  assumes "settles I p" and "I s" and "\<And>x s'. p s = (Ok x, s') \<Longrightarrow> I s' \<Longrightarrow> fst (f x s') \<noteq> Hang \<and> J (f x s')"
    and "\<And>r. r \<noteq> Hang \<Longrightarrow> I (snd (p s)) \<Longrightarrow> J (r, snd (p s))"
  shows "fst (bindS p f s) \<noteq> Hang \<and> J (bindS p f s)"
  using settlesD [OF assms(1,2)] assms(3,4) by (cases "p s"; cases "fst (p s)") (auto simp: bindS_def)

lemma settles_bind [settles_intros]:
  assumes "settles I p" and "\<And>x. settles I (f x)"
  shows "settles I (bindS p f)"
proof (rule settlesI)
  fix s assume "I s"
  show "fst (bindS p f s) \<noteq> Hang \<and> I (snd (bindS p f s))"
    by (rule settles_bind_run [OF assms(1) \<open>I s\<close>]) (use settlesD [OF assms(2)] in auto)
qed

lemma settles_attempt [settles_intros]: "settles I p \<Longrightarrow> settles I (attempt p)"
  by (rule settlesI, drule (1) settlesD) (auto simp: attempt_def split: prod.split result.split)

lemma settles_wrap [settles_intros]: "settles I p \<Longrightarrow> settles I (wrapS a b p)"
  by (rule settlesI, drule (1) settlesD) (auto simp: wrapS_def split: prod.split result.split)

lemma settles_if [settles_intros]:
  "(b \<Longrightarrow> settles I p) \<Longrightarrow> (\<not> b \<Longrightarrow> settles I q) \<Longrightarrow> settles I (if b then p else q)"
  by simp

lemma settles_when [settles_intros]: "(b \<Longrightarrow> settles I p) \<Longrightarrow> settles I (whenS b p)"
  by (simp add: whenS_def settles_simple)

lemma settles_sum [settles_intros]:
  "(\<And>e. settles I (f e)) \<Longrightarrow> (\<And>x. settles I (g x)) \<Longrightarrow> settles I (case r of Inl e \<Rightarrow> f e | Inr x \<Rightarrow> g x)"
  by (cases r) auto

lemma settles_option [settles_intros]:
  "settles I p \<Longrightarrow> (\<And>x. settles I (g x)) \<Longrightarrow> settles I (case r of None \<Rightarrow> p | Some x \<Rightarrow> g x)"
  by (cases r) auto

lemma settles_list [settles_intros]:
  "settles I p \<Longrightarrow> (\<And>x xs. settles I (g x xs)) \<Longrightarrow> settles I (case r of [] \<Rightarrow> p | x # xs \<Rightarrow> g x xs)"
  by (cases r) auto

lemma settles_prod [settles_intros]:
  "(\<And>x y. settles I (f x y)) \<Longrightarrow> settles I (case r of (x, y) \<Rightarrow> f x y)"
  by (cases r) auto

lemma settles_let [settles_intros]: "(\<And>x. settles I (f x)) \<Longrightarrow> settles I (let x = e in f x)"
  by simp

end
