(* ===== verification/Nomad_Wire.thy ===== *)
theory Nomad_Wire
  imports Data_Model Go_Monad
begin

text \<open>
  The vocabulary between the runtime's Nomad client and a Nomad server: JSON
  documents as trees, the part of \<^verbatim>\<open>encoding/json\<close> decoding the code uses (a missing
  or null field is the zero value, a field of another type is an error, keys are
  matched without regard to case and the last one wins), URL escaping, and HTTP
  requests and responses. A response carries its raw text and what that text
  parses to.
\<close>

subsection \<open>JSON documents\<close>

datatype json = JNull | JBool bool | JNum int | JStr string | JArr "json list" | JObj "(string \<times> json) list"

definition jfield :: "string \<Rightarrow> (string \<times> json) list \<Rightarrow> json option" where
  "jfield k fs = map_option snd (find (\<lambda>e. toLower (fst e) = toLower k) (rev fs))"

text \<open>A string, integer or boolean field of a struct; \<^const>\<open>None\<close> is a type error.\<close>

definition strField :: "string \<Rightarrow> (string \<times> json) list \<Rightarrow> string option" where
  "strField k fs =
    (case jfield k fs of None \<Rightarrow> Some [] | Some JNull \<Rightarrow> Some [] | Some (JStr s) \<Rightarrow> Some s | _ \<Rightarrow> None)"

definition intField :: "string \<Rightarrow> (string \<times> json) list \<Rightarrow> int option" where
  "intField k fs =
    (case jfield k fs of None \<Rightarrow> Some 0 | Some JNull \<Rightarrow> Some 0 | Some (JNum n) \<Rightarrow> Some n | _ \<Rightarrow> None)"

definition natField :: "string \<Rightarrow> (string \<times> json) list \<Rightarrow> nat option" where
  "natField k fs = (case intField k fs of None \<Rightarrow> None | Some n \<Rightarrow> if n < 0 then None else Some (nat n))"

definition decStrMap :: "(string \<times> json) list \<Rightarrow> gomap option" where
  "decStrMap fs =
    those (map (\<lambda>(k, v). case v of JStr s \<Rightarrow> Some (k, s) | JNull \<Rightarrow> Some (k, []) | _ \<Rightarrow> None) (rev fs))"

definition mapField :: "string \<Rightarrow> (string \<times> json) list \<Rightarrow> gomap option" where
  "mapField k fs =
    (case jfield k fs of None \<Rightarrow> Some [] | Some JNull \<Rightarrow> Some [] | Some (JObj m) \<Rightarrow> decStrMap m | _ \<Rightarrow> None)"

definition decList :: "((string \<times> json) list \<Rightarrow> 'a option) \<Rightarrow> json \<Rightarrow> 'a list option" where
  "decList f j =
    (case j of
       JNull \<Rightarrow> Some []
     | JArr js \<Rightarrow> those (map (\<lambda>v. case v of JObj fs \<Rightarrow> f fs | JNull \<Rightarrow> f [] | _ \<Rightarrow> None) js)
     | _ \<Rightarrow> None)"

definition decObj :: "((string \<times> json) list \<Rightarrow> 'a option) \<Rightarrow> json \<Rightarrow> 'a option" where
  "decObj f j = (case j of JObj fs \<Rightarrow> f fs | JNull \<Rightarrow> f [] | _ \<Rightarrow> None)"

definition encStrMap :: "gomap \<Rightarrow> json" where
  "encStrMap m = JObj (map (\<lambda>(k, v). (k, JStr v)) m)"

text \<open>The text of a document, without the escapes that only matter inside HTML.\<close>

definition jsonEscape :: "char \<Rightarrow> string" where
  "jsonEscape c =
    (let n = of_char c :: nat in
     if n = 34 \<or> n = 92 then [CHR 0x5C, c]
     else if n = 8 then [CHR 0x5C, CHR ''b''] else if n = 12 then [CHR 0x5C, CHR ''f'']
     else if n = 10 then [CHR 0x5C, CHR ''n''] else if n = 13 then [CHR 0x5C, CHR ''r'']
     else if n = 9 then [CHR 0x5C, CHR ''t'']
     else if n < 32 then [CHR 0x5C, CHR ''u'', CHR ''0'', CHR ''0'',
                          ''0123456789abcdef'' ! (n div 16), ''0123456789abcdef'' ! (n mod 16)]
     else [c])"

definition jsonQuote :: "string \<Rightarrow> string" where
  "jsonQuote s = [CHR 0x22] @ concat (map jsonEscape s) @ [CHR 0x22]"

fun jsonText :: "json \<Rightarrow> string" where
  "jsonText JNull = ''null''"
| "jsonText (JBool b) = (if b then ''true'' else ''false'')"
| "jsonText (JNum n) = intText n"
| "jsonText (JStr s) = jsonQuote s"
| "jsonText (JArr js) = ''['' @ joinStrings '','' (map jsonText js) @ '']''"
| "jsonText (JObj fs) =
    CHR 0x7B # joinStrings '','' (map (\<lambda>(k, v). jsonQuote k @ '':'' @ jsonText v) fs) @ [CHR 0x7D]"

subsection \<open>URL escaping\<close>

definition isUnreserved :: "char \<Rightarrow> bool" where
  "isUnreserved c \<longleftrightarrow> isLetter c \<or> isDigit c \<or> c \<in> set ''-_.~''"

definition percent :: "char \<Rightarrow> string" where
  "percent c = (let n = of_char c :: nat in
     [CHR ''%'', ''0123456789ABCDEF'' ! (n div 16), ''0123456789ABCDEF'' ! (n mod 16)])"

definition queryEscape :: "string \<Rightarrow> string" where
  "queryEscape s =
    concat (map (\<lambda>c. if isUnreserved c then [c] else if c = CHR '' '' then ''+'' else percent c) s)"

definition pathEscape :: "string \<Rightarrow> string" where
  "pathEscape s =
    concat (map (\<lambda>c. if isUnreserved c \<or> c \<in> set ''$&+,/:;=@'' then [c] else percent c) s)"

text \<open>\<^verbatim>\<open>url.Values.Encode\<close> for one value per key: sorted by key.\<close>

definition queryEncode :: "gomap \<Rightarrow> string" where
  "queryEncode q =
    joinStrings ''&'' (map (\<lambda>k. queryEscape k @ ''='' @ queryEscape (mapGet q k)) (sortedKeys q))"

subsection \<open>Requests and responses\<close>

record http_request =
  rqMethod :: string
  rqPath :: string
  rqQuery :: gomap
  rqBody :: "json option"
  rqToken :: string

record http_response =
  rsStatus :: nat
  rsIndex :: string
  rsRaw :: string
  rsDoc :: "json option"
  rsReadErr :: "goerr option"
  rsCloseErr :: "goerr option"

text \<open>\<^verbatim>\<open>http.StatusText\<close>, for the statuses Nomad and the fake answer with.\<close>

definition statusNames :: "(nat \<times> string) list" where
  "statusNames =
    [(200, ''OK''), (201, ''Created''), (202, ''Accepted''), (204, ''No Content''),
     (301, ''Moved Permanently''), (302, ''Found''), (304, ''Not Modified''),
     (307, ''Temporary Redirect''), (308, ''Permanent Redirect''),
     (400, ''Bad Request''), (401, ''Unauthorized''), (403, ''Forbidden''), (404, ''Not Found''),
     (405, ''Method Not Allowed''), (408, ''Request Timeout''), (409, ''Conflict''), (410, ''Gone''),
     (412, ''Precondition Failed''), (413, ''Request Entity Too Large''),
     (429, ''Too Many Requests''), (500, ''Internal Server Error''), (501, ''Not Implemented''),
     (502, ''Bad Gateway''), (503, ''Service Unavailable''), (504, ''Gateway Timeout'')]"

definition httpStatusText :: "nat \<Rightarrow> string" where
  "httpStatusText n = (case map_of statusNames n of None \<Rightarrow> [] | Some t \<Rightarrow> t)"

text \<open>\<^verbatim>\<open>strconv.ParseUint(s, 10, 64)\<close>; \<^const>\<open>None\<close> is the error.\<close>

definition parseUint64 :: "string \<Rightarrow> nat option" where
  "parseUint64 s =
    (if s \<noteq> [] \<and> list_all isDigit s \<and> digitsVal s < 2 ^ 64 then Some (digitsVal s) else None)"

text \<open>\<^verbatim>\<open>n, _ = strconv.ParseUint(s, 10, 64)\<close>: the value that comes with the error is the largest one when the number is
  out of range, and 0 otherwise.\<close>

definition parsedUint64 :: "string \<Rightarrow> nat" where
  "parsedUint64 s =
    (case parseUint64 s of Some i \<Rightarrow> i | None \<Rightarrow> if s \<noteq> [] \<and> list_all isDigit s then 2 ^ 64 - 1 else 0)"

lemma natText_digits: "list_all isDigit (natText n) \<and> natText n \<noteq> []"
proof (induction n rule: natText.induct)
  case (1 n)
  have d: "isDigit (char_of (48 + k))" if "k < 10" for k :: nat
    using that by (simp add: isDigit_def of_char_of)
  show ?case
  proof (cases "n < 10")
    case True
    then show ?thesis by (subst (1 2) natText.simps) (simp add: d)
  next
    case False
    then show ?thesis using 1 by (subst (1 2) natText.simps) (simp add: d)
  qed
qed

lemma parseUint64_natText: "n < 2 ^ 64 \<Longrightarrow> parseUint64 (natText n) = Some n"
  using natText_digits [of n] by (simp add: parseUint64_def)

lemma decStrMap_encStrMap:
  "\<exists>m'. mapField k [(k, encStrMap m)] = Some m' \<and> map_of m' = map_of (rev m)"
proof -
  have "those (map (\<lambda>(k, v). case v of JStr s \<Rightarrow> Some (k, s) | JNull \<Rightarrow> Some (k, []) | _ \<Rightarrow> None)
      (map (\<lambda>(k, v). (k, JStr v)) xs)) = Some xs" for xs :: gomap
    by (induction xs) auto
  then show ?thesis
    by (auto simp: mapField_def jfield_def encStrMap_def decStrMap_def rev_map)
qed

end
