(* ===== verification/Client.thy ===== *)
theory Client
  imports Nomad_Wire
begin

text \<open>
  The runtime's Nomad client (\<^verbatim>\<open>client.go\<close>). What is not in the repository is a
  parameter: \<open>httpDo\<close> is one HTTP exchange with the API server, \<open>sdkDispatch\<close>
  and \<open>sdkAllocations\<close> are the two calls the client makes through the Nomad SDK
  (\<^verbatim>\<open>Jobs().Dispatch\<close>, \<^verbatim>\<open>Jobs().Allocations\<close>). They act on a state of the caller's
  choosing, so the same client runs over any server.
\<close>

subsection \<open>Data\<close>

record taskEvent =
  evType :: string
  evDisplayMessage :: string
  evMessage :: string
  evSetupError :: string
  evDriverError :: string
  evDownloadError :: string
  evKillReason :: string

record sdkTaskState =
  stState :: string
  stEvents :: "taskEvent option list"

record sdkAlloc =
  saID :: string
  saClientStatus :: string
  saDesiredStatus :: string
  saTaskStates :: "(string \<times> sdkTaskState option) list"

record allocTaskState =
  atsState :: string
  atsLastEvent :: string
  atsFailureEvent :: string

record allocRecord =
  arID :: string
  arClientStatus :: string
  arDesiredStatus :: string
  arTaskStates :: "(string \<times> allocTaskState) list option"

record childJob =
  cjID :: string
  cjNamespace :: string
  cjMeta :: gomap
  cjTerminal :: bool

record client =
  clAddr :: string
  clToken :: string
  clNamespace :: string

record 'w nomad =
  httpDo :: "http_request \<Rightarrow> ('w, http_response) prog"
  sdkDispatch :: "string \<Rightarrow> gomap \<Rightarrow> string \<Rightarrow> string \<Rightarrow> ('w, string option) prog"
  sdkAllocations :: "string \<Rightarrow> string \<Rightarrow> nat \<Rightarrow> duration \<Rightarrow> ('w, sdkAlloc option list \<times> nat option) prog"

abbreviation second :: duration where
  "second \<equiv> 1000000000"

definition defaultTimeout :: duration where
  "defaultTimeout = 10 * second"

definition maxResponseByte :: nat where
  "maxResponseByte = 2 ^ 20"

definition createdAtMetaKey :: string where
  "createdAtMetaKey = ''gc_created_at''"

definition agentImageMetaKey :: string where
  "agentImageMetaKey = ''gc_image''"

subsection \<open>URLs and statuses\<close>

definition nsQuery :: "client \<Rightarrow> gomap" where
  "nsQuery c = [(''namespace'', clNamespace c)]"

text \<open>\<^verbatim>\<open>urlFor\<close>: the decoded path the server routes on, and the rendered target. The
  address is the scheme and host, without a path of its own.\<close>

definition urlPath :: "string list \<Rightarrow> string" where
  "urlPath parts = ''/'' @ joinStrings ''/'' parts"

definition urlFor :: "client \<Rightarrow> string list \<Rightarrow> gomap \<Rightarrow> string" where
  "urlFor c parts query =
    clAddr c @ pathEscape (urlPath parts)
    @ (if query = [] then [] else ''?'' @ queryEncode query)"

definition statusText :: "nat \<Rightarrow> http_response \<Rightarrow> string" where
  "statusText status r =
    (let payload = (case rsDoc r of Some j \<Rightarrow> decObj (strField ''error'') j | None \<Rightarrow> None);
         text = trimSpace (rsRaw r)
     in case payload of
          Some (c # e) \<Rightarrow> c # e
        | _ \<Rightarrow> if text \<noteq> [] then text else httpStatusText status)"

definition forbiddenHint :: "bool \<Rightarrow> string" where
  "forbiddenHint hasToken =
    (if \<not> hasToken
     then '' (no GC_NOMAD_TOKEN was sent with this request: if the cluster has ACLs '' @
          ''enabled the runtime needs one, and the supervisor's environment is where it comes from)''
     else '' (a token WAS sent and refused: it has expired, been revoked, or lacks the '' @
          ''capability this route needs for the namespace '' @ emDash @ '' check the token before the policy, '' @
          ''an aged-out token and a wrong policy answer identically here)'')"

definition statusError :: "nat \<Rightarrow> string \<Rightarrow> http_response \<Rightarrow> bool \<Rightarrow> goerr" where
  "statusError status target r hasToken =
    (let msg = statusText status r in
     if status = 404 then EWrap [] (ESent ErrJobGone) ('': '' @ target @ '': '' @ msg)
     else if status = 403
       then EWrap [] (ESent ErrJobForbidden) ('': '' @ target @ '': '' @ msg @ forbiddenHint hasToken)
     else ENew (''nomad '' @ target @ '': status '' @ natText status @ '': '' @ msg))"

subsection \<open>One request\<close>

text \<open>\<^verbatim>\<open>io.ReadAll(io.LimitReader(body, maxResponseByte))\<close>: a longer body is cut, and
  what is left of a document no longer parses.\<close>

definition limitBody :: "http_response \<Rightarrow> http_response" where
  "limitBody r =
    (if length (rsRaw r) \<le> maxResponseByte then r
     else r\<lparr>rsRaw := take maxResponseByte (rsRaw r), rsDoc := None\<rparr>)"

definition readBody :: "string \<Rightarrow> http_response \<Rightarrow> ('w, http_response) prog" where
  "readBody what r =
    (case rsReadErr r of
       Some e \<Rightarrow> failS (EWrap (''reading '' @ what @ '' response: '') e [])
     | None \<Rightarrow>
        (case rsCloseErr r of
           Some e \<Rightarrow> failS (EWrap (''closing '' @ what @ '' response: '') e [])
         | None \<Rightarrow> returnS (limitBody r)))"

text \<open>\<^verbatim>\<open>doIndexed\<close>, with the decoder of \<^verbatim>\<open>out\<close> and its zero value. The index is the
  response header's: 0 when it is absent or malformed, and the largest one when it is out of range.\<close>

definition doIndexed ::
  "'w nomad \<Rightarrow> client \<Rightarrow> string \<Rightarrow> string list \<Rightarrow> gomap \<Rightarrow> json option
    \<Rightarrow> (json \<Rightarrow> 'a option) \<Rightarrow> 'a \<Rightarrow> ('w, nat \<times> 'a) prog" where
  "doIndexed nm c method parts query body dec zero =
    bindS (wrapS ''nomad request: '' []
      (httpDo nm \<lparr>rqMethod = method, rqPath = urlPath parts, rqQuery = query, rqBody = body, rqToken = clToken c\<rparr>)) (\<lambda>resp0.
    bindS (readBody ''nomad'' resp0) (\<lambda>resp.
    let idx = parsedUint64 (rsIndex resp)
    in if rsStatus resp < 200 \<or> 300 \<le> rsStatus resp
       then failS (statusError (rsStatus resp) (urlFor c parts query) resp (trimSpace (clToken c) \<noteq> []))
       else if trimSpace (rsRaw resp) = [] then returnS (idx, zero)
       else (case rsDoc resp of
           None \<Rightarrow> failS (EWrap ''decoding nomad response: '' (ENew ''invalid JSON'') [])
         | Some j \<Rightarrow> (case dec j of
               None \<Rightarrow> failS (EWrap ''decoding nomad response: '' (ENew ''cannot unmarshal'') [])
             | Some x \<Rightarrow> returnS (idx, x)))))"

definition doNoOut ::
  "'w nomad \<Rightarrow> client \<Rightarrow> string \<Rightarrow> string list \<Rightarrow> json option \<Rightarrow> ('w, unit) prog" where
  "doNoOut nm c method parts body =
    bindS (wrapS ''nomad request: '' []
      (httpDo nm \<lparr>rqMethod = method, rqPath = urlPath parts, rqQuery = [], rqBody = body, rqToken = clToken c\<rparr>)) (\<lambda>resp0.
    bindS (readBody ''nomad'' resp0) (\<lambda>resp.
    if rsStatus resp < 200 \<or> 300 \<le> rsStatus resp
       then failS (statusError (rsStatus resp) (urlFor c parts []) resp (trimSpace (clToken c) \<noteq> []))
       else returnS ()))"

subsection \<open>Job routes\<close>

definition registerJob :: "'w nomad \<Rightarrow> client \<Rightarrow> json \<Rightarrow> ('w, unit) prog" where
  "registerJob nm c job = doNoOut nm c ''POST'' [''v1'', ''jobs''] (Some (JObj [(''Job'', job)]))"

definition decJob :: "(string \<times> json) list \<Rightarrow> (string \<times> gomap) option" where
  "decJob fs =
    (case (strField ''NodePool'' fs, mapField ''Meta'' fs) of (Some p, Some m) \<Rightarrow> Some (p, m) | _ \<Rightarrow> None)"

text \<open>\<^verbatim>\<open>getJob\<close>: \<^const>\<open>None\<close> is the confirmed absence (\<^verbatim>\<open>ok = false, err = nil\<close>).\<close>

definition getJob :: "'w nomad \<Rightarrow> client \<Rightarrow> string \<Rightarrow> ('w, (string \<times> gomap) option) prog" where
  "getJob nm c jobID =
    bindS (attempt (doIndexed nm c ''GET'' [''v1'', ''job'', jobID] (nsQuery c) None (decObj decJob) ([], []))) (\<lambda>r.
    case r of
      Inl e \<Rightarrow> if errIs e ErrJobGone then returnS None else failS e
    | Inr (idx, out) \<Rightarrow> returnS (Some out))"

definition dispatchIdempotencyToken :: "string \<Rightarrow> string \<Rightarrow> string" where
  "dispatchIdempotencyToken sessionName nonce = sessionName @ '':'' @ nonce"

text \<open>\<open>fmtTime\<close> is \<^verbatim>\<open>Format(time.RFC3339Nano)\<close> of a UTC time.\<close>

definition dispatchMeta :: "(gotime \<Rightarrow> string) \<Rightarrow> string \<Rightarrow> string \<Rightarrow> gotime \<Rightarrow> string \<Rightarrow> gomap" where
  "dispatchMeta fmtTime sessionName nonce createdAt img =
    [(''gc_session'', sessionName), (''gc_nonce'', nonce)]
    @ (if createdAt \<noteq> 0 then [(createdAtMetaKey, fmtTime createdAt)] else [])
    @ (if trimSpace img \<noteq> [] then [(agentImageMetaKey, trimSpace img)] else [])"

definition dispatchChildAt ::
  "'w nomad \<Rightarrow> (gotime \<Rightarrow> string) \<Rightarrow> client \<Rightarrow> string \<Rightarrow> string \<Rightarrow> string \<Rightarrow> gotime \<Rightarrow> string \<Rightarrow> ('w, string) prog" where
  "dispatchChildAt nm fmtTime c parentID sessionName nonce createdAt img =
    bindS (sdkDispatch nm parentID (dispatchMeta fmtTime sessionName nonce createdAt img)
             (clNamespace c) (dispatchIdempotencyToken sessionName nonce)) (\<lambda>out.
    case out of
      None \<Rightarrow> failS (ENew ''nomad dispatch: empty DispatchedJobID in response'')
    | Some id' \<Rightarrow> if id' = [] then failS (ENew ''nomad dispatch: empty DispatchedJobID in response'')
                  else returnS id')"

record jobRow =
  jrID :: string
  jrParentID :: string
  jrNamespace :: string
  jrStatus :: string
  jrMeta :: gomap

definition decJobRow :: "(string \<times> json) list \<Rightarrow> jobRow option" where
  "decJobRow fs =
    (case (strField ''ID'' fs, strField ''ParentID'' fs, strField ''Namespace'' fs,
           strField ''Status'' fs, mapField ''Meta'' fs) of
       (Some i, Some p, Some n, Some s, Some m) \<Rightarrow>
         Some \<lparr>jrID = i, jrParentID = p, jrNamespace = n, jrStatus = s, jrMeta = m\<rparr>
     | _ \<Rightarrow> None)"

definition childrenOf :: "string \<Rightarrow> jobRow list \<Rightarrow> childJob list" where
  "childrenOf parentID rows =
    map (\<lambda>j. \<lparr>cjID = jrID j, cjNamespace = jrNamespace j, cjMeta = jrMeta j, cjTerminal = (jrStatus j \<noteq> ''running'')\<rparr>)
      (filter (\<lambda>j. jrParentID j = parentID) rows)"

definition listChildJobs :: "'w nomad \<Rightarrow> client \<Rightarrow> string \<Rightarrow> ('w, childJob list) prog" where
  "listChildJobs nm c parentID =
    bindS (wrapS ''listing nomad jobs: '' []
      (doIndexed nm c ''GET'' [''v1'', ''jobs''] (mapSet ''meta'' ''true'' (nsQuery c)) None (decList decJobRow) []))
    (\<lambda>(idx, rows). returnS (childrenOf parentID rows))"

definition deregisterJob :: "'w nomad \<Rightarrow> client \<Rightarrow> string \<Rightarrow> bool \<Rightarrow> ('w, nat) prog" where
  "deregisterJob nm c jobID purge =
    bindS (attempt (doIndexed nm c ''DELETE'' [''v1'', ''job'', jobID]
        (if purge then mapSet ''purge'' ''true'' (nsQuery c) else nsQuery c) None
        (decObj (natField ''JobModifyIndex'')) 0)) (\<lambda>r.
    case r of
      Inl e \<Rightarrow> if errIs e ErrJobGone then returnS 0 else failS e
    | Inr (idx, out) \<Rightarrow> returnS out)"

subsection \<open>Allocations\<close>

fun firstNonEmpty :: "string list \<Rightarrow> string" where
  "firstNonEmpty [] = []"
| "firstNonEmpty (v # vs) = (if trimSpace v \<noteq> [] then v else firstNonEmpty vs)"

text \<open>Newest first: the loops run over the reversed event list.\<close>

fun latestFrom :: "taskEvent option list \<Rightarrow> string" where
  "latestFrom [] = []"
| "latestFrom (None # es) = latestFrom es"
| "latestFrom (Some e # es) =
    (let detail = firstNonEmpty [evDisplayMessage e, evMessage e, evSetupError e, evDriverError e,
                                 evDownloadError e, evKillReason e]
     in if detail = [] then evType e else evType e @ '': '' @ detail)"

definition latestTaskEvent :: "taskEvent option list \<Rightarrow> string" where
  "latestTaskEvent events = latestFrom (rev events)"

fun failureFrom :: "taskEvent option list \<Rightarrow> string" where
  "failureFrom [] = []"
| "failureFrom (None # es) = failureFrom es"
| "failureFrom (Some e # es) =
    (let detail = firstNonEmpty [evDriverError e, evDownloadError e, evSetupError e, evKillReason e]
     in if detail = [] then failureFrom es
        else if trimSpace (evType e) = [] then detail
        else evType e @ '': '' @ detail)"

definition failureTaskEvent :: "taskEvent option list \<Rightarrow> string" where
  "failureTaskEvent events = failureFrom (rev events)"

definition allocTaskStatesOf :: "sdkAlloc \<Rightarrow> (string \<times> allocTaskState) list option" where
  "allocTaskStatesOf alloc =
    (let states = concat (map (\<lambda>(name, st). case st of
         None \<Rightarrow> []
       | Some st \<Rightarrow> [(name, \<lparr>atsState = stState st, atsLastEvent = latestTaskEvent (stEvents st),
                           atsFailureEvent = failureTaskEvent (stEvents st)\<rparr>)]) (saTaskStates alloc))
     in if states = [] then None else Some states)"

definition allocRecordOf :: "sdkAlloc \<Rightarrow> allocRecord" where
  "allocRecordOf a =
    \<lparr>arID = saID a, arClientStatus = saClientStatus a, arDesiredStatus = saDesiredStatus a,
     arTaskStates = allocTaskStatesOf a\<rparr>"

definition listAllocsForJob ::
  "'w nomad \<Rightarrow> client \<Rightarrow> string \<Rightarrow> nat \<Rightarrow> duration \<Rightarrow> ('w, allocRecord list \<times> nat) prog" where
  "listAllocsForJob nm c jobID sinceIndex wait =
    bindS (sdkAllocations nm (clNamespace c) jobID sinceIndex wait) (\<lambda>(allocs, meta).
    returnS (map allocRecordOf (concat (map (\<lambda>a. case a of None \<Rightarrow> [] | Some a \<Rightarrow> [a]) allocs)),
             case meta of None \<Rightarrow> 0 | Some i \<Rightarrow> i))"

definition blockingTimeout :: "duration \<Rightarrow> duration" where
  "blockingTimeout wait = (if wait \<le> 0 then defaultTimeout else wait + defaultTimeout)"

subsection \<open>Files of an allocation\<close>

definition readAllocFile :: "'w nomad \<Rightarrow> client \<Rightarrow> string \<Rightarrow> string \<Rightarrow> ('w, string) prog" where
  "readAllocFile nm c allocID path =
    (let q = mapSet ''path'' path (nsQuery c); parts = [''v1'', ''client'', ''fs'', ''cat'', allocID] in
     bindS (wrapS ''nomad fs-cat request: '' []
       (httpDo nm \<lparr>rqMethod = ''GET'', rqPath = urlPath parts, rqQuery = q, rqBody = None, rqToken = clToken c\<rparr>)) (\<lambda>resp0.
     bindS (readBody ''nomad fs-cat'' resp0) (\<lambda>resp.
     if rsStatus resp = 404 then failS (ESent ErrAllocFileGone)
     else if rsStatus resp < 200 \<or> 300 \<le> rsStatus resp
       then failS (ENew (''nomad '' @ urlFor c parts q @ '': status '' @ natText (rsStatus resp) @ '': ''
                         @ statusText (rsStatus resp) resp))
     else returnS (rsRaw resp))))"

subsection \<open>Placement failures\<close>

record placementFailure =
  pfNodePool :: string
  pfNodesInPool :: int
  pfNodesEvaluated :: int
  pfNodesFiltered :: int
  pfNodesExhausted :: int
  pfClassFiltered :: "(string \<times> int) list"
  pfConstraintFilt :: "(string \<times> int) list"
  pfDimensionExhaust :: "(string \<times> int) list"
  pfFound :: bool

definition noPlacementFailure :: placementFailure where
  "noPlacementFailure = \<lparr>pfNodePool = [], pfNodesInPool = 0, pfNodesEvaluated = 0, pfNodesFiltered = 0,
     pfNodesExhausted = 0, pfClassFiltered = [], pfConstraintFilt = [], pfDimensionExhaust = [], pfFound = False\<rparr>"

definition emptyNodePool :: "placementFailure \<Rightarrow> bool" where
  "emptyNodePool p \<longleftrightarrow> pfFound p \<and> pfNodesInPool p = 0 \<and> pfNodesEvaluated p = 0"

definition intMapField :: "string \<Rightarrow> (string \<times> json) list \<Rightarrow> (string \<times> int) list option" where
  "intMapField k fs =
    (case jfield k fs of
       None \<Rightarrow> Some [] | Some JNull \<Rightarrow> Some []
     | Some (JObj m) \<Rightarrow> those (map (\<lambda>(k, v). case v of JNum n \<Rightarrow> Some (k, n) | JNull \<Rightarrow> Some (k, 0) | _ \<Rightarrow> None) (rev m))
     | _ \<Rightarrow> None)"

definition decTaskGroup :: "(string \<times> json) list \<Rightarrow> placementFailure option" where
  "decTaskGroup fs =
    (case (strField ''NodePool'' fs, intField ''NodesInPool'' fs, intField ''NodesEvaluated'' fs,
           intField ''NodesFiltered'' fs, intField ''NodesExhausted'' fs,
           intMapField ''ClassFiltered'' fs, intMapField ''ConstraintFiltered'' fs,
           intMapField ''DimensionExhausted'' fs) of
       (Some p, Some n, Some e, Some f, Some x, Some cl, Some co, Some di) \<Rightarrow>
         Some \<lparr>pfNodePool = p, pfNodesInPool = n, pfNodesEvaluated = e, pfNodesFiltered = f,
               pfNodesExhausted = x, pfClassFiltered = cl, pfConstraintFilt = co,
               pfDimensionExhaust = di, pfFound = True\<rparr>
     | _ \<Rightarrow> None)"

definition decEval :: "(string \<times> json) list \<Rightarrow> placementFailure list option" where
  "decEval fs =
    (case jfield ''FailedTGAllocs'' fs of
       None \<Rightarrow> Some [] | Some JNull \<Rightarrow> Some []
     | Some (JObj m) \<Rightarrow> those (map (\<lambda>(g, v). decObj decTaskGroup v) m)
     | _ \<Rightarrow> None)"

text \<open>The evaluations read as the code sends it: the path has no \<^verbatim>\<open>v1\<close> segment and no
  namespace. Any failure is the zero value.\<close>

definition jobPlacementFailure :: "'w nomad \<Rightarrow> client \<Rightarrow> string \<Rightarrow> ('w, placementFailure) prog" where
  "jobPlacementFailure nm c jobID =
    bindS (attempt (doIndexed nm c ''GET'' [''job'', jobID, ''evaluations''] [] None (decList decEval) [])) (\<lambda>r.
    case r of
      Inl e \<Rightarrow> returnS noPlacementFailure
    | Inr (idx, evals) \<Rightarrow>
        (case concat evals of [] \<Rightarrow> returnS noPlacementFailure | tg # tgs \<Rightarrow> returnS tg))"

definition describeCounter :: "string \<Rightarrow> (string \<times> int) list \<Rightarrow> string" where
  "describeCounter label m =
    (if m = [] then []
     else ''; '' @ label @ '': '' @ joinStrings '', ''
       (map (\<lambda>k. k @ ''='' @ intText (case map_of m k of None \<Rightarrow> 0 | Some n \<Rightarrow> n)) (sortedKeys m)))"

definition describePlacementFailure :: "placementFailure \<Rightarrow> string" where
  "describePlacementFailure p =
    (if \<not> pfFound p then []
     else if emptyNodePool p
       then '' THE SCHEDULER SAW NO NODES AT ALL: node pool '' @ goQuote (pfNodePool p) @ '' contains ''
         @ intText (pfNodesInPool p)
         @ '' nodes (NodesInPool=0, NodesEvaluated=0, every filter counter empty). This is NOT a constraint ''
         @ ''or capacity fault and no constraint change will fix it '' @ emDash @ '' there is nothing to filter. ''
         @ ''Either point this deployment at a pool that has nodes (GC_NOMAD_NODE_POOL) or move nodes into ''
         @ goQuote (pfNodePool p) @ ''. ''
         @ ''Note the pool is a property of the PARENT job, so changing it is a jobspec change and ''
         @ ''the parent must be re-registered, not just restarted.''
     else '' The scheduler evaluated '' @ intText (pfNodesEvaluated p) @ '' node(s) in pool ''
       @ goQuote (pfNodePool p) @ '': '' @ intText (pfNodesFiltered p) @ '' filtered, ''
       @ intText (pfNodesExhausted p) @ '' exhausted''
       @ describeCounter ''constraints'' (pfConstraintFilt p)
       @ describeCounter ''classes'' (pfClassFiltered p)
       @ describeCounter ''dimensions'' (pfDimensionExhaust p) @ ''.'')"

end
