(* ===== verification/Fake_Nomad.thy ===== *)
theory Fake_Nomad
  imports Nomad_Wire
begin

text \<open>
  The in-memory Nomad server (\<^verbatim>\<open>fakenomad/fakenomad.go\<close>): its state as a record,
  one function per public method and HTTP handler, and the router. Go maps are
  association lists, whose order stands for the unspecified iteration order.
  What the host does with a task (rendering its templates, starting its command)
  is a parameter, \<open>host\<close>; the wall clock of a request is an argument.
\<close>

subsection \<open>State\<close>

record templateSpec =
  tpEmbeddedTmpl :: string
  tpDestPath :: string

record taskSpec =
  tkName :: string
  tkCommand :: "string list"
  tkEnv :: gomap
  tkTemplates :: "templateSpec list"

record fjob =
  fjID :: string
  fjNamespace :: string
  fjNodePool :: string
  fjParentID :: string
  fjDispatched :: bool
  fjMeta :: gomap
  fjModifyIndex :: nat
  fjTasks :: "taskSpec list"
  fjPortLabels :: "string list"

record falloc =
  faID :: string
  faJobID :: string
  faNamespace :: string
  faDesiredStatus :: string
  faClientStatus :: string
  faModifyIndex :: nat
  faPorts :: "(string \<times> nat) list option"
  faTaskStates :: gomap

record fault =
  ftMethod :: string
  ftPath :: string
  ftStatus :: nat
  ftBody :: string
  ftDoc :: "json option"
  ftDelay :: duration
  ftSticky :: bool
  ftPassthrough :: bool

record fserver =
  fsIndex :: nat
  fsJobs :: "(string \<times> fjob) list"
  fsAllocs :: "(string \<times> falloc) list"
  fsAllocFiles :: "(string \<times> gomap) list"
  fsFaults :: "fault list"
  fsExecFails :: nat
  fsExecResets :: nat
  fsExecHangups :: nat
  fsAllocListErr :: bool
  fsNoPlaceAllocs :: bool
  fsDispSeq :: nat
  fsPortSeq :: nat
  fsTrace :: "string list"
  fsClosed :: bool

definition newServer :: fserver where
  "newServer =
    \<lparr>fsIndex = 0, fsJobs = [], fsAllocs = [], fsAllocFiles = [], fsFaults = [], fsExecFails = 0,
     fsExecResets = 0, fsExecHangups = 0, fsAllocListErr = False, fsNoPlaceAllocs = False,
     fsDispSeq = 0, fsPortSeq = 0, fsTrace = [], fsClosed = False\<rparr>"

definition basePort :: nat where
  "basePort = 21000"

subsection \<open>Formatting\<close>

function hexText :: "nat \<Rightarrow> string" where
  "hexText n = (if n < 16 then [''0123456789abcdef'' ! n]
                else hexText (n div 16) @ [''0123456789abcdef'' ! (n mod 16)])"
  by pat_completeness auto
termination by (relation "measure id") auto

declare hexText.simps [simp del]

text \<open>\<^verbatim>\<open>%06x\<close>.\<close>

definition hex6 :: "nat \<Rightarrow> string" where
  "hex6 n = (let t = hexText n in replicate (6 - length t) CHR ''0'' @ t)"

definition allocIDOf :: "nat \<Rightarrow> string" where
  "allocIDOf seq = ''alloc-'' @ hex6 seq"

definition childIDOf :: "string \<Rightarrow> int \<Rightarrow> nat \<Rightarrow> string" where
  "childIDOf parentID unix seq = parentID @ ''/dispatch-'' @ intText unix @ ''-'' @ hex6 seq"

definition defaultAllocFiles :: "string \<Rightarrow> gomap" where
  "defaultAllocFiles allocID =
    [(''alloc/logs/transcript.log'', ''fakenomad transcript for '' @ allocID @ [CHR 0x0A]),
     (''alloc/data/evidence.json'', [CHR 0x7B] @ goQuote ''alloc_id'' @ '':'' @ goQuote allocID @ [CHR 0x7D, CHR 0x0A])]"

definition terminalAllocStatus :: "string \<Rightarrow> bool" where
  "terminalAllocStatus status \<longleftrightarrow> status \<in> {''complete'', ''failed'', ''lost''}"

subsection \<open>Scripting the server\<close>

definition bumpIndex :: "fserver \<Rightarrow> fserver" where
  "bumpIndex s = s\<lparr>fsIndex := fsIndex s + 1\<rparr>"

definition queueFault :: "fault \<Rightarrow> fserver \<Rightarrow> fserver" where
  "queueFault f s = s\<lparr>fsFaults := fsFaults s @ [f]\<rparr>"

text \<open>\<open>doc\<close> is what the scripted body parses to, when it is JSON.\<close>

definition FailNext :: "string \<Rightarrow> string \<Rightarrow> nat \<Rightarrow> string \<Rightarrow> json option \<Rightarrow> fserver \<Rightarrow> fserver" where
  "FailNext method path status body doc =
    queueFault \<lparr>ftMethod = method, ftPath = path, ftStatus = status, ftBody = body, ftDoc = doc, ftDelay = 0,
                ftSticky = False, ftPassthrough = False\<rparr>"

definition FailSticky :: "string \<Rightarrow> string \<Rightarrow> nat \<Rightarrow> string \<Rightarrow> json option \<Rightarrow> fserver \<Rightarrow> fserver" where
  "FailSticky method path status body doc =
    queueFault \<lparr>ftMethod = method, ftPath = path, ftStatus = status, ftBody = body, ftDoc = doc, ftDelay = 0,
                ftSticky = True, ftPassthrough = False\<rparr>"

definition DelayNext :: "string \<Rightarrow> string \<Rightarrow> duration \<Rightarrow> fserver \<Rightarrow> fserver" where
  "DelayNext method path delay =
    queueFault \<lparr>ftMethod = method, ftPath = path, ftStatus = 0, ftBody = [], ftDoc = None, ftDelay = delay,
                ftSticky = False, ftPassthrough = True\<rparr>"

definition faultMatches :: "string \<Rightarrow> string \<Rightarrow> fault \<Rightarrow> bool" where
  "faultMatches method path f \<longleftrightarrow> ftMethod f = method \<and> ftPath f = path"

text \<open>Removing the first match, as the slice splices of \<^verbatim>\<open>ClearFault\<close> and
  \<^verbatim>\<open>takeFault\<close> do.\<close>

fun dropFirst :: "('a \<Rightarrow> bool) \<Rightarrow> 'a list \<Rightarrow> 'a list" where
  "dropFirst P [] = []"
| "dropFirst P (x # xs) = (if P x then xs else x # dropFirst P xs)"

definition ClearFault :: "string \<Rightarrow> string \<Rightarrow> fserver \<Rightarrow> fserver" where
  "ClearFault method path s = s\<lparr>fsFaults := dropFirst (faultMatches method path) (fsFaults s)\<rparr>"

definition takeFaultFor :: "string \<Rightarrow> string \<Rightarrow> fserver \<Rightarrow> fault option \<times> fserver" where
  "takeFaultFor method path s =
    (case find (faultMatches method path) (fsFaults s) of
       None \<Rightarrow> (None, s)
     | Some f \<Rightarrow> (Some f, if ftSticky f then s
                         else s\<lparr>fsFaults := dropFirst (faultMatches method path) (fsFaults s)\<rparr>))"

definition FailExecNext :: "int \<Rightarrow> fserver \<Rightarrow> fserver" where
  "FailExecNext count s = (if count \<le> 0 then s else s\<lparr>fsExecFails := fsExecFails s + nat count\<rparr>)"

definition ResetExecNext :: "int \<Rightarrow> fserver \<Rightarrow> fserver" where
  "ResetExecNext count s = (if count \<le> 0 then s else s\<lparr>fsExecResets := fsExecResets s + nat count\<rparr>)"

definition HangupExecNext :: "int \<Rightarrow> fserver \<Rightarrow> fserver" where
  "HangupExecNext count s = (if count \<le> 0 then s else s\<lparr>fsExecHangups := fsExecHangups s + nat count\<rparr>)"

definition takeExecHangup :: "fserver \<Rightarrow> bool \<times> fserver" where
  "takeExecHangup s = (if fsExecHangups s = 0 then (False, s) else (True, s\<lparr>fsExecHangups := fsExecHangups s - 1\<rparr>))"

definition takeExecFailure :: "fserver \<Rightarrow> bool \<times> fserver" where
  "takeExecFailure s = (if fsExecFails s = 0 then (False, s) else (True, s\<lparr>fsExecFails := fsExecFails s - 1\<rparr>))"

definition takeExecReset :: "fserver \<Rightarrow> bool \<times> fserver" where
  "takeExecReset s = (if fsExecResets s = 0 then (False, s) else (True, s\<lparr>fsExecResets := fsExecResets s - 1\<rparr>))"

definition SetAllocListError :: "bool \<Rightarrow> fserver \<Rightarrow> fserver" where
  "SetAllocListError fail s = s\<lparr>fsAllocListErr := fail\<rparr>"

definition SetPlaceAllocs :: "bool \<Rightarrow> fserver \<Rightarrow> fserver" where
  "SetPlaceAllocs place s = s\<lparr>fsNoPlaceAllocs := \<not> place\<rparr>"

text \<open>A change of one allocation that also stamps it with a fresh index.\<close>

definition touchAlloc :: "string \<Rightarrow> (falloc \<Rightarrow> falloc) \<Rightarrow> fserver \<Rightarrow> bool \<times> fserver" where
  "touchAlloc allocID f s =
    (case map_of (fsAllocs s) allocID of
       None \<Rightarrow> (False, s)
     | Some a \<Rightarrow>
         (let s' = bumpIndex s in
          (True, s'\<lparr>fsAllocs := mapSet allocID ((f a)\<lparr>faModifyIndex := fsIndex s'\<rparr>) (fsAllocs s)\<rparr>)))"

definition SetAllocStatus :: "string \<Rightarrow> string \<Rightarrow> fserver \<Rightarrow> bool \<times> fserver" where
  "SetAllocStatus allocID clientStatus = touchAlloc allocID (\<lambda>a. a\<lparr>faClientStatus := clientStatus\<rparr>)"

definition setTaskStateLocked :: "string \<Rightarrow> string \<Rightarrow> falloc \<Rightarrow> falloc" where
  "setTaskStateLocked taskName state a = a\<lparr>faTaskStates := mapSet taskName state (faTaskStates a)\<rparr>"

definition SetTaskState :: "string \<Rightarrow> string \<Rightarrow> string \<Rightarrow> fserver \<Rightarrow> bool \<times> fserver" where
  "SetTaskState allocID taskName state = touchAlloc allocID (setTaskStateLocked taskName state)"

definition SetAllocFile :: "string \<Rightarrow> string \<Rightarrow> string \<Rightarrow> fserver \<Rightarrow> bool \<times> fserver" where
  "SetAllocFile allocID path content s =
    (if map_of (fsAllocs s) allocID = None then (False, s)
     else (let files = (case map_of (fsAllocFiles s) allocID of None \<Rightarrow> [] | Some m \<Rightarrow> m)
           in (True, s\<lparr>fsAllocFiles := mapSet allocID (mapSet path content files) (fsAllocFiles s)\<rparr>)))"

definition PlaceAlloc :: "string \<Rightarrow> string \<Rightarrow> fserver \<Rightarrow> string \<times> fserver" where
  "PlaceAlloc jobID clientStatus s =
    (let seq = fsDispSeq s + 1; allocID = allocIDOf seq; s' = bumpIndex (s\<lparr>fsDispSeq := seq\<rparr>)
     in (allocID, s'\<lparr>fsAllocs := mapSet allocID
          \<lparr>faID = allocID, faJobID = jobID, faNamespace = [], faDesiredStatus = ''run'',
           faClientStatus = clientStatus, faModifyIndex = fsIndex s', faPorts = None, faTaskStates = []\<rparr>
          (fsAllocs s)\<rparr>))"

definition AssignedPort :: "string \<Rightarrow> string \<Rightarrow> fserver \<Rightarrow> nat option" where
  "AssignedPort allocID label s =
    (case map_of (fsAllocs s) allocID of None \<Rightarrow> None | Some a \<Rightarrow> Option.bind (faPorts a) (\<lambda>ports. map_of ports label))"

definition TaskState :: "string \<Rightarrow> string \<Rightarrow> fserver \<Rightarrow> string option" where
  "TaskState allocID taskName s =
    (case map_of (fsAllocs s) allocID of None \<Rightarrow> None | Some a \<Rightarrow> map_of (faTaskStates a) taskName)"

subsection \<open>Tasks\<close>

text \<open>What the host makes of a task: its templates do not render, its command does not
  start, or it runs.\<close>

datatype taskFate = RenderFails | StartFails | Starts

definition startMainTask :: "(string \<Rightarrow> taskSpec \<Rightarrow> taskFate) \<Rightarrow> string \<Rightarrow> taskSpec \<Rightarrow> fserver \<Rightarrow> fserver" where
  "startMainTask host allocID t s =
    (case host allocID t of
       Starts \<Rightarrow> snd (touchAlloc allocID
         (\<lambda>a. setTaskStateLocked (tkName t) ''running'' (a\<lparr>faClientStatus := ''running''\<rparr>)) s)
     | _ \<Rightarrow> snd (touchAlloc allocID
         (\<lambda>a. setTaskStateLocked (tkName t) ''failed'' (a\<lparr>faClientStatus := ''failed''\<rparr>)) s))"

definition startSideTask :: "(string \<Rightarrow> taskSpec \<Rightarrow> taskFate) \<Rightarrow> string \<Rightarrow> taskSpec \<Rightarrow> fserver \<Rightarrow> fserver" where
  "startSideTask host allocID t s =
    (case host allocID t of
       Starts \<Rightarrow> snd (touchAlloc allocID (setTaskStateLocked (tkName t) ''running'') s)
     | _ \<Rightarrow> snd (touchAlloc allocID (setTaskStateLocked (tkName t) ''failed'') s))"

text \<open>The goroutine that waits for the main task's process: \<open>ok\<close> is a zero exit.\<close>

definition mainTaskExited :: "string \<Rightarrow> string \<Rightarrow> bool \<Rightarrow> fserver \<Rightarrow> fserver" where
  "mainTaskExited allocID taskName ok s =
    (case map_of (fsAllocs s) allocID of
       None \<Rightarrow> s
     | Some a \<Rightarrow>
         if terminalAllocStatus (faClientStatus a) then s
         else (let st = (if ok then ''complete'' else ''failed'')
               in snd (touchAlloc allocID (\<lambda>a. setTaskStateLocked taskName st (a\<lparr>faClientStatus := st\<rparr>)) s)))"

fun startTasksFrom ::
  "(string \<Rightarrow> taskSpec \<Rightarrow> taskFate) \<Rightarrow> string \<Rightarrow> nat \<Rightarrow> taskSpec list \<Rightarrow> fserver \<Rightarrow> fserver" where
  "startTasksFrom host allocID i [] s = s"
| "startTasksFrom host allocID i (t # ts) s =
    startTasksFrom host allocID (Suc i) ts
      (if tkCommand t = [] then s
       else if i = 0 then startMainTask host allocID t s
       else startSideTask host allocID t s)"

definition startAllTasks ::
  "(string \<Rightarrow> taskSpec \<Rightarrow> taskFate) \<Rightarrow> string \<Rightarrow> taskSpec list \<Rightarrow> fserver \<Rightarrow> fserver" where
  "startAllTasks host allocID tasks s = startTasksFrom host allocID 0 tasks s"

definition taskTemplateEnv :: "string \<Rightarrow> gomap \<Rightarrow> gomap \<Rightarrow> gomap" where
  "taskTemplateEnv dir taskEnv portEnv =
    portEnv @ taskEnv @ [(''NOMAD_ALLOC_DIR'', dir), (''NOMAD_TASK_DIR'', dir)]"

definition portableIdleCommand :: "string \<Rightarrow> string list \<Rightarrow> string list" where
  "portableIdleCommand goos command =
    (if length command \<noteq> 2 \<or> command ! 1 \<noteq> ''infinity'' then command
     else if pathBase (command ! 0) \<noteq> ''sleep'' then command
     else if goos = ''linux'' then command
     else command[1 := ''86400''])"

definition isolatedTmuxEnv :: "string list \<Rightarrow> string \<Rightarrow> string \<Rightarrow> string list" where
  "isolatedTmuxEnv environ dir secretsDir =
    filter (\<lambda>kv. \<not> (hasPrefix kv ''TMUX='' \<or> hasPrefix kv ''TMUX_TMPDIR='' \<or>
                    hasPrefix kv ''NOMAD_SECRETS_DIR='' \<or> hasPrefix kv ''NOMAD_ALLOC_DIR='')) environ
    @ [''TMUX_TMPDIR='' @ dir, ''NOMAD_ALLOC_DIR='' @ dir]
    @ (if secretsDir \<noteq> [] then [''NOMAD_SECRETS_DIR='' @ secretsDir] else [])"

subsection \<open>Responses\<close>

definition writeJSON :: "nat \<Rightarrow> string \<Rightarrow> json \<Rightarrow> http_response" where
  "writeJSON status idx body = \<lparr>rsStatus = status, rsIndex = idx, rsRaw = jsonText body @ [CHR 0x0A], rsDoc = Some body, rsReadErr = None, rsCloseErr = None\<rparr>"

definition writeJSONError :: "nat \<Rightarrow> string \<Rightarrow> string \<Rightarrow> http_response" where
  "writeJSONError status idx msg = writeJSON status idx (JObj [(''error'', JStr msg)])"

abbreviation jnat :: "nat \<Rightarrow> json" where
  "jnat n \<equiv> JNum (int n)"

text \<open>A Go map that was never written is null on the wire.\<close>

definition encNilMap :: "gomap \<Rightarrow> json" where
  "encNilMap m = (if m = [] then JNull else encStrMap m)"

subsection \<open>Registering a job\<close>

text \<open>The decoder's error is discarded, so a field of the wrong type is the zero value.\<close>

definition strOr :: "string \<Rightarrow> (string \<times> json) list \<Rightarrow> string" where
  "strOr k fs = (case strField k fs of None \<Rightarrow> [] | Some s \<Rightarrow> s)"

definition mapOr :: "string \<Rightarrow> (string \<times> json) list \<Rightarrow> gomap" where
  "mapOr k fs = (case mapField k fs of None \<Rightarrow> [] | Some m \<Rightarrow> m)"

definition objOf :: "json option \<Rightarrow> (string \<times> json) list" where
  "objOf j = (case j of Some (JObj fs) \<Rightarrow> fs | _ \<Rightarrow> [])"

definition arrOf :: "json option \<Rightarrow> json list" where
  "arrOf j = (case j of Some (JArr js) \<Rightarrow> js | _ \<Rightarrow> [])"

definition taskCommand :: "(string \<times> json) list \<Rightarrow> string list" where
  "taskCommand cfg =
    (case map_of (rev cfg) ''command'' of
       Some (JStr command) \<Rightarrow>
         if command = [] then []
         else command # concat (map (\<lambda>a. case a of JStr s \<Rightarrow> [s] | _ \<Rightarrow> []) (arrOf (map_of (rev cfg) ''args'')))
     | _ \<Rightarrow> [])"

definition decTaskSpec :: "json \<Rightarrow> taskSpec" where
  "decTaskSpec j =
    (let fs = objOf (Some j) in
     \<lparr>tkName = strOr ''Name'' fs, tkCommand = taskCommand (objOf (jfield ''Config'' fs)),
      tkEnv = mapOr ''Env'' fs,
      tkTemplates = map (\<lambda>t. \<lparr>tpEmbeddedTmpl = strOr ''EmbeddedTmpl'' (objOf (Some t)),
                              tpDestPath = strOr ''DestPath'' (objOf (Some t))\<rparr>) (arrOf (jfield ''Templates'' fs))\<rparr>)"

definition groupPortLabels :: "(string \<times> json) list \<Rightarrow> string list" where
  "groupPortLabels grp =
    concat (map (\<lambda>n. map (\<lambda>p. strOr ''Label'' (objOf (Some p))) (arrOf (jfield ''DynamicPorts'' (objOf (Some n)))))
      (arrOf (jfield ''Networks'' grp)))"

definition srv_registerJob :: "http_request \<Rightarrow> string \<Rightarrow> fserver \<Rightarrow> http_response \<times> fserver" where
  "srv_registerJob r pathID s =
    (let job = objOf (jfield ''Job'' (objOf (rqBody r)));
         id0 = strOr ''ID'' job;
         jid = (if id0 = [] then pathID else id0);
         ns0 = strOr ''Namespace'' job;
         ns = (if ns0 = [] then ''default'' else ns0);
         groups = arrOf (jfield ''TaskGroups'' job);
         grp = (case groups of [] \<Rightarrow> [] | g # gs \<Rightarrow> objOf (Some g));
         tasks = map decTaskSpec (arrOf (jfield ''Tasks'' grp))
     in if jid = [] then (writeJSONError 400 [] ''missing job ID'', s)
        else let s' = bumpIndex s; idx = fsIndex s' in
          (writeJSON 200 [] (JObj [(''EvalID'', JStr []), (''Index'', jnat idx), (''JobModifyIndex'', jnat idx),
              (''KnownLeader'', JBool True), (''LastContact'', JNum 0), (''Warnings'', JStr [])]),
           s'\<lparr>fsJobs := mapSet jid \<lparr>fjID = jid, fjNamespace = ns, fjNodePool = strOr ''NodePool'' job,
               fjParentID = [], fjDispatched = False, fjMeta = mapOr ''Meta'' job, fjModifyIndex = idx,
               fjTasks = tasks, fjPortLabels = groupPortLabels grp\<rparr> (fsJobs s)\<rparr>))"

subsection \<open>Listing jobs\<close>

definition jobStatus :: "fserver \<Rightarrow> string \<Rightarrow> string" where
  "jobStatus s jid =
    (if list_ex (\<lambda>(i, a). faJobID a = jid \<and> \<not> terminalAllocStatus (faClientStatus a)) (fsAllocs s)
     then ''running'' else ''dead'')"

definition jobListEntry :: "bool \<Rightarrow> fserver \<Rightarrow> fjob \<Rightarrow> json" where
  "jobListEntry includeMeta s j =
    JObj ([(''ID'', JStr (fjID j)), (''ParentID'', JStr (fjParentID j)), (''Namespace'', JStr (fjNamespace j)),
           (''NodePool'', JStr (fjNodePool j)), (''Status'', JStr (jobStatus s (fjID j)))]
          @ (if includeMeta \<and> fjMeta j \<noteq> [] then [(''Meta'', encStrMap (rev (fjMeta j)))] else []))"

definition srv_listJobs :: "http_request \<Rightarrow> fserver \<Rightarrow> http_response \<times> fserver" where
  "srv_listJobs r s =
    (let includeMeta = (mapGet (rqQuery r) ''meta'' = ''true'')
     in (writeJSON 200 (natText (fsIndex s)) (JArr (map (\<lambda>(i, j). jobListEntry includeMeta s j) (fsJobs s))), s))"

subsection \<open>Dispatching\<close>

fun assignPorts :: "string list \<Rightarrow> nat \<Rightarrow> (string \<times> nat) list \<Rightarrow> (string \<times> nat) list \<times> nat" where
  "assignPorts [] seq ports = (ports, seq)"
| "assignPorts (l # ls) seq ports = assignPorts ls (seq + 1) (mapSet l (basePort + (seq + 1)) ports)"

definition childOf :: "fjob \<Rightarrow> string \<Rightarrow> string \<Rightarrow> gomap \<Rightarrow> nat \<Rightarrow> fjob" where
  "childOf parent parentID childID meta idx =
    \<lparr>fjID = childID, fjNamespace = fjNamespace parent, fjNodePool = fjNodePool parent,
     fjParentID = parentID, fjDispatched = True, fjMeta = meta, fjModifyIndex = idx,
     fjTasks = fjTasks parent, fjPortLabels = fjPortLabels parent\<rparr>"

text \<open>The first half of the handler: the child job and its ports.\<close>

definition recordChild ::
  "int \<Rightarrow> gomap \<Rightarrow> string \<Rightarrow> fjob \<Rightarrow> fserver \<Rightarrow> string \<times> (string \<times> nat) list \<times> fserver" where
  "recordChild unix meta parentID parent s =
    (let seq = fsDispSeq s + 1;
         childID = childIDOf parentID unix seq;
         idx = fsIndex s + 1;
         (ports, pseq) = assignPorts (fjPortLabels parent) (fsPortSeq s) []
     in (childID, ports,
         s\<lparr>fsDispSeq := seq, fsIndex := idx,
           fsJobs := mapSet childID (childOf parent parentID childID meta idx) (fsJobs s),
           fsPortSeq := pseq\<rparr>))"

text \<open>The second half: the allocation, pending, with its default files.\<close>

definition pendingAlloc :: "string \<Rightarrow> string \<Rightarrow> string \<Rightarrow> nat \<Rightarrow> (string \<times> nat) list \<Rightarrow> falloc" where
  "pendingAlloc allocID childID ns idx ports =
    \<lparr>faID = allocID, faJobID = childID, faNamespace = ns, faDesiredStatus = ''run'',
     faClientStatus = ''pending'', faModifyIndex = idx, faPorts = Some ports, faTaskStates = []\<rparr>"

definition placeChild :: "fjob \<Rightarrow> string \<Rightarrow> (string \<times> nat) list \<Rightarrow> fserver \<Rightarrow> string \<times> fserver" where
  "placeChild parent childID ports s =
    (let allocID = allocIDOf (fsDispSeq s); idx = fsIndex s + 1
     in (allocID,
         s\<lparr>fsIndex := idx,
           fsAllocs := mapSet allocID (pendingAlloc allocID childID (fjNamespace parent) idx ports) (fsAllocs s),
           fsAllocFiles := mapSet allocID (defaultAllocFiles allocID) (fsAllocFiles s)\<rparr>))"

definition srv_dispatchJob ::
  "(string \<Rightarrow> taskSpec \<Rightarrow> taskFate) \<Rightarrow> int \<Rightarrow> http_request \<Rightarrow> string \<Rightarrow> fserver \<Rightarrow> http_response \<times> fserver" where
  "srv_dispatchJob host unix r parentID s =
    (case map_of (fsJobs s) parentID of
       None \<Rightarrow> (writeJSONError 404 [] ''job not found'', s)
     | Some parent \<Rightarrow>
        (case recordChild unix (mapOr ''Meta'' (objOf (rqBody r))) parentID parent s of
           (childID, ports, s3) \<Rightarrow>
             if fsNoPlaceAllocs s3
             then (writeJSON 200 [] (JObj [(''DispatchedJobID'', JStr childID), (''Index'', jnat (fsIndex s3))]), s3)
             else (case placeChild parent childID ports s3 of
                 (allocID, s5) \<Rightarrow>
                   (writeJSON 200 [] (JObj [(''DispatchedJobID'', JStr childID),
                        (''EvalID'', JStr (''eval-'' @ childID)), (''Index'', jnat (fsIndex s5)),
                        (''JobCreateIndex'', jnat (fsIndex s3))]),
                    startAllTasks host allocID (fjTasks parent) s5))))"

subsection \<open>Reading\<close>

definition defaultWait :: duration where
  "defaultWait = 5000000000"

definition maxWait :: duration where
  "maxWait = 10000000000"

text \<open>\<open>parseDur\<close> is \<^verbatim>\<open>time.ParseDuration\<close>. The result is the index to wait for and
  how long, or \<^const>\<open>None\<close> for a read that does not block.\<close>

definition blockingParams :: "(string \<Rightarrow> duration option) \<Rightarrow> gomap \<Rightarrow> (nat \<times> duration) option" where
  "blockingParams parseDur q =
    (case parseUint64 (mapGet q ''index'') of
       None \<Rightarrow> None
     | Some since \<Rightarrow>
         (let rawWait = mapGet q ''wait'';
              wait = (if rawWait = [] then defaultWait
                      else case parseDur rawWait of
                        Some d \<Rightarrow> if 0 < d then d else defaultWait
                      | None \<Rightarrow> defaultWait)
          in Some (since, min wait maxWait)))"

text \<open>
  A blocking read shares the server with other requests and with its tasks. What they do while it waits is a
  schedule: each entry is the time since the read arrived and the change made then. \<^verbatim>\<open>blockUntil\<close> returns at once when
  the index is past \<open>since\<close>; otherwise it takes the current channel, which the next change of the index
  closes, and selects between that and the timer. It does not look at \<open>since\<close> again. The result is the time
  waited, the server as the read finds it, and the changes still to come; an entry at the very end of the wait comes after the timer.
\<close>

type_synonym schedule = "(duration \<times> (fserver \<Rightarrow> fserver)) list"

fun selectChange :: "duration \<Rightarrow> schedule \<Rightarrow> fserver \<Rightarrow> duration \<times> fserver \<times> schedule" where
  "selectChange wait [] s = (wait, s, [])"
| "selectChange wait ((atTime, f) # later) s =
    (if wait \<le> atTime then (wait, s, (atTime, f) # later)
     else if fsIndex (f s) \<noteq> fsIndex s then (atTime, f s, later)
     else selectChange wait later (f s))"

definition blockUntil :: "nat \<Rightarrow> duration \<Rightarrow> schedule \<Rightarrow> fserver \<Rightarrow> duration \<times> fserver \<times> schedule" where
  "blockUntil since wait sched s = (if since < fsIndex s then (0, s, sched) else selectChange wait sched s)"

text \<open>The head of every read that may block, in front of what it reads.\<close>

definition blockingRead ::
  "(string \<Rightarrow> duration option) \<Rightarrow> http_request \<Rightarrow> (fserver \<Rightarrow> http_response \<times> fserver) \<Rightarrow> schedule \<Rightarrow> fserver
    \<Rightarrow> duration \<times> http_response \<times> fserver" where
  "blockingRead parseDur r read sched s =
    (case blockingParams parseDur (rqQuery r) of
       None \<Rightarrow> (0, read s)
     | Some (since, wait) \<Rightarrow> (case blockUntil since wait sched s of (t, s', later) \<Rightarrow> (t, read s')))"

definition srv_readJob :: "string \<Rightarrow> fserver \<Rightarrow> http_response \<times> fserver" where
  "srv_readJob jid s =
    (case map_of (fsJobs s) jid of
       None \<Rightarrow> (writeJSONError 404 (natText (fsIndex s)) ''job not found'', s)
     | Some j \<Rightarrow> (writeJSON 200 (natText (fsIndex s))
         (JObj [(''Dispatched'', JBool (fjDispatched j)), (''ID'', JStr (fjID j)),
                (''Meta'', encNilMap (rev (fjMeta j))), (''ModifyIndex'', jnat (fjModifyIndex j)),
                (''Namespace'', JStr (fjNamespace j)), (''NodePool'', JStr (fjNodePool j)),
                (''ParentID'', JStr (fjParentID j))]), s))"

definition allocJSON :: "falloc \<Rightarrow> json" where
  "allocJSON a =
    JObj [(''ID'', JStr (faID a)), (''JobID'', JStr (faJobID a)), (''Namespace'', JStr (faNamespace a)),
          (''DesiredStatus'', JStr (faDesiredStatus a)), (''ClientStatus'', JStr (faClientStatus a)),
          (''ModifyIndex'', jnat (faModifyIndex a)),
          (''Ports'', case faPorts a of None \<Rightarrow> JNull | Some ports \<Rightarrow> JObj (map (\<lambda>(l, p). (l, jnat p)) ports)),
          (''TaskStates'', encNilMap (rev (faTaskStates a)))]"

definition srv_listAllocsForJob :: "string \<Rightarrow> fserver \<Rightarrow> http_response \<times> fserver" where
  "srv_listAllocsForJob jobID s =
    (if fsAllocListErr s then (writeJSONError 500 [] ''allocation list unavailable'', s)
     else (writeJSON 200 (natText (fsIndex s))
            (let out = map (\<lambda>(i, a). allocJSON a) (filter (\<lambda>(i, a). faJobID a = jobID) (fsAllocs s))
             in if out = [] then JNull else JArr out), s))"

text \<open>With a wait: the failure of the listing is decided before it.\<close>

definition srv_waitAllocsForJob ::
  "(string \<Rightarrow> duration option) \<Rightarrow> http_request \<Rightarrow> string \<Rightarrow> schedule \<Rightarrow> fserver \<Rightarrow> duration \<times> http_response \<times> fserver" where
  "srv_waitAllocsForJob parseDur r jobID sched s =
    (if fsAllocListErr s then (0, srv_listAllocsForJob jobID s)
     else blockingRead parseDur r (\<lambda>s'. (fst (srv_listAllocsForJob jobID (s'\<lparr>fsAllocListErr := False\<rparr>)), s')) sched s)"

definition srv_listAllocs :: "fserver \<Rightarrow> http_response \<times> fserver" where
  "srv_listAllocs s = (writeJSON 200 (natText (fsIndex s)) (JArr (map (\<lambda>(i, a). allocJSON a) (fsAllocs s))), s)"

definition srv_readAlloc :: "string \<Rightarrow> fserver \<Rightarrow> http_response \<times> fserver" where
  "srv_readAlloc aid s =
    (case map_of (fsAllocs s) aid of
       None \<Rightarrow> (writeJSONError 404 (natText (fsIndex s)) ''alloc not found'', s)
     | Some a \<Rightarrow> (writeJSON 200 (natText (fsIndex s)) (allocJSON a), s))"

subsection \<open>Deregistering, files, garbage collection\<close>

definition stopAlloc :: "string \<Rightarrow> nat \<Rightarrow> falloc \<Rightarrow> falloc" where
  "stopAlloc jid idx a =
    (if faJobID a \<noteq> jid then a
     else if faClientStatus a = ''complete'' \<or> faClientStatus a = ''failed'' then a
     else a\<lparr>faDesiredStatus := ''stop'', faClientStatus := ''complete'', faModifyIndex := idx\<rparr>)"

definition srv_deregisterJob :: "http_request \<Rightarrow> string \<Rightarrow> fserver \<Rightarrow> http_response \<times> fserver" where
  "srv_deregisterJob r jid s =
    (if map_of (fsJobs s) jid = None then (writeJSONError 404 [] ''job not found'', s)
     else let s' = bumpIndex s; idx = fsIndex s';
              jobs = (if mapGet (rqQuery r) ''purge'' = ''true'' then mapDel jid (fsJobs s) else fsJobs s)
          in (writeJSON 200 [] (JObj [(''EvalCreateIndex'', jnat idx), (''EvalID'', JStr []),
                (''Index'', jnat idx), (''JobModifyIndex'', jnat idx)]),
              s'\<lparr>fsAllocs := map (\<lambda>(i, a). (i, stopAlloc jid idx a)) (fsAllocs s), fsJobs := jobs\<rparr>))"

definition srv_catAllocFile :: "http_request \<Rightarrow> string \<Rightarrow> fserver \<Rightarrow> http_response \<times> fserver" where
  "srv_catAllocFile r allocID s =
    (if map_of (fsAllocs s) allocID = None then (writeJSONError 404 [] ''alloc not found'', s)
     else let files = (case map_of (fsAllocFiles s) allocID of None \<Rightarrow> [] | Some m \<Rightarrow> m) in
       case map_of files (mapGet (rqQuery r) ''path'') of
         None \<Rightarrow> (writeJSONError 404 [] ''file not found'', s)
       | Some content \<Rightarrow> (\<lparr>rsStatus = 200, rsIndex = [], rsRaw = content, rsDoc = None, rsReadErr = None, rsCloseErr = None\<rparr>, s))"

definition srv_systemGC :: "fserver \<Rightarrow> http_response \<times> fserver" where
  "srv_systemGC s = (\<lparr>rsStatus = 200, rsIndex = [], rsRaw = [], rsDoc = None, rsReadErr = None, rsCloseErr = None\<rparr>, s)"

subsection \<open>Routing\<close>

definition splitPath :: "string \<Rightarrow> string list" where
  "splitPath p = filter (\<lambda>part. part \<noteq> [])
     (splitChar (CHR ''/'') (trimRightChars {CHR ''/''} (trimLeftChars {CHR ''/''} p)))"

definition notFound :: "fserver \<Rightarrow> http_response \<times> fserver" where
  "notFound s = (writeJSONError 404 [] ''not found'', s)"

definition routeJob ::
  "(string \<Rightarrow> taskSpec \<Rightarrow> taskFate) \<Rightarrow> int \<Rightarrow> http_request \<Rightarrow> string list \<Rightarrow> fserver \<Rightarrow> http_response \<times> fserver" where
  "routeJob host unix r rest s =
    (let m = rqMethod r; lst = last rest; front = joinStrings ''/'' (butlast rest); whole = joinStrings ''/'' rest in
     if m = ''POST'' \<and> lst = ''dispatch'' \<and> 2 \<le> length rest then srv_dispatchJob host unix r front s
     else if m = ''GET'' \<and> lst = ''allocations'' \<and> 2 \<le> length rest then srv_listAllocsForJob front s
     else if m = ''POST'' then srv_registerJob r whole s
     else if m = ''GET'' then srv_readJob whole s
     else if m = ''DELETE'' then srv_deregisterJob r whole s
     else notFound s)"

definition routeOther :: "http_request \<Rightarrow> string list \<Rightarrow> fserver \<Rightarrow> http_response \<times> fserver" where
  "routeOther r parts s =
    (let m = rqMethod r in
     if m = ''POST'' \<and> parts = [''v1'', ''jobs''] then srv_registerJob r [] s
     else if m = ''GET'' \<and> parts = [''v1'', ''jobs''] then srv_listJobs r s
     else if m = ''GET'' \<and> parts = [''v1'', ''allocations''] then srv_listAllocs s
     else if m = ''GET'' \<and> length parts = 3 \<and> take 2 parts = [''v1'', ''allocation''] then srv_readAlloc (parts ! 2) s
     else if m = ''GET'' \<and> length parts = 5 \<and> take 4 parts = [''v1'', ''client'', ''fs'', ''cat'']
       then srv_catAllocFile r (parts ! 4) s
     else if m = ''PUT'' \<and> parts = [''v1'', ''system'', ''gc''] then srv_systemGC s
     else notFound s)"

text \<open>The exec endpoint upgrades the connection and is not a response; it is not part of
  this router.\<close>

definition serveHTTP ::
  "(string \<Rightarrow> taskSpec \<Rightarrow> taskFate) \<Rightarrow> int \<Rightarrow> http_request \<Rightarrow> fserver \<Rightarrow> http_response \<times> fserver" where
  "serveHTTP host unix r s0 =
    (let s = s0\<lparr>fsTrace := fsTrace s0 @ [rqMethod r @ '' '' @ rqPath r]\<rparr> in
     case takeFaultFor (rqMethod r) (rqPath r) s of
       (f, s1) \<Rightarrow>
         (let parts = splitPath (rqPath r);
              route = (if 3 \<le> length parts \<and> take 2 parts = [''v1'', ''job'']
                       then routeJob host unix r (drop 2 parts) s1
                       else routeOther r parts s1)
          in case f of
               None \<Rightarrow> route
             | Some g \<Rightarrow>
                 if ftPassthrough g then route
                 else (\<lparr>rsStatus = ftStatus g, rsIndex = [], rsRaw = ftBody g, rsDoc = ftDoc g, rsReadErr = None, rsCloseErr = None\<rparr>, s1)))"

subsection \<open>The server as a transition system\<close>

text \<open>One rule per way the state changes: a request, the scripting methods, the exec
  fault counters, and the exit of a main task's process.\<close>

inductive fstep :: "(string \<Rightarrow> taskSpec \<Rightarrow> taskFate) \<Rightarrow> fserver \<Rightarrow> fserver \<Rightarrow> bool" for host where
  request: "fstep host s (snd (serveHTTP host unix r s))"
| fault: "fstep host s (queueFault f s)"
| clear: "fstep host s (ClearFault m p s)"
| execFail: "fstep host s (FailExecNext n s)"
| execReset: "fstep host s (ResetExecNext n s)"
| execHangup: "fstep host s (HangupExecNext n s)"
| tookHangup: "fstep host s (snd (takeExecHangup s))"
| tookFailure: "fstep host s (snd (takeExecFailure s))"
| tookReset: "fstep host s (snd (takeExecReset s))"
| listError: "fstep host s (SetAllocListError b s)"
| place: "fstep host s (SetPlaceAllocs b s)"
| allocStatus: "fstep host s (snd (SetAllocStatus a st s))"
| taskState: "fstep host s (snd (SetTaskState a t st s))"
| allocFile: "fstep host s (snd (SetAllocFile a p c s))"
| placeAlloc: "fstep host s (snd (PlaceAlloc j st s))"
| exited: "fstep host s (mainTaskExited a t ok s)"

inductive freach :: "(string \<Rightarrow> taskSpec \<Rightarrow> taskFate) \<Rightarrow> fserver \<Rightarrow> bool" for host where
  init: "freach host newServer"
| step: "freach host s \<Longrightarrow> fstep host s s' \<Longrightarrow> freach host s'"

inductive_cases fstepE: "fstep host s s'"

text \<open>What every reachable state satisfies: allocation IDs are minted from the dispatch
  counter, records are filed under their own ID, and no record is newer than the
  server's index.\<close>

definition allocOK :: "nat \<Rightarrow> nat \<Rightarrow> string \<times> falloc \<Rightarrow> bool" where
  "allocOK seq idx e \<longleftrightarrow>
    (\<exists>k. 0 < k \<and> k \<le> seq \<and> fst e = allocIDOf k) \<and> faID (snd e) = fst e \<and> faModifyIndex (snd e) \<le> idx"

definition jobOK :: "nat \<Rightarrow> string \<times> fjob \<Rightarrow> bool" where
  "jobOK idx e \<longleftrightarrow> fjID (snd e) = fst e \<and> fst e \<noteq> [] \<and> fjModifyIndex (snd e) \<le> idx"

definition server_inv :: "fserver \<Rightarrow> bool" where
  "server_inv s \<longleftrightarrow>
    distinct (map fst (fsAllocs s)) \<and> (\<forall>e \<in> set (fsAllocs s). allocOK (fsDispSeq s) (fsIndex s) e) \<and>
    distinct (map fst (fsJobs s)) \<and> (\<forall>e \<in> set (fsJobs s). jobOK (fsIndex s) e) \<and>
    fst ` set (fsAllocFiles s) \<subseteq> fst ` set (fsAllocs s)"

lemma allocOK_mono: "allocOK seq idx e \<Longrightarrow> seq \<le> seq' \<Longrightarrow> idx \<le> idx' \<Longrightarrow> allocOK seq' idx' e"
  by (force simp: allocOK_def)

lemma jobOK_mono: "jobOK idx e \<Longrightarrow> idx \<le> idx' \<Longrightarrow> jobOK idx' e"
  by (auto simp: jobOK_def)

lemma set_mapSet: "e \<in> set (mapSet k v m) \<longleftrightarrow> e = (k, v) \<or> e \<in> set m \<and> fst e \<noteq> k"
  by (auto simp: mapSet_def)

lemma distinct_fst_mapSet: "distinct (map fst m) \<Longrightarrow> distinct (map fst (mapSet k v m))"
  by (auto simp: mapSet_def distinct_map intro: inj_on_subset)

lemma fst_set_mapSet: "fst ` set (mapSet k v m) = insert k (fst ` set m)"
  by (auto simp: mapSet_def image_iff)

text \<open>The two ways an operation writes an allocation and the one way it writes a job.\<close>

lemma server_inv_alloc:
  assumes "server_inv s" and "seq = fsDispSeq s" and "fsIndex s \<le> idx"
    and "allocOK seq idx (i, a)"
  shows "server_inv (s\<lparr>fsIndex := idx, fsAllocs := mapSet i a (fsAllocs s)\<rparr>)"
  using assms
  by (auto simp: server_inv_def set_mapSet fst_set_mapSet distinct_fst_mapSet
      intro: allocOK_mono jobOK_mono)

lemma server_inv_job:
  assumes "server_inv s" and "fsIndex s \<le> idx" and "jobOK idx (i, j)"
  shows "server_inv (s\<lparr>fsIndex := idx, fsJobs := mapSet i j (fsJobs s)\<rparr>)"
  using assms
  by (auto simp: server_inv_def set_mapSet distinct_fst_mapSet intro: allocOK_mono jobOK_mono)

lemma server_inv_touch:
  assumes "server_inv s" and "\<And>a. faID (f a) = faID a"
  shows "server_inv (snd (touchAlloc i f s))"
proof (cases "map_of (fsAllocs s) i")
  case None
  then show ?thesis using assms by (simp add: touchAlloc_def)
next
  case (Some a)
  then have "allocOK (fsDispSeq s) (fsIndex s) (i, a)"
    using assms(1) map_of_SomeD [OF Some] by (auto simp: server_inv_def)
  then have "allocOK (fsDispSeq s) (fsIndex s + 1) (i, (f a)\<lparr>faModifyIndex := fsIndex s + 1\<rparr>)"
    using assms(2) by (auto simp: allocOK_def)
  then show ?thesis
    using server_inv_alloc [OF assms(1) refl, of "fsIndex s + 1"] Some
    by (simp add: touchAlloc_def bumpIndex_def Let_def)
qed

lemma server_inv_irrelevant [simp]:
  "server_inv (s\<lparr>fsTrace := t\<rparr>) = server_inv s"
  "server_inv (s\<lparr>fsFaults := fs\<rparr>) = server_inv s"
  "server_inv (s\<lparr>fsExecFails := n\<rparr>) = server_inv s"
  "server_inv (s\<lparr>fsExecResets := n\<rparr>) = server_inv s"
  "server_inv (s\<lparr>fsExecHangups := n\<rparr>) = server_inv s"
  "server_inv (s\<lparr>fsAllocListErr := b\<rparr>) = server_inv s"
  "server_inv (s\<lparr>fsNoPlaceAllocs := b\<rparr>) = server_inv s"
  "server_inv (s\<lparr>fsPortSeq := n\<rparr>) = server_inv s"
  by (simp_all add: server_inv_def)

lemma server_inv_seq: "server_inv s \<Longrightarrow> fsDispSeq s \<le> n \<Longrightarrow> server_inv (s\<lparr>fsDispSeq := n\<rparr>)"
  by (auto simp: server_inv_def intro: allocOK_mono)

lemma server_inv_bump: "server_inv s \<Longrightarrow> server_inv (bumpIndex s)"
  by (auto simp: server_inv_def bumpIndex_def intro: allocOK_mono jobOK_mono)

lemma server_inv_startTasks:
  "server_inv s \<Longrightarrow> server_inv (startTasksFrom host i k ts s)"
proof (induction ts arbitrary: k s)
  case (Cons t ts)
  have "server_inv (startMainTask host i t s)" "server_inv (startSideTask host i t s)"
    using Cons.prems
    by (auto simp: startMainTask_def startSideTask_def setTaskStateLocked_def
        intro!: server_inv_touch split: taskFate.split)
  then show ?case using Cons by simp
qed simp

lemma server_inv_register:
  assumes "server_inv s"
  shows "server_inv (snd (srv_registerJob r p s))"
  using assms
  by (auto simp: srv_registerJob_def bumpIndex_def Let_def jobOK_def intro!: server_inv_job)

lemma childIDOf_nonempty [simp]: "childIDOf p u n \<noteq> []"
  by (simp add: childIDOf_def)

lemma server_inv_files:
  "server_inv s \<Longrightarrow> i \<in> fst ` set (fsAllocs s) \<Longrightarrow> server_inv (s\<lparr>fsAllocFiles := mapSet i m (fsAllocFiles s)\<rparr>)"
  unfolding server_inv_def by (simp add: fst_set_mapSet)

lemma server_inv_recordChild:
  assumes "server_inv s" and "recordChild unix meta p parent s = (childID, ports, s')"
  shows "server_inv s' \<and> 0 < fsDispSeq s'"
proof -
  obtain ps pseq where pp: "assignPorts (fjPortLabels parent) (fsPortSeq s) [] = (ps, pseq)"
    by fastforce
  have "server_inv (s\<lparr>fsDispSeq := fsDispSeq s + 1\<rparr>)"
    using server_inv_seq [OF assms(1)] by simp
  then have "server_inv ((s\<lparr>fsDispSeq := fsDispSeq s + 1\<rparr>)\<lparr>fsIndex := fsIndex s + 1,
      fsJobs := mapSet childID (childOf parent p childID meta (fsIndex s + 1)) (fsJobs s)\<rparr>)"
    if "childID \<noteq> []"
    using server_inv_job [of "s\<lparr>fsDispSeq := fsDispSeq s + 1\<rparr>" "fsIndex s + 1" childID] that
    by (simp add: jobOK_def childOf_def)
  then show ?thesis
    using assms(2) pp by (auto simp: recordChild_def Let_def)
qed

lemma server_inv_placeChild:
  assumes "server_inv s" and "0 < fsDispSeq s" and "placeChild parent childID ports s = (allocID, s')"
  shows "server_inv s'"
proof -
  have "allocOK (fsDispSeq s) (fsIndex s + 1)
      (allocIDOf (fsDispSeq s), pendingAlloc (allocIDOf (fsDispSeq s)) childID (fjNamespace parent) (fsIndex s + 1) ports)"
    using assms(2) by (auto simp: allocOK_def pendingAlloc_def)
  then have "server_inv (s\<lparr>fsIndex := fsIndex s + 1, fsAllocs := mapSet (allocIDOf (fsDispSeq s))
      (pendingAlloc (allocIDOf (fsDispSeq s)) childID (fjNamespace parent) (fsIndex s + 1) ports) (fsAllocs s)\<rparr>)"
    using server_inv_alloc [OF assms(1) refl] by simp
  from server_inv_files [OF this, of "allocIDOf (fsDispSeq s)"] assms(3) show ?thesis
    by (auto simp: placeChild_def Let_def fst_set_mapSet)
qed

lemma server_inv_dispatch:
  assumes "server_inv s"
  shows "server_inv (snd (srv_dispatchJob host unix r p s))"
proof (cases "map_of (fsJobs s) p")
  case None
  then show ?thesis using assms by (simp add: srv_dispatchJob_def)
next
  case (Some parent)
  obtain c ports s3 where r3: "recordChild unix (mapOr ''Meta'' (objOf (rqBody r))) p parent s = (c, ports, s3)"
    by (metis prod_cases3)
  obtain a s5 where r5: "placeChild parent c ports s3 = (a, s5)"
    by fastforce
  have s3: "server_inv s3" "0 < fsDispSeq s3"
    using server_inv_recordChild [OF assms r3] by auto
  show ?thesis
    using Some r3 r5 s3 server_inv_startTasks [OF server_inv_placeChild [OF s3 r5]]
    by (simp add: srv_dispatchJob_def startAllTasks_def)
qed

lemma server_inv_stopAllocs:
  assumes "server_inv s" and "fsIndex s \<le> n"
  shows "server_inv (s\<lparr>fsIndex := n, fsAllocs := map (\<lambda>(i, a). (i, stopAlloc j n a)) (fsAllocs s)\<rparr>)"
proof -
  let ?f = "\<lambda>(i, a). (i, stopAlloc j n a)"
  have keys: "map fst (map ?f (fsAllocs s)) = map fst (fsAllocs s)"
    by (simp add: comp_def case_prod_beta)
  have "allocOK (fsDispSeq s) n (?f e)" if "e \<in> set (fsAllocs s)" for e
  proof -
    have "allocOK (fsDispSeq s) (fsIndex s) e" using assms(1) that by (simp add: server_inv_def)
    then show ?thesis using assms(2) by (cases e) (auto simp: allocOK_def stopAlloc_def)
  qed
  moreover have "\<forall>e \<in> set (fsJobs s). jobOK n e"
    using assms by (auto simp: server_inv_def intro: jobOK_mono)
  moreover have "fst ` set (map ?f (fsAllocs s)) = fst ` set (fsAllocs s)"
    using keys by (metis list.set_map)
  moreover have "distinct (map fst (map ?f (fsAllocs s)))"
    using assms(1) unfolding keys by (simp add: server_inv_def)
  ultimately show ?thesis
    using assms(1) unfolding server_inv_def by simp
qed

lemma server_inv_deregister:
  assumes "server_inv s"
  shows "server_inv (snd (srv_deregisterJob r j s))"
proof -
  have "server_inv (t\<lparr>fsJobs := mapDel j (fsJobs t)\<rparr>)" if "server_inv t" for t
    using that mapDel_subset [of j "fsJobs t"]
    by (auto simp: server_inv_def mapDel_def distinct_map intro: inj_on_subset)
  from this [OF server_inv_stopAllocs [OF assms, of "fsIndex s + 1" j]]
    server_inv_stopAllocs [OF assms, of "fsIndex s + 1" j] assms
  show ?thesis
    by (simp add: srv_deregisterJob_def bumpIndex_def Let_def)
qed

lemma handlers_read_only:
  "snd (srv_listJobs r s) = s" "snd (srv_readJob j s) = s" "snd (srv_listAllocsForJob j s) = s"
  "snd (srv_listAllocs s) = s" "snd (srv_readAlloc i s) = s" "snd (srv_catAllocFile r i s) = s"
  "snd (srv_systemGC s) = s" "snd (notFound s) = s"
  by (simp_all add: srv_listJobs_def srv_readJob_def srv_listAllocsForJob_def srv_listAllocs_def
      srv_readAlloc_def srv_catAllocFile_def srv_systemGC_def notFound_def Let_def split: option.split)

definition writeOutcome ::
  "(string \<Rightarrow> taskSpec \<Rightarrow> taskFate) \<Rightarrow> int \<Rightarrow> http_request \<Rightarrow> fserver \<Rightarrow> fserver \<Rightarrow> bool" where
  "writeOutcome host unix r s s' \<longleftrightarrow>
    s' = s \<or> (\<exists>p. s' = snd (srv_registerJob r p s)) \<or> (\<exists>p. s' = snd (srv_dispatchJob host unix r p s))
    \<or> (\<exists>p. s' = snd (srv_deregisterJob r p s))"

lemma routeJob_outcome: "writeOutcome host unix r s (snd (routeJob host unix r rest s))"
  unfolding routeJob_def Let_def writeOutcome_def
  by (simp add: handlers_read_only) blast

lemma routeOther_outcome: "writeOutcome host unix r s (snd (routeOther r parts s))"
  unfolding routeOther_def Let_def writeOutcome_def
  by (simp add: handlers_read_only) blast

text \<open>A request changes the state only through one of the three writing handlers, after
  the trace entry and the consumption of a fault.\<close>

lemma serveHTTP_state:
  obtains (read) s1 where "snd (serveHTTP host unix r s) = s1"
      "fsJobs s1 = fsJobs s" "fsAllocs s1 = fsAllocs s" "fsAllocFiles s1 = fsAllocFiles s"
      "fsIndex s1 = fsIndex s" "fsDispSeq s1 = fsDispSeq s"
    | (register) s1 p where "snd (serveHTTP host unix r s) = snd (srv_registerJob r p s1)"
      "fsJobs s1 = fsJobs s" "fsAllocs s1 = fsAllocs s" "fsAllocFiles s1 = fsAllocFiles s"
      "fsIndex s1 = fsIndex s" "fsDispSeq s1 = fsDispSeq s"
    | (dispatch) s1 p where "snd (serveHTTP host unix r s) = snd (srv_dispatchJob host unix r p s1)"
      "fsJobs s1 = fsJobs s" "fsAllocs s1 = fsAllocs s" "fsAllocFiles s1 = fsAllocFiles s"
      "fsIndex s1 = fsIndex s" "fsDispSeq s1 = fsDispSeq s"
    | (deregister) s1 p where "snd (serveHTTP host unix r s) = snd (srv_deregisterJob r p s1)"
      "fsJobs s1 = fsJobs s" "fsAllocs s1 = fsAllocs s" "fsAllocFiles s1 = fsAllocFiles s"
      "fsIndex s1 = fsIndex s" "fsDispSeq s1 = fsDispSeq s"
proof -
  obtain f s1 where tf: "takeFaultFor (rqMethod r) (rqPath r)
      (s\<lparr>fsTrace := fsTrace s @ [rqMethod r @ '' '' @ rqPath r]\<rparr>) = (f, s1)"
    by fastforce
  then have same: "fsJobs s1 = fsJobs s" "fsAllocs s1 = fsAllocs s" "fsAllocFiles s1 = fsAllocFiles s"
      "fsIndex s1 = fsIndex s" "fsDispSeq s1 = fsDispSeq s"
    by (auto simp: takeFaultFor_def split: option.splits if_splits)
  have "writeOutcome host unix r s1 (snd (serveHTTP host unix r s))"
  proof (cases "f = None \<or> ftPassthrough (the f)")
    case True
    then have "serveHTTP host unix r s =
        (if 3 \<le> length (splitPath (rqPath r)) \<and> take 2 (splitPath (rqPath r)) = [''v1'', ''job'']
         then routeJob host unix r (drop 2 (splitPath (rqPath r))) s1
         else routeOther r (splitPath (rqPath r)) s1)"
      using tf by (cases f) (auto simp: serveHTTP_def Let_def)
    then show ?thesis
      by (simp add: routeJob_outcome routeOther_outcome)
  next
    case False
    then show ?thesis
      using tf by (auto simp: serveHTTP_def Let_def writeOutcome_def)
  qed
  then show thesis
    unfolding writeOutcome_def using that same by blast
qed

lemma server_inv_cong:
  "fsJobs t = fsJobs s \<Longrightarrow> fsAllocs t = fsAllocs s \<Longrightarrow> fsAllocFiles t = fsAllocFiles s \<Longrightarrow>
   fsIndex t = fsIndex s \<Longrightarrow> fsDispSeq t = fsDispSeq s \<Longrightarrow> server_inv t = server_inv s"
  by (simp add: server_inv_def)

lemma server_inv_serve: "server_inv s \<Longrightarrow> server_inv (snd (serveHTTP host unix r s))"
  by (rule serveHTTP_state [of host unix r s])
    (metis server_inv_cong server_inv_register server_inv_dispatch server_inv_deregister)+

lemma server_inv_PlaceAlloc:
  assumes "server_inv s"
  shows "server_inv (snd (PlaceAlloc j st s))"
proof -
  have "server_inv (s\<lparr>fsDispSeq := fsDispSeq s + 1\<rparr>)"
    using server_inv_seq [OF assms] by simp
  moreover have "allocOK (fsDispSeq s + 1) (fsIndex s + 1) (allocIDOf (fsDispSeq s + 1),
      \<lparr>faID = allocIDOf (fsDispSeq s + 1), faJobID = j, faNamespace = [], faDesiredStatus = ''run'',
       faClientStatus = st, faModifyIndex = fsIndex s + 1, faPorts = None, faTaskStates = []\<rparr>)"
    by (auto simp: allocOK_def)
  ultimately show ?thesis
    using server_inv_alloc [of "s\<lparr>fsDispSeq := fsDispSeq s + 1\<rparr>" "fsDispSeq s + 1" "fsIndex s + 1"]
    by (simp add: PlaceAlloc_def bumpIndex_def Let_def)
qed

lemma server_inv_SetAllocFile: "server_inv s \<Longrightarrow> server_inv (snd (SetAllocFile a p c s))"
  using server_inv_files [of s a] by (auto simp: SetAllocFile_def Let_def map_of_eq_None_iff)

lemma server_inv_exited: "server_inv s \<Longrightarrow> server_inv (mainTaskExited a t ok s)"
  by (auto simp: mainTaskExited_def setTaskStateLocked_def Let_def intro!: server_inv_touch split: option.split)

lemma server_inv_step: "fstep host s s' \<Longrightarrow> server_inv s \<Longrightarrow> server_inv s'"
  by (erule fstepE)
    (auto simp: server_inv_serve server_inv_PlaceAlloc server_inv_SetAllocFile server_inv_exited
      queueFault_def ClearFault_def FailExecNext_def ResetExecNext_def HangupExecNext_def
      takeExecHangup_def takeExecFailure_def takeExecReset_def SetAllocListError_def SetPlaceAllocs_def
      SetAllocStatus_def SetTaskState_def setTaskStateLocked_def intro!: server_inv_touch)

lemma server_inv_reach: "freach host s \<Longrightarrow> server_inv s"
proof (induction rule: freach.induct)
  case init
  show ?case by (simp add: server_inv_def newServer_def)
next
  case (step s s')
  then show ?case using server_inv_step by blast
qed

text \<open>C23. In every state the fake server can reach, allocation IDs are distinct and
  minted from the dispatch counter, every record is filed under its own ID and is
  no newer than the index, and files belong to allocations that exist.\<close>

theorem freach_inv: "freach host s \<Longrightarrow> server_inv s"
  by (rule server_inv_reach)

theorem freach_inv_witness:
  "server_inv (snd (PlaceAlloc ''j'' ''running'' newServer))"
  by (rule freach_inv [of "\<lambda>_ _. Starts"]) (rule freach.step [OF freach.init fstep.placeAlloc])

subsection \<open>Fresh identifiers\<close>

definition hexDigit :: "char \<Rightarrow> nat" where
  "hexDigit c = length (takeWhile (\<lambda>d. d \<noteq> c) ''0123456789abcdef'')"

definition hexVal :: "string \<Rightarrow> nat" where
  "hexVal s = foldl (\<lambda>a c. a * 16 + hexDigit c) 0 s"

lemma hexDigit_nth: "n < 16 \<Longrightarrow> hexDigit (''0123456789abcdef'' ! n) = n"
proof -
  assume "n < 16"
  then have "n \<in> set [0..<16]" by simp
  moreover have "\<forall>n \<in> set [0..<16]. hexDigit (''0123456789abcdef'' ! n) = n"
    by code_simp
  ultimately show ?thesis by blast
qed

lemma hexVal_snoc: "hexVal (s @ [c]) = hexVal s * 16 + hexDigit c"
  by (simp add: hexVal_def)

lemma hexVal_hexText: "hexVal (hexText n) = n"
proof (induction n rule: hexText.induct)
  case (1 n)
  show ?case
  proof (cases "n < 16")
    case True
    then show ?thesis by (subst hexText.simps) (simp add: hexVal_def hexDigit_nth)
  next
    case False
    then show ?thesis using 1 by (subst hexText.simps) (simp add: hexVal_snoc hexDigit_nth)
  qed
qed

lemma hexVal_zeros: "hexVal (replicate k CHR ''0'' @ s) = hexVal s"
proof -
  have "foldl (\<lambda>a c. a * 16 + hexDigit c) 0 (replicate k CHR ''0'') = 0"
    by (induction k) (auto simp: hexDigit_def)
  then show ?thesis by (simp add: hexVal_def)
qed

lemma hex6_inject [simp]: "hex6 m = hex6 n \<longleftrightarrow> m = n"
  by (metis hexVal_hexText hexVal_zeros hex6_def)

lemma allocIDOf_inject [simp]: "allocIDOf m = allocIDOf n \<longleftrightarrow> m = n"
  by (simp add: allocIDOf_def)

lemma fresh_alloc: "server_inv s \<Longrightarrow> fsDispSeq s < n \<Longrightarrow> map_of (fsAllocs s) (allocIDOf n) = None"
  by (fastforce simp: server_inv_def allocOK_def map_of_eq_None_iff)

subsection \<open>Dispatch and stop on the server\<close>

text \<open>What starting the tasks does: only the dispatched allocation's status, task states
  and index change.\<close>

lemma touchAlloc_other:
  "i \<noteq> j \<Longrightarrow> map_of (fsAllocs (snd (touchAlloc i f s))) j = map_of (fsAllocs s) j"
  by (auto simp: touchAlloc_def Let_def bumpIndex_def split: option.split)

lemma touchAlloc_jobs [simp]:
  "fsJobs (snd (touchAlloc i f s)) = fsJobs s" "fsDispSeq (snd (touchAlloc i f s)) = fsDispSeq s"
  "fsNoPlaceAllocs (snd (touchAlloc i f s)) = fsNoPlaceAllocs s" "fsAllocListErr (snd (touchAlloc i f s)) = fsAllocListErr s"
  by (auto simp: touchAlloc_def Let_def bumpIndex_def split: option.split)

lemma startTasks_frame:
  "fsJobs (startTasksFrom host i k ts s) = fsJobs s \<and>
   fsAllocListErr (startTasksFrom host i k ts s) = fsAllocListErr s \<and>
   (\<forall>j. j \<noteq> i \<longrightarrow> map_of (fsAllocs (startTasksFrom host i k ts s)) j = map_of (fsAllocs s) j)"
proof (induction ts arbitrary: k s)
  case (Cons t ts)
  show ?case
    using Cons.IH [of "Suc k"]
    by (auto simp: startMainTask_def startSideTask_def touchAlloc_other split: taskFate.split)
qed simp

text \<open>A side task never changes the client status.\<close>

lemma startTasks_side:
  assumes "map_of (fsAllocs s) i = Some a"
  shows "\<exists>a'. map_of (fsAllocs (startTasksFrom host i (Suc k) ts s)) i = Some a'
    \<and> faClientStatus a' = faClientStatus a \<and> faJobID a' = faJobID a"
  using assms
proof (induction ts arbitrary: k s a)
  case (Cons t ts)
  let ?s = "if tkCommand t = [] then s else startSideTask host i t s"
  have "\<exists>a'. map_of (fsAllocs ?s) i = Some a' \<and> faClientStatus a' = faClientStatus a \<and> faJobID a' = faJobID a"
    using Cons.prems
    by (cases "host i t") (simp_all add: startSideTask_def touchAlloc_def setTaskStateLocked_def Let_def)
  then obtain a' where a': "map_of (fsAllocs ?s) i = Some a'" "faClientStatus a' = faClientStatus a" "faJobID a' = faJobID a"
    by blast
  show ?case
    using Cons.IH [OF a'(1), of "Suc k"] a' by auto
qed simp

definition mainStatus :: "(string \<Rightarrow> taskSpec \<Rightarrow> taskFate) \<Rightarrow> string \<Rightarrow> taskSpec list \<Rightarrow> string" where
  "mainStatus host i ts =
    (case ts of
       [] \<Rightarrow> ''pending''
     | t # _ \<Rightarrow> if tkCommand t = [] then ''pending''
               else if host i t = Starts then ''running'' else ''failed'')"

lemma startTasks_main:
  assumes "map_of (fsAllocs s) i = Some a" and "faClientStatus a = ''pending''"
  shows "\<exists>a'. map_of (fsAllocs (startTasksFrom host i 0 ts s)) i = Some a'
    \<and> faClientStatus a' = mainStatus host i ts \<and> faJobID a' = faJobID a"
proof (cases ts)
  case Nil
  then show ?thesis using assms by (simp add: mainStatus_def)
next
  case (Cons t ts')
  let ?s = "if tkCommand t = [] then s else startMainTask host i t s"
  have "\<exists>a1. map_of (fsAllocs ?s) i = Some a1 \<and> faClientStatus a1 = mainStatus host i ts \<and> faJobID a1 = faJobID a"
    using assms Cons
    by (cases "host i t")
      (simp_all add: startMainTask_def touchAlloc_def setTaskStateLocked_def mainStatus_def Let_def)
  then obtain a1 where a1: "map_of (fsAllocs ?s) i = Some a1"
      "faClientStatus a1 = mainStatus host i ts" "faJobID a1 = faJobID a"
    by blast
  show ?thesis
    using startTasks_side [OF a1(1), of host 0 ts'] a1 Cons by auto
qed

text \<open>C24. Dispatching a registered parent on a server that places allocations answers
  with a child job that is on file under the parent with the metadata of the
  request, and places one new allocation under a fresh ID for it, running exactly
  when its main task started; no other allocation changes.\<close>

theorem dispatch_places_child:
  assumes "freach host s" and "map_of (fsJobs s) p = Some parent" and "\<not> fsNoPlaceAllocs s"
    and "srv_dispatchJob host unix r p s = (resp, s')"
  shows "let c = childIDOf p unix (fsDispSeq s + 1); i = allocIDOf (fsDispSeq s + 1) in
    rsStatus resp = 200 \<and> decObj (strField ''DispatchedJobID'') (the (rsDoc resp)) = Some c
    \<and> (\<exists>j. map_of (fsJobs s') c = Some j \<and> fjParentID j = p \<and> fjNamespace j = fjNamespace parent
         \<and> fjMeta j = mapOr ''Meta'' (objOf (rqBody r)))
    \<and> map_of (fsAllocs s) i = None
    \<and> (\<exists>a. map_of (fsAllocs s') i = Some a \<and> faJobID a = c \<and> faClientStatus a = mainStatus host i (fjTasks parent))
    \<and> (\<forall>k. k \<noteq> i \<longrightarrow> map_of (fsAllocs s') k = map_of (fsAllocs s) k)"
proof -
  let ?c = "childIDOf p unix (fsDispSeq s + 1)" and ?i = "allocIDOf (fsDispSeq s + 1)"
  obtain ports pseq where pp: "assignPorts (fjPortLabels parent) (fsPortSeq s) [] = (ports, pseq)"
    by fastforce
  define s5 where "s5 = snd (placeChild parent ?c ports
    (snd (snd (recordChild unix (mapOr ''Meta'' (objOf (rqBody r))) p parent s))))"
  have s': "s' = startTasksFrom host ?i 0 (fjTasks parent) s5"
    and resp: "rsStatus resp = 200" "decObj (strField ''DispatchedJobID'') (the (rsDoc resp)) = Some ?c"
    using assms(2-4) pp
    by (auto simp: srv_dispatchJob_def recordChild_def placeChild_def startAllTasks_def s5_def Let_def
        writeJSON_def decObj_def strField_def jfield_def)
  have al: "map_of (fsAllocs s5) ?i = Some (pendingAlloc ?i ?c (fjNamespace parent) (fsIndex s + 2) ports)"
    "\<forall>k. k \<noteq> ?i \<longrightarrow> map_of (fsAllocs s5) k = map_of (fsAllocs s) k"
    "map_of (fsJobs s5) ?c = Some (childOf parent p ?c (mapOr ''Meta'' (objOf (rqBody r))) (fsIndex s + 1))"
    using pp by (simp_all add: s5_def recordChild_def placeChild_def Let_def)
  note fr = startTasks_frame [of host ?i 0 "fjTasks parent" s5]
  have "\<exists>a. map_of (fsAllocs s') ?i = Some a \<and> faJobID a = ?c \<and> faClientStatus a = mainStatus host ?i (fjTasks parent)"
    using startTasks_main [OF al(1), of host "fjTasks parent"] by (auto simp: s' pendingAlloc_def)
  then show ?thesis
    using resp al fr fresh_alloc [OF server_inv_reach [OF assms(1)], of "fsDispSeq s + 1"]
    by (simp add: s' childOf_def)
qed

definition demoRequest :: "string \<Rightarrow> string \<Rightarrow> http_request" where
  "demoRequest method path = \<lparr>rqMethod = method, rqPath = path, rqQuery = [], rqBody = None, rqToken = []\<rparr>"

definition demoServer :: fserver where
  "demoServer = snd (serveHTTP (\<lambda>_ _. Starts) 0 (demoRequest ''POST'' ''/v1/job/p'') newServer)"

lemma demoServer_reach: "freach (\<lambda>_ _. Starts) demoServer"
  unfolding demoServer_def by (rule freach.step [OF freach.init fstep.request])

lemma demoServer_parent:
  "map_of (fsJobs demoServer) ''p'' =
     Some \<lparr>fjID = ''p'', fjNamespace = ''default'', fjNodePool = [], fjParentID = [], fjDispatched = False,
           fjMeta = [], fjModifyIndex = 1, fjTasks = [], fjPortLabels = []\<rparr>"
  "\<not> fsNoPlaceAllocs demoServer" "fsDispSeq demoServer = 0"
  by (simp_all add: demoServer_def demoRequest_def serveHTTP_def takeFaultFor_def newServer_def splitPath_def
      trimRightChars_def trimLeftChars_def routeJob_def srv_registerJob_def bumpIndex_def objOf_def arrOf_def
      strOr_def strField_def mapOr_def mapField_def groupPortLabels_def jfield_def Let_def)

theorem dispatch_places_child_witness:
  "rsStatus (fst (srv_dispatchJob (\<lambda>_ _. Starts) 7 (demoRequest ''POST'' []) ''p'' demoServer)) = 200
   \<and> map_of (fsAllocs demoServer) (allocIDOf 1) = None
   \<and> map_of (fsAllocs (snd (srv_dispatchJob (\<lambda>_ _. Starts) 7 (demoRequest ''POST'' []) ''p'' demoServer))) (allocIDOf 1) \<noteq> None"
  using dispatch_places_child [OF demoServer_reach demoServer_parent(1,2),
      of 7 "demoRequest ''POST'' []"] demoServer_parent(3)
  by (cases "srv_dispatchJob (\<lambda>_ _. Starts) 7 (demoRequest ''POST'' []) ''p'' demoServer") (auto simp: Let_def)

text \<open>C25. Deregistering a job without purge keeps the job on file, drives every
  allocation of it to a terminal status, leaves all other allocations alone and
  advances the index past every earlier one.\<close>

theorem deregister_terminates_job:
  assumes "map_of (fsJobs s) j \<noteq> None" and "mapGet (rqQuery r) ''purge'' \<noteq> ''true''"
    and "srv_deregisterJob r j s = (resp, s')"
  shows "rsStatus resp = 200 \<and> fsIndex s' = fsIndex s + 1 \<and> fsJobs s' = fsJobs s
    \<and> (\<forall>i a. map_of (fsAllocs s') i = Some a \<and> faJobID a = j \<longrightarrow> terminalAllocStatus (faClientStatus a))
    \<and> (\<forall>i a. map_of (fsAllocs s) i = Some a \<and> faJobID a \<noteq> j \<longrightarrow> map_of (fsAllocs s') i = Some a)"
proof -
  have m: "map_of (map (\<lambda>(i, a). (i, f a)) xs) i = map_option f (map_of xs i)" for f xs and i :: string
    by (induction xs) auto
  have s': "s' = s\<lparr>fsIndex := fsIndex s + 1,
      fsAllocs := map (\<lambda>(i, a). (i, stopAlloc j (fsIndex s + 1) a)) (fsAllocs s), fsJobs := fsJobs s\<rparr>"
    and "rsStatus resp = 200"
    using assms by (auto simp: srv_deregisterJob_def bumpIndex_def Let_def writeJSON_def)
  moreover have "map_of (fsAllocs s') i = map_option (stopAlloc j (fsIndex s + 1)) (map_of (fsAllocs s) i)" for i
    by (simp add: s' m)
  moreover have "stopAlloc j n z = a \<Longrightarrow> faJobID a = j \<Longrightarrow> terminalAllocStatus (faClientStatus a)"
    "faJobID z \<noteq> j \<Longrightarrow> stopAlloc j n z = z" for n a z
    by (auto simp: stopAlloc_def terminalAllocStatus_def split: if_splits)
  ultimately show ?thesis by (auto; metis)
qed

theorem deregister_terminates_job_witness:
  "fsIndex (snd (srv_deregisterJob (demoRequest ''DELETE'' []) ''p'' demoServer)) = fsIndex demoServer + 1
   \<and> fsJobs (snd (srv_deregisterJob (demoRequest ''DELETE'' []) ''p'' demoServer)) = fsJobs demoServer"
  using deregister_terminates_job [of demoServer "''p''" "demoRequest ''DELETE'' []"] demoServer_parent(1)
  by (cases "srv_deregisterJob (demoRequest ''DELETE'' []) ''p'' demoServer") (simp add: demoRequest_def mapGet_def)

subsection \<open>The index and blocking reads\<close>

lemma touchAlloc_index:
  "fsIndex s \<le> fsIndex (snd (touchAlloc i f s)) \<and>
   (fsAllocs (snd (touchAlloc i f s)) \<noteq> fsAllocs s \<longrightarrow> fsIndex s < fsIndex (snd (touchAlloc i f s)))"
  by (auto simp: touchAlloc_def bumpIndex_def Let_def split: option.split)

lemma startTasks_index: "fsIndex s \<le> fsIndex (startTasksFrom host i k ts s)"
proof (induction ts arbitrary: k s)
  case (Cons t ts)
  have "fsIndex s \<le> fsIndex (startMainTask host i t s)" "fsIndex s \<le> fsIndex (startSideTask host i t s)"
    using touchAlloc_index by (auto simp: startMainTask_def startSideTask_def split: taskFate.split)
  then show ?case
    using Cons.IH [where k = "Suc k"] by (auto intro: le_trans)
qed simp

lemma dispatch_index:
  "snd (srv_dispatchJob host unix r p s) = s \<or> fsIndex s < fsIndex (snd (srv_dispatchJob host unix r p s))"
proof (cases "map_of (fsJobs s) p")
  case (Some parent)
  obtain ports pseq where "assignPorts (fjPortLabels parent) (fsPortSeq s) [] = (ports, pseq)"
    by fastforce
  then show ?thesis
    using Some startTasks_index
    by (auto simp: srv_dispatchJob_def recordChild_def placeChild_def startAllTasks_def Let_def
        intro: less_le_trans [OF _ startTasks_index])
qed (simp add: srv_dispatchJob_def)

definition indexAdvances :: "fserver \<Rightarrow> fserver \<Rightarrow> bool" where
  "indexAdvances s s' \<longleftrightarrow> fsIndex s \<le> fsIndex s' \<and>
    (fsJobs s' \<noteq> fsJobs s \<or> fsAllocs s' \<noteq> fsAllocs s \<longrightarrow> fsIndex s < fsIndex s')"

lemma touch_advances: "indexAdvances s (snd (touchAlloc i f s))"
  using touchAlloc_index [of s i f] by (simp add: indexAdvances_def)

lemma exited_advances: "indexAdvances s (mainTaskExited a t ok s)"
  by (auto simp: mainTaskExited_def touch_advances Let_def split: option.split) (auto simp: indexAdvances_def)

lemma serve_index: "indexAdvances s (snd (serveHTTP host unix r s))"
proof (rule serveHTTP_state [of host unix r s])
  fix s1 p
  assume "snd (serveHTTP host unix r s) = snd (srv_dispatchJob host unix r p s1)"
    "fsJobs s1 = fsJobs s" "fsAllocs s1 = fsAllocs s" "fsIndex s1 = fsIndex s"
  then show ?thesis
    using dispatch_index [of host unix r p s1] by (auto simp: indexAdvances_def)
qed (auto simp: indexAdvances_def srv_registerJob_def srv_deregisterJob_def bumpIndex_def Let_def)

text \<open>C26. The index never goes back, and every step that changes a job or an
  allocation advances it: a reader that blocks on the index it last saw cannot
  miss a change.\<close>

theorem index_advances_on_change:
  "fstep host s s' \<Longrightarrow> fsIndex s \<le> fsIndex s' \<and>
    (fsJobs s' \<noteq> fsJobs s \<or> fsAllocs s' \<noteq> fsAllocs s \<longrightarrow> fsIndex s < fsIndex s')"
  unfolding indexAdvances_def [symmetric]
  by (erule fstepE, simp_all add: serve_index touch_advances exited_advances SetAllocStatus_def SetTaskState_def)
    (auto simp: indexAdvances_def queueFault_def ClearFault_def FailExecNext_def ResetExecNext_def
      HangupExecNext_def takeExecHangup_def takeExecFailure_def takeExecReset_def SetAllocListError_def
      SetPlaceAllocs_def SetAllocFile_def PlaceAlloc_def bumpIndex_def Let_def split: option.splits)

theorem index_advances_on_change_witness:
  "fsIndex newServer < fsIndex (snd (PlaceAlloc ''j'' ''running'' newServer))"
  using index_advances_on_change [OF fstep.placeAlloc [of "\<lambda>_ _. Starts" newServer "''j''" "''running''"]]
  by (simp add: PlaceAlloc_def newServer_def bumpIndex_def Let_def mapSet_def)

subsection \<open>Blocking reads\<close>

text \<open>The server after the changes of a schedule.\<close>

definition afterAll :: "schedule \<Rightarrow> fserver \<Rightarrow> fserver" where
  "afterAll sched s = fold snd sched s"

lemma afterAll_simps [simp]: "afterAll [] s = s" "afterAll (e # sched) s = afterAll sched (snd e s)"
  by (simp_all add: afterAll_def)

text \<open>The select ends at the first change of the index, or with the timer when there is none before.\<close>

lemma selectChange_spec:
  assumes "selectChange wait sched s = (t, s', later)"
  shows "\<exists>seen. sched = seen @ later \<and> s' = afterAll seen s
    \<and> (\<forall>q. strict_prefix q seen \<longrightarrow> fsIndex (afterAll q s) = fsIndex s)
    \<and> (if fsIndex s' \<noteq> fsIndex s then seen \<noteq> [] \<and> t = fst (last seen) \<and> t < wait
       else t = wait \<and> (later = [] \<or> wait \<le> fst (hd later)))"
  using assms
proof (induction sched arbitrary: s)
  case Nil
  then show ?case by simp
next
  case (Cons e sched)
  obtain at f where e: "e = (at, f)" by fastforce
  consider "wait \<le> at" | "at < wait" "fsIndex (f s) \<noteq> fsIndex s" | "at < wait" "fsIndex (f s) = fsIndex s" by linarith
  then show ?case
  proof cases
    case 1
    then show ?thesis using Cons.prems by (auto simp: e)
  next
    case 2
    then have "sched = later" "s' = f s" "t = at" using Cons.prems by (auto simp: e)
    then show ?thesis using 2 by (intro exI [of _ "[e]"]) (auto simp: e strict_prefix_def prefix_Cons)
  next
    case 3
    then have "selectChange wait sched (f s) = (t, s', later)" using Cons.prems by (simp add: e)
    from Cons.IH [OF this] obtain seen where seen: "sched = seen @ later" "s' = afterAll seen (f s)"
      "\<And>q. strict_prefix q seen \<Longrightarrow> fsIndex (afterAll q (f s)) = fsIndex (f s)"
      "if fsIndex s' \<noteq> fsIndex (f s) then seen \<noteq> [] \<and> t = fst (last seen) \<and> t < wait
       else t = wait \<and> (later = [] \<or> wait \<le> fst (hd later))"
      by blast
    have "fsIndex (afterAll q s) = fsIndex s" if "strict_prefix q (e # seen)" for q
      using that seen(3) 3(2) by (cases q) (auto simp: e)
    then show ?thesis using seen(1,2,4) 3(2) by (intro exI [of _ "e # seen"]) (auto simp: e split: if_splits)
  qed
qed

text \<open>C28. When a blocking read is answered. Its query asks for an index past \<open>since\<close> within \<open>wait\<close>; other requests and tasks
  change the server meanwhile, by any schedule. When the index is already past \<open>since\<close> the read is answered at once, from the server as it was.
  Otherwise it is answered at the first change of the index, from the server right after that change, whether or not the index is
  then past \<open>since\<close>; and when the index does not change before the wait is over, at its end, from the server of that moment.
  No change of the index goes unnoticed and no read waits longer than asked.\<close>

theorem blocking_read_answers:
  assumes "blockingParams parseDur (rqQuery r) = Some (since, wait)" and "blockingRead parseDur r read sched s = (t, answer)"
  shows "\<exists>seen later. sched = seen @ later \<and> answer = read (afterAll seen s) \<and>
    (if since < fsIndex s then seen = [] \<and> t = 0
     else (\<forall>q. strict_prefix q seen \<longrightarrow> fsIndex (afterAll q s) = fsIndex s)
       \<and> (if fsIndex (afterAll seen s) \<noteq> fsIndex s then seen \<noteq> [] \<and> t = fst (last seen) \<and> t < wait
          else t = wait \<and> (later = [] \<or> wait \<le> fst (hd later))))"
proof (cases "since < fsIndex s")
  case True
  then show ?thesis using assms by (auto simp: blockingRead_def blockUntil_def)
next
  case False
  obtain s' later where sel: "selectChange wait sched s = (t, s', later)" "answer = read s'"
    using assms False by (auto simp: blockingRead_def blockUntil_def split: prod.splits)
  then obtain seen where "sched = seen @ later" "s' = afterAll seen s"
    "\<forall>q. strict_prefix q seen \<longrightarrow> fsIndex (afterAll q s) = fsIndex s"
    "if fsIndex s' \<noteq> fsIndex s then seen \<noteq> [] \<and> t = fst (last seen) \<and> t < wait
       else t = wait \<and> (later = [] \<or> wait \<le> fst (hd later))"
    using selectChange_spec [OF sel(1)] by blast
  then show ?thesis using sel(2) False by (intro exI [of _ seen] exI [of _ later]) simp
qed

definition deregisterAt :: "duration \<Rightarrow> duration \<times> (fserver \<Rightarrow> fserver)" where
  "deregisterAt t = (t, \<lambda>s. snd (srv_deregisterJob (demoRequest ''DELETE'' []) ''p'' s))"

text \<open>A read that waits for the next index while a job is deregistered two seconds later.\<close>

theorem blocking_read_answers_witness:
  "let r = (demoRequest ''GET'' [])\<lparr>rqQuery := [(''index'', natText (fsIndex demoServer))]\<rparr>;
       (t, resp, s') = blockingRead (\<lambda>_. None) r (srv_readJob ''p'') [deregisterAt (2 * 10 ^ 9)] demoServer
   in t = 2 * 10 ^ 9 \<and> fsIndex s' = fsIndex demoServer + 1"
proof -
  let ?r = "(demoRequest ''GET'' [])\<lparr>rqQuery := [(''index'', natText (fsIndex demoServer))]\<rparr>"
  let ?run = "blockingRead (\<lambda>_. None) ?r (srv_readJob ''p'') [deregisterAt (2 * 10 ^ 9)] demoServer"
  let ?s' = "snd (srv_deregisterJob (demoRequest ''DELETE'' []) ''p'' demoServer)"
  have "fsIndex demoServer = 1" by code_simp
  then have small: "fsIndex demoServer < 2 ^ 64" by simp
  have ask: "blockingParams (\<lambda>_. None) (rqQuery ?r) = Some (fsIndex demoServer, defaultWait)"
    using parseUint64_natText [OF small] by (simp add: blockingParams_def mapGet_def defaultWait_def maxWait_def Let_def)
  have moved: "fsIndex ?s' = fsIndex demoServer + 1"
    using demoServer_parent(1) by (simp add: srv_deregisterJob_def bumpIndex_def Let_def)
  obtain seen later where run: "[deregisterAt (2 * 10 ^ 9)] = seen @ later" "snd ?run = srv_readJob ''p'' (afterAll seen demoServer)"
    "if fsIndex (afterAll seen demoServer) \<noteq> fsIndex demoServer then seen \<noteq> [] \<and> fst ?run = fst (last seen) \<and> fst ?run < defaultWait
     else fst ?run = defaultWait \<and> (later = [] \<or> defaultWait \<le> fst (hd later))"
    using blocking_read_answers [OF ask, of "srv_readJob ''p''" "[deregisterAt (2 * 10 ^ 9)]" demoServer "fst ?run" "snd ?run"] by auto
  have "seen = [deregisterAt (2 * 10 ^ 9)]"
  proof (rule ccontr)
    assume "seen \<noteq> [deregisterAt (2 * 10 ^ 9)]"
    then have "seen = []" "later = [deregisterAt (2 * 10 ^ 9)]" using run(1) by (auto simp: Cons_eq_append_conv)
    then show False using run(3) by (simp add: deregisterAt_def defaultWait_def)
  qed
  moreover have "snd (snd ?run) = afterAll seen demoServer" unfolding run(2) by (simp add: srv_readJob_def split: option.split)
  ultimately show ?thesis
    using run(3) moved by (simp add: deregisterAt_def Let_def case_prod_beta)
qed

text \<open>The read with which stop confirms: it starts one index below the one the deregistration answered, is answered at
  once, and lists no allocation of the job that is not terminal.\<close>

lemma confirm_read_immediate:
  assumes "map_of (fsJobs s) j \<noteq> None" and "mapGet (rqQuery r) ''purge'' \<noteq> ''true''" and "srv_deregisterJob r j s = (resp, s')"
    and "decObj (natField ''JobModifyIndex'') (the (rsDoc resp)) = Some idx" and "idx < 2 ^ 64"
    and "mapGet (rqQuery r') ''index'' = natText (idx - 1)"
  shows "srv_waitAllocsForJob parseDur r' j sched s' = (0, srv_listAllocsForJob j s')
    \<and> (\<forall>i a. (i, a) \<in> set (fsAllocs s') \<and> faJobID a = j \<longrightarrow> terminalAllocStatus (faClientStatus a))"
proof -
  have idx: "idx = fsIndex s + 1" "s' = s\<lparr>fsIndex := fsIndex s + 1,
      fsAllocs := map (\<lambda>(i, a). (i, stopAlloc j (fsIndex s + 1) a)) (fsAllocs s), fsJobs := fsJobs s\<rparr>"
    using assms(1-4) by (auto simp: srv_deregisterJob_def bumpIndex_def writeJSON_def decObj_def natField_def intField_def jfield_def Let_def)
  have "\<exists>wait. blockingParams parseDur (rqQuery r') = Some (fsIndex s, wait)"
    using assms(5,6) by (simp add: blockingParams_def parseUint64_natText idx(1) Let_def)
  then obtain wait where wait: "blockingParams parseDur (rqQuery r') = Some (fsIndex s, wait)" ..
  have same: "s\<lparr>fsIndex := i, fsAllocs := as, fsJobs := js, fsAllocListErr := False\<rparr> = s\<lparr>fsIndex := i, fsAllocs := as, fsJobs := js\<rparr>"
    if "\<not> fsAllocListErr s" for i as js
    using that by (cases s) simp
  have "srv_waitAllocsForJob parseDur r' j sched s' = (0, srv_listAllocsForJob j s')"
    using wait by (auto simp: srv_waitAllocsForJob_def blockingRead_def blockUntil_def idx(2) same srv_listAllocsForJob_def)
  moreover have stopped: "terminalAllocStatus (faClientStatus (stopAlloc j k a))" if "faJobID (stopAlloc j k a) = j" for k a
    using that by (auto simp: stopAlloc_def terminalAllocStatus_def)
  have "terminalAllocStatus (faClientStatus a)" if a: "(i, a) \<in> set (fsAllocs s')" "faJobID a = j" for i a
  proof -
    obtain b where "a = stopAlloc j (fsIndex s + 1) b" using a(1) by (auto simp: idx(2))
    then show ?thesis using stopped [of "fsIndex s + 1" b] a(2) by simp
  qed
  ultimately show ?thesis by blast
qed

end
