(* ===== verification/Shell_Words.thy ===== *)
theory Shell_Words
  imports Go_Strings
begin

text \<open>
  Shell quoting as the runtime writes and reads it: \<^verbatim>\<open>shellQuote\<close> and
  \<^verbatim>\<open>unshellQuote\<close> (\<^verbatim>\<open>staging.go\<close>), the exec wire grammar
  \<^verbatim>\<open>parseExecWireArgv\<close> and the recognition of gc's transport launch
  (\<^verbatim>\<open>ops.go\<close>). The grammar of one quoted word is characterised first, in both
  directions; argument vectors and the launch recognition rest on it.
\<close>

abbreviation quoteChar :: char where
  "quoteChar \<equiv> CHR 0x27"

abbreviation backslash :: char where
  "backslash \<equiv> CHR 0x5C"

subsection \<open>Definitions\<close>

definition shellQuote :: "string \<Rightarrow> string" where
  "shellQuote value =
    [quoteChar]
    @ concat (map (\<lambda>c. if c = quoteChar then [quoteChar, backslash, quoteChar, quoteChar] else [c]) value)
    @ [quoteChar]"

text \<open>The inner loop of \<^verbatim>\<open>parseExecWireArgv\<close>, after the opening quote: the argument
  collected so far and the rest of the command; \<^const>\<open>None\<close> is \<^verbatim>\<open>return nil, false\<close>.\<close>

function scanQuoted :: "string \<Rightarrow> string \<Rightarrow> (string \<times> string) option" where
  "scanQuoted arg command =
    (if quoteChar \<notin> set command then None
     else let arg' = arg @ takeWhile (\<lambda>c. c \<noteq> quoteChar) command;
              rest = tl (dropWhile (\<lambda>c. c \<noteq> quoteChar) command)
          in if hasPrefix rest [backslash, quoteChar, quoteChar]
             then scanQuoted (arg' @ [quoteChar]) (drop 3 rest)
             else Some (arg', rest))"
  by pat_completeness auto
termination
proof (relation "measure (\<lambda>(_, command). length command)", simp)
  fix arg command :: string and x xa :: string
  assume "\<not> quoteChar \<notin> set command"
    and "xa = tl (dropWhile (\<lambda>c. c \<noteq> quoteChar) command)"
  moreover have "length (dropWhile (\<lambda>c. c \<noteq> quoteChar) command) \<le> length command"
    by (rule length_dropWhile_le)
  ultimately show "((x @ [quoteChar], drop 3 xa), arg, command) \<in> measure (\<lambda>(_, command). length command)"
    by (cases command) auto
qed

declare scanQuoted.simps [simp del]

lemma scanQuoted_shorter: "scanQuoted arg command = Some (a, rest) \<Longrightarrow> length rest < length command"
proof (induction arg command rule: scanQuoted.induct)
  case (1 arg command)
  let ?r = "tl (dropWhile (\<lambda>c. c \<noteq> quoteChar) command)"
  have q: "quoteChar \<in> set command"
    using 1(2) by (subst (asm) scanQuoted.simps) (auto split: if_splits)
  then have "command \<noteq> []" by auto
  then have len: "length ?r < length command"
    using length_dropWhile_le [of "\<lambda>c. c \<noteq> quoteChar" command]
    by (cases command) auto
  show ?case
  proof (cases "hasPrefix ?r [backslash, quoteChar, quoteChar]")
    case True
    then have "scanQuoted ((arg @ takeWhile (\<lambda>c. c \<noteq> quoteChar) command) @ [quoteChar]) (drop 3 ?r) = Some (a, rest)"
      using 1(2) q by (subst (asm) scanQuoted.simps) (simp add: Let_def)
    then show ?thesis
      using 1(1) q True len by fastforce
  next
    case False
    then show ?thesis
      using 1(2) q len by (subst (asm) scanQuoted.simps) (simp add: Let_def)
  qed
qed

function parseArgvFrom :: "string list \<Rightarrow> string \<Rightarrow> string list option" where
  "parseArgvFrom argv [] = Some argv"
| "parseArgvFrom argv (c # command) =
    (if c \<noteq> quoteChar then None
     else (case scanQuoted [] command of
         None \<Rightarrow> None
       | Some (arg, rest) \<Rightarrow>
           (case rest of
              [] \<Rightarrow> Some (argv @ [arg])
            | d # rest' \<Rightarrow> if d \<noteq> CHR '' '' then None else parseArgvFrom (argv @ [arg]) rest')))"
  by pat_completeness auto
termination
  by (relation "measure (\<lambda>(_, command). length command)") (auto dest: scanQuoted_shorter)

definition parseExecWireArgv :: "string \<Rightarrow> string list option" where
  "parseExecWireArgv command = parseArgvFrom [] command"

definition tmuxSessionName :: string where
  "tmuxSessionName = ''main''"

definition separableTransportLaunch :: "string list \<Rightarrow> string list option" where
  "separableTransportLaunch command0 =
    (case (if length command0 = 3 \<and> command0 ! 0 = ''/bin/sh'' \<and> command0 ! 1 = ''-c''
           then parseExecWireArgv (command0 ! 2) else Some command0) of
       None \<Rightarrow> None
     | Some command \<Rightarrow>
         if length command \<noteq> 6 \<or> command ! 0 \<noteq> ''tmux'' \<or> command ! 4 \<noteq> tmuxSessionName \<or> command ! 5 = []
         then None
         else if \<not> (command ! 1 = ''new-session'' \<and> command ! 2 = ''-d'' \<and> command ! 3 = ''-s'' \<or>
                    command ! 1 = ''respawn-pane'' \<and> command ! 2 = ''-k'' \<and> command ! 3 = ''-t'')
         then None
         else Some command)"

definition isSeparableTransportLaunch :: "string list \<Rightarrow> bool" where
  "isSeparableTransportLaunch command \<longleftrightarrow> separableTransportLaunch command \<noteq> None"

text \<open>The loop of \<^verbatim>\<open>unshellQuote\<close>; \<^const>\<open>None\<close> is \<^verbatim>\<open>return word\<close>.\<close>

function unshellFrom :: "string \<Rightarrow> string \<Rightarrow> string option" where
  "unshellFrom b rest =
    (if rest = [] \<or> quoteChar \<notin> set rest then None
     else let b' = b @ takeWhile (\<lambda>c. c \<noteq> quoteChar) rest;
              rest' = tl (dropWhile (\<lambda>c. c \<noteq> quoteChar) rest)
          in if rest' = [] then Some b'
             else if \<not> hasPrefix rest' [backslash, quoteChar] then None
             else let rest'' = drop 2 rest'
                  in if rest'' = [] \<or> hd rest'' \<noteq> quoteChar then None
                     else unshellFrom (b' @ [quoteChar]) (tl rest''))"
  by pat_completeness auto
termination
proof (relation "measure (\<lambda>(_, rest). length rest)", simp)
  fix b rest x xa xb :: string
  assume "\<not> (rest = [] \<or> quoteChar \<notin> set rest)"
    and "xa = tl (dropWhile (\<lambda>c. c \<noteq> quoteChar) rest)" and "xb = drop 2 xa"
  moreover have "length (dropWhile (\<lambda>c. c \<noteq> quoteChar) rest) \<le> length rest"
    by (rule length_dropWhile_le)
  ultimately show "((x @ [quoteChar], tl xb), b, rest) \<in> measure (\<lambda>(_, rest). length rest)"
    by (cases rest) auto
qed

declare unshellFrom.simps [simp del]

definition unshellQuote :: "string \<Rightarrow> string" where
  "unshellQuote word =
    (if length word < 2 \<or> hd word \<noteq> quoteChar then word
     else (case unshellFrom [] (tl word) of None \<Rightarrow> word | Some v \<Rightarrow> v))"

definition stripLeadingExec :: "string \<Rightarrow> string \<times> bool" where
  "stripLeadingExec cmd =
    (if \<not> hasPrefix cmd ''exec'' then (cmd, False)
     else let rest = drop 4 cmd in
       if rest = [] \<or> (hd rest \<noteq> CHR '' '' \<and> hd rest \<noteq> CHR 0x09) then (cmd, False)
       else (trimLeftChars {CHR '' '', CHR 0x09} rest, True))"

subsection \<open>One quoted word\<close>

definition quoteBody :: "string \<Rightarrow> string" where
  "quoteBody value =
    concat (map (\<lambda>c. if c = quoteChar then [quoteChar, backslash, quoteChar, quoteChar] else [c]) value)"

lemma shellQuote_body: "shellQuote v = quoteChar # quoteBody v @ [quoteChar]"
  by (simp add: shellQuote_def quoteBody_def)

lemma quoteBody_simps [simp]:
  "quoteBody [] = []"
  "quoteBody (c # v) = (if c = quoteChar then [quoteChar, backslash, quoteChar, quoteChar] else [c]) @ quoteBody v"
  by (simp_all add: quoteBody_def)

lemma scanQuoted_plain:
  "c \<noteq> quoteChar \<Longrightarrow> scanQuoted arg (c # s) = scanQuoted (arg @ [c]) s"
  by (subst (1 2) scanQuoted.simps) (simp add: Let_def)

lemma scanQuoted_escape:
  "scanQuoted arg ([quoteChar, backslash, quoteChar, quoteChar] @ s) = scanQuoted (arg @ [quoteChar]) s"
  by (subst scanQuoted.simps) (simp add: Let_def hasPrefix_def)

lemma scanQuoted_end:
  "\<not> hasPrefix rest [backslash, quoteChar, quoteChar] \<Longrightarrow> scanQuoted arg (quoteChar # rest) = Some (arg, rest)"
  by (subst scanQuoted.simps) (simp add: Let_def)

lemma scanQuoted_quoteBody:
  "\<not> hasPrefix rest [backslash, quoteChar, quoteChar] \<Longrightarrow>
   scanQuoted arg (quoteBody v @ quoteChar # rest) = Some (arg @ v, rest)"
proof (induction v arbitrary: arg)
  case Nil
  then show ?case by (simp add: scanQuoted_end)
next
  case (Cons c v)
  then show ?case
    using scanQuoted_escape [of arg "quoteBody v @ quoteChar # rest"] by (simp add: scanQuoted_plain)
qed

lemma scanQuoted_Some:
  "scanQuoted arg command = Some (a, rest) \<Longrightarrow>
   \<exists>v. a = arg @ v \<and> command = quoteBody v @ quoteChar # rest
     \<and> \<not> hasPrefix rest [backslash, quoteChar, quoteChar]"
proof (induction command arbitrary: arg rule: length_induct)
  case (1 command)
  show ?case
  proof (cases command)
    case Nil
    then show ?thesis using 1(2) by (subst (asm) scanQuoted.simps) simp
  next
    case (Cons c s)
    show ?thesis
    proof (cases "c = quoteChar")
      case False
      then have "scanQuoted (arg @ [c]) s = Some (a, rest)"
        using 1(2) Cons by (simp add: scanQuoted_plain)
      with 1(1) Cons obtain v where "a = (arg @ [c]) @ v" "s = quoteBody v @ quoteChar # rest"
        "\<not> hasPrefix rest [backslash, quoteChar, quoteChar]" by force
      then show ?thesis
        using False Cons by (intro exI [of _ "c # v"]) simp
    next
      case True
      show ?thesis
      proof (cases "hasPrefix s [backslash, quoteChar, quoteChar]")
        case esc: True
        then obtain t where s: "s = [backslash, quoteChar, quoteChar] @ t"
          by (auto simp: hasPrefix_iff)
        then have "scanQuoted (arg @ [quoteChar]) t = Some (a, rest)"
          using 1(2) Cons True scanQuoted_escape [of arg t] by simp
        with 1(1) Cons s obtain v where "a = (arg @ [quoteChar]) @ v" "t = quoteBody v @ quoteChar # rest"
          "\<not> hasPrefix rest [backslash, quoteChar, quoteChar]" by force
        then show ?thesis
          using True Cons s by (intro exI [of _ "quoteChar # v"]) simp
      next
        case False
        then show ?thesis
          using 1(2) Cons True scanQuoted_end [OF False, of arg] by (intro exI [of _ "[]"]) simp
      qed
    qed
  qed
qed

subsection \<open>Argument vectors\<close>

text \<open>The wire form gc sends: every argument quoted, one space between two.\<close>

definition wireArgv :: "string list \<Rightarrow> string" where
  "wireArgv args = joinStrings '' '' (map shellQuote args)"

lemma wireArgv_simps [simp]:
  "wireArgv [] = []"
  "wireArgv [a] = shellQuote a"
  "wireArgv (a # b # args) = shellQuote a @ '' '' @ wireArgv (b # args)"
  by (simp_all add: wireArgv_def)

lemma no_escape [simp]:
  "\<not> hasPrefix [] [backslash, quoteChar, quoteChar]"
  "\<not> hasPrefix (CHR '' '' # s) [backslash, quoteChar, quoteChar]"
  by (simp_all add: hasPrefix_def)

lemma parseArgvFrom_wire: "parseArgvFrom argv (wireArgv args) = Some (argv @ args)"
proof (induction args arbitrary: argv)
  case (Cons a args)
  show ?case
  proof (cases args)
    case Nil
    then show ?thesis
      using scanQuoted_quoteBody [of "[]" "[]" a] by (simp add: shellQuote_body)
  next
    case (Cons b bs)
    then show ?thesis
      using scanQuoted_quoteBody [of "CHR '' '' # wireArgv args" "[]" a] Cons.IH [of "argv @ [a]"]
      by (simp add: shellQuote_body)
  qed
qed simp

lemma parseArgvFrom_trailing:
  "args \<noteq> [] \<Longrightarrow> parseArgvFrom argv (wireArgv args @ '' '') = Some (argv @ args)"
proof (induction args arbitrary: argv)
  case (Cons a args)
  show ?case
  proof (cases args)
    case Nil
    then show ?thesis
      using scanQuoted_quoteBody [of "'' ''" "[]" a] by (simp add: shellQuote_body)
  next
    case (Cons b bs)
    then show ?thesis
      using scanQuoted_quoteBody [of "CHR '' '' # wireArgv args @ '' ''" "[]" a] Cons.IH [of "argv @ [a]"]
      by (simp add: shellQuote_body)
  qed
qed simp

lemma parseArgvFrom_Some:
  "parseArgvFrom argv command = Some out \<Longrightarrow>
   \<exists>args. out = argv @ args \<and> (command = wireArgv args \<or> args \<noteq> [] \<and> command = wireArgv args @ '' '')"
proof (induction argv command rule: parseArgvFrom.induct)
  case (1 argv)
  then show ?case by (intro exI [of _ "[]"]) simp
next
  case (2 argv c command)
  from 2(2) obtain arg rest where c: "c = quoteChar" and sc: "scanQuoted [] command = Some (arg, rest)"
    by (auto split: if_splits option.splits prod.splits)
  have word: "c # command = shellQuote arg @ rest"
    using scanQuoted_Some [OF sc] c by (auto simp: shellQuote_body)
  show ?case
  proof (cases rest)
    case Nil
    then show ?thesis
      using 2(2) c sc word by (intro exI [of _ "[arg]"]) simp
  next
    case (Cons d rest')
    then have d: "d = CHR '' ''" and rec: "parseArgvFrom (argv @ [arg]) rest' = Some out"
      using 2(2) c sc by (auto split: if_splits)
    then obtain args where out: "out = (argv @ [arg]) @ args"
      and rest': "rest' = wireArgv args \<or> args \<noteq> [] \<and> rest' = wireArgv args @ '' ''"
      using 2(1) [of "(arg, rest)" arg rest d rest'] c sc Cons by auto
    have "wireArgv (arg # args) = shellQuote arg @ '' '' @ wireArgv args" if "args \<noteq> []"
      using that by (cases args) auto
    then show ?thesis
      using out rest' word Cons d by (cases "args = []") (auto intro!: exI [of _ "arg # args"])
  qed
qed

lemma parseExecWireArgv_Some:
  "parseExecWireArgv command = Some args \<longleftrightarrow> command = wireArgv args \<or> args \<noteq> [] \<and> command = wireArgv args @ '' ''"
  using parseArgvFrom_wire [of "[]" args] parseArgvFrom_trailing [of args "[]"]
    parseArgvFrom_Some [of "[]" command args]
  by (auto simp: parseExecWireArgv_def)

text \<open>C21. The exec wire decoder accepts exactly the quoted form of an argument
  vector (with at most one trailing space) and returns that vector: what gc's
  quoting encodes is decoded to the same arguments, and nothing outside the
  grammar is recognised.\<close>

theorem parseExecWireArgv_iff:
  "parseExecWireArgv command = Some args
    \<longleftrightarrow> command = joinStrings '' '' (map shellQuote args)
      \<or> args \<noteq> [] \<and> command = joinStrings '' '' (map shellQuote args) @ '' ''"
  by (simp add: parseExecWireArgv_Some wireArgv_def)

lemma parseExecWireArgv_wire: "parseExecWireArgv (wireArgv args) = Some args"
  using parseArgvFrom_wire [of "[]" args] by (simp add: parseExecWireArgv_def)

subsection \<open>Decoding one quoted word\<close>

lemma unshellFrom_plain: "c \<noteq> quoteChar \<Longrightarrow> unshellFrom b (c # s) = unshellFrom (b @ [c]) s"
  by (subst (1 2) unshellFrom.simps) (auto simp: Let_def)

lemma unshellFrom_escape:
  "unshellFrom b ([quoteChar, backslash, quoteChar, quoteChar] @ s) = unshellFrom (b @ [quoteChar]) s"
  by (subst unshellFrom.simps) (simp add: Let_def hasPrefix_def)

lemma unshellFrom_quoteBody: "unshellFrom b (quoteBody v @ [quoteChar]) = Some (b @ v)"
proof (induction v arbitrary: b)
  case Nil
  then show ?case by (subst unshellFrom.simps) (simp add: Let_def)
next
  case (Cons c v)
  then show ?case
    using unshellFrom_escape [of b "quoteBody v @ [quoteChar]"] by (simp add: unshellFrom_plain)
qed

lemma unshellQuote_shellQuote: "unshellQuote (shellQuote v) = v"
  using unshellFrom_quoteBody [of "[]" v] by (simp add: unshellQuote_def shellQuote_body)

subsection \<open>The transport launch\<close>

definition launchForms :: "string \<Rightarrow> string list list" where
  "launchForms pane =
    [[''tmux'', ''new-session'', ''-d'', ''-s'', tmuxSessionName, pane],
     [''tmux'', ''respawn-pane'', ''-k'', ''-t'', tmuxSessionName, pane]]"

lemma length6: "length xs = 6 \<longleftrightarrow> (\<exists>a b c d e f. xs = [a, b, c, d, e, f])"
  by (auto simp: numeral_eq_Suc length_Suc_conv)

lemma length3: "length xs = 3 \<longleftrightarrow> (\<exists>a b c. xs = [a, b, c])"
  by (auto simp: numeral_eq_Suc length_Suc_conv)

lemma launchForms_length: "c \<in> set (launchForms pane) \<Longrightarrow> length c = 6"
  by (auto simp: launchForms_def)

lemma launch_direct:
  "length cmd \<noteq> 3 \<Longrightarrow>
   separableTransportLaunch cmd = Some c \<longleftrightarrow> cmd = c \<and> (\<exists>pane. pane \<noteq> [] \<and> c \<in> set (launchForms pane))"
  by (auto simp: separableTransportLaunch_def launchForms_def length6 split: if_splits)

lemma launch_wire:
  "separableTransportLaunch [''/bin/sh'', ''-c'', w] =
    (case parseExecWireArgv w of None \<Rightarrow> None
     | Some c \<Rightarrow> if (\<exists>pane. pane \<noteq> [] \<and> c \<in> set (launchForms pane)) then Some c else None)"
  by (auto simp: separableTransportLaunch_def launchForms_def length6 split: option.split)

text \<open>C22. The launch recognition is exact: a command is a transport launch exactly
  when it is one of gc's two tmux forms with a nonempty pane command, given
  directly or as the wire form under \<^verbatim>\<open>/bin/sh -c\<close>; the result is that form.\<close>

theorem separableTransportLaunch_iff:
  "separableTransportLaunch command = Some c \<longleftrightarrow>
    (\<exists>pane. pane \<noteq> [] \<and> c \<in> set (launchForms pane)) \<and>
    (command = c \<or>
     command = [''/bin/sh'', ''-c'', joinStrings '' '' (map shellQuote c)] \<or>
     command = [''/bin/sh'', ''-c'', joinStrings '' '' (map shellQuote c) @ '' ''])"
proof (cases "length command = 3 \<and> command ! 0 = ''/bin/sh'' \<and> command ! 1 = ''-c''")
  case True
  then obtain w where w: "command = [''/bin/sh'', ''-c'', w]"
    by (auto simp: length3)
  define launches where "launches d \<longleftrightarrow> (\<exists>pane. pane \<noteq> [] \<and> d \<in> set (launchForms pane))" for d
  have len: "length c = 6" if "launches c" using that launchForms_length by (auto simp: launches_def)
  have "separableTransportLaunch command = Some c \<longleftrightarrow> parseExecWireArgv w = Some c \<and> launches c"
    by (auto simp: w launch_wire launches_def [symmetric] split: option.split)
  moreover have "c \<noteq> command \<and> c \<noteq> []" if "launches c" using len [OF that] w by auto
  ultimately show ?thesis
    unfolding launches_def [symmetric] parseExecWireArgv_Some wireArgv_def w by auto
next
  case False
  show ?thesis
  proof (cases "length command = 3")
    case True
    then show ?thesis
      using False by (auto simp: separableTransportLaunch_def launchForms_def split: if_splits)
  next
    case 2: False
    then show ?thesis
      using launch_direct [OF 2, of c] by auto
  qed
qed

end
