(* ===== verification/Staging.thy ===== *)
theory Staging
  imports Data_Model Shell_Words
begin

text \<open>
  What a session's box is given (\<^verbatim>\<open>staging.go\<close>, \<^verbatim>\<open>image_env.go\<close>, \<^verbatim>\<open>codex_home.go\<close>,
  \<^verbatim>\<open>arg_file_stage.go\<close>, \<^verbatim>\<open>host_path_args.go\<close>): workspace files read off the
  orchestrator, the secret environment and the script that exports it, the gc context
  and the Codex home. The orchestrator's process environment and file system are a
  parameter.
\<close>

subsection \<open>The orchestrator\<close>

datatype fileKind = Regular | Directory | OtherKind

record fileInfo =
  fiKind :: fileKind
  fiPerm :: int
  fiSize :: nat

text \<open>The entries of an archive.\<close>

record tarEntry =
  teName :: string
  teMode :: int
  teContent :: string

text \<open>\<open>hostWalk\<close> is the sequence of calls \<^verbatim>\<open>filepath.Walk\<close> makes below a root; \<open>hostLink\<close>
  is \<^verbatim>\<open>filepath.EvalSymlinks\<close>, \<^const>\<open>None\<close> on error; \<open>hostTar\<close> is the byte encoding of
  \<^verbatim>\<open>archive/tar\<close>; \<open>hostGC\<close> runs the gc on this process's path and gives its error and
  combined output, \<^const>\<open>None\<close> when there is no gc.\<close>

record host =
  hostEnv :: "string \<Rightarrow> string option"
  hostStat :: "string \<Rightarrow> goerr + fileInfo"
  hostRead :: "string \<Rightarrow> goerr + string"
  hostWalk :: "string \<Rightarrow> (string \<times> (goerr + fileInfo)) list"
  hostLink :: "string \<Rightarrow> string option"
  hostHome :: "string option"
  hostTar :: "tarEntry list \<Rightarrow> string"
  hostGC :: "string list \<Rightarrow> (goerr option \<times> string) option"

definition getenv :: "host \<Rightarrow> string \<Rightarrow> string" where
  "getenv h k = (case hostEnv h k of None \<Rightarrow> [] | Some v \<Rightarrow> v)"

subsection \<open>Workspace files\<close>

definition validateStagePath :: "string \<Rightarrow> goerr option" where
  "validateStagePath path =
    (let invalid = ESent ErrStagePathInvalid in
     if path = [] then Some (EWrap [] invalid '': empty path'')
     else if isAbs path then Some (EWrap [] invalid ('': '' @ goQuote path @ '' is absolute''))
     else let clean = pathClean path in
       if clean = ''..'' \<or> hasPrefix clean ''../''
       then Some (EWrap [] invalid ('': '' @ goQuote path @ '' escapes its destination directory''))
       else None)"

definition stageMode :: "fileInfo \<Rightarrow> int" where
  "stageMode info = fiPerm info"

text \<open>The part of \<open>path\<close> below \<open>root\<close>, as \<^verbatim>\<open>filepath.Rel\<close> gives it for a path the walk
  found below the root.\<close>

definition relPath :: "string \<Rightarrow> string \<Rightarrow> string" where
  "relPath root path =
    (let b = pathClean root; t = pathClean path
     in if b = ''.'' then t else trimLeftChars {CHR ''/''} (trimPrefix t b))"

fun walkFiles :: "host \<Rightarrow> copyEntry \<Rightarrow> (string \<times> (goerr + fileInfo)) list \<Rightarrow> goerr + stageFile list" where
  "walkFiles h entry [] = Inr []"
| "walkFiles h entry ((path, walked) # rest) =
    (case walked of
       Inl e \<Rightarrow> Inl e
     | Inr info \<Rightarrow>
         if path = Src entry \<or> fiKind info \<noteq> Regular then walkFiles h entry rest
         else case hostRead h path of
             Inl e \<Rightarrow> Inl e
           | Inr content \<Rightarrow>
               (case walkFiles h entry rest of
                  Inl e \<Rightarrow> Inl e
                | Inr fs \<Rightarrow> Inr (\<lparr>sfPath = pathJoin [RelDst entry, relPath (Src entry) path],
                    sfContent = content, sfMode = stageMode info\<rparr> # fs)))"

definition copyOne :: "host \<Rightarrow> copyEntry \<Rightarrow> goerr + stageFile list" where
  "copyOne h entry =
    (let ctx = ''copy_files src '' @ goQuote (Src entry) @ '': '' in
     if trimSpace (Src entry) = [] then Inl (ENew ''copy_files entry has no src'')
     else case hostStat h (Src entry) of
       Inl e \<Rightarrow> Inl (EWrap ctx e [])
     | Inr info \<Rightarrow>
         (case fiKind info of
            Regular \<Rightarrow>
              (case hostRead h (Src entry) of
                 Inl e \<Rightarrow> Inl (EWrap ctx e [])
               | Inr content \<Rightarrow>
                   Inr [\<lparr>sfPath = (if RelDst entry = [] then pathBase (Src entry) else RelDst entry),
                         sfContent = content, sfMode = stageMode info\<rparr>])
          | Directory \<Rightarrow>
              (case walkFiles h entry (hostWalk h (Src entry)) of
                 Inl e \<Rightarrow> Inl (EWrap (''copy_files src tree '' @ goQuote (Src entry) @ '': '') e [])
               | Inr fs \<Rightarrow> Inr fs)
          | OtherKind \<Rightarrow> Inl (ENew (''copy_files src '' @ goQuote (Src entry) @ '' is neither a file nor a directory''))))"

fun copyAll :: "host \<Rightarrow> copyEntry list \<Rightarrow> goerr + stageFile list" where
  "copyAll h [] = Inr []"
| "copyAll h (entry # rest) =
    (case copyOne h entry of
       Inl e \<Rightarrow> Inl e
     | Inr fs \<Rightarrow> (case copyAll h rest of Inl e \<Rightarrow> Inl e | Inr gs \<Rightarrow> Inr (fs @ gs)))"

fun firstInvalid :: "stageFile list \<Rightarrow> goerr option" where
  "firstInvalid [] = None"
| "firstInvalid (f # fs) = (case validateStagePath (sfPath f) of Some e \<Rightarrow> Some e | None \<Rightarrow> firstInvalid fs)"

definition copyFilesToStageFiles :: "host \<Rightarrow> copyEntry list \<Rightarrow> goerr + stageFile list" where
  "copyFilesToStageFiles h entries =
    (case copyAll h entries of
       Inl e \<Rightarrow> Inl e
     | Inr files \<Rightarrow>
         (case firstInvalid files of
            Some e \<Rightarrow> Inl (EWrap ''copy_files destination: '' e [])
          | None \<Rightarrow> Inr files))"

definition buildTar :: "stageFile list \<Rightarrow> goerr + tarEntry list" where
  "buildTar files =
    (case firstInvalid files of
       Some e \<Rightarrow> Inl e
     | None \<Rightarrow> Inr (map (\<lambda>f. \<lparr>teName = sfPath f, teMode = (if sfMode f = 0 then 420 else sfMode f),
                             teContent = sfContent f\<rparr>) files))"

subsection \<open>Launch options\<close>

definition quoteSet :: "char set" where
  "quoteSet = {CHR 0x27, CHR 0x22}"

definition trimQuotes :: "string \<Rightarrow> string" where
  "trimQuotes s = trimRightChars quoteSet (trimLeftChars quoteSet s)"

definition optionChar :: "char \<Rightarrow> bool" where
  "optionChar c \<longleftrightarrow> isLetter c \<or> isDigit c \<or> c \<in> set ''._:-''"

definition safeLaunchOptionValue :: "string \<Rightarrow> bool \<Rightarrow> string" where
  "safeLaunchOptionValue raw effort =
    (let value = trimQuotes (trimSpace raw) in
     if value = [] then []
     else if \<not> list_all optionChar value then []
     else if effort \<and> containsAny value ''.:_'' then []
     else value)"

text \<open>\<^const>\<open>None\<close> is the empty key.\<close>

definition parseCodexSetting :: "string \<Rightarrow> (string \<times> string) option" where
  "parseCodexSetting word0 =
    (let word = trimQuotes (trimSpace word0);
         model = safeLaunchOptionValue (trimPrefix word ''model='') False;
         effort = safeLaunchOptionValue (trimPrefix word ''model_reasoning_effort='') True in
     if hasPrefix word ''model='' \<and> model \<noteq> [] then Some (''GC_MODEL'', model)
     else if hasPrefix word ''model_reasoning_effort='' \<and> effort \<noteq> [] then Some (''GC_REASONING_EFFORT'', effort)
     else None)"

definition setModel :: "string \<Rightarrow> gomap \<Rightarrow> gomap" where
  "setModel raw options =
    (let value = safeLaunchOptionValue raw False in if value \<noteq> [] then mapSet ''GC_MODEL'' value options else options)"

definition setSetting :: "string \<Rightarrow> gomap \<Rightarrow> gomap" where
  "setSetting raw options =
    (case parseCodexSetting raw of None \<Rightarrow> options | Some (key, value) \<Rightarrow> mapSet key value options)"

fun launchOptionsFrom :: "gomap \<Rightarrow> string list \<Rightarrow> gomap" where
  "launchOptionsFrom options [] = options"
| "launchOptionsFrom options (w # ws) =
    (let word = trimQuotes w in
     if word = ''--model'' \<or> word = ''-m'' then
       (case ws of [] \<Rightarrow> options | v # rest \<Rightarrow> launchOptionsFrom (setModel v options) rest)
     else if hasPrefix word ''--model='' then launchOptionsFrom (setModel (trimPrefix word ''--model='') options) ws
     else if hasPrefix word ''-m='' then launchOptionsFrom (setModel (trimPrefix word ''-m='') options) ws
     else if word = ''-c'' then
       (case ws of [] \<Rightarrow> options | v # rest \<Rightarrow> launchOptionsFrom (setSetting v options) rest)
     else if hasPrefix word ''model='' then launchOptionsFrom (setModel (trimPrefix word ''model='') options) ws
     else if hasPrefix word ''model_reasoning_effort='' then launchOptionsFrom (setSetting word options) ws
     else launchOptionsFrom options ws)"

definition launchOptionEnv :: "string \<Rightarrow> gomap" where
  "launchOptionEnv command = launchOptionsFrom [] (strFields command)"

definition mapAddMissing :: "gomap \<Rightarrow> gomap \<Rightarrow> gomap" where
  "mapAddMissing m extra = m @ filter (\<lambda>(k, v). map_of m k = None) extra"

definition mergeLaunchOptionEnv :: "gomap \<Rightarrow> string \<Rightarrow> gomap" where
  "mergeLaunchOptionEnv env command = mapAddMissing env (launchOptionEnv command)"

subsection \<open>The startup prompt and its markers\<close>

text \<open>The text, and the wire field it came from.\<close>

definition startupPrompt :: "stageConfig \<Rightarrow> string \<times> string" where
  "startupPrompt c = (if trimSpace (cfgNudge c) \<noteq> [] then (cfgNudge c, ''nudge'') else ([], []))"

definition promptSubset :: "stageConfig \<Rightarrow> stageConfig" where
  "promptSubset c =
    emptyConfig\<lparr>cfgCommand := cfgCommand c, cfgNudge := cfgNudge c, cfgProcessNames := cfgProcessNames c,
      cfgReadyPromptPrefix := cfgReadyPromptPrefix c, cfgReadyDelayMs := cfgReadyDelayMs c\<rparr>"

definition envOr :: "stageConfig \<Rightarrow> string \<Rightarrow> string \<Rightarrow> string" where
  "envOr c key dflt = (let v = trimSpace (mapGet (cfgEnv c) key) in if v \<noteq> [] then v else dflt)"

definition loadingMarker :: "stageConfig \<Rightarrow> string" where
  "loadingMarker c = envOr c ''GC_PRIME_LOADING_MARKER'' ''loading''"

definition busyMarker :: "stageConfig \<Rightarrow> string" where
  "busyMarker c = envOr c ''GC_PRIME_BUSY_MARKER'' ''esc to interrupt''"

definition readyPromptPrefix :: "stageConfig \<Rightarrow> string" where
  "readyPromptPrefix c = envOr c ''GC_PRIME_READY_PREFIX'' (cfgReadyPromptPrefix c)"

definition cfg_readyDelayMs :: "stageConfig \<Rightarrow> int" where
  "cfg_readyDelayMs c =
    (let raw = trimSpace (mapGet (cfgEnv c) ''GC_PRIME_READY_DELAY_MS'') in
     if raw = [] then cfgReadyDelayMs c
     else case parseInt raw of
         None \<Rightarrow> cfgReadyDelayMs c
       | Some n \<Rightarrow> if n < 0 then cfgReadyDelayMs c else n)"

subsection \<open>Which values are secret\<close>

definition envArgvSafeNames :: "string list" where
  "envArgvSafeNames =
    [''LANG'', ''LC_ALL'', ''LC_CTYPE'', ''TERM'', ''TZ'', ''PATH'', ''GC_CITY'', ''GC_RIG'', ''GC_AGENT'', ''GC_SESSION'',
     ''GC_SESSION_EPOCH'', ''GC_WORKDIR'', ''GC_HOME_DIR'']"

definition envArgvSafe :: "string \<Rightarrow> bool" where
  "envArgvSafe key \<longleftrightarrow> key \<in> set envArgvSafeNames"

definition parseExtraSecretKeys :: "string \<Rightarrow> string list" where
  "parseExtraSecretKeys raw = filter (\<lambda>part. part \<noteq> []) (map trimSpace (splitChar (CHR '','') raw))"

definition extraSecretKeys :: "host \<Rightarrow> string list" where
  "extraSecretKeys h = parseExtraSecretKeys (getenv h ''GC_NOMAD_EXTRA_SECRET_KEYS'')"

text \<open>The merged environment, the keys the merge added, and the declared keys the
  process environment does not carry.\<close>

fun mergeExtraSecretEnv :: "host \<Rightarrow> gomap \<Rightarrow> string list \<Rightarrow> gomap \<times> string list \<times> string list" where
  "mergeExtraSecretEnv h merged [] = (merged, [], [])"
| "mergeExtraSecretEnv h merged (k # keys) =
    (if map_of merged k \<noteq> None then mergeExtraSecretEnv h merged keys
     else case hostEnv h k of
         None \<Rightarrow> (case mergeExtraSecretEnv h merged keys of (m, extra, absent) \<Rightarrow> (m, extra, k # absent))
       | Some v \<Rightarrow>
           (case mergeExtraSecretEnv h (mapSet k v merged) keys of (m, extra, absent) \<Rightarrow> (m, k # extra, absent)))"

definition warnAbsentSecretKeys :: "string \<Rightarrow> string list \<Rightarrow> string" where
  "warnAbsentSecretKeys sessionName absent =
    (if absent = [] then []
     else ''gc-runtime-nomad: warning: session '' @ goQuote sessionName @ '' declares '' @ natText (length absent)
       @ '' secret key(s) in GC_NOMAD_EXTRA_SECRET_KEYS that the '' @ ''supervisor's environment does not carry: ''
       @ joinStrings '', '' absent @ ''. Those files are NOT staged, and the box will ''
       @ ''launch without them '' @ emDash
       @ '' a seat that looks healthy and fails on the first operation needing '' @ ''one of these.'' @ [CHR 0x0A])"

definition localStoreKey :: "string \<Rightarrow> bool" where
  "localStoreKey key \<longleftrightarrow>
    key \<in> {''GC_CITY'', ''GC_CITY_PATH'', ''GC_CITY_ROOT'', ''GC_CITY_RUNTIME_DIR''} \<or> hasPrefix key ''GC_BEADS''"

definition stripLocalCityStoreEnv :: "gomap \<Rightarrow> gomap" where
  "stripLocalCityStoreEnv env =
    (if trimSpace (mapGet env ''GC_CITY_URL'') = [] \<and> trimSpace (mapGet env ''GC_CITY_CONTEXT'') = [] then env
     else filter (\<lambda>(k, v). \<not> localStoreKey k) env)"

subsection \<open>The environment script\<close>

definition isNameStart :: "char \<Rightarrow> bool" where
  "isNameStart c \<longleftrightarrow> isLetter c \<or> c = CHR ''_''"

definition validShellEnvName :: "string \<Rightarrow> bool" where
  "validShellEnvName name \<longleftrightarrow>
    name \<noteq> [] \<and> isNameStart (hd name) \<and> list_all (\<lambda>c. isNameStart c \<or> isDigit c) name"

definition pemPointerSuffix :: string where
  "pemPointerSuffix = ''_PEM''"

definition pemPointerName :: "string \<Rightarrow> string option" where
  "pemPointerName key =
    (let base = trimSuffix key pemPointerSuffix
     in if base = key \<or> base = [] \<or> \<not> validShellEnvName base then None else Some base)"

definition exportLine :: "string \<Rightarrow> string \<Rightarrow> string" where
  "exportLine key value = ''export '' @ key @ ''='' @ shellQuote value @ [CHR 0x0A]"

text \<open>An export of a path below the secrets directory, expanded when the script is sourced.\<close>

definition exportUnderSecrets :: "string \<Rightarrow> string \<Rightarrow> string" where
  "exportUnderSecrets key rel =
    ''export '' @ key @ ''='' @ [CHR 0x22] @ ''$NOMAD_SECRETS_DIR/'' @ rel @ [CHR 0x22, CHR 0x0A]"

definition buildEnvScript :: "gomap \<Rightarrow> string" where
  "buildEnvScript env =
    (let keys = filter validShellEnvName (sortedKeys env) in
     concat (map (\<lambda>k. exportLine k (mapGet env k)) (filter (\<lambda>k. pemPointerName k = None) keys))
     @ concat (map (\<lambda>k. case pemPointerName k of None \<Rightarrow> [] | Some pointer \<Rightarrow> exportUnderSecrets pointer k) keys))"

subsection \<open>The gc context\<close>

definition tomlEscape :: "string \<Rightarrow> string" where
  "tomlEscape r =
    (if r = [CHR 0x22] \<or> r = [CHR 0x5C] then CHR 0x5C # r
     else if r = [CHR 0x0A] then [CHR 0x5C, CHR ''n'']
     else if r = [CHR 0x09] then [CHR 0x5C, CHR ''t'']
     else r)"

definition tomlQuote :: "string \<Rightarrow> string" where
  "tomlQuote s = [CHR 0x22] @ concat (map tomlEscape (runes s)) @ [CHR 0x22]"

definition remoteContextDir :: string where
  "remoteContextDir = ''gc-home''"

definition nomadSecretsDirPath :: string where
  "nomadSecretsDirPath = ''/secrets''"

definition remoteContextPEMKeys :: "(string \<times> string) list" where
  "remoteContextPEMKeys =
    [(''ca_file'', ''GC_CITY_CA_PEM''), (''client_cert_file'', ''GC_CITY_CLIENT_CERT_PEM''),
     (''client_key_file'', ''GC_CITY_CLIENT_KEY_PEM'')]"

definition tomlLine :: "string \<Rightarrow> string \<Rightarrow> string" where
  "tomlLine key value = key @ '' = '' @ tomlQuote value @ [CHR 0x0A]"

definition hasRemoteContext :: "gomap \<Rightarrow> bool" where
  "hasRemoteContext env \<longleftrightarrow>
    \<not> (trimSpace (mapGet env ''GC_CITY_NAME'') = [] \<or> trimSpace (mapGet env ''GC_CITY_URL'') = [])"

definition buildRemoteContextFile :: "gomap \<Rightarrow> string \<Rightarrow> stageFile option" where
  "buildRemoteContextFile secretEnv secretsDir0 =
    (let secretsDir = (if secretsDir0 = [] then nomadSecretsDirPath else secretsDir0) in
     if \<not> hasRemoteContext secretEnv then None
     else Some \<lparr>sfPath = remoteContextDir @ ''/contexts.toml'',
       sfContent = ''[[context]]'' @ [CHR 0x0A]
         @ tomlLine ''name'' (trimSpace (mapGet secretEnv ''GC_CITY_NAME''))
         @ tomlLine ''url'' (trimSpace (mapGet secretEnv ''GC_CITY_URL''))
         @ concat (map (\<lambda>(field, key). if map_of secretEnv key = None then []
                                    else tomlLine field (secretsDir @ ''/'' @ key)) remoteContextPEMKeys),
       sfMode = 384\<rparr>)"

definition buildRemoteContextEnvLines :: "gomap \<Rightarrow> string" where
  "buildRemoteContextEnvLines secretEnv =
    (if \<not> hasRemoteContext secretEnv then []
     else exportUnderSecrets ''GC_HOME'' remoteContextDir
       @ exportLine ''GC_CITY_CONTEXT'' (trimSpace (mapGet secretEnv ''GC_CITY_NAME'')))"

definition remoteContextEnvScriptInput :: "gomap \<Rightarrow> gomap" where
  "remoteContextEnvScriptInput secretEnv =
    (if \<not> hasRemoteContext secretEnv then secretEnv else filter (\<lambda>(k, v). k \<noteq> ''GC_CITY_URL'') secretEnv)"

subsection \<open>The orchestrator's own file system\<close>

definition boxFilesystemEnvNames :: "string list" where
  "boxFilesystemEnvNames = [''PATH'', ''HOME'', ''TMP'', ''TEMP'', ''TMPDIR'', ''TMUX_TMPDIR'', ''GC_HOME'']"

definition orchestratorPathRoots :: "gomap \<Rightarrow> string list" where
  "orchestratorPathRoots env =
    filter (\<lambda>root. 1 < length root \<and> hasPrefix root ''/'')
      (map (\<lambda>key. trimSuffix (trimSpace (mapGet env key)) ''/'') [''HOME'', ''TMPDIR''])"

definition namesOrchestratorPath :: "string \<Rightarrow> string list \<Rightarrow> bool" where
  "namesOrchestratorPath value roots =
    (let candidate = trimSuffix (trimSpace value) ''/''
     in list_ex (\<lambda>root. candidate = root \<or> hasPrefix candidate (root @ ''/'')) roots)"

definition boxFilesystemEnvInput :: "gomap \<Rightarrow> gomap" where
  "boxFilesystemEnvInput env =
    (let roots = orchestratorPathRoots env in
     filter (\<lambda>(key, value). \<not> (key \<in> set boxFilesystemEnvNames \<or> hasPrefix key ''XDG_'')
               \<and> \<not> namesOrchestratorPath value roots) env)"

definition imageRegistry :: "string \<Rightarrow> string" where
  "imageRegistry ref0 =
    (let ref = trimSpace ref0; first = takeWhile (\<lambda>c. c \<noteq> CHR ''/'') ref in
     if ref = [] then []
     else if CHR ''/'' \<notin> set ref then []
     else if first = ''localhost'' \<or> containsAny first ''.:'' then first else [])"

definition imageIsRegistryless :: "string \<Rightarrow> bool" where
  "imageIsRegistryless ref \<longleftrightarrow> trimSpace ref \<noteq> [] \<and> imageRegistry ref = []"

subsection \<open>Files the agent's arguments name\<close>

definition pathMeta :: string where
  "pathMeta = [CHR 0x27, CHR 0x22] @ ''$*?[]{}()<>|&;'' @ [CHR 0x60]"

definition argValue :: "string \<Rightarrow> string" where
  "argValue field = (if CHR ''='' \<in> set field then tl (dropWhile (\<lambda>c. c \<noteq> CHR ''='') field) else field)"

definition isPathArg :: "string \<Rightarrow> bool" where
  "isPathArg token \<longleftrightarrow> hasPrefix token ''/'' \<and> token \<noteq> ''/'' \<and> \<not> containsAny token pathMeta"

definition absolutePathArgs :: "string \<Rightarrow> string list" where
  "absolutePathArgs command = sort (remdups (filter isPathArg (map argValue (strFields command))))"

definition hostPathReportName :: string where
  "hostPathReportName = ''agent.paths''"

definition hostPathProbe :: "string list \<Rightarrow> string" where
  "hostPathProbe paths =
    (if paths = [] then []
     else ''for __gc_p in '' @ joinStrings '' '' (map shellQuote paths)
       @ ''; do [ -e '' @ goQuote ''$__gc_p'' @ '' ] || printf '' @ shellQuote (''missing-path: %s'' @ [CHR 0x5C] @ ''n'')
       @ '' '' @ goQuote ''$__gc_p'' @ '' >> '' @ goQuote (''$__gc_cap/'' @ hostPathReportName)
       @ ''; done 2>/dev/null; '')"

definition argFileStageMaxBytes :: nat where
  "argFileStageMaxBytes = 2 ^ 20"

definition argFileStageDenied :: "string list" where
  "argFileStageDenied = [''.gc/secrets.env'', ''.gc/run'', ''.ssh'', ''.aws'', ''.config/gh'']"

definition argFileStageAllowed :: "host \<Rightarrow> string \<Rightarrow> bool" where
  "argFileStageAllowed h path =
    (let resolved = pathClean (case hostLink h path of Some r \<Rightarrow> r | None \<Rightarrow> path) in
     case hostHome h of
       None \<Rightarrow> False
     | Some home \<Rightarrow>
         list_all (\<lambda>deny. let full = pathClean (pathJoin [home, deny])
                          in \<not> (resolved = full \<or> hasPrefix resolved (full @ ''/''))) argFileStageDenied)"

definition argFileOf :: "host \<Rightarrow> string \<Rightarrow> stageFile list" where
  "argFileOf h path =
    (if \<not> argFileStageAllowed h path then []
     else case hostStat h path of
         Inl e \<Rightarrow> []
       | Inr info \<Rightarrow>
           if fiKind info \<noteq> Regular \<or> argFileStageMaxBytes < fiSize info then []
           else case hostRead h path of
               Inl e \<Rightarrow> []
             | Inr content \<Rightarrow> [\<lparr>sfPath = path, sfContent = content, sfMode = 384\<rparr>])"

definition argFilesToStage :: "host \<Rightarrow> string \<Rightarrow> stageFile list" where
  "argFilesToStage h command = concat (map (argFileOf h) (absolutePathArgs command))"

definition argFileStageCommand :: "string \<Rightarrow> string list" where
  "argFileStageCommand path =
    [''/bin/sh'', ''-c'',
     ''mkdir -p '' @ [CHR 0x22] @ ''$(dirname '' @ goQuote ''$1'' @ '')'' @ [CHR 0x22] @ '' && cat > '' @ goQuote ''$1''
       @ '' && chmod 600 '' @ goQuote ''$1'',
     ''stage-arg-file'', path]"

subsection \<open>The Codex home\<close>

definition codexHomeDir :: string where
  "codexHomeDir = ''codex-home''"

definition codexHomeOwned :: "string \<Rightarrow> gomap \<Rightarrow> bool" where
  "codexHomeOwned secretsDir secretEnv =
    (let staged = trimSpace (mapGet secretEnv ''CODEX_HOME'') in
     if trimSpace secretsDir = [] then False
     else if staged = [] then True
     else staged \<noteq> secretsDir \<and> \<not> hasPrefix staged (secretsDir @ ''/''))"

definition codexHomeEnvScriptInput :: "gomap \<Rightarrow> gomap" where
  "codexHomeEnvScriptInput env =
    (if map_of env ''CODEX_HOME'' = None then env else filter (\<lambda>(k, v). k \<noteq> ''CODEX_HOME'') env)"

definition buildCodexHomeEnvLines :: string where
  "buildCodexHomeEnvLines = exportUnderSecrets ''CODEX_HOME'' codexHomeDir"

definition validCodexProviderName :: "string \<Rightarrow> bool" where
  "validCodexProviderName name \<longleftrightarrow>
    name \<noteq> [] \<and> list_all (\<lambda>c. isLetter c \<or> isDigit c \<or> c \<in> set ''_.-'') name"

definition validCodexBaseURL :: "string \<Rightarrow> bool" where
  "validCodexBaseURL u \<longleftrightarrow>
    u \<noteq> [] \<and> (hasPrefix u ''http://'' \<or> hasPrefix u ''https://'')
    \<and> \<not> containsAny u [CHR '' '', CHR 0x09, CHR 0x0A, CHR 0x0D, CHR 0x22, CHR 0x27, CHR 0x5C]"

definition allDigits :: "string \<Rightarrow> bool" where
  "allDigits s \<longleftrightarrow> s \<noteq> [] \<and> list_all isDigit s"

definition writeCodexProjectTrust :: string where
  "writeCodexProjectTrust =
    [CHR 0x0A] @ ''[projects.'' @ tomlQuote ''/alloc/work'' @ '']'' @ [CHR 0x0A] @ tomlLine ''trust_level'' ''trusted''"

definition codexConfigError :: "string \<Rightarrow> string \<Rightarrow> goerr" where
  "codexConfigError key what = ENew (''codex provider config: '' @ key @ '' is not '' @ what)"

definition renderCodexConfig :: "gomap \<Rightarrow> goerr + string" where
  "renderCodexConfig secretEnv =
    (let get = (\<lambda>k. trimSpace (mapGet secretEnv k));
         provider = get ''GC_CODEX_MODEL_PROVIDER''; baseURL = get ''GC_CODEX_MODEL_PROVIDER_BASE_URL'';
         wireAPI = (if get ''GC_CODEX_WIRE_API'' = [] then ''responses'' else get ''GC_CODEX_WIRE_API'');
         optional = (\<lambda>field k. if get k = [] then [] else tomlLine field (get k)) in
     if provider = [] \<and> baseURL = [] then Inr writeCodexProjectTrust
     else if \<not> validCodexProviderName provider
       then Inl (codexConfigError ''GC_CODEX_MODEL_PROVIDER'' ''a plain provider name ([A-Za-z0-9._-] only)'')
     else if \<not> validCodexBaseURL baseURL
       then Inl (codexConfigError ''GC_CODEX_MODEL_PROVIDER_BASE_URL'' ''a single http(s):// URL'')
     else if \<not> validCodexProviderName wireAPI
       then Inl (codexConfigError ''GC_CODEX_WIRE_API'' ''a plain wire API name'')
     else Inr (optional ''model'' ''GC_MODEL'' @ tomlLine ''model_provider'' provider
       @ optional ''model_reasoning_effort'' ''GC_REASONING_EFFORT''
       @ (if allDigits (get ''GC_CONTEXT_WINDOW_TOKENS'')
          then ''model_auto_compact_token_limit = '' @ get ''GC_CONTEXT_WINDOW_TOKENS'' @ [CHR 0x0A] else [])
       @ tomlLine ''approval_policy'' ''never'' @ tomlLine ''sandbox_mode'' ''danger-full-access'' @ [CHR 0x0A]
       @ ''[model_providers.'' @ provider @ '']'' @ [CHR 0x0A]
       @ tomlLine ''name'' provider @ tomlLine ''base_url'' baseURL @ tomlLine ''wire_api'' wireAPI
       @ ''requires_openai_auth = false'' @ [CHR 0x0A] @ ''request_max_retries = 0'' @ [CHR 0x0A]
       @ ''stream_max_retries = 0'' @ [CHR 0x0A] @ ''stream_idle_timeout_ms = 1800000'' @ [CHR 0x0A]
       @ writeCodexProjectTrust))"

definition buildCodexHomeFiles :: "gomap \<Rightarrow> goerr + stageFile list" where
  "buildCodexHomeFiles secretEnv =
    (case renderCodexConfig secretEnv of
       Inl e \<Rightarrow> Inl e
     | Inr config \<Rightarrow>
         Inr ((if config \<noteq> [] then [\<lparr>sfPath = codexHomeDir @ ''/config.toml'', sfContent = config, sfMode = 384\<rparr>] else [])
           @ (case map_of secretEnv ''CODEX_AUTH_JSON'' of
                None \<Rightarrow> []
              | Some auth \<Rightarrow> if trimSpace auth = [] then []
                  else [\<lparr>sfPath = codexHomeDir @ ''/auth.json'', sfContent = auth, sfMode = 384\<rparr>])))"

subsection \<open>The secret files of a session\<close>

definition stagedEnvScriptName :: string where
  "stagedEnvScriptName = ''env.sh''"

definition stagedSecretEnv :: "host \<Rightarrow> stageConfig \<Rightarrow> gomap \<times> string list" where
  "stagedSecretEnv h cfg =
    (case mergeExtraSecretEnv h (cfgEnv cfg) (extraSecretKeys h) of
       (env, extra, absent) \<Rightarrow> (mergeLaunchOptionEnv (stripLocalCityStoreEnv env) (cfgCommand cfg), extra))"

definition envScriptOf :: "gomap \<Rightarrow> string \<Rightarrow> string" where
  "envScriptOf secretEnv secretsDir =
    (let codexHome = codexHomeOwned secretsDir secretEnv;
         e1 = remoteContextEnvScriptInput secretEnv;
         e2 = (if secretsDir \<noteq> [] then boxFilesystemEnvInput e1 else e1);
         e3 = (if codexHome then codexHomeEnvScriptInput e2 else e2)
     in buildEnvScript e3 @ buildRemoteContextEnvLines secretEnv @ (if codexHome then buildCodexHomeEnvLines else []))"

text \<open>The files of \<^verbatim>\<open>stage\<close> for the secrets directory; \<open>extraKeys\<close> are secret by declaration.\<close>

definition secretFilesOf :: "gomap \<Rightarrow> string list \<Rightarrow> string \<Rightarrow> goerr + stageFile list" where
  "secretFilesOf secretEnv extraKeys secretsDir =
    (let perKey = map (\<lambda>k. \<lparr>sfPath = k, sfContent = mapGet secretEnv k, sfMode = 384\<rparr>)
           (filter (\<lambda>k. k \<in> set extraKeys \<or> \<not> envArgvSafe k) (remdups (map fst secretEnv)));
         script = \<lparr>sfPath = stagedEnvScriptName, sfContent = envScriptOf secretEnv secretsDir, sfMode = 384\<rparr>;
         context = (case buildRemoteContextFile secretEnv secretsDir of None \<Rightarrow> [] | Some f \<Rightarrow> [f]) in
     if secretEnv = [] \<and> secretsDir = [] then Inr perKey
     else if codexHomeOwned secretsDir secretEnv
       then (case buildCodexHomeFiles secretEnv of
               Inl e \<Rightarrow> Inl e
             | Inr home \<Rightarrow> Inr (perKey @ [script] @ context @ home))
     else Inr (perKey @ [script] @ context))"

definition stagesAnything :: "host \<Rightarrow> stageConfig \<Rightarrow> bool" where
  "stagesAnything h cfg \<longleftrightarrow>
    cfgCopyFiles cfg \<noteq> [] \<or> argFilesToStage h (cfgCommand cfg) \<noteq> [] \<or> fst (stagedSecretEnv h cfg) \<noteq> []"

end
