(* ===== verification/Stage_Paths.thy ===== *)
theory Stage_Paths
  imports Staging
begin

text \<open>
  Every archived path stays below the directory it is extracted into: the check on
  the cleaned path agrees with a walk of the path's components that counts the depth
  below the root, and no archive is built from a path that fails it.
\<close>

text \<open>The walk: \<open>d\<close> directories below the root, a step up from the root leaves it.\<close>

fun staysInside :: "nat \<Rightarrow> string list \<Rightarrow> bool" where
  "staysInside d [] = True"
| "staysInside d (p # ps) =
    (if p = [] \<or> p = ''.'' then staysInside d ps
     else if p = ''..'' then (case d of 0 \<Rightarrow> False | Suc e \<Rightarrow> staysInside e ps)
     else staysInside (Suc d) ps)"

lemma cleanParts_escaped: "\<exists>ys. cleanParts False (xs @ [''..'']) ps = ys @ [''..'']"
proof (induction ps arbitrary: xs)
  case (Cons p ps)
  show ?case
  proof (cases xs)
    case Nil
    then show ?thesis using Cons.IH [of "[''..'']"] Cons.IH [of "[]"] Cons.IH [of "[p]"] by simp
  next
    case (Cons x xs')
    then show ?thesis
      using Cons.IH [of "''..'' # x # xs'"] Cons.IH [of xs] Cons.IH [of xs'] Cons.IH [of "p # xs"] by auto
  qed
qed simp

lemma cleanParts_inside:
  assumes "''..'' \<notin> set out"
  shows "staysInside (length out) ps \<longleftrightarrow> ''..'' \<notin> set (cleanParts False out ps)"
  using assms
proof (induction ps arbitrary: out)
  case (Cons p ps)
  show ?case
  proof (cases out)
    case Nil
    obtain ys where "cleanParts False [''..''] ps = ys @ [''..'']" using cleanParts_escaped [of "[]"] by auto
    then show ?thesis using Nil Cons.IH [of "[]"] Cons.IH [of "[p]"] by simp
  next
    case (Cons x xs)
    then show ?thesis using Cons.IH [of out] Cons.IH [of xs] Cons.IH [of "p # out"] Cons.prems by auto
  qed
qed simp

text \<open>A component \<^verbatim>\<open>..\<close> that remains stands in front.\<close>

lemma cleanParts_front:
  assumes "''..'' \<notin> set out" and "''..'' \<in> set (cleanParts False out ps)"
  shows "last (cleanParts False out ps) = ''..''"
  using assms
proof (induction ps arbitrary: out)
  case (Cons p ps)
  show ?case
  proof (cases "p = ''..'' \<and> out = []")
    case True
    obtain ys where "cleanParts False [''..''] ps = ys @ [''..'']" using cleanParts_escaped [of "[]"] by auto
    then show ?thesis using True by simp
  next
    case False
    then show ?thesis
      using Cons.IH [of out] Cons.IH [of "tl out"] Cons.IH [of "p # out"] Cons.prems by (cases out) (auto split: if_splits)
  qed
qed simp

lemma cleanParts_components:
  "q \<in> set (cleanParts r out ps) \<Longrightarrow> q \<in> set out \<or> q = ''..'' \<or> (q \<in> set ps \<and> q \<noteq> [])"
proof (induction ps arbitrary: out)
  case (Cons p ps)
  show ?case
  proof (cases out)
    case Nil
    then show ?thesis
      using Cons.IH [of "[]"] Cons.IH [of "[''..'']"] Cons.IH [of "[p]"] Cons.prems by (auto split: if_splits)
  next
    case (Cons x xs)
    then show ?thesis
      using Cons.IH [of out] Cons.IH [of xs] Cons.IH [of "''..'' # out"] Cons.IH [of "p # out"] Cons.prems
      by (auto split: if_splits)
  qed
qed simp

lemma splitChar_no_sep: "q \<in> set (splitChar d s) \<Longrightarrow> d \<notin> set q"
proof (induction s arbitrary: q)
  case (Cons c s)
  then show ?case by (cases "splitChar d s") (auto split: if_splits)
qed simp

text \<open>The first component of a joined path is \<^verbatim>\<open>..\<close> exactly when the text starts so.\<close>

lemma join_front:
  assumes "CHR ''/'' \<notin> set c"
  shows "(let t = joinStrings ''/'' (c # cs) in t = ''..'' \<or> hasPrefix t ''../'') \<longleftrightarrow> c = ''..''"
proof (cases cs)
  case Nil
  then show ?thesis using assms by (auto simp: hasPrefix_iff)
next
  case (Cons d ds)
  define rest where "rest = joinStrings ''/'' cs"
  have j: "joinStrings ''/'' (c # cs) = c @ CHR ''/'' # rest" by (simp add: Cons rest_def)
  have "c = ''..''" if "c @ CHR ''/'' # rest = ''../'' @ t" for t
  proof -
    have "takeWhile (\<lambda>x. x \<noteq> CHR ''/'') (c @ CHR ''/'' # rest) = c"
      using assms by (subst takeWhile_append2) auto
    then show ?thesis using that by simp
  qed
  moreover have "c @ CHR ''/'' # rest \<noteq> ''..''"
  proof
    assume "c @ CHR ''/'' # rest = ''..''"
    then have "CHR ''/'' \<in> set ''..''" by (metis in_set_conv_decomp)
    then show False by simp
  qed
  ultimately show ?thesis unfolding j by (auto simp: hasPrefix_iff)
qed

lemma clean_escapes_iff:
  assumes "p \<noteq> []" and "\<not> isAbs p"
  shows "(pathClean p = ''..'' \<or> hasPrefix (pathClean p) ''../'') \<longleftrightarrow> \<not> staysInside 0 (splitChar (CHR ''/'') p)"
proof -
  let ?ps = "splitChar (CHR ''/'') p"
  define out where "out = cleanParts False [] ?ps"
  have noslash: "CHR ''/'' \<notin> set q" if "q \<in> set out" for q
    using cleanParts_components [of q False "[]" ?ps] that splitChar_no_sep [of q "CHR ''/''" p] by (auto simp: out_def)
  have inside: "staysInside 0 ?ps \<longleftrightarrow> ''..'' \<notin> set out"
    using cleanParts_inside [of "[]" ?ps] by (simp add: out_def)
  show ?thesis
  proof (cases "out = []")
    case True
    then show ?thesis using inside assms(2) by (simp add: pathClean_def out_def [symmetric] hasPrefix_def)
  next
    case False
    then obtain c cs where rc: "rev out = c # cs" by (cases "rev out") auto
    have c: "c = last out" using rc False by (metis hd_rev list.sel(1))
    then have ns: "CHR ''/'' \<notin> set c" and ne: "c \<noteq> []"
      using noslash False cleanParts_components [of c False "[]" ?ps] last_in_set [of out] by (auto simp: out_def)
    have body: "joinStrings ''/'' (c # cs) \<noteq> []" using ne by (cases cs) auto
    have "pathClean p = joinStrings ''/'' (c # cs)"
      using assms(2) body by (simp add: pathClean_def out_def [symmetric] rc Let_def)
    moreover have "c = ''..'' \<longleftrightarrow> ''..'' \<in> set out"
      using cleanParts_front [of "[]" ?ps] last_in_set [OF False] unfolding c out_def [symmetric] by fastforce
    ultimately show ?thesis using join_front [OF ns, of cs] inside by (simp add: Let_def)
  qed
qed

text \<open>C17. A path is accepted for staging exactly when it is not empty, not absolute, and
  following its components from the extraction root, one directory at a time, never
  steps above that root.\<close>

theorem validateStagePath_iff:
  "validateStagePath p = None \<longleftrightarrow> p \<noteq> [] \<and> \<not> isAbs p \<and> staysInside 0 (splitChar (CHR ''/'') p)"
  using clean_escapes_iff [of p] by (auto simp: validateStagePath_def Let_def)

lemma firstInvalid_None: "firstInvalid files = None \<longleftrightarrow> (\<forall>f \<in> set files. validateStagePath (sfPath f) = None)"
  by (induction files) (auto split: option.split)

end
