(* ===== verification/Startup.thy ===== *)
theory Startup
  imports Staging
begin

text \<open>
  Reading a pane (\<^verbatim>\<open>startup.go\<close>): the visible rows of a capture, and whether they show
  the agent's ready prompt. A rune is the string of its encoding.
\<close>

text \<open>\<^verbatim>\<open>strings.ReplaceAll\<close> of the two bytes of \<^verbatim>\<open>U+00A0\<close> by a blank.\<close>

fun foldNbsp :: "string \<Rightarrow> string" where
  "foldNbsp [] = []"
| "foldNbsp [c] = [c]"
| "foldNbsp (c # d # s) = (if c = CHR 0xC2 \<and> d = CHR 0xA0 then CHR '' '' # foldNbsp s else c # foldNbsp (d # s))"

definition normalizePromptSpace :: "string \<Rightarrow> string" where
  "normalizePromptSpace s = trimSpace (foldNbsp s)"

definition stripPromptBoxBorder :: "string \<Rightarrow> string" where
  "stripPromptBoxBorder s0 =
    (let s = trimLeftChars {CHR '' '', CHR 0x09} s0; rs = runes s in
     if rs \<noteq> [] \<and> (hd rs = [CHR 0xE2, CHR 0x94, CHR 0x82] \<or> hd rs = [CHR 0xE2, CHR 0x94, CHR 0x83])
     then trimLeftChars {CHR '' '', CHR 0x09} (concat (tl rs)) else s)"

definition runeIn :: "nat \<Rightarrow> nat \<Rightarrow> string \<Rightarrow> bool" where
  "runeIn lo hi r \<longleftrightarrow> length r = 1 \<and> byteIn lo hi (hd r)"

abbreviation esc :: string where
  "esc \<equiv> [CHR 0x1B]"

definition breakRow :: "string list \<Rightarrow> string \<Rightarrow> string list" where
  "breakRow rows cur = (if trimSpace cur \<noteq> [] then rows @ [cur] else rows)"

text \<open>The tail of an OSC sequence from its terminator on.\<close>

fun oscEnd :: "string list \<Rightarrow> string list" where
  "oscEnd [] = []"
| "oscEnd (r # rs) =
    (if r = [CHR 0x07] \<or> (r = esc \<and> rs \<noteq> [] \<and> hd rs = [CHR 0x5C]) then r # rs else oscEnd rs)"

lemma oscEnd_length: "length (oscEnd rs) \<le> length rs"
  by (induction rs) auto

lemma oscEnd_tl_length: "length (oscEnd (tl rs)) \<le> length rs"
  using oscEnd_length [of "tl rs"] by simp

function readyFrom :: "string list \<Rightarrow> string \<Rightarrow> string list \<Rightarrow> string list" where
  "readyFrom rows cur [] = breakRow rows cur"
| "readyFrom rows cur (r # rs) =
    (if r = esc \<and> rs \<noteq> [] \<and> hd rs = ''['' then
       (let params = takeWhile (runeIn 0x20 0x3F) (tl rs); after = drop (length params) (tl rs) in
        if after \<noteq> [] \<and> (hd after = ''H'' \<or> hd after = ''f'') \<and> hasSuffix (concat params) '';1''
        then readyFrom (breakRow rows cur) [] (tl after) else readyFrom rows cur (tl after))
     else if r = esc \<and> rs \<noteq> [] \<and> hd rs = '']'' then readyFrom rows cur (oscEnd (tl rs))
     else if r = esc \<and> rs \<noteq> [] then readyFrom rows cur (tl rs)
     else if r = [CHR 0x0A] \<or> r = [CHR 0x0D] then readyFrom (breakRow rows cur) [] rs
     else if r = [CHR 0x09] then readyFrom rows (cur @ '' '') rs
     else if runeIn 0 0x1F r \<or> r = [CHR 0x7F] then readyFrom rows cur rs
     else readyFrom rows (cur @ r) rs)"
  by pat_completeness auto
termination
  by (relation "measure (\<lambda>(rows, cur, rs). length rs)") (auto simp: oscEnd_tl_length less_Suc_eq_le)

definition paneReadyLines :: "string \<Rightarrow> string list" where
  "paneReadyLines captured = readyFrom [] [] (runes captured)"

definition paneShowsReadyPrompt :: "string \<Rightarrow> string \<Rightarrow> bool" where
  "paneShowsReadyPrompt captured readyPrefix =
    (let pre = normalizePromptSpace readyPrefix; bare = trimSpace pre in
     if trimSpace readyPrefix = [] then True
     else list_ex (\<lambda>line. let trimmed = normalizePromptSpace line in
            list_ex (\<lambda>candidate. hasPrefix candidate pre \<or> (bare \<noteq> [] \<and> candidate = bare))
              [trimmed, stripPromptBoxBorder trimmed]) (paneReadyLines captured))"

subsection \<open>Plain captures\<close>

text \<open>Printable ASCII, and the line feed.\<close>

definition plainChar :: "char \<Rightarrow> bool" where
  "plainChar c \<longleftrightarrow> byteIn 0x20 0x7E c \<or> c = CHR 0x0A"

lemma readyFrom_plain:
  assumes "list_all plainChar s"
  shows "readyFrom rows cur (map (\<lambda>c. [c]) s)
    = rows @ filter (\<lambda>l. trimSpace l \<noteq> []) (case splitChar (CHR 0x0A) s of w # ws \<Rightarrow> (cur @ w) # ws)"
  using assms
proof (induction s arbitrary: rows cur)
  case Nil
  show ?case by (simp add: breakRow_def)
next
  case (Cons c s)
  obtain w ws where w: "splitChar (CHR 0x0A) s = w # ws" by (cases "splitChar (CHR 0x0A) s") auto
  show ?case
  proof (cases "c = CHR 0x0A")
    case True
    then show ?thesis using Cons w by (simp add: breakRow_def)
  next
    case False
    then have "byteIn 0x20 0x7E c" using Cons.prems by (simp add: plainChar_def)
    then have "c \<noteq> CHR 0x1B" "c \<noteq> CHR 0x0D" "c \<noteq> CHR 0x09" "c \<noteq> CHR 0x7F" "\<not> byteIn 0 0x1F c"
      by (auto simp: byteIn_def)
    then show ?thesis using Cons w False by (simp add: runeIn_def)
  qed
qed

text \<open>On a capture that is already plain text the row reconstruction is the split into
  lines without the blank ones, so the readiness rule reads exactly the rows of the
  screen.\<close>

lemma paneReadyLines_plain:
  assumes "list_all plainChar s"
  shows "paneReadyLines s = filter (\<lambda>l. trimSpace l \<noteq> []) (splitChar (CHR 0x0A) s)"
proof -
  have "list_all (byteIn 0 127) s" using assms by (auto simp: list_all_iff plainChar_def byteIn_def)
  then show ?thesis
    using readyFrom_plain [OF assms, of "[]" "[]"]
    by (cases "splitChar (CHR 0x0A) s") (simp_all add: paneReadyLines_def runes_ascii)
qed

end
