(* ===== verification/Env_Script.thy ===== *)
theory Env_Script
  imports Staging
begin

text \<open>
  The staged environment script is sourced by a POSIX shell inside the box. Its
  meaning is given by a reader of the fragment of the shell language the script is
  written in: \<^verbatim>\<open>export NAME=word\<close> lines whose word is built of single-quoted
  segments and backslash escapes, or is a double-quoted path below
  \<^verbatim>\<open>$NOMAD_SECRETS_DIR\<close>; anything else is outside the fragment and has no meaning.
  Every staged value comes out of that reader as it went in.
\<close>

subsection \<open>Reading a script\<close>

definition newline :: char where
  "newline = CHR 0x0A"

definition dquote :: char where
  "dquote = CHR 0x22"

fun prependTo :: "char \<Rightarrow> (string \<times> string) option \<Rightarrow> (string \<times> string) option" where
  "prependTo c None = None"
| "prependTo c (Some (v, r)) = Some (c # v, r)"

text \<open>A word up to the end of its line, outside and inside single quotes.\<close>

fun shOut :: "string \<Rightarrow> (string \<times> string) option" and shIn :: "string \<Rightarrow> (string \<times> string) option" where
  "shOut [] = Some ([], [])"
| "shOut (c # s) =
    (if c = quoteChar then shIn s
     else if c = backslash then (case s of [] \<Rightarrow> None | d # t \<Rightarrow> prependTo d (shOut t))
     else if c = newline then Some ([], c # s)
     else None)"
| "shIn [] = None"
| "shIn (c # s) = (if c = quoteChar then shOut s else prependTo c (shIn s))"

definition secretsVar :: string where
  "secretsVar = ''$NOMAD_SECRETS_DIR''"

text \<open>A double-quoted word that begins with the variable and has nothing else to expand.\<close>

definition shDouble :: "string \<Rightarrow> string \<Rightarrow> (string \<times> string) option" where
  "shDouble dir s =
    (let body = takeWhile (\<lambda>c. c \<noteq> dquote) s; after = drop (length body) s; tail = drop (length secretsVar) body
     in if after \<noteq> [] \<and> hasPrefix body secretsVar \<and> hasPrefix tail ''/'' \<and> \<not> containsAny tail [CHR ''$'', CHR 0x60, backslash]
        then Some (dir @ tail, tl after) else None)"

fun assigns :: "nat \<Rightarrow> string \<Rightarrow> string \<Rightarrow> gomap option" where
  "assigns n dir [] = Some []"
| "assigns 0 dir (c # s) = None"
| "assigns (Suc n) dir (c # s) =
    (let t = drop 7 (c # s); name = takeWhile (\<lambda>c. c \<noteq> CHR ''='') t; u = drop (length name) t;
         word = tl u in
     if \<not> hasPrefix (c # s) ''export '' \<or> u = [] \<or> \<not> validShellEnvName name then None
     else case (if word \<noteq> [] \<and> hd word = dquote then shDouble dir (tl word) else shOut word) of
         Some (v, d # rest) \<Rightarrow>
           if d = newline then map_option (\<lambda>as. (name, v) # as) (assigns n dir rest) else None
       | _ \<Rightarrow> None)"

text \<open>The variables a shell has after sourcing the script with its secrets mounted at
  \<open>dir\<close>; a later assignment replaces an earlier one.\<close>

definition sourced :: "string \<Rightarrow> string \<Rightarrow> (string \<Rightarrow> string option) option" where
  "sourced dir script = map_option (\<lambda>as. map_of (rev as)) (assigns (length script) dir script)"

subsection \<open>One line\<close>

lemma shIn_quoteBody: "shIn (quoteBody v @ quoteChar # newline # rest) = Some (v, newline # rest)"
proof (induction v)
  case Nil
  show ?case by (simp add: newline_def)
next
  case (Cons c v)
  then show ?case by auto
qed

lemma shOut_shellQuote: "shOut (shellQuote v @ newline # rest) = Some (v, newline # rest)"
  using shIn_quoteBody [of v rest] by (simp add: shellQuote_body)

lemma name_chars:
  assumes "validShellEnvName k" and "c \<in> set k"
  shows "c \<noteq> CHR ''='' \<and> c \<noteq> dquote \<and> c \<noteq> CHR ''$'' \<and> c \<noteq> CHR 0x60 \<and> c \<noteq> backslash \<and> c \<noteq> CHR ''/''"
  using assms by (auto simp: validShellEnvName_def list_all_iff isNameStart_def isLetter_def isDigit_def dquote_def)

lemma takeWhile_name: "validShellEnvName k \<Longrightarrow> takeWhile (\<lambda>c. c \<noteq> CHR ''='') (k @ CHR ''='' # r) = k"
  using name_chars by (subst takeWhile_append2) auto

lemma export_head: "\<exists>c s. ''export '' @ t = c # s \<and> drop 7 (c # s) = t \<and> hasPrefix (c # s) ''export ''"
  by (auto simp: hasPrefix_def)

lemma assigns_line:
  assumes "validShellEnvName k"
    and "(if word \<noteq> [] \<and> hd word = dquote then shDouble dir (tl word) else shOut word) = Some (v, newline # rest)"
  shows "assigns (Suc n) dir (''export '' @ k @ ''='' @ word) = map_option (\<lambda>as. (k, v) # as) (assigns n dir rest)"
proof -
  obtain c s where cs: "''export '' @ k @ ''='' @ word = c # s" "drop 7 (c # s) = k @ CHR ''='' # word" "hasPrefix (c # s) ''export ''"
    using export_head [of "k @ ''='' @ word"] by auto
  have u: "drop (length k) (k @ CHR ''='' # word) = CHR ''='' # word" by simp
  show ?thesis
    unfolding cs(1) assigns.simps(3) Let_def cs(2) takeWhile_name [OF assms(1)] u list.sel assms(2)
    using cs(3) assms(1) by simp
qed

lemma assigns_exportLine:
  "validShellEnvName k \<Longrightarrow> assigns (Suc n) dir (exportLine k v @ rest) = map_option (\<lambda>as. (k, v) # as) (assigns n dir rest)"
  using assigns_line [of k "shellQuote v @ newline # rest" dir v rest n] shOut_shellQuote [of v rest]
  by (simp add: exportLine_def shellQuote_body newline_def dquote_def)

lemma shDouble_secrets:
  assumes "\<forall>c \<in> set rel. c \<noteq> dquote \<and> c \<noteq> CHR ''$'' \<and> c \<noteq> CHR 0x60 \<and> c \<noteq> backslash"
  shows "shDouble dir (secretsVar @ ''/'' @ rel @ dquote # r) = Some (dir @ ''/'' @ rel, r)"
proof -
  let ?body = "secretsVar @ ''/'' @ rel"
  have "takeWhile (\<lambda>c. c \<noteq> dquote) (?body @ dquote # r) = ?body"
    using assms by (subst takeWhile_append2) (auto simp: secretsVar_def dquote_def)
  moreover have "\<not> containsAny (''/'' @ rel) [CHR ''$'', CHR 0x60, backslash]"
    using assms by (auto simp: containsAny_def list_ex_iff)
  ultimately show ?thesis by (simp add: shDouble_def Let_def hasPrefix_def)
qed

lemma assigns_underSecrets:
  assumes "validShellEnvName k" and "\<forall>c \<in> set rel. c \<noteq> dquote \<and> c \<noteq> CHR ''$'' \<and> c \<noteq> CHR 0x60 \<and> c \<noteq> backslash"
  shows "assigns (Suc n) dir (exportUnderSecrets k rel @ rest)
    = map_option (\<lambda>as. (k, dir @ ''/'' @ rel) # as) (assigns n dir rest)"
  using assigns_line [OF assms(1), of "dquote # secretsVar @ ''/'' @ rel @ dquote # newline # rest" dir "dir @ ''/'' @ rel" rest n]
    shDouble_secrets [OF assms(2), of dir "newline # rest"]
  by (simp add: exportUnderSecrets_def dquote_def newline_def secretsVar_def)

subsection \<open>The whole script\<close>

text \<open>Scripts are built from lines of the two kinds; \<open>script as\<close> is the text of a list of
  them, \<open>meaning\<close> the assignments they make.\<close>

datatype scriptLine = Plain string string | Under string string

fun lineText :: "scriptLine \<Rightarrow> string" where
  "lineText (Plain k v) = exportLine k v"
| "lineText (Under k rel) = exportUnderSecrets k rel"

fun lineOK :: "scriptLine \<Rightarrow> bool" where
  "lineOK (Plain k v) = validShellEnvName k"
| "lineOK (Under k rel) = (validShellEnvName k \<and> list_all (\<lambda>c. isNameStart c \<or> isDigit c \<or> c = CHR ''-'') rel)"

fun meaning :: "string \<Rightarrow> scriptLine \<Rightarrow> string \<times> string" where
  "meaning dir (Plain k v) = (k, v)"
| "meaning dir (Under k rel) = (k, dir @ ''/'' @ rel)"

lemma assigns_lineText:
  assumes "lineOK x"
  shows "assigns (Suc n) dir (lineText x @ rest) = map_option (\<lambda>as. meaning dir x # as) (assigns n dir rest)"
proof (cases x)
  case (Under k rel)
  then have "\<forall>c \<in> set rel. c \<noteq> dquote \<and> c \<noteq> CHR ''$'' \<and> c \<noteq> CHR 0x60 \<and> c \<noteq> backslash"
    using assms by (auto simp: list_all_iff isNameStart_def isLetter_def isDigit_def dquote_def)
  then show ?thesis using Under assms assigns_underSecrets [of k rel] by simp
qed (use assms assigns_exportLine in simp)

lemma assigns_lines:
  "list_all lineOK xs \<Longrightarrow> length xs \<le> n \<Longrightarrow> assigns n dir (concat (map lineText xs)) = Some (map (meaning dir) xs)"
proof (induction xs arbitrary: n)
  case (Cons x xs)
  then obtain m where n: "n = Suc m" by (cases n) auto
  then show ?case using Cons assigns_lineText [of x m dir] by simp
qed simp

lemma lines_short: "length xs \<le> length (concat (map lineText xs))"
proof (induction xs)
  case (Cons x xs)
  have "1 \<le> length (lineText x)" by (cases x) (simp_all add: exportLine_def exportUnderSecrets_def)
  then show ?case using Cons by simp
qed simp

lemma sourced_lines:
  "list_all lineOK xs \<Longrightarrow> sourced dir (concat (map lineText xs)) = Some (map_of (rev (map (meaning dir) xs)))"
  using assigns_lines [of xs _ dir] lines_short [of xs] by (simp add: sourced_def)

text \<open>The lines of \<^verbatim>\<open>buildEnvScript\<close>.\<close>

definition pointerLine :: "string \<Rightarrow> scriptLine list" where
  "pointerLine k = (case pemPointerName k of None \<Rightarrow> [] | Some p \<Rightarrow> [Under p k])"

definition envLines :: "gomap \<Rightarrow> scriptLine list" where
  "envLines env =
    (let keys = filter validShellEnvName (sortedKeys env) in
     map (\<lambda>k. Plain k (mapGet env k)) (filter (\<lambda>k. pemPointerName k = None) keys) @ concat (map pointerLine keys))"

lemma pemPointerName_Some: "pemPointerName k = Some p \<longleftrightarrow> k = p @ ''_PEM'' \<and> validShellEnvName p"
  by (auto simp: pemPointerName_def pemPointerSuffix_def trimSuffix_def Let_def hasSuffix_iff validShellEnvName_def split: if_splits)

lemma concat_map_concat: "concat (map f (concat xss)) = concat (map (\<lambda>xs. concat (map f xs)) xss)"
  by (induction xss) auto

lemma buildEnvScript_lines: "buildEnvScript env = concat (map lineText (envLines env))"
proof -
  have "(case pemPointerName k of None \<Rightarrow> [] | Some p \<Rightarrow> exportUnderSecrets p k) = concat (map lineText (pointerLine k))" for k
    by (simp add: pointerLine_def split: option.split)
  then show ?thesis by (simp add: buildEnvScript_def envLines_def Let_def comp_def concat_map_concat)
qed

lemma envLines_OK: "list_all lineOK (envLines env)"
proof -
  have "list_all lineOK (pointerLine k)" if "validShellEnvName k" for k
  proof (cases "pemPointerName k")
    case (Some p)
    then show ?thesis
      using that pemPointerName_Some [of k p] by (auto simp: pointerLine_def validShellEnvName_def list_all_iff)
  qed (simp add: pointerLine_def)
  then show ?thesis by (auto simp: envLines_def Let_def list_all_iff)
qed

lemma valid_pem: "validShellEnvName k \<Longrightarrow> validShellEnvName (k @ ''_PEM'')"
  by (auto simp: validShellEnvName_def isNameStart_def isLetter_def)

text \<open>What a variable is after sourcing: the pointer of a staged \<^verbatim>\<open>_PEM\<close> key, else the
  value of its own key.\<close>

definition sourcedValue :: "gomap \<Rightarrow> string \<Rightarrow> string \<Rightarrow> string option" where
  "sourcedValue env dir name =
    (if \<not> validShellEnvName name then None
     else if map_of env (name @ ''_PEM'') \<noteq> None then Some (dir @ ''/'' @ name @ ''_PEM'')
     else if pemPointerName name \<noteq> None then None
     else map_of env name)"

lemma map_of_only:
  assumes "\<And>v. (n, v) \<in> set xs \<longleftrightarrow> P \<and> v = w"
  shows "map_of xs n = (if P then Some w else None)"
proof (cases "map_of xs n")
  case None
  then have "(n, w) \<notin> set xs" by (auto simp: map_of_eq_None_iff rev_image_eqI)
  then show ?thesis using None assms by auto
next
  case (Some v)
  then show ?thesis using assms [of v] map_of_SomeD [OF Some] by simp
qed

lemma mapGet_Some: "map_of m k = Some v \<Longrightarrow> mapGet m k = v"
  by (simp add: mapGet_def)

lemma in_env: "k \<in> fst ` set env \<longleftrightarrow> map_of env k \<noteq> None"
  by (auto simp: map_of_eq_None_iff)

lemma pointerLine_iff: "x \<in> set (pointerLine k) \<longleftrightarrow> (\<exists>p. k = p @ ''_PEM'' \<and> validShellEnvName p \<and> x = Under p k)"
proof (cases "pemPointerName k")
  case None
  then have "\<not> (k = p @ ''_PEM'' \<and> validShellEnvName p)" for p using pemPointerName_Some [of k p] by auto
  then show ?thesis using None by (auto simp: pointerLine_def)
next
  case (Some p)
  then show ?thesis using pemPointerName_Some [of k p] by (auto simp: pointerLine_def)
qed

lemma map_of_envLines: "map_of (rev (map (meaning dir) (envLines env))) name = sourcedValue env dir name"
proof -
  let ?keys = "filter validShellEnvName (sortedKeys env)"
  let ?plain = "map (\<lambda>k. (k, mapGet env k)) (filter (\<lambda>k. pemPointerName k = None) ?keys)"
  let ?ptr = "map (meaning dir) (concat (map pointerLine ?keys))"
  have split: "map (meaning dir) (envLines env) = ?plain @ ?ptr"
    by (simp add: envLines_def Let_def comp_def)
  have ptr: "map_of (rev ?ptr) name =
      (if validShellEnvName name \<and> map_of env (name @ ''_PEM'') \<noteq> None then Some (dir @ ''/'' @ name @ ''_PEM'') else None)"
  proof (rule map_of_only)
    fix v
    have "(name, v) \<in> set (rev ?ptr) \<longleftrightarrow> (\<exists>k p. k \<in> set ?keys \<and> k = p @ ''_PEM'' \<and> validShellEnvName p \<and> (name, v) = meaning dir (Under p k))"
      by (auto simp: pointerLine_iff image_iff simp del: meaning.simps set_sortedKeys) blast
    then show "(name, v) \<in> set (rev ?ptr) \<longleftrightarrow>
        (validShellEnvName name \<and> map_of env (name @ ''_PEM'') \<noteq> None) \<and> v = dir @ ''/'' @ name @ ''_PEM''"
      using valid_pem [of name] by (auto simp: in_env)
  qed
  have plain: "map_of (rev ?plain) name =
      (if validShellEnvName name \<and> pemPointerName name = None \<and> map_of env name \<noteq> None then Some (mapGet env name) else None)"
    by (rule map_of_only) (auto simp: in_env)
  show ?thesis
    unfolding split rev_append map_of_append map_add_def ptr plain
    by (auto simp: sourcedValue_def mapGet_def split: option.split)
qed

text \<open>C16. Whatever bytes the staged values contain, a shell that sources the script gets
  exactly the staged environment: each variable with a valid name has its value, a
  \<^verbatim>\<open>X_PEM\<close> key gives \<^verbatim>\<open>X\<close> the path of its file and never its content, and nothing
  else is assigned or executed.\<close>

theorem buildEnvScript_sourced: "sourced dir (buildEnvScript env) = Some (sourcedValue env dir)"
  unfolding buildEnvScript_lines sourced_lines [OF envLines_OK] by (simp add: fun_eq_iff map_of_envLines)

subsection \<open>The script of an image-mode box\<close>

definition scriptInput :: "gomap \<Rightarrow> string \<Rightarrow> gomap" where
  "scriptInput env secretsDir =
    (let e1 = remoteContextEnvScriptInput env;
         e2 = (if secretsDir \<noteq> [] then boxFilesystemEnvInput e1 else e1)
     in if codexHomeOwned secretsDir env then codexHomeEnvScriptInput e2 else e2)"

lemma envScriptOf_sourced:
  "sourced d (envScriptOf env secretsDir) = Some ((sourcedValue (scriptInput env secretsDir) d)
     ++ (if hasRemoteContext env then [''GC_HOME'' \<mapsto> d @ ''/gc-home'', ''GC_CITY_CONTEXT'' \<mapsto> trimSpace (mapGet env ''GC_CITY_NAME'')] else Map.empty)
     ++ (if codexHomeOwned secretsDir env then [''CODEX_HOME'' \<mapsto> d @ ''/codex-home''] else Map.empty))"
proof -
  let ?ctx = "if hasRemoteContext env then [Under ''GC_HOME'' ''gc-home'', Plain ''GC_CITY_CONTEXT'' (trimSpace (mapGet env ''GC_CITY_NAME''))] else []"
  let ?home = "if codexHomeOwned secretsDir env then [Under ''CODEX_HOME'' ''codex-home''] else []"
  let ?xs = "envLines (scriptInput env secretsDir) @ ?ctx @ ?home"
  have names: "validShellEnvName ''GC_HOME''" "validShellEnvName ''GC_CITY_CONTEXT''" "validShellEnvName ''CODEX_HOME''"
    by (simp_all add: validShellEnvName_def isNameStart_def isLetter_def isDigit_def)
  have ok: "list_all lineOK ?xs"
    using envLines_OK names by (simp add: isNameStart_def isLetter_def isDigit_def)
  have lines: "envScriptOf env secretsDir = concat (map lineText ?xs)"
    by (simp add: envScriptOf_def scriptInput_def Let_def buildEnvScript_lines buildRemoteContextEnvLines_def
        buildCodexHomeEnvLines_def remoteContextDir_def codexHomeDir_def)
  have "sourced d (envScriptOf env secretsDir) = Some (map_of (rev (map (meaning d) ?xs)))"
    unfolding lines by (rule sourced_lines [OF ok])
  then show ?thesis by (auto simp: fun_eq_iff map_of_envLines map_add_def split: option.split)
qed

lemma map_of_filter_key: "map_of (filter (\<lambda>(k, v). P k v) m) k = Some v \<Longrightarrow> \<exists>v'. (k, v') \<in> set m \<and> P k v'"
  by (drule map_of_SomeD) auto

lemma scriptInput_names:
  assumes "map_of (scriptInput env secretsDir) name = Some v" and "secretsDir \<noteq> []"
  shows "(name, v) \<in> set env \<and> name \<notin> set boxFilesystemEnvNames \<and> \<not> hasPrefix name ''XDG_''
    \<and> \<not> namesOrchestratorPath v (orchestratorPathRoots (remoteContextEnvScriptInput env))"
  using map_of_SomeD [OF assms(1)] assms(2)
  by (auto simp: scriptInput_def Let_def codexHomeEnvScriptInput_def boxFilesystemEnvInput_def remoteContextEnvScriptInput_def split: if_splits)

text \<open>A value that names the orchestrator's HOME or TMPDIR, or a path below one of them; a root that is not an
  absolute path longer than the slash names nothing.\<close>

definition insideHost :: "gomap \<Rightarrow> string \<Rightarrow> bool" where
  "insideHost env v \<longleftrightarrow>
    (\<exists>key \<in> {''HOME'', ''TMPDIR''}. let root = trimSuffix (trimSpace (mapGet env key)) ''/''; path = trimSuffix (trimSpace v) ''/'' in
       1 < length root \<and> hasPrefix root ''/'' \<and> (path = root \<or> hasPrefix path (root @ ''/'')))"

lemma orchestrator_path: "namesOrchestratorPath v (orchestratorPathRoots (remoteContextEnvScriptInput env)) \<longleftrightarrow> insideHost env v"
proof -
  have "map_of (filter (\<lambda>(k, v). k \<noteq> ''GC_CITY_URL'') env) key = map_of env key" if "key \<noteq> ''GC_CITY_URL''" for key
    using that by (induction env) auto
  then have "mapGet (remoteContextEnvScriptInput env) key = mapGet env key" if "key \<in> {''HOME'', ''TMPDIR''}" for key
    using that by (auto simp: remoteContextEnvScriptInput_def mapGet_def)
  then show ?thesis by (auto simp: namesOrchestratorPath_def orchestratorPathRoots_def insideHost_def Let_def)
qed

text \<open>C19. What the sourced script assigns in a box that runs a prebaked image, each kind with its
  condition: an entry of the staged environment whose name describes no part of the orchestrator's file system (PATH,
  HOME, the temporary directories, GC_HOME, the XDG family) and whose value is not the orchestrator's HOME or TMPDIR or a
  path below it; the pointer to a staged key file (a name \<^verbatim>\<open>X\<close> for a staged \<^verbatim>\<open>X_PEM\<close>) in the box's own secrets
  directory; GC_HOME and CODEX_HOME below that directory; and GC_CITY_CONTEXT, the trimmed name of the city,
  whatever that name is. Nothing else is assigned.\<close>

theorem image_script_hides_orchestrator:
  assumes "secretsDir \<noteq> []"
  shows "\<exists>V. sourced d (envScriptOf env secretsDir) = Some V \<and> (\<forall>name v. V name = Some v \<longrightarrow>
    (name, v) \<in> set env \<and> name \<notin> {''PATH'', ''HOME'', ''TMP'', ''TEMP'', ''TMPDIR'', ''TMUX_TMPDIR'', ''GC_HOME''}
      \<and> \<not> hasPrefix name ''XDG_'' \<and> \<not> insideHost env v
    \<or> v = d @ ''/'' @ name @ ''_PEM'' \<and> (\<exists>u. (name @ ''_PEM'', u) \<in> set env)
    \<or> name = ''GC_HOME'' \<and> v = d @ ''/gc-home'' \<and> hasRemoteContext env
    \<or> name = ''CODEX_HOME'' \<and> v = d @ ''/codex-home'' \<and> codexHomeOwned secretsDir env
    \<or> name = ''GC_CITY_CONTEXT'' \<and> v = trimSpace (mapGet env ''GC_CITY_NAME'') \<and> hasRemoteContext env)"
proof (intro exI conjI allI impI, rule envScriptOf_sourced)
  fix name v
  assume V: "((sourcedValue (scriptInput env secretsDir) d)
     ++ (if hasRemoteContext env then [''GC_HOME'' \<mapsto> d @ ''/gc-home'', ''GC_CITY_CONTEXT'' \<mapsto> trimSpace (mapGet env ''GC_CITY_NAME'')] else Map.empty)
     ++ (if codexHomeOwned secretsDir env then [''CODEX_HOME'' \<mapsto> d @ ''/codex-home''] else Map.empty)) name = Some v"
  have "(name, v) \<in> set env \<and> \<not> insideHost env v \<and> name \<notin> set boxFilesystemEnvNames \<and> \<not> hasPrefix name ''XDG_''
      \<or> v = d @ ''/'' @ name @ ''_PEM'' \<and> (\<exists>u. (name @ ''_PEM'', u) \<in> set env)"
    if "sourcedValue (scriptInput env secretsDir) d name = Some v"
    using that scriptInput_names [OF _ assms, of env name v] scriptInput_names [OF _ assms, of env "name @ ''_PEM''"]
    unfolding orchestrator_path by (auto simp: sourcedValue_def split: if_splits)
  then show "(name, v) \<in> set env \<and> name \<notin> {''PATH'', ''HOME'', ''TMP'', ''TEMP'', ''TMPDIR'', ''TMUX_TMPDIR'', ''GC_HOME''}
      \<and> \<not> hasPrefix name ''XDG_'' \<and> \<not> insideHost env v
    \<or> v = d @ ''/'' @ name @ ''_PEM'' \<and> (\<exists>u. (name @ ''_PEM'', u) \<in> set env)
    \<or> name = ''GC_HOME'' \<and> v = d @ ''/gc-home'' \<and> hasRemoteContext env
    \<or> name = ''CODEX_HOME'' \<and> v = d @ ''/codex-home'' \<and> codexHomeOwned secretsDir env
    \<or> name = ''GC_CITY_CONTEXT'' \<and> v = trimSpace (mapGet env ''GC_CITY_NAME'') \<and> hasRemoteContext env"
    using V by (auto simp: map_add_def boxFilesystemEnvNames_def split: if_splits option.splits)
qed

theorem image_script_hides_orchestrator_witness:
  "\<exists>V. sourced ''/s'' (envScriptOf [(''PATH'', ''/opt/bin''), (''HOME'', ''/h''), (''CACHE'', ''/h/c'')] ''/s'') = Some V
    \<and> V ''PATH'' = None \<and> V ''HOME'' = None \<and> V ''CACHE'' = None"
proof -
  let ?env = "[(''PATH'', ''/opt/bin''), (''HOME'', ''/h''), (''CACHE'', ''/h/c'')]"
  have "insideHost ?env ''/h/c''"
    by (simp add: insideHost_def Let_def mapGet_def) code_simp
  moreover have "\<not> hasRemoteContext ?env" by (simp add: hasRemoteContext_def mapGet_def trimSpace_def)
  moreover obtain V where V: "sourced ''/s'' (envScriptOf ?env ''/s'') = Some V" and
    only: "\<And>name v. V name = Some v \<Longrightarrow>
      (name, v) \<in> set ?env \<and> name \<notin> {''PATH'', ''HOME'', ''TMP'', ''TEMP'', ''TMPDIR'', ''TMUX_TMPDIR'', ''GC_HOME''}
        \<and> \<not> hasPrefix name ''XDG_'' \<and> \<not> insideHost ?env v
      \<or> v = ''/s'' @ ''/'' @ name @ ''_PEM'' \<and> (\<exists>u. (name @ ''_PEM'', u) \<in> set ?env)
      \<or> name = ''GC_HOME'' \<and> v = ''/s'' @ ''/gc-home'' \<and> hasRemoteContext ?env
      \<or> name = ''CODEX_HOME'' \<and> v = ''/s'' @ ''/codex-home'' \<and> codexHomeOwned ''/s'' ?env
      \<or> name = ''GC_CITY_CONTEXT'' \<and> v = trimSpace (mapGet ?env ''GC_CITY_NAME'') \<and> hasRemoteContext ?env"
    using image_script_hides_orchestrator [of "''/s''" "''/s''" ?env] by blast
  ultimately have "V name = None" if "name \<in> {''PATH'', ''HOME'', ''CACHE''}" for name
  proof (cases "V name")
    case (Some v)
    then show ?thesis using that only [OF Some] \<open>insideHost ?env ''/h/c''\<close> by auto
  qed
  then show ?thesis using V by simp
qed

end
