(* ===== verification/Launch.thy ===== *)
theory Launch
  imports Env_Script
begin

text \<open>
  The launch command (\<^verbatim>\<open>ops.go\<close>): the detached tmux call that starts the agent in a
  session's box, the shell preludes its pane runs first, and what may and may not
  ride on its argument vector.
\<close>

subsection \<open>Shell text\<close>

definition dq :: "string \<Rightarrow> string" where
  "dq s = [CHR 0x22] @ s @ [CHR 0x22]"

definition sq :: "string \<Rightarrow> string" where
  "sq s = [quoteChar] @ s @ [quoteChar]"

definition launchEnvScript :: string where
  "launchEnvScript = joinStrings [newline]
    [''set -eu'', ''if [ -f '' @ dq ''$NOMAD_SECRETS_DIR/env.sh'' @ '' ]; then'',
     [CHR 0x09] @ ''. '' @ dq ''$NOMAD_SECRETS_DIR/env.sh'', ''fi'', ''exec '' @ dq ''$@'']"

definition gcArtifactDest :: string where
  "gcArtifactDest = ''gcbin''"

definition gcBinaryName :: string where
  "gcBinaryName = ''gc''"

definition boxGCPathPrelude :: string where
  "boxGCPathPrelude =
    (let bin = dq (''$NOMAD_TASK_DIR/'' @ gcArtifactDest @ ''/'' @ gcBinaryName) in
     ''if [ -f '' @ bin @ '' ]; then '' @ ''chmod +x '' @ bin @ '' 2>/dev/null || true; ''
     @ ''PATH='' @ dq (''$NOMAD_TASK_DIR/'' @ gcArtifactDest @ '':$PATH'') @ ''; export PATH; fi; '')"

definition paneStagedEnvPrelude :: string where
  "paneStagedEnvPrelude =
    ''if [ -f '' @ dq ''$NOMAD_SECRETS_DIR/env.sh'' @ '' ]; then . '' @ dq ''$NOMAD_SECRETS_DIR/env.sh'' @ ''; fi; ''
    @ boxGCPathPrelude @ ''unset GC_CITY GC_CITY_PATH GC_RIG; ''"

subsection \<open>The working directory\<close>

definition cityMirrorDirName :: string where
  "cityMirrorDirName = ''gc-city-checkout''"

definition envCityMirrorURL :: string where
  "envCityMirrorURL = ''GC_NOMAD_CITY_MIRROR_URL''"

definition envCityMirrorBranch :: string where
  "envCityMirrorBranch = ''GC_NOMAD_CITY_MIRROR_BRANCH''"

definition cityMirrorPrelude :: "host \<Rightarrow> string" where
  "cityMirrorPrelude h =
    (let url = trimSpace (getenv h envCityMirrorURL); branch = trimSpace (getenv h envCityMirrorBranch);
         branchArgs = (if branch \<noteq> [] then ''--branch '' @ shellQuote branch @ '' '' else []);
         dir = dq (''$NOMAD_SECRETS_DIR/'' @ cityMirrorDirName);
         shaFile = dq (''$NOMAD_SECRETS_DIR/'' @ cityMirrorDirName @ ''/sha'');
         statusFile = dq (''$NOMAD_SECRETS_DIR/'' @ cityMirrorDirName @ ''/status'');
         warn = (\<lambda>t. ''echo '' @ dq (''gc-runtime-nomad: '' @ envCityMirrorURL @ '' is set but '' @ t)) in
     if url = [] then []
     else ''( '' @ ''__gc_mirror_status=error; '' @ ''if command -v git >/dev/null 2>&1; then ''
       @ ''__gc_mirror_to='' @ dq [] @ ''; ''
       @ ''if command -v timeout >/dev/null 2>&1; then __gc_mirror_to='' @ dq ''timeout 60'' @ ''; fi; ''
       @ ''if [ -d .git ]; then ''
       @ ''if $__gc_mirror_to git fetch --depth 1 origin >&2 && git reset --hard FETCH_HEAD >&2; then __gc_mirror_status=ok; fi; ''
       @ ''elif [ -z '' @ dq ''$(ls -A . 2>/dev/null)'' @ '' ]; then ''
       @ ''if $__gc_mirror_to git clone --depth 1 '' @ branchArgs @ shellQuote url @ '' . >&2; then __gc_mirror_status=ok; fi; ''
       @ ''else '' @ warn ''the working directory is non-empty and not a git checkout; skipping clone'' @ '' >&2; ''
       @ ''__gc_mirror_status=skipped_nonempty; '' @ ''fi; ''
       @ ''else '' @ warn ''no git binary is on PATH in this image; skipping clone'' @ '' >&2; ''
       @ ''__gc_mirror_status=no_git; '' @ ''fi; ''
       @ ''if [ -n '' @ dq ''${NOMAD_SECRETS_DIR:-}'' @ '' ]; then ''
       @ ''mkdir -p '' @ dir @ '' 2>/dev/null; ''
       @ ''git rev-parse HEAD > '' @ shaFile @ '' 2>/dev/null || : > '' @ shaFile @ ''; ''
       @ ''printf '' @ sq (''%s'' @ [CHR 0x5C] @ ''n'') @ '' '' @ dq ''$__gc_mirror_status'' @ '' > '' @ statusFile @ '' 2>/dev/null || true; ''
       @ ''fi; '' @ '') ; '')"

definition paneCwdPrelude :: "host \<Rightarrow> string \<Rightarrow> string" where
  "paneCwdPrelude h workDir =
    (let scratch = ''if [ -n '' @ dq ''${NOMAD_ALLOC_DIR:-}'' @ '' ]; then mkdir -p '' @ dq ''$NOMAD_ALLOC_DIR/work''
           @ '' 2>/dev/null && cd '' @ dq ''$NOMAD_ALLOC_DIR/work'' @ '' 2>/dev/null; fi; '';
         wd = trimSpace workDir;
         cd = (if wd \<noteq> [] then ''cd '' @ shellQuote wd @ '' 2>/dev/null || '' @ scratch else scratch)
     in cd @ cityMirrorPrelude h)"

subsection \<open>The pane's body\<close>

definition agentCaptureBody :: "string \<Rightarrow> string" where
  "agentCaptureBody paneCommand0 =
    (let trimmed = trimSpace paneCommand0;
         paneCommand = fst (stripLeadingExec trimmed);
         argv0 = takeWhile (\<lambda>c. c \<noteq> CHR '' '' \<and> c \<noteq> CHR 0x09) paneCommand;
         now = ''$(date -u +%Y-%m-%dT%H:%M:%SZ 2>/dev/null || echo unknown)'' in
     ''__gc_cap='' @ dq ''${NOMAD_ALLOC_DIR:-/tmp}/data'' @ ''; mkdir -p '' @ dq ''$__gc_cap'' @ '' 2>/dev/null || true; ''
     @ ''trap : INT; '' @ hostPathProbe (absolutePathArgs paneCommand)
     @ ''__gc_started='' @ now @ ''; ''
     @ [CHR 0x7B] @ '' '' @ paneCommand @ ''; '' @ [CHR 0x7D] @ ''; __gc_rc=$?; ''
     @ [CHR 0x7B] @ '' printf '' @ sq (''exit=%s started=%s ended=%s pane=%s argv0=%s alloc=%s'' @ [CHR 0x5C] @ ''n'') @ '' ''
     @ dq ''$__gc_rc'' @ '' '' @ dq ''$__gc_started'' @ '' '' @ dq now @ '' '' @ dq ''${TMUX_PANE:-}'' @ '' ''
     @ shellQuote argv0 @ '' '' @ dq ''${NOMAD_ALLOC_ID:-}'' @ '' ''
     @ ''> '' @ dq ''$__gc_cap/agent.exit.$$'' @ '' && mv -f '' @ dq ''$__gc_cap/agent.exit.$$'' @ '' ''
     @ dq ''$__gc_cap/agent.exit'' @ ''; '' @ [CHR 0x7D] @ '' || true; '' @ ''exit $__gc_rc'')"

definition paneBody :: "host \<Rightarrow> string \<Rightarrow> string \<Rightarrow> string" where
  "paneBody h workDir paneCommand = paneStagedEnvPrelude @ paneCwdPrelude h workDir @ agentCaptureBody paneCommand"

subsection \<open>The command\<close>

definition agentStdoutCaptureName :: string where
  "agentStdoutCaptureName = ''agent.stdout''"

definition defaultTmuxLaunchArgs :: "string list" where
  "defaultTmuxLaunchArgs = [''new-session'', ''-d'', ''-s'', tmuxSessionName]"

definition argvPairs :: "gomap \<Rightarrow> string list" where
  "argvPairs env = concat (map (\<lambda>k. [''-e'', k @ ''='' @ mapGet env k]) (filter envArgvSafe (sortedKeys env)))"

definition buildLaunchCommandForTmuxWithPaneCommand ::
  "host \<Rightarrow> gomap \<Rightarrow> string list \<Rightarrow> string \<Rightarrow> string \<Rightarrow> string list" where
  "buildLaunchCommandForTmuxWithPaneCommand h env0 tmuxArgs workDir paneCommand =
    (let env = stripLocalCityStoreEnv env0 in
     [''/bin/sh'', ''-c'', launchEnvScript, ''gc-runtime-nomad-launch'', ''tmux''] @ tmuxArgs @ argvPairs env
     @ [''/bin/sh'', ''-c'', paneBody h workDir paneCommand]
     @ ['';'', ''pipe-pane'', ''-o'', ''-t'', tmuxSessionName,
        ''cat >> '' @ dq (''${NOMAD_ALLOC_DIR:-/tmp}/data/'' @ agentStdoutCaptureName)])"

definition buildLaunchCommandForPane :: "host \<Rightarrow> gomap \<Rightarrow> string \<Rightarrow> string \<Rightarrow> string list" where
  "buildLaunchCommandForPane h env workDir paneCommand =
    buildLaunchCommandForTmuxWithPaneCommand h env defaultTmuxLaunchArgs workDir paneCommand"

text \<open>The command of \<^verbatim>\<open>launch\<close>, or its refusal.\<close>

definition launchCommand :: "host \<Rightarrow> string \<Rightarrow> gomap \<Rightarrow> string \<Rightarrow> string \<Rightarrow> goerr + string list" where
  "launchCommand h sessionName env workDir providerCommand =
    (if trimSpace providerCommand = []
     then Inl (ENew (''launching session '' @ goQuote sessionName @ '': GC_NOMAD_AGENT_IMAGE is set but gc sent no rendered launch command, and the prebaked image leaves the pack no bootstrap to substitute''))
     else Inr (buildLaunchCommandForPane h (boxFilesystemEnvInput env) workDir providerCommand))"

subsection \<open>Nothing secret on the command line\<close>

lemma map_of_filter_fst: "map_of (filter (\<lambda>(k, v). P k) m) k = (if P k then map_of m k else None)"
  by (induction m) auto

lemma filter_sortedKeys_cong:
  assumes "\<And>k. P k \<Longrightarrow> map_of m k = map_of n k"
  shows "filter P (sortedKeys m) = filter P (sortedKeys n)"
proof (rule sorted_distinct_set_unique)
  have "k \<in> fst ` set m \<longleftrightarrow> k \<in> fst ` set n" if "P k" for k
    using assms [OF that] by (simp add: in_env)
  then show "set (filter P (sortedKeys m)) = set (filter P (sortedKeys n))" by auto
qed (simp_all add: sorted_wrt_filter)

lemma argvPairs_cong:
  assumes "\<And>k. envArgvSafe k \<Longrightarrow> map_of m k = map_of n k"
  shows "argvPairs m = argvPairs n"
proof -
  have "mapGet m k = mapGet n k" if "envArgvSafe k" for k using assms [OF that] by (simp add: mapGet_def)
  then show ?thesis
    unfolding argvPairs_def
    by (intro arg_cong [of _ _ concat] map_cong filter_sortedKeys_cong assms) auto
qed

definition remoteTarget :: "gomap \<Rightarrow> bool" where
  "remoteTarget env \<longleftrightarrow> \<not> (trimSpace (mapGet env ''GC_CITY_URL'') = [] \<and> trimSpace (mapGet env ''GC_CITY_CONTEXT'') = [])"

text \<open>C18. The launch command line carries no secret: it is the same for any two
  environments that give the allow-listed names the same values and agree on whether
  a remote city is the target, whatever else they contain. In particular it does not
  depend on a token, a key or a password of any other name.\<close>

theorem launch_argv_independent_of_secrets:
  assumes "\<And>k. k \<in> set envArgvSafeNames \<Longrightarrow> map_of env1 k = map_of env2 k"
    and "remoteTarget env1 \<longleftrightarrow> remoteTarget env2"
  shows "buildLaunchCommandForTmuxWithPaneCommand h env1 tmuxArgs workDir paneCommand
    = buildLaunchCommandForTmuxWithPaneCommand h env2 tmuxArgs workDir paneCommand"
proof -
  have "map_of (stripLocalCityStoreEnv env) k =
      (if remoteTarget env \<and> localStoreKey k then None else map_of env k)" for env k
    by (auto simp: stripLocalCityStoreEnv_def remoteTarget_def map_of_filter_fst)
  then have "argvPairs (stripLocalCityStoreEnv env1) = argvPairs (stripLocalCityStoreEnv env2)"
    using assms by (intro argvPairs_cong) (simp add: envArgvSafe_def)
  then show ?thesis by (simp add: buildLaunchCommandForTmuxWithPaneCommand_def)
qed

theorem launch_argv_independent_of_secrets_witness:
  "\<forall>h. buildLaunchCommandForTmuxWithPaneCommand h [(''GC_INSTANCE_TOKEN'', ''s1''), (''TERM'', ''x'')] defaultTmuxLaunchArgs [] ''codex''
    = buildLaunchCommandForTmuxWithPaneCommand h [(''TERM'', ''x''), (''GC_INSTANCE_TOKEN'', ''s2'')] defaultTmuxLaunchArgs [] ''codex''"
proof
  fix h
  show "buildLaunchCommandForTmuxWithPaneCommand h [(''GC_INSTANCE_TOKEN'', ''s1''), (''TERM'', ''x'')] defaultTmuxLaunchArgs [] ''codex''
    = buildLaunchCommandForTmuxWithPaneCommand h [(''TERM'', ''x''), (''GC_INSTANCE_TOKEN'', ''s2'')] defaultTmuxLaunchArgs [] ''codex''"
    by (rule launch_argv_independent_of_secrets) (auto simp: envArgvSafeNames_def remoteTarget_def mapGet_def)
qed

end
