(* ===== verification/Gc_Capability.thy ===== *)
theory Gc_Capability
  imports Launch
begin

text \<open>
  Whether the gc that drives the pack, and the gc inside a box, can claim work
  (\<^verbatim>\<open>gc_capability.go\<close>, \<^verbatim>\<open>box_gc_load.go\<close>): the classification of
  probe outputs, the refusals and warnings, the comparison of commits.
\<close>

subsection \<open>The worker surface\<close>

datatype gcWorkerSurface =
  gcWorkerSurfaceUnknown | gcWorkerSurfacePresent | gcWorkerSurfaceMissing | gcWorkerSurfaceAbsent

definition edgeWorkerSurfaceMarker :: string where
  "edgeWorkerSurfaceMarker = ''remote worker subset''"

definition baseCapabilityGateMark :: string where
  "baseCapabilityGateMark = ''remote support is being enabled incrementally''"

definition classifyWorkerSurface :: "string \<Rightarrow> gcWorkerSurface" where
  "classifyWorkerSurface output =
    (if containsS output edgeWorkerSurfaceMarker then gcWorkerSurfacePresent
     else if containsS output baseCapabilityGateMark then gcWorkerSurfaceMissing
     else gcWorkerSurfaceUnknown)"

definition probeGCWorkerSurfaceFromOutput :: "string \<Rightarrow> gcWorkerSurface" where
  "probeGCWorkerSurfaceFromOutput out =
    (if trimSpace out = [] then gcWorkerSurfaceAbsent else classifyWorkerSurface out)"

definition probeGCWorkerSurface :: "host \<Rightarrow> gcWorkerSurface" where
  "probeGCWorkerSurface h =
    (case hostGC h [''bd'', ''claim'', ''gc-runtime-nomad-capability-probe'', ''--city-url'', ''https://127.0.0.1:1'',
        ''--city-name'', ''gc-runtime-nomad-probe''] of
       None \<Rightarrow> gcWorkerSurfaceAbsent
     | Some (err, out) \<Rightarrow> probeGCWorkerSurfaceFromOutput out)"

definition envSkipCapabilityGate :: string where
  "envSkipCapabilityGate = ''GC_NOMAD_SKIP_GC_CAPABILITY_GATE''"

text \<open>The verdict, with what is printed on standard error.\<close>

definition capabilityGateSkipped :: "host \<Rightarrow> bool \<times> string" where
  "capabilityGateSkipped h =
    (if trimSpace (getenv h envSkipCapabilityGate) = [] then (False, [])
     else (True, ''warning: the gc capability gate is disabled ('' @ envSkipCapabilityGate @ '' is set). ''
       @ ''This pack is NOT checking whether the gc on PATH can claim work from inside ''
       @ ''an allocation. Correct for an offline harness; in a real deployment it ''
       @ ''restores the failure the gate exists to prevent '' @ emDash @ '' a box that comes up, looks ''
       @ ''healthy, and drains no_work forever.'' @ [newline]))"

definition gcWorkerSurfaceForCheck :: "host \<Rightarrow> gcWorkerSurface \<times> string" where
  "gcWorkerSurfaceForCheck h =
    (case capabilityGateSkipped h of
       (True, said) \<Rightarrow> (gcWorkerSurfacePresent, said)
     | (False, said) \<Rightarrow> (probeGCWorkerSurface h, said))"

definition inBoxProbeCommand :: "string list" where
  "inBoxProbeCommand =
    [''/bin/sh'', ''-c'', ''gc bd claim gc-runtime-nomad-capability-probe ''
       @ ''--city-url https://127.0.0.1:1 --city-name gc-runtime-nomad-probe 2>&1'']"

definition inBoxWorkerSurfaceWarning :: "string \<Rightarrow> string" where
  "inBoxWorkerSurfaceWarning output =
    (if classifyWorkerSurface output \<noteq> gcWorkerSurfaceMissing then []
     else ''warning: the `gc` INSIDE this box does not carry the remote-worker-lifecycle ''
       @ ''family. The box is healthy and the agent will start, but the seat cannot claim ''
       @ ''work through /v0/city/{city}/worker/* and will drain no_work while the city lists ''
       @ ''its work as ready. The host gate passed, so this is the AGENT IMAGE, not the ''
       @ ''supervisor: rebuild it against the same gc lineage (COMPATIBILITY.md, '' @ dq ''The agent image'' @ '').'')"

subsection \<open>Commits\<close>

definition inBoxVersionCommand :: "string list" where
  "inBoxVersionCommand = [''/bin/sh'', ''-c'', boxGCPathPrelude @ ''gc version --json --long'' @ '' 2>&1'']"

fun afterFirst :: "string \<Rightarrow> string \<Rightarrow> string option" where
  "afterFirst key [] = (if key = [] then Some [] else None)"
| "afterFirst key (c # s) = (if hasPrefix (c # s) key then Some (drop (length key) (c # s)) else afterFirst key s)"

text \<open>The empty string is \<^verbatim>\<open>gcCommitUnknownText\<close>.\<close>

definition gcCommitFromVersionJSON :: "string \<Rightarrow> string" where
  "gcCommitFromVersionJSON out =
    (case afterFirst (dq ''commit'' @ '':'' @ [CHR 0x22]) out of
       None \<Rightarrow> []
     | Some rest \<Rightarrow>
         (let v = takeWhile (\<lambda>c. c \<noteq> CHR 0x22) rest
          in if CHR 0x22 \<notin> set rest \<or> v = [] then [] else trimSpace v))"

definition gcCommitsDiverge :: "string \<Rightarrow> string \<Rightarrow> bool" where
  "gcCommitsDiverge hostC boxC =
    (if hostC = [] \<or> boxC = [] then False
     else if hostC = boxC then False
     else let (short, long) = (if length boxC < length hostC then (boxC, hostC) else (hostC, boxC))
          in \<not> hasPrefix long short)"

definition staleBoxGCWarning :: "string \<Rightarrow> string \<Rightarrow> string" where
  "staleBoxGCWarning hostC boxC =
    (if \<not> gcCommitsDiverge hostC boxC then []
     else ''the gc INSIDE the box is a different build from the gc driving this pack: ''
       @ ''box='' @ boxC @ '' host='' @ hostC @ ''. The box's gc is baked into the agent image, and the image is rebuilt ''
       @ ''separately from a pin roll, so every gc change since the image was built is invisible ''
       @ ''inside every allocation while the host reports the new pin. This is not a capability ''
       @ ''failure '' @ emDash @ '' the box may claim work perfectly well and still answer an older contract, which ''
       @ ''is the shape that cost a full day: a box answering '' @ dq ''--drain-ack requires --claim'' @ '' while ''
       @ ''the host pin documented both modes. Rebuild the agent image against '' @ hostC @ '' and retarget GC_NOMAD_AGENT_IMAGE, ''
       @ ''or stop baking gc into the image.'')"

definition hostGCCommit :: "host \<Rightarrow> string" where
  "hostGCCommit h =
    (case hostGC h [''version'', ''--json'', ''--long''] of
       None \<Rightarrow> []
     | Some (Some e, out) \<Rightarrow> []
     | Some (None, out) \<Rightarrow> gcCommitFromVersionJSON out)"

subsection \<open>A gc that cannot start\<close>

definition libChar :: "char \<Rightarrow> bool" where
  "libChar c \<longleftrightarrow> isLetter c \<or> isDigit c \<or> c \<in> set ''_+.-''"

text \<open>The groups \<^verbatim>\<open>(?:\.[0-9]+)+\<close> at the head of a string; empty when there is none.\<close>

function soGroups :: "string \<Rightarrow> string" where
  "soGroups s =
    (case s of
       c # d # t \<Rightarrow>
         if c = CHR ''.'' \<and> isDigit d
         then let ds = takeWhile isDigit (d # t) in c # ds @ soGroups (drop (length ds) (d # t))
         else []
     | _ \<Rightarrow> [])"
  by pat_completeness auto
termination
  by (relation "measure length") (auto simp: less_Suc_eq_le)

declare soGroups.simps [simp del]

text \<open>The match of \<^verbatim>\<open>lib[A-Za-z0-9_+.-]+\.so(?:\.[0-9]+)+\<close> at the head, with the class run
  tried longest first.\<close>

fun soMatch :: "nat \<Rightarrow> string \<Rightarrow> string option" where
  "soMatch 0 s = None"
| "soMatch (Suc n) s =
    (let rest = drop (Suc n) s; g = soGroups (drop 3 rest) in
     if hasPrefix rest ''.so'' \<and> g \<noteq> [] then Some (take (Suc n) s @ ''.so'' @ g) else soMatch n s)"

fun findLibrary :: "string \<Rightarrow> string" where
  "findLibrary [] = []"
| "findLibrary (c # s) =
    (case (if hasPrefix (c # s) ''lib'' then soMatch (length (takeWhile libChar (drop 3 (c # s)))) (drop 3 (c # s)) else None) of
       Some m \<Rightarrow> ''lib'' @ m
     | None \<Rightarrow> findLibrary s)"

definition firstLine :: "string \<Rightarrow> string" where
  "firstLine s = takeWhile (\<lambda>c. c \<noteq> newline) s"

definition boxGCLoadFailure :: "string \<Rightarrow> string" where
  "boxGCLoadFailure out =
    (let o' = trimSpace out;
         loaderSpeak = (containsS o' ''error while loading shared libraries'' \<or> containsS o' ''cannot open shared object file'');
         lib = (if findLibrary o' = [] then ''a shared library it needs'' else findLibrary o') in
     if o' = [] \<or> \<not> loaderSpeak then []
     else ''THE gc IN THE BOX CANNOT START: it needs '' @ lib @ '' and the image does not have it. ''
       @ ''This is an ABI mismatch, not a version preference '' @ emDash @ '' the soname number IS the ''
       @ ''incompatibility, and a binary in this state loads cleanly on whatever host built it ''
       @ ''and only ever fails where it has to run. The fetched gc must be BUILT AGAINST the ''
       @ ''agent image's own base; building it in a different distribution (or a different ''
       @ ''release of the same one) produces exactly this. Nothing in the image can fix it. ''
       @ ''The loader said: '' @ trimSpace (firstLine o'))"

subsection \<open>Commits are compared by prefix\<close>

text \<open>C31. Two gc builds are reported as different exactly when both commits are known and
  neither is an abbreviation of the other, so the order of the arguments does not
  matter and an unreadable probe is never reported.\<close>

theorem gcCommitsDiverge_iff:
  "gcCommitsDiverge a b \<longleftrightarrow> a \<noteq> [] \<and> b \<noteq> [] \<and> \<not> prefix a b \<and> \<not> prefix b a"
proof -
  have p: "hasPrefix x y \<longleftrightarrow> prefix y x" for x y :: string by (auto simp: hasPrefix_iff prefix_def)
  have "\<not> prefix x y" if "length y < length x" for x y :: string
    using that prefix_length_le by force
  moreover have "prefix x y \<longleftrightarrow> x = y" if "length y = length x" for x y :: string
    using that by (auto simp: prefix_def)
  ultimately show ?thesis
    by (cases "length a" "length b" rule: linorder_cases) (auto simp: gcCommitsDiverge_def p)
qed

end
