(* ===== verification/Base64.thy ===== *)
theory Base64
  imports Go_Strings
begin

text \<open>
  \<^verbatim>\<open>encoding/base64\<close> as the program uses it: \<^verbatim>\<open>StdEncoding\<close> for the payload of
  exec frames and \<^verbatim>\<open>RawURLEncoding\<close> for file names under the sidecar
  directory. The decoder is the non-strict one of the library: line breaks are
  skipped, trailing bits of the last quantum are ignored.
\<close>

definition stdAlphabet :: string where
  "stdAlphabet = ''ABCDEFGHIJKLMNOPQRSTUVWXYZabcdefghijklmnopqrstuvwxyz0123456789+/''"

definition urlAlphabet :: string where
  "urlAlphabet = ''ABCDEFGHIJKLMNOPQRSTUVWXYZabcdefghijklmnopqrstuvwxyz0123456789-_''"

fun sextets :: "nat list \<Rightarrow> nat list" where
  "sextets (a # b # c # r) =
    [a div 4, (a mod 4) * 16 + b div 16, (b mod 16) * 4 + c div 64, c mod 64] @ sextets r"
| "sextets [a, b] = [a div 4, (a mod 4) * 16 + b div 16, (b mod 16) * 4]"
| "sextets [a] = [a div 4, (a mod 4) * 16]"
| "sextets [] = []"

definition padding :: "nat \<Rightarrow> string" where
  "padding n = (if n mod 3 = 1 then ''=='' else if n mod 3 = 2 then ''='' else '''')"

definition encodeWith :: "string \<Rightarrow> nat list \<Rightarrow> string" where
  "encodeWith alpha bs = map (\<lambda>i. alpha ! i) (sextets bs)"

definition stdEncode :: "bytes \<Rightarrow> string" where
  "stdEncode bs = encodeWith stdAlphabet (map unat bs) @ padding (length bs)"

definition rawURLEncode :: "string \<Rightarrow> string" where
  "rawURLEncode s = encodeWith urlAlphabet (map of_char s)"

text \<open>Position of a character in the standard alphabet.\<close>

definition stdValue :: "char \<Rightarrow> nat option" where
  "stdValue c = (let i = length (takeWhile (\<lambda>d. d \<noteq> c) stdAlphabet) in if i < 64 then Some i else None)"

fun decodeQuanta :: "string \<Rightarrow> nat list option" where
  "decodeQuanta [] = Some []"
| "decodeQuanta (c1 # c2 # c3 # c4 # r) =
    (case (stdValue c1, stdValue c2) of
       (Some v1, Some v2) \<Rightarrow>
         (let x1 = v1 * 4 + v2 div 16 in
          if c3 = CHR ''='' then (if c4 = CHR ''='' \<and> r = [] then Some [x1] else None)
          else (case stdValue c3 of
              None \<Rightarrow> None
            | Some v3 \<Rightarrow>
                (let x2 = (v2 mod 16) * 16 + v3 div 4 in
                 if c4 = CHR ''='' then (if r = [] then Some [x1, x2] else None)
                 else (case stdValue c4 of
                     None \<Rightarrow> None
                   | Some v4 \<Rightarrow> map_option (\<lambda>xs. [x1, x2, (v3 mod 4) * 64 + v4] @ xs) (decodeQuanta r)))))
     | _ \<Rightarrow> None)"
| "decodeQuanta _ = None"

definition stdDecode :: "string \<Rightarrow> bytes option" where
  "stdDecode s = map_option (map of_nat) (decodeQuanta (filter (\<lambda>c. c \<notin> {CHR 0x0A, CHR 0x0D}) s))"

subsection \<open>Facts about the alphabets\<close>

lemma length_alphabets [simp]: "length stdAlphabet = 64" "length urlAlphabet = 64"
  by (simp_all add: stdAlphabet_def urlAlphabet_def)

lemma distinct_alphabets: "distinct stdAlphabet" "distinct urlAlphabet"
  by code_simp+

lemma alphabet_chars:
  "CHR ''='' \<notin> set stdAlphabet" "CHR 0x0A \<notin> set stdAlphabet" "CHR 0x0D \<notin> set stdAlphabet"
  "CHR ''/'' \<notin> set urlAlphabet" "CHR ''.'' \<notin> set urlAlphabet"
  by code_simp+

lemma stdValue_nth [simp]: "i < 64 \<Longrightarrow> stdValue (stdAlphabet ! i) = Some i"
proof -
  assume i: "i < 64"
  have "takeWhile (\<lambda>d. d \<noteq> stdAlphabet ! i) stdAlphabet = take i stdAlphabet"
  proof (rule takeWhile_eq_take_P_nth)
    fix n assume "n < i" "n < length stdAlphabet"
    then show "stdAlphabet ! n \<noteq> stdAlphabet ! i"
      using i distinct_alphabets(1) by (simp add: nth_eq_iff_index_eq)
  qed simp
  then show ?thesis
    using i by (simp add: stdValue_def)
qed

lemma nth_not_pad [simp]: "i < 64 \<Longrightarrow> stdAlphabet ! i \<noteq> CHR ''=''"
  using alphabet_chars(1) by (metis length_alphabets(1) nth_mem)

lemma sextets_bound: "\<forall>b \<in> set bs. b < 256 \<Longrightarrow> \<forall>i \<in> set (sextets bs). i < 64"
  by (induction bs rule: sextets.induct) (auto simp: less_mult_imp_div_less)

lemma set_encodeWith:
  assumes "length alpha = 64" and "\<forall>b \<in> set bs. b < 256"
  shows "set (encodeWith alpha bs) \<subseteq> set alpha"
  using sextets_bound [OF assms(2)] assms(1) by (auto simp: encodeWith_def)

subsection \<open>Round trips\<close>

lemma digit_split: "(y :: nat) < n \<Longrightarrow> (x * n + y) div n = x \<and> (x * n + y) mod n = y"
  by simp

lemma sextet_arith:
  fixes a b c :: nat
  assumes "a < 256" "b < 256" "c < 256"
  shows "a div 4 * 4 + ((a mod 4) * 16 + b div 16) div 16 = a"
    and "((a mod 4) * 16 + b div 16) mod 16 * 16 + ((b mod 16) * 4 + c div 64) div 4 = b"
    and "((b mod 16) * 4 + c div 64) mod 4 * 64 + c mod 64 = c"
    and "a div 4 < 64" and "(a mod 4) * 16 + b div 16 < 64" and "(b mod 16) * 4 + c div 64 < 64"
    and "(a mod 4) * 16 < 64" and "(b mod 16) * 4 < 64"
proof -
  have small: "b div 16 < 16" "c div 64 < 4" "a mod 4 < 4" "b mod 16 < 16"
    using assms by (simp_all add: div_less_iff_less_mult)
  show "a div 4 * 4 + ((a mod 4) * 16 + b div 16) div 16 = a"
    using digit_split [OF small(1)] by simp
  show "((a mod 4) * 16 + b div 16) mod 16 * 16 + ((b mod 16) * 4 + c div 64) div 4 = b"
    using digit_split [OF small(1)] digit_split [OF small(2)] by simp
  show "((b mod 16) * 4 + c div 64) mod 4 * 64 + c mod 64 = c"
    using digit_split [OF small(2)] by simp
  show "a div 4 < 64" "(a mod 4) * 16 + b div 16 < 64" "(b mod 16) * 4 + c div 64 < 64"
    "(a mod 4) * 16 < 64" "(b mod 16) * 4 < 64"
    using small assms(1) by (simp_all add: div_less_iff_less_mult)
qed

lemma padding_add3 [simp]: "padding (Suc (Suc (Suc n))) = padding n"
proof -
  have "Suc (Suc (Suc n)) mod 3 = n mod 3"
    by presburger
  then show ?thesis by (simp add: padding_def)
qed

lemma padding_small [simp]: "padding 0 = ''''" "padding (Suc 0) = ''==''" "padding (Suc (Suc 0)) = ''=''"
  by (simp_all add: padding_def)

lemma decodeQuanta_encode:
  "\<forall>b \<in> set bs. b < 256 \<Longrightarrow>
   decodeQuanta (encodeWith stdAlphabet bs @ padding (length bs)) = Some bs"
proof (induction bs rule: sextets.induct)
  case (1 a b c r)
  then have "a < 256" "b < 256" "c < 256" by auto
  note ar = sextet_arith [OF this]
  have "decodeQuanta (encodeWith stdAlphabet r @ padding (length r)) = Some r"
    using 1 by simp
  then show ?case
    using ar by (simp add: encodeWith_def)
next
  case (2 a b)
  then have "a < 256" "b < 256" "(0::nat) < 256" by auto
  note ar = sextet_arith [OF this]
  then show ?case by (simp add: encodeWith_def)
next
  case (3 a)
  then have "a < 256" "(0::nat) < 256" "(0::nat) < 256" by auto
  note ar = sextet_arith [OF this]
  then show ?case by (simp add: encodeWith_def)
qed (simp add: encodeWith_def)

lemma unat_byte_less [simp]: "unat (b :: byte) < 256"
  using unsigned_less [of b] by simp

lemma stdDecode_stdEncode [simp]: "stdDecode (stdEncode bs) = Some bs"
proof -
  let ?t = "stdEncode bs"
  have bnd: "\<forall>b \<in> set (map unat bs). b < 256" by auto
  have "set ?t \<subseteq> insert (CHR ''='') (set stdAlphabet)"
    using set_encodeWith [OF length_alphabets(1) bnd] by (auto simp: stdEncode_def padding_def)
  then have "filter (\<lambda>c. c \<notin> {CHR 0x0A, CHR 0x0D}) ?t = ?t"
    using alphabet_chars by (intro filter_True) auto
  then show ?thesis
    using decodeQuanta_encode [OF bnd] by (simp add: stdDecode_def stdEncode_def comp_def)
qed

lemma sextets_inject:
  "\<forall>b \<in> set xs. b < 256 \<Longrightarrow> \<forall>b \<in> set ys. b < 256 \<Longrightarrow> sextets xs = sextets ys \<Longrightarrow> xs = ys"
proof -
  assume b: "\<forall>b \<in> set xs. b < 256" "\<forall>b \<in> set ys. b < 256" and eq: "sextets xs = sextets ys"
  have len: "length (sextets zs) = (4 * length zs + 2) div 3" for zs
    by (induction zs rule: sextets.induct) auto
  have "m = n" if "(4 * m + 2) div 3 = (4 * n + 2) div (3::nat)" for m n :: nat
    using that by linarith
  then have "length xs = length ys"
    using arg_cong [OF eq, of length] unfolding len by blast
  then show "xs = ys"
    using decodeQuanta_encode [OF b(1)] decodeQuanta_encode [OF b(2)] eq
    by (simp add: encodeWith_def)
qed

lemma rawURLEncode_inject [simp]: "rawURLEncode s = rawURLEncode t \<longleftrightarrow> s = t"
proof
  assume eq: "rawURLEncode s = rawURLEncode t"
  have b: "\<forall>b \<in> set (map of_char u). b < (256::nat)" for u :: string by auto
  have "inj_on (\<lambda>i. urlAlphabet ! i) {i. i < 64}"
    using distinct_alphabets(2) by (auto simp: inj_on_def nth_eq_iff_index_eq)
  moreover have "set (sextets (map of_char u)) \<subseteq> {i. i < 64}" for u :: string
    using sextets_bound [OF b] by auto
  ultimately have "sextets (map of_char s) = sextets (map of_char t)"
    using eq by (auto simp: rawURLEncode_def encodeWith_def
        intro: map_inj_on [of "\<lambda>i. urlAlphabet ! i"] inj_on_subset)
  then have "map of_char s = (map of_char t :: nat list)"
    using sextets_inject [OF b b] by blast
  then show "s = t"
    by (simp add: inj_map_eq_map inj_of_char)
qed simp

lemma rawURLEncode_chars: "c \<in> set (rawURLEncode s) \<Longrightarrow> c \<in> set urlAlphabet"
  using set_encodeWith [OF length_alphabets(2), of "map of_char s"] by (auto simp: rawURLEncode_def)

end
