(* ===== verification/Sidecar.thy ===== *)
theory Sidecar
  imports Base64 Data_Model Go_Monad
begin

text \<open>
  The sidecar (\<^verbatim>\<open>sidecar.go\<close>): one JSON document per session in a private
  directory, written to a temporary name and renamed. The directory is a list of
  named files; a file holds a binding, a reap record, or bytes that do not
  decode. Every system call takes the next entry of a script of faults, so each
  error branch of the code is a branch here, and a failed write leaves a torn
  temporary file behind. The locale \<open>binding_store\<close> is what the lifecycle relies
  on; it is interpreted on these operations.
\<close>

datatype content = CBinding binding | CTombstone tombstone | CTorn | CDir

record sidecar_fs =
  fs_files :: "(string \<times> content) list"
  fs_faults :: "string option list"

subsection \<open>System calls\<close>

text \<open>Consumes one entry of the fault script: \<^const>\<open>None\<close> lets the call proceed, a text
  is the errno it fails with; an exhausted script means no more faults.\<close>

definition takeFault :: "('a sidecar_fs_scheme, goerr option) prog" where
  "takeFault s =
    (case fs_faults s of
       [] \<Rightarrow> (Ok None, s)
     | f # fs \<Rightarrow> (Ok (map_option ENew f), s\<lparr>fs_faults := fs\<rparr>))"

definition notExist :: "string \<Rightarrow> string \<Rightarrow> goerr" where
  "notExist op name = EWrap (op @ '' '' @ name @ '': '') (ESent OsErrNotExist) []"

definition os_ReadFile :: "string \<Rightarrow> ('a sidecar_fs_scheme, content) prog" where
  "os_ReadFile name =
    bindS takeFault (\<lambda>f. case f of Some e \<Rightarrow> failS e | None \<Rightarrow>
    bindS (getS (\<lambda>s. map_of (fs_files s) name)) (\<lambda>c.
    case c of None \<Rightarrow> failS (notExist ''open'' name) | Some c \<Rightarrow> returnS c))"

definition os_WriteFile :: "string \<Rightarrow> content \<Rightarrow> ('a sidecar_fs_scheme, unit) prog" where
  "os_WriteFile name c =
    bindS takeFault (\<lambda>f. case f of
      Some e \<Rightarrow> bindS (modifyS (\<lambda>s. s\<lparr>fs_files := mapSet name CTorn (fs_files s)\<rparr>)) (\<lambda>_. failS e)
    | None \<Rightarrow> modifyS (\<lambda>s. s\<lparr>fs_files := mapSet name c (fs_files s)\<rparr>))"

definition os_Rename :: "string \<Rightarrow> string \<Rightarrow> ('a sidecar_fs_scheme, unit) prog" where
  "os_Rename old new =
    bindS takeFault (\<lambda>f. case f of Some e \<Rightarrow> failS e | None \<Rightarrow>
    bindS (getS (\<lambda>s. map_of (fs_files s) old)) (\<lambda>c.
    case c of
      None \<Rightarrow> failS (notExist ''rename'' old)
    | Some c \<Rightarrow> modifyS (\<lambda>s. s\<lparr>fs_files := mapSet new c (mapDel old (fs_files s))\<rparr>)))"

definition os_Remove :: "string \<Rightarrow> ('a sidecar_fs_scheme, unit) prog" where
  "os_Remove name =
    bindS takeFault (\<lambda>f. case f of Some e \<Rightarrow> failS e | None \<Rightarrow>
    bindS (getS (\<lambda>s. map_of (fs_files s) name)) (\<lambda>c.
    case c of
      None \<Rightarrow> failS (notExist ''remove'' name)
    | Some c \<Rightarrow> modifyS (\<lambda>s. s\<lparr>fs_files := mapDel name (fs_files s)\<rparr>)))"

definition os_MkdirAll :: "string \<Rightarrow> ('a sidecar_fs_scheme, unit) prog" where
  "os_MkdirAll name =
    bindS takeFault (\<lambda>f. case f of Some e \<Rightarrow> failS e | None \<Rightarrow>
    modifyS (\<lambda>s. s\<lparr>fs_files := mapSet name CDir (fs_files s)\<rparr>))"

text \<open>\<^verbatim>\<open>os.ReadDir\<close>: the entries of the directory itself, by name.\<close>

definition os_ReadDir :: "('a sidecar_fs_scheme, (string \<times> content) list) prog" where
  "os_ReadDir =
    bindS takeFault (\<lambda>f. case f of Some e \<Rightarrow> failS e | None \<Rightarrow>
    getS (\<lambda>s. sort_key fst (filter (\<lambda>(n, c). CHR ''/'' \<notin> set n) (fs_files s))))"

subsection \<open>The sidecar's operations\<close>

definition sidecar_path :: "string \<Rightarrow> string" where
  "sidecar_path sessionName = rawURLEncode sessionName @ ''.json''"

text \<open>\<^verbatim>\<open>json.Unmarshal\<close> into a \<^verbatim>\<open>binding\<close>. A reap record is JSON too and decodes to
  the fields the two structs share by name.\<close>

definition decodeBinding :: "content \<Rightarrow> binding option" where
  "decodeBinding c =
    (case c of
       CBinding b \<Rightarrow> Some b
     | CTombstone t \<Rightarrow> Some ((newBinding (tsSessionName t))\<lparr>ChildJobID := tsChildJobID t,
         CreatedAt := tsCreatedAt t, Launched := tsLaunched t, AgentPID := tsAgentPID t\<rparr>)
     | _ \<Rightarrow> None)"

definition errDecode :: "string \<Rightarrow> string \<Rightarrow> goerr" where
  "errDecode what name =
    EWrap (''decoding sidecar binding '' @ what @ goQuote name @ '': '') (ENew ''invalid JSON'') []"

definition sidecar_load :: "string \<Rightarrow> ('a sidecar_fs_scheme, binding option) prog" where
  "sidecar_load sessionName =
    bindS (attempt (os_ReadFile (sidecar_path sessionName))) (\<lambda>r.
    case r of
      Inl e \<Rightarrow> if errIs e OsErrNotExist then returnS None
               else failS (EWrap (''reading sidecar binding for '' @ goQuote sessionName @ '': '') e [])
    | Inr data \<Rightarrow>
        (case decodeBinding data of None \<Rightarrow> failS (errDecode ''for '' sessionName) | Some b \<Rightarrow> returnS (Some b)))"

definition sidecar_save :: "binding \<Rightarrow> ('a sidecar_fs_scheme, unit) prog" where
  "sidecar_save b =
    (let target = sidecar_path (SessionName b); tmp = target @ ''.tmp'' in
     bindS (wrapS (''writing sidecar binding for '' @ goQuote (SessionName b) @ '': '') []
              (os_WriteFile tmp (CBinding b))) (\<lambda>_.
     wrapS (''committing sidecar binding for '' @ goQuote (SessionName b) @ '': '') []
              (os_Rename tmp target)))"

definition sidecar_remove :: "string \<Rightarrow> ('a sidecar_fs_scheme, unit) prog" where
  "sidecar_remove sessionName =
    bindS (attempt (os_Remove (sidecar_path sessionName))) (\<lambda>r.
    case r of
      Inr _ \<Rightarrow> returnS ()
    | Inl e \<Rightarrow> if errIs e OsErrNotExist then returnS ()
               else failS (EWrap (''removing sidecar binding for '' @ goQuote sessionName @ '': '') e []))"

fun readEntries :: "(string \<times> content) list \<Rightarrow> binding list \<Rightarrow> ('a sidecar_fs_scheme, binding list) prog" where
  "readEntries [] out = returnS out"
| "readEntries ((name, c) # es) out =
    (if c = CDir \<or> \<not> hasSuffix name ''.json'' then readEntries es out
     else bindS (attempt (os_ReadFile name)) (\<lambda>r.
       case r of
         Inl e \<Rightarrow> if errIs e OsErrNotExist then readEntries es out
                  else failS (EWrap (''reading sidecar binding '' @ goQuote name @ '': '') e [])
       | Inr data \<Rightarrow>
           (case decodeBinding data of
              None \<Rightarrow> failS (errDecode [] name)
            | Some b \<Rightarrow> readEntries es (out @ [b]))))"

definition sidecar_list :: "('a sidecar_fs_scheme, binding list) prog" where
  "sidecar_list =
    bindS (wrapS ''listing sidecar directory: '' [] os_ReadDir) (\<lambda>entries. readEntries entries [])"

definition tombstonesDirName :: string where
  "tombstonesDirName = ''tombstones''"

text \<open>\<^verbatim>\<open>time.Time.UnixNano\<close>, from a count that starts at the zero time.\<close>

definition unixNano :: "gotime \<Rightarrow> int" where
  "unixNano t = t - 62135596800 * 10 ^ 9"

definition tombstonePath :: "tombstone \<Rightarrow> string" where
  "tombstonePath t =
    tombstonesDirName @ ''/'' @ rawURLEncode (tsSessionName t) @ ''-'' @ intText (unixNano (tsTombstonedAt t)) @ ''.json''"

definition sidecar_tombstone :: "tombstone \<Rightarrow> ('a sidecar_fs_scheme, unit) prog" where
  "sidecar_tombstone t =
    (let target = tombstonePath t; tmp = target @ ''.tmp'' in
     bindS (wrapS ''creating tombstone directory: '' [] (os_MkdirAll tombstonesDirName)) (\<lambda>_.
     bindS (wrapS (''writing tombstone for '' @ goQuote (tsSessionName t) @ '': '') []
              (os_WriteFile tmp (CTombstone t))) (\<lambda>_.
     wrapS (''committing tombstone for '' @ goQuote (tsSessionName t) @ '': '') []
              (os_Rename tmp target))))"

text \<open>\<^verbatim>\<open>newNonce\<close>: the hexadecimal form of 16 random bytes, or the error of the source.\<close>

definition hexDigits :: string where
  "hexDigits = ''0123456789abcdef''"

definition hexEncode :: "bytes \<Rightarrow> string" where
  "hexEncode bs = concat (map (\<lambda>b. [hexDigits ! (unat b div 16), hexDigits ! (unat b mod 16)]) bs)"

definition newNonce :: "goerr + bytes \<Rightarrow> string result" where
  "newNonce rnd =
    (case rnd of
       Inl e \<Rightarrow> Err (EWrap ''generating dispatch nonce: '' e [])
     | Inr buf \<Rightarrow> Ok (hexEncode buf))"

subsection \<open>File names\<close>

lemma sidecar_path_inject [simp]: "sidecar_path m = sidecar_path n \<longleftrightarrow> m = n"
  by (simp add: sidecar_path_def)

lemma sidecar_path_no_slash: "CHR ''/'' \<notin> set (sidecar_path n)"
  using rawURLEncode_chars [of "CHR ''/''" n] alphabet_chars by (auto simp: sidecar_path_def)

lemma sidecar_path_json [simp]: "hasSuffix (sidecar_path n) ''.json''"
  by (auto simp: sidecar_path_def hasSuffix_iff)

lemma sidecar_path_not_tmp [simp]: "sidecar_path m \<noteq> p @ ''.tmp''" "p @ ''.tmp'' \<noteq> sidecar_path m"
proof -
  have "last (sidecar_path m) \<noteq> last (p @ ''.tmp'')"
    by (simp add: sidecar_path_def)
  then show "sidecar_path m \<noteq> p @ ''.tmp''" "p @ ''.tmp'' \<noteq> sidecar_path m" by metis+
qed

lemma slash_not_sidecar_path: "CHR ''/'' \<in> set p \<Longrightarrow> p \<noteq> sidecar_path n"
  using sidecar_path_no_slash [of n] by auto

lemma tombstonePath_slash: "CHR ''/'' \<in> set (tombstonePath t)"
  by (simp add: tombstonePath_def)

subsection \<open>The store the files represent\<close>

definition sidecar_view :: "'a sidecar_fs_scheme \<Rightarrow> string \<Rightarrow> binding option" where
  "sidecar_view s n = (case map_of (fs_files s) (sidecar_path n) of Some (CBinding b) \<Rightarrow> Some b | _ \<Rightarrow> None)"

lemma sidecar_view_Some: "sidecar_view s n = Some b \<longleftrightarrow> map_of (fs_files s) (sidecar_path n) = Some (CBinding b)"
  by (auto simp: sidecar_view_def split: option.split content.split)

text \<open>Every visible document is a binding under the name of its own session.\<close>

definition entryOK :: "string \<times> content \<Rightarrow> bool" where
  "entryOK e \<longleftrightarrow>
    (hasSuffix (fst e) ''.json'' \<and> CHR ''/'' \<notin> set (fst e)
      \<longrightarrow> (\<exists>b. snd e = CBinding b \<and> fst e = sidecar_path (SessionName b)))"

definition sidecar_wf :: "'a sidecar_fs_scheme \<Rightarrow> bool" where
  "sidecar_wf s \<longleftrightarrow> distinct (map fst (fs_files s)) \<and> (\<forall>e \<in> set (fs_files s). entryOK e)"

lemma distinct_mapSet [simp]: "distinct (map fst m) \<Longrightarrow> distinct (map fst (mapSet k v m))"
  by (auto simp: mapSet_def distinct_map filter_id_conv intro: inj_on_subset)

lemma distinct_mapDel [simp]: "distinct (map fst m) \<Longrightarrow> distinct (map fst (mapDel k m))"
  by (auto simp: mapDel_def distinct_map intro: inj_on_subset)

lemma sidecar_wf_mapSet:
  "sidecar_wf s \<Longrightarrow> entryOK (k, c) \<Longrightarrow> sidecar_wf (s\<lparr>fs_files := mapSet k c (fs_files s)\<rparr>)"
  by (auto simp: sidecar_wf_def mapSet_def distinct_map filter_id_conv intro: inj_on_subset)

lemma sidecar_wf_mapDel: "sidecar_wf s \<Longrightarrow> sidecar_wf (s\<lparr>fs_files := mapDel k (fs_files s)\<rparr>)"
  using mapDel_subset [of k "fs_files s"] by (auto simp: sidecar_wf_def)

lemma entryOK_intros [simp]:
  "entryOK (p @ ''.tmp'', c)" "entryOK (sidecar_path (SessionName b), CBinding b)"
  "CHR ''/'' \<in> set p \<Longrightarrow> entryOK (p, c)" "entryOK (tombstonesDirName, c)"
  by (auto simp: entryOK_def hasSuffix_def tombstonesDirName_def)

lemma sidecar_wf_faults [simp]: "sidecar_wf (s\<lparr>fs_faults := fs\<rparr>) = sidecar_wf s"
  by (simp add: sidecar_wf_def)

lemma sidecar_view_faults [simp]: "sidecar_view (s\<lparr>fs_faults := fs\<rparr>) = sidecar_view s"
  by (simp add: sidecar_view_def fun_eq_iff)

lemma sidecar_wf_lookup:
  assumes "sidecar_wf s" and "map_of (fs_files s) (sidecar_path n) = Some c"
  shows "\<exists>b. c = CBinding b \<and> SessionName b = n"
proof -
  have "entryOK (sidecar_path n, c)"
    using assms map_of_SomeD [OF assms(2)] by (auto simp: sidecar_wf_def)
  then show ?thesis
    using sidecar_path_no_slash [of n] by (auto simp: entryOK_def)
qed

subsection \<open>What each operation does to the store\<close>

lemmas sidecar_op_defs = os_ReadFile_def os_WriteFile_def os_Rename_def os_Remove_def os_MkdirAll_def
  takeFault_def prog_defs

text \<open>A change of a file that is no session's document does not show.\<close>

lemma sidecar_view_other:
  "(\<And>n. k \<noteq> sidecar_path n) \<Longrightarrow>
   sidecar_view (s\<lparr>fs_files := mapSet k c (fs_files s)\<rparr>) = sidecar_view s"
  by (auto simp: sidecar_view_def fun_eq_iff)

lemma sidecar_save_outcome:
  "(\<exists>e c. fst (sidecar_save b s) = Err e \<and>
      fs_files (snd (sidecar_save b s)) = mapSet (sidecar_path (SessionName b) @ ''.tmp'') c (fs_files s))
   \<or> fst (sidecar_save b s) = Ok () \<and>
      fs_files (snd (sidecar_save b s)) = mapSet (sidecar_path (SessionName b)) (CBinding b)
          (mapDel (sidecar_path (SessionName b) @ ''.tmp'')
            (mapSet (sidecar_path (SessionName b) @ ''.tmp'') (CBinding b) (fs_files s)))"
  by (cases "fs_faults s"; cases "tl (fs_faults s)")
    (auto simp: sidecar_save_def sidecar_op_defs Let_def split: option.splits)

lemma sidecar_save_ok_view:
  "fst (sidecar_save b s) = Ok () \<Longrightarrow>
   sidecar_view (snd (sidecar_save b s)) = (sidecar_view s)(SessionName b \<mapsto> b)"
  using sidecar_save_outcome [of b s] by (auto simp: sidecar_view_def fun_eq_iff)

lemma sidecar_save_err_view:
  "fst (sidecar_save b s) \<noteq> Ok () \<Longrightarrow> sidecar_view (snd (sidecar_save b s)) = sidecar_view s"
  using sidecar_save_outcome [of b s] by (auto simp: sidecar_view_def fun_eq_iff)

text \<open>Well-formedness depends on the files only.\<close>

definition filesOK :: "(string \<times> content) list \<Rightarrow> bool" where
  "filesOK m \<longleftrightarrow> distinct (map fst m) \<and> (\<forall>e \<in> set m. entryOK e)"

lemma sidecar_wf_files: "sidecar_wf s \<longleftrightarrow> filesOK (fs_files s)"
  by (simp add: sidecar_wf_def filesOK_def)

lemma filesOK_mapSet: "filesOK m \<Longrightarrow> entryOK (k, c) \<Longrightarrow> filesOK (mapSet k c m)"
  by (auto simp: filesOK_def mapSet_def distinct_map intro: inj_on_subset)

lemma filesOK_mapDel: "filesOK m \<Longrightarrow> filesOK (mapDel k m)"
  by (auto simp: filesOK_def mapDel_def distinct_map intro: inj_on_subset)

lemma sidecar_save_wf: "sidecar_wf s \<Longrightarrow> sidecar_wf (snd (sidecar_save b s))"
  using sidecar_save_outcome [of b s]
  by (auto simp: sidecar_wf_files intro!: filesOK_mapSet filesOK_mapDel)

lemma sidecar_load_files [simp]: "fs_files (snd (sidecar_load n s)) = fs_files s"
  by (cases "fs_faults s")
    (auto simp: sidecar_load_def sidecar_op_defs split: option.splits)

lemma sidecar_load_value:
  assumes "sidecar_wf s"
  shows "(\<exists>e. fst (sidecar_load n s) = Err e) \<or> fst (sidecar_load n s) = Ok (sidecar_view s n)"
proof (cases "map_of (fs_files s) (sidecar_path n)")
  case None
  then show ?thesis
    by (cases "fs_faults s")
      (auto simp: sidecar_load_def sidecar_op_defs sidecar_view_def notExist_def split: option.splits)
next
  case (Some c)
  then obtain b where "c = CBinding b"
    using sidecar_wf_lookup [OF assms] by blast
  then show ?thesis
    using Some by (cases "fs_faults s")
      (auto simp: sidecar_load_def sidecar_op_defs sidecar_view_def decodeBinding_def split: option.splits)
qed

text \<open>Without faults.\<close>

lemma sidecar_load_plain:
  "fs_faults s = [] \<Longrightarrow> map_of (fs_files s) (sidecar_path n) = None \<Longrightarrow> sidecar_load n s = (Ok None, s)"
  "fs_faults s = [] \<Longrightarrow> map_of (fs_files s) (sidecar_path n) = Some (CBinding b) \<Longrightarrow> sidecar_load n s = (Ok (Some b), s)"
  by (simp_all add: sidecar_load_def sidecar_op_defs notExist_def decodeBinding_def)

lemma sidecar_save_plain:
  "fs_faults s = [] \<Longrightarrow> sidecar_save b s = (Ok (), s\<lparr>fs_files := mapSet (sidecar_path (SessionName b)) (CBinding b)
      (mapDel (sidecar_path (SessionName b) @ ''.tmp'')
        (mapSet (sidecar_path (SessionName b) @ ''.tmp'') (CBinding b) (fs_files s)))\<rparr>)"
  by (simp add: sidecar_save_def sidecar_op_defs Let_def)

lemma sidecar_remove_plain:
  "fs_faults s = [] \<Longrightarrow> map_of (fs_files s) (sidecar_path n) = Some c \<Longrightarrow>
    sidecar_remove n s = (Ok (), s\<lparr>fs_files := mapDel (sidecar_path n) (fs_files s)\<rparr>)"
  by (simp add: sidecar_remove_def sidecar_op_defs)

lemma sidecar_remove_outcome:
  "(\<exists>e. fst (sidecar_remove n s) = Err e) \<and> fs_files (snd (sidecar_remove n s)) = fs_files s
   \<or> fst (sidecar_remove n s) = Ok () \<and>
      (fs_files (snd (sidecar_remove n s)) = mapDel (sidecar_path n) (fs_files s)
       \<or> map_of (fs_files s) (sidecar_path n) = None \<and> fs_files (snd (sidecar_remove n s)) = fs_files s)"
  by (cases "fs_faults s")
    (auto simp: sidecar_remove_def sidecar_op_defs notExist_def split: option.splits)

lemma sidecar_remove_ok_view:
  "fst (sidecar_remove n s) = Ok () \<Longrightarrow> sidecar_view (snd (sidecar_remove n s)) = (sidecar_view s)(n := None)"
  using sidecar_remove_outcome [of n s] by (auto simp: sidecar_view_def fun_eq_iff)

lemma sidecar_remove_err_view:
  "fst (sidecar_remove n s) \<noteq> Ok () \<Longrightarrow> sidecar_view (snd (sidecar_remove n s)) = sidecar_view s"
  using sidecar_remove_outcome [of n s] by (auto simp: sidecar_view_def fun_eq_iff)

lemma sidecar_remove_wf: "sidecar_wf s \<Longrightarrow> sidecar_wf (snd (sidecar_remove n s))"
  using sidecar_remove_outcome [of n s] by (auto simp: sidecar_wf_files intro!: filesOK_mapDel)

text \<open>Operations on names that no session's document has keep the store and its
  invariant; the reap record uses such names only.\<close>

definition hiddenName :: "string \<Rightarrow> bool" where
  "hiddenName k \<longleftrightarrow> (\<forall>c. entryOK (k, c)) \<and> (\<forall>n. k \<noteq> sidecar_path n)"

definition storeIs :: "(string \<Rightarrow> binding option) \<Rightarrow> 'a sidecar_fs_scheme \<Rightarrow> bool" where
  "storeIs v s \<longleftrightarrow> sidecar_wf s \<and> sidecar_view s = v"

lemma storeIs_faults [simp]: "storeIs v (s\<lparr>fs_faults := fs\<rparr>) = storeIs v s"
  by (simp add: storeIs_def)

lemma storeIs_hidden:
  assumes "hiddenName k" and "storeIs v s"
  shows "storeIs v (s\<lparr>fs_files := mapSet k c (fs_files s)\<rparr>)"
    and "storeIs v (s\<lparr>fs_files := mapDel k (fs_files s)\<rparr>)"
  using assms filesOK_mapSet filesOK_mapDel
  by (auto simp: storeIs_def hiddenName_def sidecar_wf_files sidecar_view_def fun_eq_iff)

lemma keeps_takeFault [keeps_intros]: "keeps (storeIs v) takeFault"
  by (auto simp: keeps_def takeFault_def split: list.splits)

lemma keeps_hidden:
  assumes "hiddenName k"
  shows "keeps (storeIs v) (os_WriteFile k c)" and "keeps (storeIs v) (os_MkdirAll k)"
    and "hiddenName l \<Longrightarrow> keeps (storeIs v) (os_Rename l k)"
proof -
  show "keeps (storeIs v) (os_WriteFile k c)"
    unfolding os_WriteFile_def using storeIs_hidden(1) [OF assms]
    by (intro keeps_intros keeps_modify) auto
  show "keeps (storeIs v) (os_MkdirAll k)"
    unfolding os_MkdirAll_def using storeIs_hidden(1) [OF assms]
    by (intro keeps_intros keeps_modify) auto
  assume l: "hiddenName l"
  have "storeIs v s \<Longrightarrow> storeIs v (s\<lparr>fs_files := mapSet k c (mapDel l (fs_files s))\<rparr>)" for s c
    using storeIs_hidden(1) [OF assms storeIs_hidden(2) [OF l], of v s c] by simp
  then show "keeps (storeIs v) (os_Rename l k)"
    unfolding os_Rename_def by (intro keeps_intros keeps_modify) auto
qed

lemma hidden_names: "hiddenName (tombstonePath t)" "hiddenName (tombstonePath t @ ''.tmp'')" "hiddenName tombstonesDirName"
proof -
  show "hiddenName (tombstonePath t)" "hiddenName (tombstonePath t @ ''.tmp'')"
    using tombstonePath_slash [of t] slash_not_sidecar_path by (auto simp: hiddenName_def)
  have "last (sidecar_path n) \<noteq> last tombstonesDirName" for n
    by (simp add: sidecar_path_def tombstonesDirName_def)
  then show "hiddenName tombstonesDirName"
    unfolding hiddenName_def by (metis entryOK_intros(4))
qed

lemma keeps_tombstone: "keeps (storeIs v) (sidecar_tombstone t)"
  unfolding sidecar_tombstone_def Let_def by (intro keeps_intros keeps_hidden hidden_names)

lemma sidecar_tombstone_store:
  "sidecar_wf s \<Longrightarrow> sidecar_wf (snd (sidecar_tombstone t s)) \<and> sidecar_view (snd (sidecar_tombstone t s)) = sidecar_view s"
  using keepsD [OF keeps_tombstone [of "sidecar_view s" t], of s] by (simp add: storeIs_def)

subsection \<open>The contract the lifecycle relies on\<close>

text \<open>
  A store of bindings by session name. \<open>view\<close> is the store a state represents,
  \<open>wf\<close> its invariant. A load changes nothing and tells the truth or fails; a
  save or a remove either takes effect completely or not at all.
\<close>

locale binding_reader =
  fixes load :: "string \<Rightarrow> ('s, binding option) prog"
    and view :: "'s \<Rightarrow> string \<Rightarrow> binding option"
    and wf :: "'s \<Rightarrow> bool"
  assumes load_view: "wf s \<Longrightarrow> view (snd (load n s)) = view s"
    and load_wf: "wf s \<Longrightarrow> wf (snd (load n s))"
    and load_value: "wf s \<Longrightarrow> (\<exists>e. fst (load n s) = Err e) \<or> fst (load n s) = Ok (view s n)"
    and view_name: "wf s \<Longrightarrow> view s n = Some b \<Longrightarrow> SessionName b = n"
begin

text \<open>A binding that was read is the session's own, and reading again gives nothing else.\<close>

lemma load_own: "wf s \<Longrightarrow> fst (load n s) = Ok (Some b) \<Longrightarrow> view s n = Some b \<and> SessionName b = n"
  using load_value [of s n] view_name [of s n b] by auto

lemma load_stable:
  "wf s \<Longrightarrow> fst (load n s) = Ok x \<Longrightarrow> fst (load n (snd (load m s))) = Ok y \<Longrightarrow> y = x"
  using load_value [of s n] load_value [OF load_wf [of s m], of n] load_view [of s m] by auto

end

locale binding_store = binding_reader load view wf
  for load :: "string \<Rightarrow> ('s, binding option) prog"
    and view :: "'s \<Rightarrow> string \<Rightarrow> binding option"
    and wf :: "'s \<Rightarrow> bool" +
  fixes save :: "binding \<Rightarrow> ('s, unit) prog"
    and remove :: "string \<Rightarrow> ('s, unit) prog"
  assumes save_ok: "wf s \<Longrightarrow> fst (save b s) = Ok () \<Longrightarrow> view (snd (save b s)) = (view s)(SessionName b \<mapsto> b)"
    and save_err: "wf s \<Longrightarrow> fst (save b s) \<noteq> Ok () \<Longrightarrow> view (snd (save b s)) = view s"
    and save_wf: "wf s \<Longrightarrow> wf (snd (save b s))"
    and remove_ok: "wf s \<Longrightarrow> fst (remove n s) = Ok () \<Longrightarrow> view (snd (remove n s)) = (view s)(n := None)"
    and remove_err: "wf s \<Longrightarrow> fst (remove n s) \<noteq> Ok () \<Longrightarrow> view (snd (remove n s)) = view s"
    and remove_wf: "wf s \<Longrightarrow> wf (snd (remove n s))"
begin

lemma save_isolated: "wf s \<Longrightarrow> n \<noteq> SessionName b \<Longrightarrow> view (snd (save b s)) n = view s n"
  by (cases "fst (save b s) = Ok ()") (simp_all add: save_ok save_err)

lemma remove_isolated: "wf s \<Longrightarrow> n \<noteq> m \<Longrightarrow> view (snd (remove m s)) n = view s n"
  by (cases "fst (remove m s) = Ok ()") (simp_all add: remove_ok remove_err)

lemma keeps_wf [keeps_intros]: "keeps wf (load n)" "keeps wf (save b)" "keeps wf (remove n)"
  by (auto intro: keepsI load_wf save_wf remove_wf)

text \<open>The read-modify-write every handler performs: load, change the binding of the
  session, save it.\<close>

lemma update_roundtrip:
  assumes "wf s" and "fst (load n s) = Ok (Some b)" and "SessionName (f b) = n"
    and "fst (save (f b) (snd (load n s))) = Ok ()"
  shows "view (snd (save (f b) (snd (load n s)))) = (view s)(n \<mapsto> f b)"
  using assms save_ok [OF load_wf [OF assms(1)] assms(4)] by (simp add: load_view)

end

interpretation sc: binding_store sidecar_load sidecar_view sidecar_wf sidecar_save sidecar_remove
proof unfold_locales
  fix s :: "'a sidecar_fs_scheme" and n b
  show "sidecar_wf s \<Longrightarrow> sidecar_view (snd (sidecar_load n s)) = sidecar_view s"
    by (simp add: sidecar_view_def fun_eq_iff)
  show "sidecar_wf s \<Longrightarrow> sidecar_wf (snd (sidecar_load n s))"
    by (simp add: sidecar_wf_files)
  show "sidecar_wf s \<Longrightarrow> sidecar_view s n = Some b \<Longrightarrow> SessionName b = n"
    using sidecar_wf_lookup [of s n] by (auto simp: sidecar_view_def split: option.splits content.splits)
qed (simp_all add: sidecar_load_value sidecar_save_ok_view sidecar_save_err_view sidecar_save_wf
    sidecar_remove_ok_view sidecar_remove_err_view sidecar_remove_wf)

text \<open>C5. Under every script of file-system faults, saving a binding either commits
  exactly that session's binding or changes no session's binding, and the
  directory stays well formed: a torn temporary file is never read as a
  binding. A crash in the middle of a save is a script whose faults begin at that
  call.\<close>

theorem sidecar_save_all_or_nothing:
  assumes "sidecar_wf s"
  shows "sidecar_wf (snd (sidecar_save b s)) \<and>
    sidecar_view (snd (sidecar_save b s)) =
      (if fst (sidecar_save b s) = Ok () then (sidecar_view s)(SessionName b \<mapsto> b) else sidecar_view s)"
  using sc.save_ok [OF assms] sc.save_err [OF assms] sc.save_wf [OF assms] by simp

theorem sidecar_save_all_or_nothing_witness:
  "sidecar_wf (snd (sidecar_save (newBinding ''a'') \<lparr>fs_files = [], fs_faults = [Some ''ENOSPC'']\<rparr>)) \<and>
   sidecar_view (snd (sidecar_save (newBinding ''a'') \<lparr>fs_files = [], fs_faults = [Some ''ENOSPC'']\<rparr>)) ''a'' = None"
proof -
  let ?s = "\<lparr>fs_files = [], fs_faults = [Some ''ENOSPC'']\<rparr>"
  have wf: "sidecar_wf ?s" by (simp add: sidecar_wf_def)
  have "fst (sidecar_save (newBinding ''a'') ?s) \<noteq> Ok ()"
    by (simp add: sidecar_save_def sidecar_op_defs Let_def)
  then show ?thesis
    using sidecar_save_all_or_nothing [OF wf, of "newBinding ''a''"] by (simp add: sidecar_view_def)
qed

subsection \<open>Listing\<close>

lemma readEntries_state:
  "fs_faults s = [] \<Longrightarrow> snd (readEntries es out s) = s"
  by (induction es arbitrary: out)
    (auto simp: sidecar_op_defs split: option.splits content.splits if_splits)

lemma readEntries_value:
  assumes "fs_faults s = []" and "sidecar_wf s"
    and "\<forall>(n, c) \<in> set es. map_of (fs_files s) n = Some c \<and> CHR ''/'' \<notin> set n"
  shows "fst (readEntries es out s) = Ok (out @ concat (map (\<lambda>(n, c). case c of CBinding b \<Rightarrow>
      (if hasSuffix n ''.json'' then [b] else []) | _ \<Rightarrow> []) es))"
  using assms(3)
proof (induction es arbitrary: out)
  case (Cons e es)
  obtain n c where e: "e = (n, c)" by (cases e)
  then have c: "map_of (fs_files s) n = Some c" "CHR ''/'' \<notin> set n"
    using Cons.prems by auto
  have "entryOK (n, c)"
    using assms(2) map_of_SomeD [OF c(1)] by (auto simp: sidecar_wf_def)
  then have "hasSuffix n ''.json'' \<Longrightarrow> \<exists>b. c = CBinding b"
    using c(2) by (auto simp: entryOK_def)
  then show ?case
    using Cons e c assms(1)
    by (auto simp: sidecar_op_defs decodeBinding_def split: content.splits)
qed (simp add: returnS_def)

definition visibleBindings :: "(string \<times> content) list \<Rightarrow> binding list" where
  "visibleBindings es = concat (map (\<lambda>(n, c). case c of CBinding b \<Rightarrow>
      (if hasSuffix n ''.json'' then [b] else []) | _ \<Rightarrow> []) es)"

lemma set_visibleBindings:
  "b \<in> set (visibleBindings es) \<longleftrightarrow> (\<exists>n. (n, CBinding b) \<in> set es \<and> hasSuffix n ''.json'')"
  by (force simp: visibleBindings_def split: content.splits if_splits)

lemma distinct_visibleBindings:
  assumes "distinct (map fst es)" and "\<forall>e \<in> set es. entryOK e \<and> CHR ''/'' \<notin> set (fst e)"
  shows "distinct (map SessionName (visibleBindings es))"
  using assms
proof (induction es)
  case (Cons e es)
  obtain n c where e: "e = (n, c)" by (cases e)
  have IH: "distinct (map SessionName (visibleBindings es))" using Cons by simp
  show ?case
  proof (cases "hasSuffix n ''.json''")
    case False
    then have "visibleBindings (e # es) = visibleBindings es"
      by (auto simp: visibleBindings_def e split: content.splits)
    then show ?thesis using IH by simp
  next
    case True
    then obtain b where b: "c = CBinding b" "n = sidecar_path (SessionName b)"
      using Cons.prems e by (auto simp: entryOK_def)
    have "SessionName b \<noteq> SessionName b'" if b': "b' \<in> set (visibleBindings es)" for b'
    proof
      assume same: "SessionName b = SessionName b'"
      from b' obtain m where m: "(m, CBinding b') \<in> set es" "hasSuffix m ''.json''"
        by (auto simp: set_visibleBindings)
      then have "m = sidecar_path (SessionName b')"
        using Cons.prems by (fastforce simp: entryOK_def)
      then have "n \<in> fst ` set es" using m b same by force
      then show False using Cons.prems e by simp
    qed
    moreover have "visibleBindings (e # es) = b # visibleBindings es"
      using True b e by (simp add: visibleBindings_def)
    ultimately show ?thesis using IH by auto
  qed
qed (simp add: visibleBindings_def)

text \<open>Listing a well-formed directory returns every session's current binding exactly once and
  nothing else (no lock, temporary file or reap record), and changes nothing.\<close>

lemma sidecar_list_plain:
  assumes "sidecar_wf s" and "fs_faults s = []"
  shows "\<exists>bs. sidecar_list s = (Ok bs, s) \<and> distinct (map SessionName bs)
    \<and> set bs = {b. \<exists>n. sidecar_view s n = Some b}"
proof -
  let ?es = "sort_key fst (filter (\<lambda>(n, c). CHR ''/'' \<notin> set n) (fs_files s))"
  have dist: "distinct (map fst (fs_files s))" using assms(1) by (simp add: sidecar_wf_def)
  have mem: "\<forall>(n, c) \<in> set ?es. map_of (fs_files s) n = Some c \<and> CHR ''/'' \<notin> set n"
    using dist by auto
  have dist': "distinct (map fst ?es)"
    using dist by (auto simp: distinct_map intro: inj_on_subset)
  have ok: "\<forall>e \<in> set ?es. entryOK e \<and> CHR ''/'' \<notin> set (fst e)"
    using assms(1) by (auto simp: sidecar_wf_def)
  have "fst (readEntries ?es [] s) = Ok (visibleBindings ?es)"
    using readEntries_value [OF assms(2,1) mem, of "[]"] by (simp add: visibleBindings_def)
  then have "readEntries ?es [] s = (Ok (visibleBindings ?es), s)"
    using readEntries_state [OF assms(2), of ?es "[]"] by (metis prod.collapse)
  then have "sidecar_list s = (Ok (visibleBindings ?es), s)"
    using assms(2) by (simp add: sidecar_list_def os_ReadDir_def takeFault_def prog_defs)
  moreover have "set (visibleBindings ?es) = {b. \<exists>n. sidecar_view s n = Some b}"
  proof (intro set_eqI iffI CollectI)
    fix b assume "b \<in> set (visibleBindings ?es)"
    then obtain n where n: "(n, CBinding b) \<in> set ?es" "hasSuffix n ''.json''"
      by (auto simp: set_visibleBindings)
    then have "n = sidecar_path (SessionName b)" using ok by (fastforce simp: entryOK_def)
    then show "\<exists>n. sidecar_view s n = Some b"
      using mem n by (intro exI [of _ "SessionName b"]) (auto simp: sidecar_view_def)
  next
    fix b assume "b \<in> {b. \<exists>n. sidecar_view s n = Some b}"
    then obtain n where "map_of (fs_files s) (sidecar_path n) = Some (CBinding b)"
      by (auto simp: sidecar_view_Some)
    then show "b \<in> set (visibleBindings ?es)"
      using sidecar_path_no_slash [of n] by (auto simp: set_visibleBindings dest!: map_of_SomeD)
  qed
  ultimately show ?thesis
    using distinct_visibleBindings [OF dist' ok] by blast
qed

end
