(* ===== verification/Go_Time.thy ===== *)
theory Go_Time
  imports Data_Model
begin

text \<open>
  The part of package \<^verbatim>\<open>time\<close> the lifecycle uses: differences of times saturate at the
  64-bit range, \<^verbatim>\<open>Round\<close> goes to the nearest multiple and away from zero on a tie,
  and a duration prints as \<^verbatim>\<open>Duration.String\<close> does.
\<close>

definition minDuration :: duration where
  "minDuration = - (2 ^ 63)"

definition maxDuration :: duration where
  "maxDuration = 2 ^ 63 - 1"

definition timeSub :: "gotime \<Rightarrow> gotime \<Rightarrow> duration" where
  "timeSub t u = max minDuration (min maxDuration (t - u))"

definition durationRound :: "duration \<Rightarrow> duration \<Rightarrow> duration" where
  "durationRound d m =
    (if m \<le> 0 then d
     else let r = \<bar>d\<bar> mod m in
       if d < 0 then (if 2 * r < m then d + r else max minDuration (d - (m - r)))
       else (if 2 * r < m then d - r else min maxDuration (d + (m - r))))"

text \<open>The fraction \<open>v / 10 ^ prec\<close> without trailing zeros, as \<^verbatim>\<open>fmtFrac\<close>.\<close>

definition fracText :: "nat \<Rightarrow> nat \<Rightarrow> string" where
  "fracText v prec =
    (let t = natText v;
         ds = trimRightChars {CHR ''0''} (replicate (prec - length t) CHR ''0'' @ t)
     in if ds = [] then [] else CHR ''.'' # ds)"

definition durationAbsText :: "nat \<Rightarrow> string" where
  "durationAbsText u =
    (if u = 0 then ''0s''
     else if u < 1000 then natText u @ ''ns''
     else if u < 10 ^ 6 then natText (u div 1000) @ fracText (u mod 1000) 3 @ [CHR 0xC2, CHR 0xB5] @ ''s''
     else if u < 10 ^ 9 then natText (u div 10 ^ 6) @ fracText (u mod 10 ^ 6) 6 @ ''ms''
     else let s = u div 10 ^ 9; m = s div 60; h = m div 60
          in (if h > 0 then natText h @ ''h'' else [])
             @ (if m > 0 then natText (m mod 60) @ ''m'' else [])
             @ natText (s mod 60) @ fracText (u mod 10 ^ 9) 9 @ ''s'')"

definition durationText :: "duration \<Rightarrow> string" where
  "durationText d = (if d < 0 then ''-'' else []) @ durationAbsText (nat \<bar>d\<bar>)"

lemma durationRound_near:
  assumes "0 < m" and "minDuration + m \<le> d" and "d + m \<le> maxDuration"
  shows "m dvd durationRound d m" and "2 * \<bar>durationRound d m - d\<bar> \<le> m"
proof -
  let ?r = "\<bar>d\<bar> mod m"
  have r: "0 \<le> ?r" "?r < m" using assms(1) by simp_all
  have low: "m dvd \<bar>d\<bar> - ?r" by (metis dvd_minus_mod)
  then have high: "m dvd \<bar>d\<bar> - ?r + m" by simp
  have "durationRound d m = (if d < 0 then - 1 else 1) * (if 2 * ?r < m then \<bar>d\<bar> - ?r else \<bar>d\<bar> - ?r + m)"
    using assms r by (auto simp: durationRound_def Let_def)
  then show "m dvd durationRound d m" "2 * \<bar>durationRound d m - d\<bar> \<le> m"
    using low high r by auto
qed

lemma timeSub_exact: "minDuration \<le> t - u \<Longrightarrow> t - u \<le> maxDuration \<Longrightarrow> timeSub t u = t - u"
  by (simp add: timeSub_def)

lemma timeSub_gt: "l < maxDuration \<Longrightarrow> minDuration \<le> l \<Longrightarrow> timeSub t u > l \<longleftrightarrow> t - u > l"
  by (auto simp: timeSub_def)

end
