(* ===== verification/Lifecycle_Base.thy ===== *)
theory Lifecycle_Base
  imports Sidecar Client Go_Time
begin

text \<open>
  The lifecycle's surroundings (\<^verbatim>\<open>ops.go\<close>, \<^verbatim>\<open>type lifecycle\<close>): its configuration as a
  record, the world it acts on as a parameter, and its state. The state is the
  sidecar directory extended with the world, the session locks this process
  holds, the lines it has written for the operator, and the egress sink. The
  world answers API requests, execs into an allocation, the clock and the random
  source; every call may change it in any way. The context of every operation is
  \<^verbatim>\<open>context.Background()\<close>, so it is never cancelled.
\<close>

subsection \<open>Configuration and world\<close>

record lifecycle =
  lcClient :: client
  lcParentJobID :: string
  lcNodePool :: string
  lcEgressDir :: string
  lcForbidRegistration :: bool
  lcLogShipper :: bool
  lcAgentImage :: string
  lcAdoptMaxAge :: duration
  lcLogf :: bool
  lcExecTask :: string
  lcSpec :: json
  lcSpecHash :: string
  lcDrainMarker :: "goerr + string"

text \<open>\<open>envExec alloc task command stdin\<close> is one alloc exec: the exit code, the standard
  output and the standard error, or a transport error. \<open>envFmtTime\<close> and
  \<open>envParseTime\<close> are formatting and parsing of \<^verbatim>\<open>time.RFC3339Nano\<close>.\<close>

record 'w env =
  envNomad :: "'w nomad"
  envNow :: "'w \<Rightarrow> gotime \<times> 'w"
  envSleep :: "duration \<Rightarrow> 'w \<Rightarrow> 'w"
  envRand :: "'w \<Rightarrow> (goerr + bytes) \<times> 'w"
  envExec :: "string \<Rightarrow> string \<Rightarrow> string list \<Rightarrow> string \<Rightarrow> ('w, int \<times> string \<times> string) prog"
  envFmtTime :: "gotime \<Rightarrow> string"
  envParseTime :: "string \<Rightarrow> gotime option"

record 'w lstate = sidecar_fs +
  lsWorld :: 'w
  lsLocks :: "string list"
  lsLog :: "string list"
  lsSink :: gomap
  lsSinkFaults :: "string option list"

text \<open>The character \<^verbatim>\<open>U+2014\<close> of the log lines, in UTF-8.\<close>

subsection \<open>Calls into the world\<close>

definition world :: "('w, 'a) prog \<Rightarrow> ('w lstate, 'a) prog" where
  "world p s = (case p (lsWorld s) of (r, w) \<Rightarrow> (r, s\<lparr>lsWorld := w\<rparr>))"

definition timeNow :: "'w env \<Rightarrow> ('w lstate, gotime) prog" where
  "timeNow ev = world (\<lambda>w. case envNow ev w of (t, w') \<Rightarrow> (Ok t, w'))"

definition sleepFor :: "'w env \<Rightarrow> duration \<Rightarrow> ('w lstate, unit) prog" where
  "sleepFor ev d = world (\<lambda>w. (Ok (), envSleep ev d w))"

definition readRandom :: "'w env \<Rightarrow> ('w lstate, goerr + bytes) prog" where
  "readRandom ev = world (\<lambda>w. case envRand ev w of (r, w') \<Rightarrow> (Ok r, w'))"

text \<open>\<^verbatim>\<open>execAllocObserved\<close>, \<^verbatim>\<open>execAllocStdin\<close> and \<^verbatim>\<open>execAlloc\<close>.\<close>

definition execAllocObserved ::
  "'w env \<Rightarrow> string \<Rightarrow> string \<Rightarrow> string list \<Rightarrow> string \<Rightarrow> ('w lstate, int \<times> string \<times> string) prog" where
  "execAllocObserved ev allocID task command stdin = world (envExec ev allocID task command stdin)"

definition execAllocStdin ::
  "'w env \<Rightarrow> string \<Rightarrow> string \<Rightarrow> string list \<Rightarrow> string \<Rightarrow> ('w lstate, int \<times> string) prog" where
  "execAllocStdin ev allocID task command stdin =
    bindS (execAllocObserved ev allocID task command stdin) (\<lambda>(code, out, err). returnS (code, out))"

definition execAlloc ::
  "'w env \<Rightarrow> string \<Rightarrow> string \<Rightarrow> string list \<Rightarrow> ('w lstate, int \<times> string) prog" where
  "execAlloc ev allocID task command = execAllocStdin ev allocID task command []"

definition listAllocs :: "'w env \<Rightarrow> lifecycle \<Rightarrow> string \<Rightarrow> ('w lstate, allocRecord list) prog" where
  "listAllocs ev l jobID =
    bindS (world (listAllocsForJob (envNomad ev) (lcClient l) jobID 0 0)) (\<lambda>(allocs, idx). returnS allocs)"

definition logDecision :: "lifecycle \<Rightarrow> string \<Rightarrow> ('w lstate, unit) prog" where
  "logDecision l line = whenS (lcLogf l) (modifyS (\<lambda>s. s\<lparr>lsLog := lsLog s @ [line]\<rparr>))"

text \<open>A line on the standard error stream or the durable warning sink.\<close>

definition warnLine :: "string \<Rightarrow> ('w lstate, unit) prog" where
  "warnLine line = modifyS (\<lambda>s. s\<lparr>lsLog := lsLog s @ [line]\<rparr>)"

subsection \<open>The session lock\<close>

definition lockFile :: "string \<Rightarrow> string" where
  "lockFile sessionName = rawURLEncode sessionName @ ''.lock''"

text \<open>
  \<^verbatim>\<open>lockSession\<close>: opening the lock file and \<^verbatim>\<open>flock\<close> may fail. The lock belongs to the
  open file description, so a process that already holds it and asks again through
  a second descriptor waits for itself: with a context that is never cancelled
  the loop does not end. A lock that another process holds is waited out.
\<close>

definition lockSession :: "string \<Rightarrow> ('w lstate, unit) prog" where
  "lockSession sessionName =
    bindS takeFault (\<lambda>f. case f of
      Some e \<Rightarrow> failS (EWrap (''opening session lock for '' @ goQuote sessionName @ '': '') e [])
    | None \<Rightarrow>
        bindS (modifyS (\<lambda>s. s\<lparr>fs_files := mapSet (lockFile sessionName) CTorn (fs_files s)\<rparr>)) (\<lambda>_.
        bindS takeFault (\<lambda>g. case g of
          Some e \<Rightarrow> failS (EWrap (''locking session '' @ goQuote sessionName @ '': '') e [])
        | None \<Rightarrow>
            bindS (getS lsLocks) (\<lambda>held.
            if sessionName \<in> set held then hangS
            else modifyS (\<lambda>s. s\<lparr>lsLocks := sessionName # lsLocks s\<rparr>)))))"

definition unlockSession :: "string \<Rightarrow> 'w lstate \<Rightarrow> 'w lstate" where
  "unlockSession sessionName s = s\<lparr>lsLocks := removeAll sessionName (lsLocks s)\<rparr>"

text \<open>\<^verbatim>\<open>unlock, err := l.lockSession(...); if err != nil { return err }; defer unlock()\<close>.\<close>

definition withLock :: "string \<Rightarrow> ('w lstate, 'a) prog \<Rightarrow> ('w lstate, 'a) prog" where
  "withLock sessionName p = bindS (lockSession sessionName) (\<lambda>_. finallyS p (unlockSession sessionName))"

subsection \<open>Frames\<close>

text \<open>A property of the state that does not look at the sidecar directory survives every
  sidecar operation; one that does not look at the world survives every call.\<close>

lemma keeps_sidecar:
  assumes files: "\<And>s f. I s \<Longrightarrow> I (s\<lparr>fs_files := f\<rparr>)" and faults: "\<And>s f. I s \<Longrightarrow> I (s\<lparr>fs_faults := f\<rparr>)"
  shows "keeps I takeFault" and "keeps I (sidecar_load n)" and "keeps I (sidecar_save b)"
    and "keeps I (sidecar_remove n)" and "keeps I (sidecar_tombstone t)"
proof -
  have t: "keeps I takeFault"
    using faults by (auto simp: keeps_def takeFault_def split: list.split)
  have w: "keeps I (os_WriteFile k c)" "keeps I (os_Rename k k')" "keeps I (os_Remove k)" "keeps I (os_MkdirAll k)"
      "keeps I (os_ReadFile k)" for k k' c
    unfolding os_WriteFile_def os_Rename_def os_Remove_def os_MkdirAll_def os_ReadFile_def
    by (intro keeps_intros keeps_modify t files | assumption)+
  show "keeps I takeFault" by (rule t)
  show "keeps I (sidecar_load n)" unfolding sidecar_load_def by (intro keeps_intros w)
  show "keeps I (sidecar_save b)" unfolding sidecar_save_def Let_def by (intro keeps_intros w)
  show "keeps I (sidecar_remove n)" unfolding sidecar_remove_def by (intro keeps_intros w)
  show "keeps I (sidecar_tombstone t)" for t unfolding sidecar_tombstone_def Let_def by (intro keeps_intros w)
qed

lemma keeps_world:
  assumes "\<And>s w. I s \<Longrightarrow> I (s\<lparr>lsWorld := w\<rparr>)"
  shows "keeps I (world p)"
  using assms by (auto simp: keeps_def world_def split: prod.split)

lemma keeps_calls:
  assumes "\<And>s w. I s \<Longrightarrow> I (s\<lparr>lsWorld := w\<rparr>)"
  shows "keeps I (timeNow ev)" "keeps I (sleepFor ev d)" "keeps I (readRandom ev)"
    "keeps I (execAllocObserved ev a t c i)" "keeps I (execAllocStdin ev a t c i)" "keeps I (execAlloc ev a t c)"
    "keeps I (listAllocs ev l j)"
  unfolding timeNow_def sleepFor_def readRandom_def execAlloc_def execAllocStdin_def execAllocObserved_def listAllocs_def
  by (intro keeps_intros keeps_world assms | assumption)+

lemma storeIs_lstate [simp]:
  "storeIs v (s\<lparr>lsWorld := w\<rparr>) = storeIs v s" "storeIs v (s\<lparr>lsLocks := k\<rparr>) = storeIs v s"
  "storeIs v (s\<lparr>lsLog := g\<rparr>) = storeIs v s" "storeIs v (s\<lparr>lsSink := m\<rparr>) = storeIs v s"
  "storeIs v (s\<lparr>lsSinkFaults := f\<rparr>) = storeIs v s"
  by (simp_all add: storeIs_def sidecar_wf_def sidecar_view_def fun_eq_iff)

lemma lockFile_hidden: "hiddenName (lockFile n)"
proof -
  have "last (lockFile n) \<noteq> last (sidecar_path m)" for m
    by (simp add: lockFile_def sidecar_path_def)
  then have "lockFile n \<noteq> sidecar_path m" for m by metis
  moreover have "\<not> hasSuffix (lockFile n) ''.json''"
    by (auto simp: lockFile_def hasSuffix_iff dest: arg_cong [of _ _ last])
  ultimately show ?thesis by (simp add: hiddenName_def entryOK_def)
qed

text \<open>What a step that is not a save or a remove does to the store: nothing.\<close>

lemma keeps_store [keeps_intros]:
  "keeps (storeIs v) (world p)" "keeps (storeIs v) (timeNow ev)" "keeps (storeIs v) (sleepFor ev d)"
  "keeps (storeIs v) (readRandom ev)" "keeps (storeIs v) (execAllocObserved ev a t c i)"
  "keeps (storeIs v) (execAllocStdin ev a t c i)" "keeps (storeIs v) (execAlloc ev a t c)"
  "keeps (storeIs v) (listAllocs ev l j)" "keeps (storeIs v) (logDecision l m)" "keeps (storeIs v) (warnLine m)"
  "keeps (storeIs v) (lockSession n)" "keeps (storeIs v) (sidecar_load n)"
proof -
  show "keeps (storeIs v) (world p)" by (rule keeps_world) simp
  show "keeps (storeIs v) (timeNow ev)" "keeps (storeIs v) (sleepFor ev d)" "keeps (storeIs v) (readRandom ev)"
    "keeps (storeIs v) (execAllocObserved ev a t c i)" "keeps (storeIs v) (execAllocStdin ev a t c i)"
    "keeps (storeIs v) (execAlloc ev a t c)" "keeps (storeIs v) (listAllocs ev l j)"
    by (rule keeps_calls; simp)+
  show "keeps (storeIs v) (logDecision l m)" "keeps (storeIs v) (warnLine m)"
    unfolding logDecision_def warnLine_def by (intro keeps_intros keeps_modify; simp)+
  show "keeps (storeIs v) (lockSession n)"
    unfolding lockSession_def
    by (intro keeps_intros keeps_modify) (auto intro: storeIs_hidden(1) [OF lockFile_hidden])
  show "keeps (storeIs v) (sidecar_load n)"
    by (rule keepsI) (auto simp: storeIs_def sc.load_view sc.load_wf)
qed

lemma keeps_withLock [keeps_intros]: "keeps (storeIs v) p \<Longrightarrow> keeps (storeIs v) (withLock n p)"
  unfolding withLock_def by (intro keeps_intros keeps_finally) (auto simp: unlockSession_def)

subsection \<open>A world that remembers its calls\<close>

text \<open>
  \<open>traced ev\<close> behaves as \<open>ev\<close> and keeps the list of the API requests and execs made
  so far, so that a theorem about any world can speak of the calls and their order.
\<close>

datatype apiCall =
    Http http_request
  | DispatchCall string gomap string string
  | AllocsCall string nat duration
  | ExecCall string string "string list"

definition tracedCall :: "apiCall \<Rightarrow> ('w, 'a) prog \<Rightarrow> ('w \<times> apiCall list, 'a) prog" where
  "tracedCall c p ws = (case p (fst ws) of (r, w) \<Rightarrow> (r, (w, snd ws @ [c])))"

definition traced :: "'w env \<Rightarrow> ('w \<times> apiCall list) env" where
  "traced ev =
    \<lparr>envNomad = \<lparr>httpDo = (\<lambda>rq. tracedCall (Http rq) (httpDo (envNomad ev) rq)),
       sdkDispatch = (\<lambda>p m n t. tracedCall (DispatchCall p m n t) (sdkDispatch (envNomad ev) p m n t)),
       sdkAllocations = (\<lambda>n j i d. tracedCall (AllocsCall j i d) (sdkAllocations (envNomad ev) n j i d))\<rparr>,
     envNow = (\<lambda>ws. case envNow ev (fst ws) of (t, w) \<Rightarrow> (t, (w, snd ws))),
     envSleep = (\<lambda>d ws. (envSleep ev d (fst ws), snd ws)),
     envRand = (\<lambda>ws. case envRand ev (fst ws) of (r, w) \<Rightarrow> (r, (w, snd ws))),
     envExec = (\<lambda>a t c i. tracedCall (ExecCall a t c) (envExec ev a t c i)),
     envFmtTime = envFmtTime ev, envParseTime = envParseTime ev\<rparr>"

abbreviation calls :: "('w \<times> apiCall list) lstate \<Rightarrow> apiCall list" where
  "calls s \<equiv> snd (lsWorld s)"

text \<open>\<open>callsAre K ks\<close>: the calls of kind \<open>K\<close> made so far are \<open>ks\<close>.\<close>

definition callsAre :: "(apiCall \<Rightarrow> bool) \<Rightarrow> apiCall list \<Rightarrow> ('w \<times> apiCall list) lstate \<Rightarrow> bool" where
  "callsAre K ks s \<longleftrightarrow> filter K (calls s) = ks"

definition wcallsAre :: "(apiCall \<Rightarrow> bool) \<Rightarrow> apiCall list \<Rightarrow> 'w \<times> apiCall list \<Rightarrow> bool" where
  "wcallsAre K ks ws \<longleftrightarrow> filter K (snd ws) = ks"

named_theorems quiet \<open>which calls a program does not make\<close>

lemma keeps_world_lift:
  fixes p :: "('a \<times> apiCall list, 'b) prog"
  shows "keeps (wcallsAre K ks) p \<Longrightarrow> keeps (callsAre K ks) (world p)"
proof (rule keepsI)
  fix s :: "('a \<times> apiCall list) lstate"
  assume k: "keeps (wcallsAre K ks) p" and s: "callsAre K ks s"
  then have "wcallsAre K ks (snd (p (lsWorld s)))"
    using keepsD [OF k] by (simp add: callsAre_def wcallsAre_def)
  then show "callsAre K ks (snd (world p s))"
    by (cases "p (lsWorld s)") (simp add: world_def callsAre_def wcallsAre_def)
qed

lemma quiet_tracedCall: "\<not> K c \<Longrightarrow> keeps (wcallsAre K ks) (tracedCall c p)"
  by (auto simp: keeps_def tracedCall_def wcallsAre_def split: prod.splits)

text \<open>The kinds of interest: dispatches, and HTTP requests by method.\<close>

definition isDispatch :: "apiCall \<Rightarrow> bool" where
  "isDispatch c = (case c of DispatchCall p m n t \<Rightarrow> True | _ \<Rightarrow> False)"

definition isMethod :: "string \<Rightarrow> apiCall \<Rightarrow> bool" where
  "isMethod m c = (case c of Http rq \<Rightarrow> rqMethod rq = m | _ \<Rightarrow> False)"

text \<open>The calls that change the cluster: dispatch, registration, deregistration.\<close>

definition isWrite :: "apiCall \<Rightarrow> bool" where
  "isWrite c \<longleftrightarrow> isDispatch c \<or> isMethod ''POST'' c \<or> isMethod ''DELETE'' c"

lemma kinds [simp]:
  "isDispatch (DispatchCall p m n t)" "\<not> isDispatch (Http rq)" "\<not> isDispatch (AllocsCall j i d)"
  "\<not> isDispatch (ExecCall a t c)"
  "isMethod mm (Http rq) \<longleftrightarrow> rqMethod rq = mm" "\<not> isMethod mm (DispatchCall p m n t)"
  "\<not> isMethod mm (AllocsCall j i d)" "\<not> isMethod mm (ExecCall a t c)"
  by (simp_all add: isDispatch_def isMethod_def)

lemma isWrite_kinds [simp]:
  "isWrite (DispatchCall p m n t)" "isWrite (Http rq) \<longleftrightarrow> rqMethod rq = ''POST'' \<or> rqMethod rq = ''DELETE''"
  "\<not> isWrite (AllocsCall j i d)" "\<not> isWrite (ExecCall a t c)"
  by (simp_all add: isWrite_def)

lemma traced_sel [simp]:
  "httpDo (envNomad (traced ev)) rq = tracedCall (Http rq) (httpDo (envNomad ev) rq)"
  "sdkDispatch (envNomad (traced ev)) p m n t = tracedCall (DispatchCall p m n t) (sdkDispatch (envNomad ev) p m n t)"
  "sdkAllocations (envNomad (traced ev)) n j i d = tracedCall (AllocsCall j i d) (sdkAllocations (envNomad ev) n j i d)"
  "envExec (traced ev) a t c x = tracedCall (ExecCall a t c) (envExec ev a t c x)"
  "envFmtTime (traced ev) = envFmtTime ev" "envParseTime (traced ev) = envParseTime ev"
  by (simp_all add: traced_def)

lemma quiet_readBody: "keeps (wcallsAre K ks) (readBody what r)"
  unfolding readBody_def by (intro keeps_intros)

text \<open>A request adds exactly one call.\<close>

lemma traced_bind_calls:
  assumes "\<And>x I. keeps I (f x)"
  shows "snd (snd (bindS (wrapS a b (tracedCall c p)) f w)) = snd w @ [c]"
proof -
  obtain r w1 where p: "p (fst w) = (r, w1)" by fastforce
  show ?thesis
    using keepsD [OF assms, of "\<lambda>w'. w' = (w1, snd w @ [c])"] p
    by (cases r) (simp_all add: bindS_def wrapS_def tracedCall_def)
qed

lemma doIndexed_calls:
  "snd (snd (doIndexed (envNomad (traced ev)) c m parts q b dec z w)) = snd w @
    [Http \<lparr>rqMethod = m, rqPath = urlPath parts, rqQuery = q, rqBody = b, rqToken = clToken c\<rparr>]"
  unfolding doIndexed_def traced_sel readBody_def Let_def by (rule traced_bind_calls) (intro keeps_intros)

lemma doNoOut_calls:
  "snd (snd (doNoOut (envNomad (traced ev)) c m parts b w)) = snd w @
    [Http \<lparr>rqMethod = m, rqPath = urlPath parts, rqQuery = [], rqBody = b, rqToken = clToken c\<rparr>]"
  unfolding doNoOut_def traced_sel readBody_def Let_def by (rule traced_bind_calls) (intro keeps_intros)

lemma quiet_doIndexed:
  assumes "\<And>rq. rqMethod rq = m \<Longrightarrow> \<not> K (Http rq)"
  shows "keeps (wcallsAre K ks) (doIndexed (envNomad (traced ev)) c m parts q b dec z)"
  unfolding doIndexed_def Let_def traced_sel
  by (intro keeps_intros quiet_tracedCall quiet_readBody) (simp add: assms)

lemma quiet_doNoOut:
  assumes "\<And>rq. rqMethod rq = m \<Longrightarrow> \<not> K (Http rq)"
  shows "keeps (wcallsAre K ks) (doNoOut (envNomad (traced ev)) c m parts b)"
  unfolding doNoOut_def Let_def traced_sel
  by (intro keeps_intros quiet_tracedCall quiet_readBody) (simp add: assms)

lemma quiet_getJob [quiet]:
  assumes "\<And>rq. rqMethod rq = ''GET'' \<Longrightarrow> \<not> K (Http rq)"
  shows "keeps (callsAre K ks) (world (getJob (envNomad (traced ev)) c j))"
  unfolding getJob_def by (intro keeps_world_lift keeps_intros quiet_doIndexed assms)

lemma quiet_listChildJobs [quiet]:
  assumes "\<And>rq. rqMethod rq = ''GET'' \<Longrightarrow> \<not> K (Http rq)"
  shows "keeps (callsAre K ks) (world (listChildJobs (envNomad (traced ev)) c j))"
  unfolding listChildJobs_def by (intro keeps_world_lift keeps_intros quiet_doIndexed assms)

lemma quiet_deregisterJob [quiet]:
  assumes "\<And>rq. rqMethod rq = ''DELETE'' \<Longrightarrow> \<not> K (Http rq)"
  shows "keeps (callsAre K ks) (world (deregisterJob (envNomad (traced ev)) c j b))"
  unfolding deregisterJob_def by (intro keeps_world_lift keeps_intros quiet_doIndexed assms)

lemma quiet_registerJob [quiet]:
  assumes "\<And>rq. rqMethod rq = ''POST'' \<Longrightarrow> \<not> K (Http rq)"
  shows "keeps (callsAre K ks) (world (registerJob (envNomad (traced ev)) c spec))"
  unfolding registerJob_def by (intro keeps_world_lift quiet_doNoOut assms)

lemma quiet_readAllocFile [quiet]:
  assumes "\<And>rq. rqMethod rq = ''GET'' \<Longrightarrow> \<not> K (Http rq)"
  shows "keeps (callsAre K ks) (world (readAllocFile (envNomad (traced ev)) c a p))"
  unfolding readAllocFile_def Let_def traced_sel
  by (intro keeps_world_lift keeps_intros quiet_tracedCall quiet_readBody) (simp add: assms)

lemma quiet_listAllocsForJob [quiet]:
  assumes "\<And>j i d. \<not> K (AllocsCall j i d)"
  shows "keeps (callsAre K ks) (world (listAllocsForJob (envNomad (traced ev)) c j i d))"
  unfolding listAllocsForJob_def traced_sel
  by (intro keeps_world_lift keeps_intros quiet_tracedCall assms)

lemma callsAre_upd [simp]:
  "callsAre K ks (s\<lparr>fs_files := f\<rparr>) = callsAre K ks s" "callsAre K ks (s\<lparr>fs_faults := g\<rparr>) = callsAre K ks s"
  "callsAre K ks (s\<lparr>lsLocks := h\<rparr>) = callsAre K ks s" "callsAre K ks (s\<lparr>lsLog := i\<rparr>) = callsAre K ks s"
  "callsAre K ks (s\<lparr>lsSink := j\<rparr>) = callsAre K ks s" "callsAre K ks (s\<lparr>lsSinkFaults := k\<rparr>) = callsAre K ks s"
  by (simp_all add: callsAre_def)

lemma quiet_local [quiet]:
  "keeps (callsAre K ks) (sidecar_load n)" "keeps (callsAre K ks) (sidecar_save b)"
  "keeps (callsAre K ks) (sidecar_remove n)" "keeps (callsAre K ks) (sidecar_tombstone t)"
  "keeps (callsAre K ks) takeFault" "keeps (callsAre K ks) (logDecision l m)" "keeps (callsAre K ks) (warnLine m)"
  by (rule keeps_sidecar; simp)+ (auto simp: logDecision_def warnLine_def intro!: keeps_intros keeps_modify)

lemma quiet_calls [quiet]:
  "keeps (callsAre K ks) (timeNow (traced ev))" "keeps (callsAre K ks) (sleepFor (traced ev) d)"
  "keeps (callsAre K ks) (readRandom (traced ev))"
  "(\<And>j i d. \<not> K (AllocsCall j i d)) \<Longrightarrow> keeps (callsAre K ks) (listAllocs (traced ev) l j)"
  "(\<And>a t c. \<not> K (ExecCall a t c)) \<Longrightarrow> keeps (callsAre K ks) (execAllocObserved (traced ev) a t c x)"
proof -
  show "keeps (callsAre K ks) (timeNow (traced ev))" "keeps (callsAre K ks) (sleepFor (traced ev) d)"
    "keeps (callsAre K ks) (readRandom (traced ev))"
    unfolding timeNow_def sleepFor_def readRandom_def
    by (intro keeps_world_lift keepsI; simp add: wcallsAre_def traced_def split: prod.split)+
  show "keeps (callsAre K ks) (listAllocs (traced ev) l j)" if "\<And>j i d. \<not> K (AllocsCall j i d)"
    unfolding listAllocs_def using that by (intro keeps_intros quiet) auto
  show "keeps (callsAre K ks) (execAllocObserved (traced ev) a t c x)" if "\<And>a t c. \<not> K (ExecCall a t c)"
    unfolding execAllocObserved_def traced_sel using that by (intro keeps_world_lift quiet_tracedCall) auto
qed

lemma quiet_exec [quiet]:
  assumes "\<And>a t c. \<not> K (ExecCall a t c)"
  shows "keeps (callsAre K ks) (execAllocStdin (traced ev) a t c x)" "keeps (callsAre K ks) (execAlloc (traced ev) a t c)"
  unfolding execAlloc_def execAllocStdin_def using assms by (intro keeps_intros quiet; blast)+

lemma quiet_withLock [quiet]: "keeps (callsAre K ks) p \<Longrightarrow> keeps (callsAre K ks) (withLock n p)"
  unfolding withLock_def lockSession_def
  by (intro keeps_intros keeps_finally keeps_modify quiet) (auto simp: unlockSession_def)

subsection \<open>Stepping through a handler\<close>

text \<open>What the proofs carry from one step to the next: the store and the calls made.\<close>

definition at :: "(string \<Rightarrow> binding option) \<Rightarrow> (apiCall \<Rightarrow> bool) \<Rightarrow> apiCall list \<Rightarrow> ('w \<times> apiCall list) lstate \<Rightarrow> bool" where
  "at V K ks s \<longleftrightarrow> storeIs V s \<and> callsAre K ks s"

lemma wp_quiet:
  assumes "at V K ks s" and "keeps (storeIs V) p" and "keeps (callsAre K ks) p"
    and "\<And>r s'. at V K ks s' \<Longrightarrow> Q r s'"
  shows "wp p Q s"
  using assms keepsD [OF assms(2)] keepsD [OF assms(3)] unfolding wp_iff at_def by blast

lemma wp_load:
  assumes "at V K ks s" and "\<And>e s'. at V K ks s' \<Longrightarrow> Q (Err e) s'" and "\<And>s'. at V K ks s' \<Longrightarrow> Q (Ok (V n)) s'"
  shows "wp (sidecar_load n) Q s"
proof -
  have "at V K ks (snd (sidecar_load n s))"
    using assms(1) keepsD [OF keeps_store(12)] keepsD [OF quiet_local(1)] unfolding at_def by blast
  then show ?thesis
    using assms(1) sc.load_value [of s n] assms(2,3) unfolding wp_iff at_def storeIs_def by metis
qed

text \<open>Preservation of both at once. A load in such a state answers with the store's value.\<close>

lemma keeps_at: "keeps (storeIs V) p \<Longrightarrow> keeps (callsAre K ks) p \<Longrightarrow> keeps (at V K ks) p"
  by (simp add: keeps_def at_def)

lemma keeps_at_load:
  fixes f :: "binding option \<Rightarrow> (('a \<times> apiCall list) lstate, 'b) prog"
  assumes "keeps (at V K ks) (f (V n))"
  shows "keeps (at V K ks) (bindS (sidecar_load n) f)"
proof (rule keepsI)
  fix s :: "('a \<times> apiCall list) lstate"
  assume "at V K ks s"
  then have "wp (bindS (sidecar_load n) f) (\<lambda>r s'. at V K ks s') s"
    unfolding wp_bind by (rule wp_load) (use keepsD [OF assms] in \<open>auto simp: wp_iff\<close>)
  then show "at V K ks (snd (bindS (sidecar_load n) f s))" by (simp add: wp_iff)
qed

lemma wp_keeps: "at V K ks s \<Longrightarrow> keeps (at V K ks) p \<Longrightarrow> (\<And>r s'. at V K ks s' \<Longrightarrow> Q r s') \<Longrightarrow> wp p Q s"
  by (simp add: wp_iff keepsD)

lemma wp_save:
  assumes "at V K ks s" and "\<And>r s'. r \<noteq> Ok () \<Longrightarrow> at V K ks s' \<Longrightarrow> Q r s'"
    and "\<And>s'. at (V(SessionName b \<mapsto> b)) K ks s' \<Longrightarrow> Q (Ok ()) s'"
  shows "wp (sidecar_save b) Q s"
proof -
  have wf: "sidecar_wf s" "sidecar_view s = V" and c: "callsAre K ks (snd (sidecar_save b s))"
    using assms(1) keepsD [OF quiet_local(2)] by (auto simp: at_def storeIs_def)
  show ?thesis
  proof (cases "fst (sidecar_save b s) = Ok ()")
    case True
    then have "at (V(SessionName b \<mapsto> b)) K ks (snd (sidecar_save b s))"
      using c wf sc.save_ok [OF wf(1) True] sc.save_wf [OF wf(1)] by (simp add: at_def storeIs_def)
    then show ?thesis using True assms(3) by (simp add: wp_iff)
  next
    case False
    then have "at V K ks (snd (sidecar_save b s))"
      using c wf sc.save_err [OF wf(1) False] sc.save_wf [OF wf(1)] by (simp add: at_def storeIs_def)
    then show ?thesis using False assms(2) by (simp add: wp_iff)
  qed
qed

lemma wp_remove:
  assumes "at V K ks s" and "\<And>r s'. r \<noteq> Ok () \<Longrightarrow> at V K ks s' \<Longrightarrow> Q r s'"
    and "\<And>s'. at (V(n := None)) K ks s' \<Longrightarrow> Q (Ok ()) s'"
  shows "wp (sidecar_remove n) Q s"
proof -
  have wf: "sidecar_wf s" "sidecar_view s = V" and c: "callsAre K ks (snd (sidecar_remove n s))"
    using assms(1) keepsD [OF quiet_local(3)] by (auto simp: at_def storeIs_def)
  show ?thesis
  proof (cases "fst (sidecar_remove n s) = Ok ()")
    case True
    then have "at (V(n := None)) K ks (snd (sidecar_remove n s))"
      using c wf sc.remove_ok [OF wf(1) True] sc.remove_wf [OF wf(1)] by (simp add: at_def storeIs_def)
    then show ?thesis using True assms(3) by (simp add: wp_iff)
  next
    case False
    then have "at V K ks (snd (sidecar_remove n s))"
      using c wf sc.remove_err [OF wf(1) False] sc.remove_wf [OF wf(1)] by (simp add: at_def storeIs_def)
    then show ?thesis using False assms(2) by (simp add: wp_iff)
  qed
qed

subsection \<open>A small world for examples\<close>

text \<open>Answers every job lookup with absence, every listing with nothing, accepts every write,
  and has one running allocation per job in which every command succeeds.\<close>

definition stubResponse :: "nat \<Rightarrow> json \<Rightarrow> http_response" where
  "stubResponse status j =
    \<lparr>rsStatus = status, rsIndex = ''7'', rsRaw = [CHR 0x7B, CHR 0x7D], rsDoc = Some j, rsReadErr = None, rsCloseErr = None\<rparr>"

definition stubHttp :: "http_request \<Rightarrow> http_response" where
  "stubHttp rq =
    (if rqMethod rq = ''GET'' then (if rqPath rq = ''/v1/jobs'' then stubResponse 200 (JArr []) else stubResponse 404 (JObj []))
     else stubResponse 200 (JObj [(''JobModifyIndex'', JNum 7)]))"

definition stubAlloc :: sdkAlloc where
  "stubAlloc = \<lparr>saID = ''alloc-1'', saClientStatus = ''running'', saDesiredStatus = ''run'', saTaskStates = []\<rparr>"

definition stubEnv :: "unit env" where
  "stubEnv =
    \<lparr>envNomad = \<lparr>httpDo = (\<lambda>rq w. (Ok (stubHttp rq), w)),
       sdkDispatch = (\<lambda>p m n t w. (Ok (Some (p @ ''/dispatch-1'')), w)),
       sdkAllocations = (\<lambda>n j i d w. (Ok ([Some stubAlloc], Some 7), w))\<rparr>,
     envNow = (\<lambda>w. (5, w)), envSleep = (\<lambda>d w. w), envRand = (\<lambda>w. (Inr (replicate 16 0), w)),
     envExec = (\<lambda>a t c i w. (Ok (0, [], []), w)), envFmtTime = (\<lambda>t. intText t), envParseTime = (\<lambda>s. None)\<rparr>"

definition stubLife :: lifecycle where
  "stubLife =
    \<lparr>lcClient = \<lparr>clAddr = ''http://n'', clToken = [], clNamespace = ''default''\<rparr>, lcParentJobID = ''p'', lcNodePool = [],
     lcEgressDir = [], lcForbidRegistration = False, lcLogShipper = False, lcAgentImage = ''img'', lcAdoptMaxAge = 0,
     lcLogf = True, lcExecTask = ''agent'', lcSpec = JObj [], lcSpecHash = ''h'', lcDrainMarker = Inr ''x''\<rparr>"

definition stubState :: "(string \<times> content) list \<Rightarrow> (unit \<times> apiCall list) lstate" where
  "stubState files =
    \<lparr>fs_files = files, fs_faults = [], lsWorld = ((), []), lsLocks = [], lsLog = [], lsSink = [], lsSinkFaults = []\<rparr>"

lemma stubLife_sel [simp]:
  "\<not> lcForbidRegistration stubLife" "lcNodePool stubLife = []" "lcLogf stubLife" "\<not> lcLogShipper stubLife"
  "lcEgressDir stubLife = []" "lcAdoptMaxAge stubLife = 0" "lcAgentImage stubLife = ''img''"
  by (simp_all add: stubLife_def)

lemma stub_raw: "trimSpace [CHR 0x7B, CHR 0x7D] \<noteq> []" "trimSpace [] = []"
proof -
  show "trimSpace [CHR 0x7B, CHR 0x7D] \<noteq> []" by (rule trimSpace_nonempty [OF braces_no_space(1)]) simp
qed (simp add: trimSpace_def)

lemma stub_listChildJobs:
  "fst (listChildJobs (envNomad (traced stubEnv)) (lcClient stubLife) j w) = Ok []"
  by (simp add: listChildJobs_def doIndexed_def readBody_def limitBody_def maxResponseByte_def stubEnv_def stubHttp_def
      stubResponse_def stub_raw urlPath_def tracedCall_def decList_def childrenOf_def prog_defs Let_def split: option.split)

lemma stub_getJob: "fst (getJob (envNomad (traced stubEnv)) (lcClient stubLife) j w) = Ok None"
  by (simp add: getJob_def doIndexed_def readBody_def limitBody_def maxResponseByte_def stubEnv_def stubHttp_def
      stubResponse_def stub_raw urlPath_def tracedCall_def statusError_def prog_defs Let_def split: option.split)

lemma stub_registerJob: "fst (registerJob (envNomad (traced stubEnv)) (lcClient stubLife) spec w) = Ok ()"
  by (simp add: registerJob_def doNoOut_def readBody_def limitBody_def maxResponseByte_def stubEnv_def stubHttp_def
      stubResponse_def stub_raw urlPath_def tracedCall_def prog_defs Let_def split: option.split)

lemma stub_dispatchChildAt:
  "fst (dispatchChildAt (envNomad (traced stubEnv)) f (lcClient stubLife) p n k t i w) = Ok (p @ ''/dispatch-1'')"
  by (simp add: dispatchChildAt_def stubEnv_def tracedCall_def prog_defs)

lemma stub_listAllocs:
  "fst (listAllocsForJob (envNomad (traced stubEnv)) (lcClient stubLife) j i d w)
    = Ok ([\<lparr>arID = ''alloc-1'', arClientStatus = ''running'', arDesiredStatus = ''run'', arTaskStates = None\<rparr>], 7)"
  by (simp add: listAllocsForJob_def stubEnv_def tracedCall_def stubAlloc_def allocRecordOf_def allocTaskStatesOf_def prog_defs)

lemma stub_deregisterJob: "fst (deregisterJob (envNomad (traced stubEnv)) (lcClient stubLife) j False w) = Ok 7"
  by (simp add: deregisterJob_def doIndexed_def readBody_def limitBody_def maxResponseByte_def stubEnv_def stubHttp_def
      stubResponse_def stub_raw urlPath_def tracedCall_def decObj_def natField_def intField_def jfield_def prog_defs Let_def
      split: option.split)

text \<open>Running a handler on the example world.\<close>

lemma stub_exec:
  "execAllocObserved (traced stubEnv) a t c x s = (Ok (0, [], []), s\<lparr>lsWorld := ((), calls s @ [ExecCall a t c])\<rparr>)"
  "execAlloc (traced stubEnv) a t c s = (Ok (0, []), s\<lparr>lsWorld := ((), calls s @ [ExecCall a t c])\<rparr>)"
  by (simp_all add: execAlloc_def execAllocStdin_def execAllocObserved_def world_def stubEnv_def traced_def tracedCall_def
      bindS_def returnS_def)

lemma world_run: "fst (p (lsWorld s)) = r \<Longrightarrow> world p s = (r, s\<lparr>lsWorld := snd (p (lsWorld s))\<rparr>)"
  by (auto simp: world_def split: prod.split)

lemma stub_clock:
  "timeNow (traced stubEnv) s = (Ok 5, s)" "sleepFor (traced stubEnv) d s = (Ok (), s)"
  "readRandom (traced stubEnv) s = (Ok (Inr (replicate 16 0)), s)"
proof -
  have "((), snd x) = x" for x :: "unit \<times> apiCall list" by (cases x) simp
  then show "timeNow (traced stubEnv) s = (Ok 5, s)" "sleepFor (traced stubEnv) d s = (Ok (), s)"
    "readRandom (traced stubEnv) s = (Ok (Inr (replicate 16 0)), s)"
    by (simp_all add: timeNow_def sleepFor_def readRandom_def world_def traced_def stubEnv_def)
qed

lemmas stub_runs = stub_clock stub_exec world_run [OF stub_deregisterJob] world_run [OF stub_listChildJobs] world_run [OF stub_getJob] world_run [OF stub_registerJob]
  world_run [OF stub_dispatchChildAt] world_run [OF stub_listAllocs]

end
