(* ===== verification/Dispatch.thy ===== *)
theory Dispatch
  imports Lifecycle_Base
begin

text \<open>
  Which box belongs to a session (\<^verbatim>\<open>ops.go\<close>): the recovery of a lost binding from
  the children's metadata, the test whether a session has a live box, the
  registration of the parent job, and \<^verbatim>\<open>dispatch\<close>, which records an intent before
  it asks Nomad for a child and the binding after.
\<close>

definition isTerminalStatus :: "string \<Rightarrow> bool" where
  "isTerminalStatus status \<longleftrightarrow> status \<in> {''complete'', ''failed'', ''lost''}"

definition parseCreatedAtMeta :: "'w env \<Rightarrow> gomap \<Rightarrow> gotime" where
  "parseCreatedAtMeta ev meta =
    (let raw = trimSpace (mapGet meta createdAtMetaKey) in
     if raw = [] then 0 else (case envParseTime ev raw of None \<Rightarrow> 0 | Some t \<Rightarrow> t))"

subsection \<open>Recovery from metadata\<close>

definition ownedBy :: "lifecycle \<Rightarrow> string \<Rightarrow> childJob \<Rightarrow> bool" where
  "ownedBy l sessionName child \<longleftrightarrow>
    cjNamespace child = clNamespace (lcClient l) \<and> mapGet (cjMeta child) ''gc_session'' = sessionName"

text \<open>The record rebuilt from a child, over what a prior record still knows.\<close>

definition rebuilt :: "'w env \<Rightarrow> string \<Rightarrow> childJob \<Rightarrow> string \<Rightarrow> binding option \<Rightarrow> binding" where
  "rebuilt ev sessionName child nonce prior =
    (let recovered = (newBinding sessionName)\<lparr>ChildJobID := cjID child, Namespace := cjNamespace child,
           Nonce := nonce, CreatedAt := parseCreatedAtMeta ev (cjMeta child)\<rparr>
     in case prior of
          None \<Rightarrow> recovered
        | Some base \<Rightarrow>
            recovered\<lparr>CreatedAt := (if CreatedAt base \<noteq> 0 then CreatedAt base else CreatedAt recovered),
              EgressComplete := EgressComplete base, EvidenceLost := EvidenceLost base,
              StagePending := StagePending base, Launched := Launched base, AgentPID := AgentPID base,
              WorkDir := WorkDir base, PromptedAt := PromptedAt base, PromptStatus := PromptStatus base,
              PromptPaneTail := PromptPaneTail base, PromptPending := PromptPending base\<rparr>)"

definition recoverBinding ::
  "'w env \<Rightarrow> lifecycle \<Rightarrow> string \<Rightarrow> binding option \<Rightarrow> ('w lstate, binding) prog" where
  "recoverBinding ev l sessionName prior =
    bindS (wrapS (''recovering sidecar binding for session '' @ goQuote sessionName @ '': '') []
      (world (listChildJobs (envNomad ev) (lcClient l) (lcParentJobID l)))) (\<lambda>children.
    let mine = filter (ownedBy l sessionName) children;
        terminalMatches = filter cjTerminal mine;
        matches = filter (\<lambda>c. \<not> cjTerminal c) mine
    in case matches of
         [] \<Rightarrow>
           (case terminalMatches of
              t # _ \<Rightarrow> failS (EWrap [] (ESent ErrBindingTerminal)
                 ('' for session '' @ goQuote sessionName @ '': child '' @ goQuote (cjID t)))
            | [] \<Rightarrow> failS (EWrap [] (ESent ErrBindingNoMatch)
                 ('' for session '' @ goQuote sessionName @ '' in parent '' @ goQuote (lcParentJobID l))))
       | [child] \<Rightarrow>
           (let nonce = trimSpace (mapGet (cjMeta child) ''gc_nonce'') in
            if nonce = []
            then failS (ENew (''sidecar binding recovery: child '' @ goQuote (cjID child) @ '' for session ''
                              @ goQuote sessionName @ '' has no gc_nonce''))
            else (let recovered = rebuilt ev sessionName child nonce prior in
                  bindS (wrapS (''repairing sidecar binding for session '' @ goQuote sessionName @ '': '') []
                           (sidecar_save recovered)) (\<lambda>_. returnS recovered)))
       | _ \<Rightarrow> failS (EWrap [] (ESent ErrBindingAmbiguous)
           ('' for session '' @ goQuote sessionName @ '' in parent '' @ goQuote (lcParentJobID l)
            @ '': found '' @ natText (length matches) @ '' non-terminal children'')))"

definition isOrphan :: "string \<Rightarrow> string \<Rightarrow> childJob \<Rightarrow> bool" where
  "isOrphan sessionName nonce c \<longleftrightarrow>
    \<not> (cjTerminal c \<or> mapGet (cjMeta c) ''gc_session'' \<noteq> sessionName \<or> mapGet (cjMeta c) ''gc_nonce'' \<noteq> nonce)"

definition findOrphanByNonce ::
  "'w env \<Rightarrow> lifecycle \<Rightarrow> string \<Rightarrow> string \<Rightarrow> ('w lstate, string option) prog" where
  "findOrphanByNonce ev l sessionName nonce =
    bindS (world (listChildJobs (envNomad ev) (lcClient l) (lcParentJobID l))) (\<lambda>children.
    returnS (map_option cjID (find (isOrphan sessionName nonce) children)))"

subsection \<open>The live child\<close>

definition someLive :: "allocRecord list \<Rightarrow> bool" where
  "someLive allocs \<longleftrightarrow> list_ex (\<lambda>a. \<not> isTerminalStatus (arClientStatus a)) allocs"

text \<open>The second half of \<^verbatim>\<open>liveChild\<close>: the allocations of the bound child.\<close>

definition checkLive ::
  "'w env \<Rightarrow> lifecycle \<Rightarrow> string \<Rightarrow> binding \<Rightarrow> bool \<Rightarrow> ('w lstate, binding option) prog" where
  "checkLive ev l sessionName b recovered =
    (if ChildJobID b = [] then returnS None
     else bindS (attempt (listAllocs ev l (ChildJobID b))) (\<lambda>r.
       case r of
         Inl e \<Rightarrow>
           if recovered
           then failS (EWrap (''checking recovered child '' @ goQuote (ChildJobID b) @ '' for session ''
                              @ goQuote sessionName @ '': '') e [])
           else returnS None
       | Inr allocs \<Rightarrow>
           if someLive allocs then returnS (Some b)
           else if recovered
             then failS (ENew (''recovered child '' @ goQuote (ChildJobID b) @ '' for session ''
                               @ goQuote sessionName @ '' has no non-terminal allocation''))
           else returnS None))"

definition useRecovered ::
  "'w env \<Rightarrow> lifecycle \<Rightarrow> string \<Rightarrow> goerr + binding \<Rightarrow> ('w lstate, binding option) prog" where
  "useRecovered ev l sessionName r =
    (case r of
       Inl e \<Rightarrow>
         if errIs e ErrBindingNoMatch \<or> errIs e ErrBindingTerminal
         then bindS (logDecision l (''provision/start '' @ goQuote sessionName
                @ '': Meta binding recovery not used: '' @ errText e)) (\<lambda>_. returnS None)
         else failS e
     | Inr b \<Rightarrow> checkLive ev l sessionName b True)"

definition liveChild :: "'w env \<Rightarrow> lifecycle \<Rightarrow> string \<Rightarrow> ('w lstate, binding option) prog" where
  "liveChild ev l sessionName =
    bindS (sidecar_load sessionName) (\<lambda>found.
    case found of
      Some b \<Rightarrow>
        if ChildJobID b \<noteq> [] then checkLive ev l sessionName b False
        else if Nonce b \<noteq> [] then returnS None
        else bindS (attempt (recoverBinding ev l sessionName (Some b))) (useRecovered ev l sessionName)
    | None \<Rightarrow> bindS (attempt (recoverBinding ev l sessionName None)) (useRecovered ev l sessionName))"

subsection \<open>The parent job\<close>

definition envNodePool :: string where
  "envNodePool = ''GC_NOMAD_NODE_POOL''"

definition jobspecHashMetaKey :: string where
  "jobspecHashMetaKey = ''gc_jobspec_hash''"

definition parentPoolMoveRefusal :: "bool \<Rightarrow> string \<Rightarrow> string \<Rightarrow> string \<Rightarrow> goerr option" where
  "parentPoolMoveRefusal exists registeredPool computedPool parentJobID =
    (if \<not> exists \<or> registeredPool = [] \<or> computedPool \<noteq> [] then None
     else Some (ENew (''refusing to re-register parent job '' @ goQuote parentJobID @ '': it is registered in node pool ''
       @ goQuote registeredPool @ '' '' @ ''and this process computed no pool at all, because '' @ envNodePool
       @ '' is unset in ITS environment. ''
       @ ''Re-registering would move the parent to Nomad's '' @ goQuote ''default'' @ '' pool and repoint where every ''
       @ ''future session is placed '' @ emDash @ '' if that pool holds no nodes, every dispatch pends forever with ''
       @ ''no error on the session itself. This is refused rather than warned because an absent ''
       @ ''variable is a forgotten one, not a decision: a hand-run of this binary for diagnosis must ''
       @ ''not silently move the fleet. Set '' @ envNodePool @ ''='' @ registeredPool
       @ '' to proceed with the pool it already has, or to '' @ ''another pool to move it deliberately.'')))"

definition parentPoolMoveWarning :: "bool \<Rightarrow> string \<Rightarrow> string \<Rightarrow> string \<Rightarrow> string" where
  "parentPoolMoveWarning exists registeredPool computedPool parentJobID =
    (if \<not> exists \<or> registeredPool = [] \<or> computedPool = [] \<or> registeredPool = computedPool then []
     else ''re-registering parent '' @ goQuote parentJobID @ '' MOVES its node pool '' @ goQuote registeredPool
       @ '' -> '' @ goQuote computedPool @ ''; every future session '' @ ''dispatch will be placed in ''
       @ goQuote computedPool @ ''. A pool with no eligible nodes leaves dispatches pending with ''
       @ ''no error on the session itself.'')"

definition registrationRefused :: "lifecycle \<Rightarrow> bool \<Rightarrow> goerr" where
  "registrationRefused l ok =
    (if ok then ENew (''parent job '' @ goQuote (lcParentJobID l) @ '' exists but has drifted from this build's jobspec ''
       @ ''(node pool and/or task spec), and GC_NOMAD_FORBID_REGISTER forbids registering to fix it: ''
       @ ''register it out-of-band with a token holding the submit-job capability'')
     else ENew (''parent job '' @ goQuote (lcParentJobID l) @ '' does not exist in namespace ''
       @ goQuote (clNamespace (lcClient l)) @ '', and GC_NOMAD_FORBID_REGISTER forbids registering it: ''
       @ ''register it out-of-band with a token holding the submit-job capability''))"

definition registerFailed :: "lifecycle \<Rightarrow> bool \<Rightarrow> goerr \<Rightarrow> goerr" where
  "registerFailed l ok e =
    (if errIs e ErrJobForbidden then
       (if ok then EWrap (''parent job '' @ goQuote (lcParentJobID l) @ '' is stale '' @ emDash
          @ '' re-register with a management token: the registered parent no longer matches this build's ''
          @ ''jobspec (node pool and/or task spec drifted) and the runtime token lacks the submit-job ''
          @ ''capability to fix it in place (the lab ACL model): '') e []
        else EWrap (''registering parent job '' @ goQuote (lcParentJobID l)
          @ '': token lacks the submit-job capability required to register jobs in namespace ''
          @ goQuote (clNamespace (lcClient l)) @ '' '' @ emDash
          @ '' register it once with a management token, or set GC_NOMAD_FORBID_REGISTER and do so out-of-band: '') e [])
     else EWrap (''registering parent job '' @ goQuote (lcParentJobID l) @ '': '') e [])"

definition registerParent :: "'w env \<Rightarrow> lifecycle \<Rightarrow> bool \<Rightarrow> ('w lstate, unit) prog" where
  "registerParent ev l ok =
    bindS (attempt (world (registerJob (envNomad ev) (lcClient l) (lcSpec l)))) (\<lambda>r.
      case r of Inr _ \<Rightarrow> returnS () | Inl e \<Rightarrow> failS (registerFailed l ok e))"

text \<open>\<open>lcSpec\<close> is the job body this build computes and \<open>lcSpecHash\<close> the fingerprint in its
  metadata.\<close>

definition ensureParentRegistered :: "'w env \<Rightarrow> lifecycle \<Rightarrow> ('w lstate, unit) prog" where
  "ensureParentRegistered ev l =
    bindS (wrapS (''looking up parent job '' @ goQuote (lcParentJobID l) @ '': '') []
      (world (getJob (envNomad ev) (lcClient l) (lcParentJobID l)))) (\<lambda>job.
    let ok = (job \<noteq> None); nodePool = (case job of None \<Rightarrow> [] | Some (p, m) \<Rightarrow> p);
        meta = (case job of None \<Rightarrow> [] | Some (p, m) \<Rightarrow> m) in
    if ok \<and> nodePool = lcNodePool l \<and> mapGet meta jobspecHashMetaKey = lcSpecHash l then returnS ()
    else case parentPoolMoveRefusal ok nodePool (lcNodePool l) (lcParentJobID l) of
      Some e \<Rightarrow> failS e
    | None \<Rightarrow>
        bindS (let w = parentPoolMoveWarning ok nodePool (lcNodePool l) (lcParentJobID l)
               in whenS (w \<noteq> []) (logDecision l w)) (\<lambda>_.
        if lcForbidRegistration l then failS (registrationRefused l ok)
        else registerParent ev l ok))"

subsection \<open>Dispatch\<close>

definition envAgentImage :: string where
  "envAgentImage = ''GC_NOMAD_AGENT_IMAGE''"

definition sessionAgentImage :: "stageConfig \<Rightarrow> string" where
  "sessionAgentImage cfg = trimSpace (mapGet (cfgEnv cfg) envAgentImage)"

definition alreadyExists :: "string \<Rightarrow> goerr" where
  "alreadyExists sessionName = ENew (''session '' @ goQuote sessionName @ '' already exists'')"

text \<open>The part of \<^verbatim>\<open>dispatch\<close> that asks for a new child: a nonce, the intent record, the
  call, the binding.\<close>

definition dispatchFresh :: "'w env \<Rightarrow> lifecycle \<Rightarrow> string \<Rightarrow> string \<Rightarrow> ('w lstate, unit) prog" where
  "dispatchFresh ev l sessionName img =
    bindS (readRandom ev) (\<lambda>rnd.
    bindS (liftR (newNonce rnd)) (\<lambda>nonce.
    bindS (timeNow ev) (\<lambda>now.
    let intent = (newBinding sessionName)\<lparr>Namespace := clNamespace (lcClient l), Nonce := nonce, CreatedAt := now\<rparr> in
    bindS (sidecar_save intent) (\<lambda>_.
    bindS (world (dispatchChildAt (envNomad ev) (envFmtTime ev) (lcClient l) (lcParentJobID l)
             sessionName nonce (CreatedAt intent) img)) (\<lambda>childID.
    sidecar_save (intent\<lparr>ChildJobID := childID\<rparr>))))))"

definition dispatch :: "'w env \<Rightarrow> lifecycle \<Rightarrow> string \<Rightarrow> string \<Rightarrow> ('w lstate, unit) prog" where
  "dispatch ev l sessionName img =
    bindS (sidecar_load sessionName) (\<lambda>existing.
    bindS (liveChild ev l sessionName) (\<lambda>live.
    if live \<noteq> None then failS (alreadyExists sessionName)
    else bindS (ensureParentRegistered ev l) (\<lambda>_.
    case existing of
      Some b \<Rightarrow>
        if Nonce b \<noteq> [] \<and> ChildJobID b = []
        then bindS (attempt (findOrphanByNonce ev l sessionName (Nonce b))) (\<lambda>r.
          case r of
            Inr (Some adopted) \<Rightarrow> sidecar_save (b\<lparr>ChildJobID := adopted\<rparr>)
          | _ \<Rightarrow> dispatchFresh ev l sessionName img)
        else dispatchFresh ev l sessionName img
    | None \<Rightarrow> dispatchFresh ev l sessionName img)))"

subsection \<open>What each step changes\<close>

lemma keeps_recover_reads [keeps_intros]:
  "keeps (storeIs v) (findOrphanByNonce ev l n nonce)" "keeps (storeIs v) (checkLive ev l n b rec)"
  "keeps (storeIs v) (ensureParentRegistered ev l)"
  unfolding findOrphanByNonce_def checkLive_def ensureParentRegistered_def registerParent_def Let_def by (intro keeps_intros)+

lemma keeps_list3 [keeps_intros]:
  "keeps I p \<Longrightarrow> (\<And>x. keeps I (f x)) \<Longrightarrow> (\<And>x y ys. keeps I (g x y ys)) \<Longrightarrow>
   keeps I (case xs of [] \<Rightarrow> p | [x] \<Rightarrow> f x | x # y # ys \<Rightarrow> g x y ys)"
  by (auto split: list.split)

lemma keeps_list [keeps_intros]:
  "keeps I p \<Longrightarrow> (\<And>x xs. keeps I (f x xs)) \<Longrightarrow> keeps I (case xs of [] \<Rightarrow> p | x # xs \<Rightarrow> f x xs)"
  by (cases xs) auto

lemma quiet_recoverBinding [quiet]:
  assumes "\<And>rq. rqMethod rq = ''GET'' \<Longrightarrow> \<not> K (Http rq)"
  shows "keeps (callsAre K ks) (recoverBinding (traced ev) l n prior)"
  unfolding recoverBinding_def Let_def by (intro keeps_intros quiet assms)

lemma quiet_findOrphan [quiet]:
  assumes "\<And>rq. rqMethod rq = ''GET'' \<Longrightarrow> \<not> K (Http rq)"
  shows "keeps (callsAre K ks) (findOrphanByNonce (traced ev) l n nonce)"
  unfolding findOrphanByNonce_def by (intro keeps_intros quiet assms)

lemma quiet_liveChild [quiet]:
  assumes "\<And>rq. rqMethod rq = ''GET'' \<Longrightarrow> \<not> K (Http rq)" and "\<And>j i d. \<not> K (AllocsCall j i d)"
  shows "keeps (callsAre K ks) (liveChild (traced ev) l n)"
proof -
  have c: "keeps (callsAre K ks) (checkLive (traced ev) l n b rec)" for b rec
    unfolding checkLive_def by (intro keeps_intros quiet assms)
  then have u: "keeps (callsAre K ks) (useRecovered (traced ev) l n r)" for r
    unfolding useRecovered_def by (intro keeps_intros quiet)
  show ?thesis
    unfolding liveChild_def by (intro keeps_intros quiet c u assms)
qed

lemma quiet_ensureParent [quiet]:
  assumes "\<And>rq. rqMethod rq = ''GET'' \<or> rqMethod rq = ''POST'' \<Longrightarrow> \<not> K (Http rq)"
  shows "keeps (callsAre K ks) (ensureParentRegistered (traced ev) l)"
  unfolding ensureParentRegistered_def registerParent_def Let_def by (intro keeps_intros quiet) (simp_all add: assms)

text \<open>Kinds that no read belongs to.\<close>

definition readQuiet :: "(apiCall \<Rightarrow> bool) \<Rightarrow> bool" where
  "readQuiet K \<longleftrightarrow> (\<forall>rq. rqMethod rq = ''GET'' \<longrightarrow> \<not> K (Http rq)) \<and> (\<forall>j i d. \<not> K (AllocsCall j i d))"

lemma readQuietD:
  "readQuiet K \<Longrightarrow> rqMethod rq = ''GET'' \<Longrightarrow> \<not> K (Http rq)" "readQuiet K \<Longrightarrow> \<not> K (AllocsCall j i d)"
  by (auto simp: readQuiet_def)

lemma readQuiet_kinds [simp]: "readQuiet isDispatch" "readQuiet isWrite"
  by (auto simp: readQuiet_def)

text \<open>\<^verbatim>\<open>recoverBinding\<close> saves what it returns and otherwise leaves the store alone.\<close>

lemma rebuilt_fields [simp]:
  "SessionName (rebuilt ev n child nonce prior) = n" "Nonce (rebuilt ev n child nonce prior) = nonce"
  "ChildJobID (rebuilt ev n child nonce prior) = cjID child"
  by (simp_all add: rebuilt_def newBinding_def Let_def split: option.split)

lemma wp_recover:
  assumes "at V K ks s" and "readQuiet K" and "\<And>r s'. (\<And>b. r \<noteq> Ok b) \<Longrightarrow> at V K ks s' \<Longrightarrow> Q r s'"
    and "\<And>b s'. SessionName b = n \<Longrightarrow> Nonce b \<noteq> [] \<Longrightarrow> at (V(n \<mapsto> b)) K ks s' \<Longrightarrow> Q (Ok b) s'"
  shows "wp (recoverBinding (traced ev) l n prior) Q s"
proof -
  let ?p = "world (listChildJobs (envNomad (traced ev)) (lcClient l) (lcParentJobID l))"
  have p: "keeps (callsAre K ks) ?p" by (intro quiet readQuietD [OF assms(2)])
  have step: "wp (case cs of
         [] \<Rightarrow> (case ts of t # _ \<Rightarrow> failS (e1 t) | [] \<Rightarrow> failS e2)
       | [child] \<Rightarrow>
           (let nonce = trimSpace (mapGet (cjMeta child) ''gc_nonce'') in
            if nonce = [] then failS (e3 child)
            else (let recovered = rebuilt (traced ev) n child nonce prior in
                  bindS (wrapS w [] (sidecar_save recovered)) (\<lambda>_. returnS recovered)))
       | _ \<Rightarrow> failS e4) Q s'" if "at V K ks s'" for cs ts e1 e2 e3 e4 w s'
  proof -
    have "wp (bindS (wrapS w [] (sidecar_save (rebuilt (traced ev) n child nonce prior)))
        (\<lambda>_. returnS (rebuilt (traced ev) n child nonce prior))) Q s'" if "nonce \<noteq> []" for child nonce
      unfolding wp_simps
      by (rule wp_save [OF \<open>at V K ks s'\<close>]) (auto simp: that intro: assms(3,4) split: result.split)
    then show ?thesis
      using that assms(3) by (auto simp: Let_def wp_simps split: list.split)
  qed
  show ?thesis
    unfolding recoverBinding_def wp_simps
    by (rule wp_quiet [OF assms(1) keeps_store(1) p])
      (auto simp: Let_def [of "filter _ _"] intro!: step assms(3) split: result.split)
qed

text \<open>How \<^verbatim>\<open>liveChild\<close> leaves the store: unchanged, or with the recovered record; a child
  it answers with is the one on record.\<close>

definition liveOutcome ::
  "(string \<Rightarrow> binding option) \<Rightarrow> string \<Rightarrow> (string \<Rightarrow> binding option) \<Rightarrow> binding option result \<Rightarrow> bool" where
  "liveOutcome V n V' r \<longleftrightarrow>
    (V' = V \<or> (\<exists>b. SessionName b = n \<and> V' = V(n \<mapsto> b))) \<and>
    (case r of Ok (Some b) \<Rightarrow> V' n = Some b \<and> ChildJobID b \<noteq> [] | _ \<Rightarrow> True)"

lemma liveOutcome_simps [simp]:
  "liveOutcome V n V' (Err e) \<longleftrightarrow> V' = V \<or> (\<exists>b. SessionName b = n \<and> V' = V(n \<mapsto> b))"
  "liveOutcome V n V' (Panic m) \<longleftrightarrow> V' = V \<or> (\<exists>b. SessionName b = n \<and> V' = V(n \<mapsto> b))"
  "liveOutcome V n V' Hang \<longleftrightarrow> V' = V \<or> (\<exists>b. SessionName b = n \<and> V' = V(n \<mapsto> b))"
  "liveOutcome V n V' (Ok None) \<longleftrightarrow> V' = V \<or> (\<exists>b. SessionName b = n \<and> V' = V(n \<mapsto> b))"
  by (simp_all add: liveOutcome_def)

lemma wp_checkLive:
  assumes "at V' K ks s" and "readQuiet K" and "V' = V \<or> (\<exists>b. SessionName b = n \<and> V' = V(n \<mapsto> b))"
    and "V' n = Some b" and "\<And>r s'. at V' K ks s' \<Longrightarrow> liveOutcome V n V' r \<Longrightarrow> Q r s'"
  shows "wp (checkLive (traced ev) l n b rec) Q s"
proof (cases "ChildJobID b = []")
  case True
  have "Q (Ok None) s" by (rule assms(5) [OF assms(1)]) (simp add: assms(3))
  with True show ?thesis by (simp add: checkLive_def wp_simps)
next
  case False
  have q: "keeps (callsAre K ks) (listAllocs (traced ev) l (ChildJobID b))"
    by (intro quiet readQuietD [OF assms(2)])
  have "Q (Ok (Some b)) s'" "Q (Ok None) s'" "Q (Err e) s'" "Q (Panic m) s'" "Q Hang s'" if "at V' K ks s'" for s' e m
    by (rule assms(5) [OF that]; use assms(3,4) False in \<open>simp add: liveOutcome_def\<close>)+
  then show ?thesis
    unfolding checkLive_def if_not_P [OF False] wp_bind wp_attempt
    by (intro wp_quiet [OF assms(1) keeps_store(8) q]) (simp add: wp_simps split: result.split)
qed

lemma wp_useRecovered:
  assumes "at V' K ks s" and "readQuiet K" and "V' = V \<or> (\<exists>b. SessionName b = n \<and> V' = V(n \<mapsto> b))"
    and "\<And>b. r = Inr b \<Longrightarrow> V' n = Some b" and "\<And>r s'. at V' K ks s' \<Longrightarrow> liveOutcome V n V' r \<Longrightarrow> Q r s'"
  shows "wp (useRecovered (traced ev) l n r) Q s"
proof (cases r)
  case (Inl e)
  have q: "Q (Ok None) s'" "Q (Err f) s'" "Q (Panic m) s'" "Q Hang s'" if "at V' K ks s'" for s' f m
    by (rule assms(5) [OF that]; simp add: assms(3))+
  have "wp (bindS (logDecision l m) (\<lambda>_. returnS None)) Q s" for m
    unfolding wp_bind
    by (rule wp_quiet [OF assms(1) keeps_store(9) quiet_local(6)]) (simp add: wp_return q split: result.split)
  then show ?thesis
    using q(2) [OF assms(1)] by (simp add: Inl useRecovered_def wp_fail)
next
  case (Inr b)
  show ?thesis
    unfolding useRecovered_def Inr sum.case
    by (rule wp_checkLive [OF assms(1-3) assms(4) [OF Inr]]) (rule assms(5))
qed

lemma wp_liveChild:
  assumes "at V K ks s" and "readQuiet K" and "\<And>r s' V'. at V' K ks s' \<Longrightarrow> liveOutcome V n V' r \<Longrightarrow> Q r s'"
  shows "wp (liveChild (traced ev) l n) Q s"
proof -
  have q: "Q (Ok None) s'" "Q (Err f) s'" "Q (Panic m) s'" "Q Hang s'" if "at V K ks s'" for s' f m
    by (rule assms(3) [OF that]; simp)+
  have rec: "wp (bindS (attempt (recoverBinding (traced ev) l n prior)) (useRecovered (traced ev) l n)) Q s'"
    if "at V K ks s'" for prior s'
    unfolding wp_bind wp_attempt
  proof (rule wp_recover [OF that assms(2)], goal_cases)
    case (1 r s'')
    have "wp (useRecovered (traced ev) l n (Inl e)) Q s''" for e
      by (rule wp_useRecovered [where V = V, OF 1(2) assms(2)]) (simp_all add: assms(3))
    with 1 q [OF 1(2)] show ?case by (cases r) auto
  next
    case (2 b s'')
    have "wp (useRecovered (traced ev) l n (Inr b)) Q s''"
      by (rule wp_useRecovered [where V = V, OF 2(3) assms(2)]) (use 2 assms(3) in auto)
    then show ?case by simp
  qed
  have check: "wp (checkLive (traced ev) l n b False) Q s'" if "at V K ks s'" "V n = Some b" for b s'
    by (rule wp_checkLive [where V = V, OF that(1) assms(2) _ that(2)]) (simp_all add: assms(3))
  show ?thesis
    unfolding liveChild_def wp_bind
  proof (rule wp_load [OF assms(1)], goal_cases)
    case (1 e s')
    then show ?case using q by simp
  next
    case (2 s')
    then show ?case
      using rec [OF 2] check [OF 2] q [OF 2] by (cases "V n") (simp_all add: wp_return)
  qed
qed

subsection \<open>Dispatch\<close>

definition intentOf :: "lifecycle \<Rightarrow> string \<Rightarrow> string \<Rightarrow> gotime \<Rightarrow> binding" where
  "intentOf l n nonce now = (newBinding n)\<lparr>Namespace := clNamespace (lcClient l), Nonce := nonce, CreatedAt := now\<rparr>"

definition dispatchCallOf :: "'w env \<Rightarrow> lifecycle \<Rightarrow> string \<Rightarrow> string \<Rightarrow> string \<Rightarrow> gotime \<Rightarrow> apiCall" where
  "dispatchCallOf ev l n img nonce now =
    DispatchCall (lcParentJobID l) (dispatchMeta (envFmtTime ev) n nonce now img)
      (clNamespace (lcClient l)) (dispatchIdempotencyToken n nonce)"

text \<open>Kinds of calls that hold every dispatch request and nothing else that a dispatch does.\<close>

definition dispatchKind :: "(apiCall \<Rightarrow> bool) \<Rightarrow> bool" where
  "dispatchKind K \<longleftrightarrow> readQuiet K \<and> (\<forall>rq. rqMethod rq = ''POST'' \<longrightarrow> \<not> K (Http rq)) \<and> (\<forall>p m n t. K (DispatchCall p m n t))"

lemma dispatchKind_isDispatch: "dispatchKind isDispatch"
  by (simp add: dispatchKind_def)

lemma dispatchKindD:
  "dispatchKind K \<Longrightarrow> readQuiet K" "dispatchKind K \<Longrightarrow> K (DispatchCall p m n t)"
  "dispatchKind K \<Longrightarrow> rqMethod rq = ''GET'' \<or> rqMethod rq = ''POST'' \<Longrightarrow> \<not> K (Http rq)"
  "dispatchKind K \<Longrightarrow> rqMethod rq = ''GET'' \<Longrightarrow> \<not> K (Http rq)"
  by (auto simp: dispatchKind_def readQuiet_def)

text \<open>The outcomes of a fresh dispatch: nothing happened, or exactly one call was made and
  the store holds the intent with the nonce of that call, completed with the child
  on success.\<close>

definition freshOutcome ::
  "(apiCall \<Rightarrow> bool) \<Rightarrow> 'w env \<Rightarrow> lifecycle \<Rightarrow> string \<Rightarrow> string \<Rightarrow> (string \<Rightarrow> binding option) \<Rightarrow> apiCall list
    \<Rightarrow> unit result \<Rightarrow> ('w \<times> apiCall list) lstate \<Rightarrow> bool" where
  "freshOutcome K ev l n img V ks r s \<longleftrightarrow>
    r \<noteq> Ok () \<and> at V K ks s \<or>
    (\<exists>nonce now.
      (\<exists>c. c \<noteq> [] \<and> r = Ok () \<and> at (V(n \<mapsto> (intentOf l n nonce now)\<lparr>ChildJobID := c\<rparr>)) K
              (ks @ [dispatchCallOf ev l n img nonce now]) s) \<or>
      r \<noteq> Ok () \<and> at (V(n \<mapsto> intentOf l n nonce now)) K (ks @ [dispatchCallOf ev l n img nonce now]) s)"

lemma wp_dispatchChildAt:
  assumes kind: "dispatchKind K" and "at V K ks s"
    and "\<And>r s'. at V K (ks @ [dispatchCallOf ev l n img nonce now]) s' \<Longrightarrow> (\<forall>c. r = Ok c \<longrightarrow> c \<noteq> []) \<Longrightarrow> Q r s'"
  shows "wp (world (dispatchChildAt (envNomad (traced ev)) (envFmtTime (traced ev)) (lcClient l) (lcParentJobID l)
           n nonce now img)) Q s"
proof -
  let ?p = "dispatchChildAt (envNomad (traced ev)) (envFmtTime (traced ev)) (lcClient l) (lcParentJobID l) n nonce now img"
  obtain r w where sd: "sdkDispatch (envNomad ev) (lcParentJobID l) (dispatchMeta (envFmtTime ev) n nonce now img)
      (clNamespace (lcClient l)) (dispatchIdempotencyToken n nonce) (fst (lsWorld s)) = (r, w)"
    by fastforce
  have "snd (?p (lsWorld s)) = (w, calls s @ [dispatchCallOf ev l n img nonce now])"
    and ne: "\<forall>c. fst (?p (lsWorld s)) = Ok c \<longrightarrow> c \<noteq> []"
    using sd by (cases r; auto simp: dispatchChildAt_def bindS_def tracedCall_def dispatchCallOf_def failS_def
        returnS_def split: option.split)+
  then have "at V K (ks @ [dispatchCallOf ev l n img nonce now]) (snd (world ?p s))"
    using assms(2) dispatchKindD(2) [OF kind] by (auto simp: at_def world_def callsAre_def dispatchCallOf_def split: prod.split)
  then show ?thesis
    using assms(3) ne by (auto simp: wp_iff world_def split: prod.split)
qed

text \<open>Errors that arise before anything was written.\<close>

lemma freshOutcome_early: "at V K ks s \<Longrightarrow> r \<noteq> Ok () \<Longrightarrow> freshOutcome K ev l n img V ks r s"
  by (simp add: freshOutcome_def)

lemma wp_commit:
  assumes kind: "dispatchKind K" and "at (V(n \<mapsto> intentOf l n nonce now)) K ks s"
    and "\<And>r s'. freshOutcome K ev l n img V ks r s' \<Longrightarrow> Q r s'"
  shows "wp (bindS (world (dispatchChildAt (envNomad (traced ev)) (envFmtTime (traced ev)) (lcClient l)
      (lcParentJobID l) n nonce now img)) (\<lambda>c. sidecar_save ((intentOf l n nonce now)\<lparr>ChildJobID := c\<rparr>))) Q s"
  unfolding wp_bind
proof (rule wp_dispatchChildAt [OF kind assms(2)], goal_cases)
  case (1 r s')
  have fail: "Q r s''" if "r \<noteq> Ok ()" "at (V(n \<mapsto> intentOf l n nonce now)) K
      (ks @ [dispatchCallOf ev l n img nonce now]) s''" for r s''
    by (rule assms(3)) (use that in \<open>auto simp: freshOutcome_def\<close>)
  show ?case
  proof (cases r)
    case (Ok c)
    have "wp (sidecar_save ((intentOf l n nonce now)\<lparr>ChildJobID := c\<rparr>)) Q s'"
    proof (rule wp_save [OF 1(1)], goal_cases)
      case (1 r s'')
      then show ?case by (rule fail)
    next
      case (2 s'')
      then show ?case
        by (intro assms(3)) (use Ok 1(2) in \<open>auto simp: freshOutcome_def intentOf_def\<close>)
    qed
    with Ok show ?thesis by simp
  qed (use 1 fail in auto)
qed

lemma wp_dispatchFresh:
  assumes kind: "dispatchKind K" and "at V K ks s" and "\<And>r s'. freshOutcome K ev l n img V ks r s' \<Longrightarrow> Q r s'"
  shows "wp (dispatchFresh (traced ev) l n img) Q s"
proof -
  have early: "Q r s'" if "at V K ks s'" "r \<noteq> Ok ()" for r s'
    by (rule assms(3) [OF freshOutcome_early [OF that]])
  have save: "wp (bindS (sidecar_save (intentOf l n nonce now)) (\<lambda>_.
      bindS (world (dispatchChildAt (envNomad (traced ev)) (envFmtTime (traced ev)) (lcClient l)
        (lcParentJobID l) n nonce now img)) (\<lambda>c. sidecar_save ((intentOf l n nonce now)\<lparr>ChildJobID := c\<rparr>)))) Q s'"
    if "at V K ks s'" for s' nonce now
    unfolding wp_bind [of "sidecar_save _"]
  proof (rule wp_save [OF that], goal_cases)
    case (1 r s'')
    then show ?case using early by (cases r) auto
  next
    case (2 s'')
    then show ?case using wp_commit [OF kind _ assms(3)] by (simp add: intentOf_def)
  qed
  have time: "wp (bindS (timeNow (traced ev)) (\<lambda>now. let intent = intentOf l n nonce now in
      bindS (sidecar_save intent) (\<lambda>_.
      bindS (world (dispatchChildAt (envNomad (traced ev)) (envFmtTime (traced ev)) (lcClient l)
        (lcParentJobID l) n nonce (CreatedAt intent) img)) (\<lambda>c. sidecar_save (intent\<lparr>ChildJobID := c\<rparr>))))) Q s'"
    if "at V K ks s'" for s' nonce
    unfolding wp_bind [of "timeNow _"]
    by (rule wp_quiet [OF that keeps_store(2) quiet_calls(1)])
      (use save early in \<open>auto simp: Let_def intentOf_def split: result.split\<close>)
  show ?thesis
    unfolding dispatchFresh_def wp_bind [of "readRandom _"] intentOf_def [symmetric]
    by (rule wp_quiet [OF assms(2) keeps_store(4) quiet_calls(3)])
      (use time early in \<open>auto simp: wp_bind [of "liftR _"] wp_lift newNonce_def split: result.split sum.split\<close>)
qed

text \<open>The store after a dispatch that made no call: a record is only completed with the
  orphan it was waiting for, or recovered.\<close>

definition dispatchOutcome ::
  "(apiCall \<Rightarrow> bool) \<Rightarrow> 'w env \<Rightarrow> lifecycle \<Rightarrow> string \<Rightarrow> string \<Rightarrow> (string \<Rightarrow> binding option) \<Rightarrow> apiCall list
    \<Rightarrow> unit result \<Rightarrow> ('w \<times> apiCall list) lstate \<Rightarrow> bool" where
  "dispatchOutcome K ev l n img V ks r s \<longleftrightarrow>
    (\<exists>V'. (V' = V \<or> (\<exists>b. SessionName b = n \<and> V' = V(n \<mapsto> b))) \<and>
      (freshOutcome K ev l n img V' ks r s \<or>
       r \<noteq> Ok () \<and> at V' K ks s \<or>
       r = Ok () \<and> (\<exists>b c. V n = Some b \<and> Nonce b \<noteq> [] \<and> ChildJobID b = [] \<and>
          at (V'(n \<mapsto> b\<lparr>ChildJobID := c\<rparr>)) K ks s)))"

lemma dispatchOutcome_early:
  assumes "liveOutcome V n V' lr" and "at V' K ks s" and "r \<noteq> Ok ()"
  shows "dispatchOutcome K ev l n img V ks r s"
proof -
  have "V' = V \<or> (\<exists>b. SessionName b = n \<and> V' = V(n \<mapsto> b))"
    using assms(1) unfolding liveOutcome_def by (rule conjunct1)
  then show ?thesis using assms(2,3) unfolding dispatchOutcome_def by blast
qed

lemma dispatchOutcome_fresh:
  assumes "liveOutcome V n V' lr" and "freshOutcome K ev l n img V' ks r s"
  shows "dispatchOutcome K ev l n img V ks r s"
proof -
  have "V' = V \<or> (\<exists>b. SessionName b = n \<and> V' = V(n \<mapsto> b))"
    using assms(1) unfolding liveOutcome_def by (rule conjunct1)
  then show ?thesis using assms(2) unfolding dispatchOutcome_def by blast
qed

lemma dispatchOutcome_adopt:
  assumes "liveOutcome V n V' lr" and "V n = Some b" "Nonce b \<noteq> []" "ChildJobID b = []"
    and "at (V'(n \<mapsto> b\<lparr>ChildJobID := c\<rparr>)) K ks s"
  shows "dispatchOutcome K ev l n img V ks (Ok ()) s"
proof -
  have "V' = V \<or> (\<exists>b. SessionName b = n \<and> V' = V(n \<mapsto> b))"
    using assms(1) unfolding liveOutcome_def by (rule conjunct1)
  then show ?thesis using assms(2-5) unfolding dispatchOutcome_def by blast
qed

text \<open>The choice between the orphan and a fresh child.\<close>

definition adoptOrDispatch :: "'w env \<Rightarrow> lifecycle \<Rightarrow> string \<Rightarrow> string \<Rightarrow> binding option \<Rightarrow> ('w lstate, unit) prog" where
  "adoptOrDispatch ev l n img existing =
    (case existing of
      Some b \<Rightarrow>
        if Nonce b \<noteq> [] \<and> ChildJobID b = []
        then bindS (attempt (findOrphanByNonce ev l n (Nonce b))) (\<lambda>r.
          case r of
            Inr (Some adopted) \<Rightarrow> sidecar_save (b\<lparr>ChildJobID := adopted\<rparr>)
          | _ \<Rightarrow> dispatchFresh ev l n img)
        else dispatchFresh ev l n img
    | None \<Rightarrow> dispatchFresh ev l n img)"

lemma wp_adoptOrDispatch:
  assumes kind: "dispatchKind K" and "at V' K ks s" and "liveOutcome V n V' lr" and "\<And>b. V n = Some b \<Longrightarrow> SessionName b = n"
    and "\<And>r s'. dispatchOutcome K ev l n img V ks r s' \<Longrightarrow> Q r s'"
  shows "wp (adoptOrDispatch (traced ev) l n img (V n)) Q s"
proof -
  have fresh: "wp (dispatchFresh (traced ev) l n img) Q s'" if "at V' K ks s'" for s'
    by (rule wp_dispatchFresh [OF kind that]) (rule assms(5) [OF dispatchOutcome_fresh [OF assms(3)]])
  have early: "Q r s'" if "at V' K ks s'" "r \<noteq> Ok ()" for r s'
    by (rule assms(5) [OF dispatchOutcome_early [OF assms(3) that]])
  have adopt: "wp (sidecar_save (b\<lparr>ChildJobID := c\<rparr>)) Q s'"
    if "at V' K ks s'" "V n = Some b" "Nonce b \<noteq> []" "ChildJobID b = []" for b c s'
  proof (rule wp_save [OF that(1)], goal_cases)
    case (1 r s'')
    then show ?case by (intro early)
  next
    case (2 s'')
    then show ?case
      using assms(4) [OF that(2)] by (intro assms(5) dispatchOutcome_adopt [OF assms(3) that(2-4)]) simp
  qed
  have q: "keeps (callsAre K ks) (findOrphanByNonce (traced ev) l n nonce)" for nonce
    by (intro quiet dispatchKindD(4) [OF kind])
  have "wp (bindS (attempt (findOrphanByNonce (traced ev) l n (Nonce b))) (\<lambda>r.
          case r of Inr (Some adopted) \<Rightarrow> sidecar_save (b\<lparr>ChildJobID := adopted\<rparr>)
          | _ \<Rightarrow> dispatchFresh (traced ev) l n img)) Q s" if "V n = Some b" "Nonce b \<noteq> []" "ChildJobID b = []" for b
    unfolding wp_bind wp_attempt
    by (rule wp_quiet [OF assms(2) keeps_recover_reads(1) q])
      (use fresh early adopt that in \<open>auto split: result.split option.split\<close>)
  then show ?thesis
    using fresh [OF assms(2)] by (auto simp: adoptOrDispatch_def split: option.split)
qed

lemma wp_dispatch:
  assumes kind: "dispatchKind K" and "at V K ks s" and "\<And>b. V n = Some b \<Longrightarrow> SessionName b = n"
    and "\<And>r s'. dispatchOutcome K ev l n img V ks r s' \<Longrightarrow> Q r s'"
  shows "wp (dispatch (traced ev) l n img) Q s"
proof -
  have early: "Q r s'" if "at V' K ks s'" "liveOutcome V n V' lr" "r \<noteq> Ok ()" for r s' V' lr
    by (rule assms(4) [OF dispatchOutcome_early [OF that(2,1,3)]])
  have q: "keeps (callsAre K ks) (ensureParentRegistered (traced ev) l)"
    by (intro quiet dispatchKindD(3) [OF kind])
  have ens: "wp (bindS (ensureParentRegistered (traced ev) l) (\<lambda>_. adoptOrDispatch (traced ev) l n img (V n))) Q s'"
    if "at V' K ks s'" "liveOutcome V n V' lr" for s' V' lr
    unfolding wp_bind
  proof (rule wp_quiet [OF that(1) keeps_recover_reads(3) q], goal_cases)
    case (1 r s'')
    then show ?case
      using wp_adoptOrDispatch [OF kind 1 that(2) assms(3,4)] early [OF 1 that(2)] by (cases r) auto
  qed
  have live: "wp (bindS (liveChild (traced ev) l n) (\<lambda>live. if live \<noteq> None then failS (alreadyExists n)
      else bindS (ensureParentRegistered (traced ev) l) (\<lambda>_. adoptOrDispatch (traced ev) l n img (V n)))) Q s'"
    if "at V K ks s'" for s'
    unfolding wp_bind [of "liveChild _ _ _"]
  proof (rule wp_liveChild [OF that dispatchKindD(1) [OF kind]], goal_cases)
    case (1 r s'' V')
    then show ?case
      using ens [OF 1] early [OF 1] by (cases r) (auto simp: wp_fail)
  qed
  show ?thesis
    unfolding dispatch_def adoptOrDispatch_def [symmetric] wp_bind [of "sidecar_load _"]
    by (rule wp_load [OF assms(2)]) (use live early [where V' = V and lr = "Ok None"] in auto)
qed

lemma dispatch_result:
  assumes "sidecar_wf s" and "dispatch (traced ev) l n img s = (r, s')"
  shows "dispatchOutcome isDispatch ev l n img (sidecar_view s) (filter isDispatch (calls s)) r s'"
proof -
  have "at (sidecar_view s) isDispatch (filter isDispatch (calls s)) s"
    using assms(1) by (simp add: at_def storeIs_def callsAre_def)
  then have "wp (dispatch (traced ev) l n img)
      (dispatchOutcome isDispatch ev l n img (sidecar_view s) (filter isDispatch (calls s))) s"
    by (rule wp_dispatch [OF dispatchKind_isDispatch]) (rule sc.view_name [OF assms(1)])
  then show ?thesis using assms(2) by (simp add: wp_def)
qed

text \<open>C2. At most one child is ever asked for, and never without a durable record of it:
  whenever a dispatch call was made, on every outcome, the store holds the
  session's binding with the nonce and the creation time that the call carried, and
  the binding names a child exactly when the operation reports success. Without a
  call, success means that the record of an earlier attempt was completed. Other
  sessions' bindings never change.\<close>

theorem dispatch_intent_durable:
  assumes "sidecar_wf s" and "dispatch (traced ev) l n img s = (r, s')"
  shows "sidecar_wf s' \<and> (\<forall>m. m \<noteq> n \<longrightarrow> sidecar_view s' m = sidecar_view s m) \<and>
    (filter isDispatch (calls s') = filter isDispatch (calls s) \<and>
       (r = Ok () \<longrightarrow> (\<exists>b c. sidecar_view s n = Some b \<and> Nonce b \<noteq> [] \<and> ChildJobID b = [] \<and>
          sidecar_view s' n = Some (b\<lparr>ChildJobID := c\<rparr>)))
     \<or> (\<exists>nonce now b. filter isDispatch (calls s') = filter isDispatch (calls s) @
            [DispatchCall (lcParentJobID l) (dispatchMeta (envFmtTime ev) n nonce now img)
               (clNamespace (lcClient l)) (dispatchIdempotencyToken n nonce)] \<and>
          sidecar_view s' n = Some b \<and> Nonce b = nonce \<and> CreatedAt b = now \<and> (r = Ok () \<longleftrightarrow> ChildJobID b \<noteq> [])))"
proof -
  have intent: "Nonce (intentOf l n k t) = k" "CreatedAt (intentOf l n k t) = t" "ChildJobID (intentOf l n k t) = []" for k t
    by (simp_all add: intentOf_def newBinding_def)
  obtain V' where V': "V' = sidecar_view s \<or> (\<exists>b. SessionName b = n \<and> V' = (sidecar_view s)(n \<mapsto> b))"
    and out: "freshOutcome isDispatch ev l n img V' (filter isDispatch (calls s)) r s' \<or>
       r \<noteq> Ok () \<and> at V' isDispatch (filter isDispatch (calls s)) s' \<or>
       r = Ok () \<and> (\<exists>b c. sidecar_view s n = Some b \<and> Nonce b \<noteq> [] \<and> ChildJobID b = [] \<and>
          at (V'(n \<mapsto> b\<lparr>ChildJobID := c\<rparr>)) isDispatch (filter isDispatch (calls s)) s')"
    using dispatch_result [OF assms] unfolding dispatchOutcome_def by blast
  have "\<forall>m. m \<noteq> n \<longrightarrow> V' m = sidecar_view s m" using V' by auto
  then show ?thesis
    using out unfolding freshOutcome_def at_def storeIs_def callsAre_def dispatchCallOf_def
    by (elim disjE exE conjE) (auto simp: intent)
qed

theorem dispatch_intent_durable_witness:
  "let s' = snd (dispatch (traced stubEnv) stubLife ''a'' [] (stubState [])) in
   \<exists>nonce now b. filter isDispatch (calls s') = [DispatchCall ''p'' (dispatchMeta (envFmtTime stubEnv) ''a'' nonce now [])
       ''default'' (dispatchIdempotencyToken ''a'' nonce)] \<and>
     sidecar_view s' ''a'' = Some b \<and> Nonce b = nonce \<and> ChildJobID b \<noteq> []"
proof -
  have ok: "fst (dispatch (traced stubEnv) stubLife ''a'' [] (stubState [])) = Ok ()"
    by (simp add: dispatch_def liveChild_def recoverBinding_def useRecovered_def ensureParentRegistered_def registerParent_def
        dispatchFresh_def stub_runs sidecar_load_plain sidecar_save_plain stubState_def logDecision_def whenS_def
        prog_defs newNonce_def parentPoolMoveRefusal_def parentPoolMoveWarning_def notExist_def Let_def)
  have st: "sidecar_wf (stubState [])" "sidecar_view (stubState []) ''a'' = None" "calls (stubState []) = []"
    by (simp_all add: stubState_def sidecar_wf_def sidecar_view_def)
  show ?thesis
    using dispatch_intent_durable [OF st(1), of stubEnv stubLife "''a''" "[]" "Ok ()"
        "snd (dispatch (traced stubEnv) stubLife ''a'' [] (stubState []))"] ok st(2,3)
    by (auto simp: Let_def stubLife_def prod_eq_iff)
qed

subsection \<open>Recovery is unambiguous\<close>

text \<open>C9. From the children Nomad lists, recovery succeeds only when exactly one child of the
  session in this namespace is not terminal, and then stores a binding to that
  child with its nonce. No such child gives the terminal error exactly when a
  terminal one matched and the no-match error otherwise, several give the ambiguity
  error, and a failed recovery leaves the store as it was.\<close>

theorem recoverBinding_unique:
  assumes "sidecar_wf s" and "fst (listChildJobs (envNomad ev) (lcClient l) (lcParentJobID l) (lsWorld s)) = Ok cs"
    and "recoverBinding ev l n prior s = (r, s')"
  shows "let live = filter (\<lambda>c. ownedBy l n c \<and> \<not> cjTerminal c) cs in
    (\<forall>b. r = Ok b \<longrightarrow> (\<exists>c. live = [c] \<and> ChildJobID b = cjID c \<and> Nonce b = trimSpace (mapGet (cjMeta c) ''gc_nonce'')
            \<and> Nonce b \<noteq> [] \<and> sidecar_view s' = (sidecar_view s)(n \<mapsto> b))) \<and>
    (live = [] \<longrightarrow> (\<exists>e. r = Err e \<and> (errIs e ErrBindingTerminal \<longleftrightarrow> (\<exists>c \<in> set cs. ownedBy l n c))
            \<and> (errIs e ErrBindingNoMatch \<longleftrightarrow> \<not> (\<exists>c \<in> set cs. ownedBy l n c)))) \<and>
    (1 < length live \<longrightarrow> (\<exists>e. r = Err e \<and> errIs e ErrBindingAmbiguous)) \<and>
    ((\<forall>b. r \<noteq> Ok b) \<longrightarrow> sidecar_view s' = sidecar_view s)"
proof -
  define live where "live = filter (\<lambda>c. ownedBy l n c \<and> \<not> cjTerminal c) cs"
  define dead where "dead = filter (\<lambda>c. ownedBy l n c \<and> cjTerminal c) cs"
  obtain w where w: "world (listChildJobs (envNomad ev) (lcClient l) (lcParentJobID l)) s = (Ok cs, s\<lparr>lsWorld := w\<rparr>)"
    using world_run [of "listChildJobs (envNomad ev) (lcClient l) (lcParentJobID l)" s, OF assms(2)] by blast
  have view: "sidecar_view (s\<lparr>lsWorld := w\<rparr>) = sidecar_view s" "sidecar_wf (s\<lparr>lsWorld := w\<rparr>)"
    using assms(1) by (simp_all add: sidecar_view_def fun_eq_iff sidecar_wf_def)
  consider (none) "live = []" | (one) c where "live = [c]" | (many) c d cs' where "live = c # d # cs'"
    by (metis list.exhaust)
  then show ?thesis
  proof cases
    case none
    then have "dead = filter (ownedBy l n) cs"
      by (auto simp: live_def dead_def filter_empty_conv intro!: filter_cong)
    then have "dead = [] \<longleftrightarrow> \<not> (\<exists>c \<in> set cs. ownedBy l n c)" by (auto simp: filter_empty_conv)
    then show ?thesis
      using assms(3) w none view unfolding live_def [symmetric]
      by (auto simp: recoverBinding_def prog_defs Let_def live_def [symmetric] dead_def [symmetric]
          split: list.splits)
  next
    case one
    let ?k = "trimSpace (mapGet (cjMeta c) ''gc_nonce'')" and ?t = "s\<lparr>lsWorld := w\<rparr>"
    let ?b = "rebuilt ev n c ?k prior"
    show ?thesis
    proof (cases "?k = []")
      case True
      then show ?thesis
        using assms(3) w one view unfolding live_def [symmetric]
        by (auto simp: recoverBinding_def prog_defs Let_def live_def [symmetric])
    next
      case False
      then have run: "(r, s') = bindS (wrapS (''repairing sidecar binding for session '' @ goQuote n @ '': '') []
          (sidecar_save ?b)) (\<lambda>_. returnS ?b) ?t"
        using assms(3) w one
        by (simp add: recoverBinding_def bindS_def wrapS_def Let_def live_def [symmetric])
      show ?thesis
      proof (cases "fst (sidecar_save ?b ?t) = Ok ()")
        case True
        then have "r = Ok ?b" "sidecar_view s' = (sidecar_view s)(n \<mapsto> ?b)"
          using run sc.save_ok [OF view(2) True] view(1)
          by (auto simp: bindS_def wrapS_def returnS_def split: prod.splits)
        then show ?thesis using one False unfolding live_def [symmetric] by simp
      next
        case False
        then have "(\<forall>b. r \<noteq> Ok b)" "sidecar_view s' = sidecar_view s"
          using run sc.save_err [OF view(2) False] view(1)
          by (auto simp: bindS_def wrapS_def returnS_def split: prod.splits result.splits)
        then show ?thesis using one unfolding live_def [symmetric] by simp
      qed
    qed
  next
    case many
    then show ?thesis
      using assms(3) w view unfolding live_def [symmetric]
      by (auto simp: recoverBinding_def prog_defs Let_def live_def [symmetric])
  qed
qed

theorem recoverBinding_unique_witness:
  "\<exists>e. fst (recoverBinding (traced stubEnv) stubLife ''a'' None (stubState [])) = Err e \<and> errIs e ErrBindingNoMatch"
  using recoverBinding_unique [of "stubState []" "traced stubEnv" stubLife "[]" "''a''" None
      "fst (recoverBinding (traced stubEnv) stubLife ''a'' None (stubState []))"
      "snd (recoverBinding (traced stubEnv) stubLife ''a'' None (stubState []))"]
  by (auto simp: stub_listChildJobs stubState_def sidecar_wf_def Let_def)

subsection \<open>The orphan of a crashed attempt\<close>

lemma at_world: "at V K ks s \<Longrightarrow> keeps (callsAre K ks) (world p) \<Longrightarrow> at V K ks (snd (world p s))"
  by (simp add: at_def keepsD [OF keeps_store(1)] keepsD)

text \<open>C10. A dispatch that finds the intent of an attempt that crashed (a record with a nonce and no
  child), on a sidecar directory without faults and with the parent registered as configured, reads
  the children once. Let the orphans be the children it read that are not terminal and whose metadata
  carry the session and the recorded nonce. If there is one, the first is bound: the record is completed with
  its ID, nothing else in the store changes, and nothing is written to the cluster, so no second child is asked for.
  If there is none, say because the only match has died, the dispatch goes on as a fresh one, from the same store and with nothing
  written before it.\<close>

theorem dispatch_adopts_orphan:
  assumes "sidecar_wf s" and "fs_faults s = []"
    and "sidecar_view s n = Some b" and "Nonce b \<noteq> []" and "ChildJobID b = []"
    and "getJob (envNomad (traced ev)) (lcClient l) (lcParentJobID l) (lsWorld s) = (Ok (Some (lcNodePool l, meta)), w1)"
    and "mapGet meta jobspecHashMetaKey = lcSpecHash l"
    and "listChildJobs (envNomad (traced ev)) (lcClient l) (lcParentJobID l) w1 = (Ok cs, w2)"
  shows "let orphans = filter (\<lambda>c. \<not> cjTerminal c \<and> mapGet (cjMeta c) ''gc_session'' = n
                                  \<and> mapGet (cjMeta c) ''gc_nonce'' = Nonce b) cs;
             (r, s') = dispatch (traced ev) l n img s
    in if orphans \<noteq> []
       then r = Ok () \<and> sidecar_view s' = (sidecar_view s)(n \<mapsto> b\<lparr>ChildJobID := cjID (hd orphans)\<rparr>)
         \<and> filter isWrite (calls s') = filter isWrite (calls s)
       else filter isWrite (snd w2) = filter isWrite (calls s) \<and> (r, s') = dispatchFresh (traced ev) l n img (s\<lparr>lsWorld := w2\<rparr>)"
proof -
  let ?get = "getJob (envNomad (traced ev)) (lcClient l) (lcParentJobID l)"
    and ?list = "listChildJobs (envNomad (traced ev)) (lcClient l) (lcParentJobID l)"
  let ?orphans = "filter (\<lambda>c. \<not> cjTerminal c \<and> mapGet (cjMeta c) ''gc_session'' = n \<and> mapGet (cjMeta c) ''gc_nonce'' = Nonce b) cs"
  let ?s2 = "s\<lparr>lsWorld := w2\<rparr>"
  have find: "find (isOrphan n (Nonce b)) cs = (if ?orphans = [] then None else Some (hd ?orphans))"
    by (induction cs) (auto simp: isOrphan_def)
  have doc: "map_of (fs_files s) (sidecar_path n) = Some (CBinding b)"
    using assms(3) by (simp add: sidecar_view_Some)
  have live: "liveChild (traced ev) l n s = (Ok None, s)"
    using assms(2,4,5) doc by (simp add: liveChild_def bindS_def sidecar_load_plain returnS_def)
  have get: "world ?get s = (Ok (Some (lcNodePool l, meta)), s\<lparr>lsWorld := w1\<rparr>)" using assms(6) by (simp add: world_def)
  have lst: "world ?list (s\<lparr>lsWorld := w1\<rparr>) = (Ok cs, ?s2)" using assms(8) by (simp add: world_def)
  have run: "dispatch (traced ev) l n img s =
      (if ?orphans \<noteq> [] then sidecar_save (b\<lparr>ChildJobID := cjID (hd ?orphans)\<rparr>) ?s2 else dispatchFresh (traced ev) l n img ?s2)"
    using assms(2,4,5,7) doc live get lst find
    by (simp add: dispatch_def sidecar_load_plain ensureParentRegistered_def registerParent_def findOrphanByNonce_def prog_defs Let_def)
  have "at (sidecar_view s) isWrite (filter isWrite (calls s)) s"
    using assms(1) by (simp add: at_def storeIs_def callsAre_def)
  then have "at (sidecar_view s) isWrite (filter isWrite (calls s)) (snd (world ?get s))"
    by (rule at_world) (intro quiet; simp)
  then have "at (sidecar_view s) isWrite (filter isWrite (calls s)) (snd (world ?list (snd (world ?get s))))"
    by (rule at_world) (intro quiet; simp)
  then have s2: "at (sidecar_view s) isWrite (filter isWrite (calls s)) ?s2" by (simp add: get lst)
  have save: "wp (sidecar_save (b\<lparr>ChildJobID := c\<rparr>)) (\<lambda>r s'. r = Ok () \<and>
      at ((sidecar_view s)(n \<mapsto> b\<lparr>ChildJobID := c\<rparr>)) isWrite (filter isWrite (calls s)) s') ?s2" for c
    using sc.view_name [OF assms(1,3)] wp_save [OF s2, of "\<lambda>r s'. r = Ok () \<longrightarrow>
      at ((sidecar_view s)(n \<mapsto> b\<lparr>ChildJobID := c\<rparr>)) isWrite (filter isWrite (calls s)) s'" "b\<lparr>ChildJobID := c\<rparr>"]
      assms(2) by (simp add: wp_iff sidecar_save_plain)
  show ?thesis
  proof (cases "?orphans = []")
    case True
    then show ?thesis using s2 unfolding run by (simp add: Let_def at_def callsAre_def)
  next
    case False
    then show ?thesis
      using save [of "cjID (hd ?orphans)"] unfolding run
      by (simp add: Let_def wp_iff at_def storeIs_def callsAre_def case_prod_beta)
  qed
qed

text \<open>A cluster with two children of the session that carry the nonce; the first one has died.\<close>

definition orphanEnv :: "unit env" where
  "orphanEnv = stubEnv\<lparr>envNomad := (envNomad stubEnv)\<lparr>httpDo := (\<lambda>rq w. (Ok (stubResponse 200
     (if rqPath rq = ''/v1/jobs''
      then JArr [JObj [(''ID'', JStr ''p/dispatch-8''), (''ParentID'', JStr ''p''), (''Namespace'', JStr ''default''),
             (''Status'', JStr ''dead''), (''Meta'', JObj [(''gc_session'', JStr ''a''), (''gc_nonce'', JStr ''k'')])],
           JObj [(''ID'', JStr ''p/dispatch-9''), (''ParentID'', JStr ''p''), (''Namespace'', JStr ''default''),
             (''Status'', JStr ''running''), (''Meta'', JObj [(''gc_session'', JStr ''a''), (''gc_nonce'', JStr ''k'')])]]
      else JObj [(''NodePool'', JStr []), (''Meta'', JObj [(''gc_jobspec_hash'', JStr ''h'')])])), w))\<rparr>\<rparr>"

definition orphanChild :: "string \<Rightarrow> bool \<Rightarrow> childJob" where
  "orphanChild i dead = \<lparr>cjID = i, cjNamespace = ''default'',
     cjMeta = [(''gc_nonce'', ''k''), (''gc_session'', ''a'')], cjTerminal = dead\<rparr>"

lemma orphan_client:
  "fst (listChildJobs (envNomad (traced orphanEnv)) (lcClient stubLife) (lcParentJobID stubLife) w)
    = Ok [orphanChild ''p/dispatch-8'' True, orphanChild ''p/dispatch-9'' False]"
  "fst (getJob (envNomad (traced orphanEnv)) (lcClient stubLife) (lcParentJobID stubLife) w)
    = Ok (Some (lcNodePool stubLife, [(jobspecHashMetaKey, ''h'')]))"
  by (simp_all add: listChildJobs_def getJob_def doIndexed_def readBody_def limitBody_def maxResponseByte_def orphanEnv_def
      stubResponse_def stub_raw urlPath_def tracedCall_def decList_def decObj_def decJobRow_def decJob_def strField_def
      mapField_def jfield_def decStrMap_def childrenOf_def orphanChild_def stubLife_def jobspecHashMetaKey_def prog_defs Let_def
      split: option.split)

theorem dispatch_adopts_orphan_witness:
  "let s = stubState [(sidecar_path ''a'', CBinding ((newBinding ''a'')\<lparr>Nonce := ''k''\<rparr>))] in
   fst (dispatch (traced orphanEnv) stubLife ''a'' [] s) = Ok ()
   \<and> sidecar_view (snd (dispatch (traced orphanEnv) stubLife ''a'' [] s)) ''a''
       = Some ((newBinding ''a'')\<lparr>Nonce := ''k'', ChildJobID := ''p/dispatch-9''\<rparr>)
   \<and> filter isWrite (calls (snd (dispatch (traced orphanEnv) stubLife ''a'' [] s))) = []"
proof -
  let ?b = "(newBinding ''a'')\<lparr>Nonce := ''k''\<rparr>"
  let ?s = "stubState [(sidecar_path ''a'', CBinding ?b)]"
  have wf: "sidecar_wf ?s"
    using entryOK_intros(2) [of ?b] by (simp add: stubState_def sidecar_wf_def)
  have st: "fs_faults ?s = []" "sidecar_view ?s ''a'' = Some ?b" "calls ?s = []"
    by (simp_all add: stubState_def sidecar_view_def)
  have b: "Nonce ?b \<noteq> []" "ChildJobID ?b = []" by (simp_all add: newBinding_def)
  have h: "mapGet [(jobspecHashMetaKey, ''h'')] jobspecHashMetaKey = lcSpecHash stubLife"
    by (simp add: mapGet_def stubLife_def)
  let ?get = "getJob (envNomad (traced orphanEnv)) (lcClient stubLife) (lcParentJobID stubLife)"
    and ?list = "listChildJobs (envNomad (traced orphanEnv)) (lcClient stubLife) (lcParentJobID stubLife)"
  have get: "?get (lsWorld ?s) = (Ok (Some (lcNodePool stubLife, [(jobspecHashMetaKey, ''h'')])), snd (?get (lsWorld ?s)))"
    and lst: "?list (snd (?get (lsWorld ?s)))
      = (Ok [orphanChild ''p/dispatch-8'' True, orphanChild ''p/dispatch-9'' False], snd (?list (snd (?get (lsWorld ?s)))))"
    by (simp_all add: prod_eq_iff orphan_client)
  show ?thesis
    using dispatch_adopts_orphan [OF wf st(1,2) b get h lst, of "[]"] st(3)
    by (auto simp: Let_def orphanChild_def mapGet_def split: prod.splits)
qed

subsection \<open>Registration of the parent\<close>

definition registerRequest :: "lifecycle \<Rightarrow> http_request" where
  "registerRequest l = \<lparr>rqMethod = ''POST'', rqPath = ''/v1/jobs'', rqQuery = [],
     rqBody = Some (JObj [(''Job'', lcSpec l)]), rqToken = clToken (lcClient l)\<rparr>"

lemma registerJob_calls:
  "snd (snd (registerJob (envNomad (traced ev)) (lcClient l) (lcSpec l) w)) = snd w @ [Http (registerRequest l)]"
  unfolding registerJob_def by (simp add: doNoOut_calls registerRequest_def urlPath_def)

text \<open>C11. The parent job is re-registered only when it has to be and may be: never when it
  already matches, never when the registered parent names a node pool and this
  process computed none, never when registration is forbidden (the last two are
  errors); otherwise with exactly one request, which carries this build's job.\<close>

theorem ensureParent_guarded:
  assumes "fst (getJob (envNomad (traced ev)) (lcClient l) (lcParentJobID l) (lsWorld s)) = Ok job"
    and "ensureParentRegistered (traced ev) l s = (r, s')"
  shows "let matches = (\<exists>m. job = Some (lcNodePool l, m) \<and> mapGet m jobspecHashMetaKey = lcSpecHash l);
             poolLost = (\<exists>p m. job = Some (p, m) \<and> p \<noteq> [] \<and> lcNodePool l = [])
    in filter isWrite (calls s') = filter isWrite (calls s)
         @ (if matches \<or> poolLost \<or> lcForbidRegistration l then [] else [Http (registerRequest l)])
       \<and> (matches \<longrightarrow> r = Ok ()) \<and> (\<not> matches \<and> (poolLost \<or> lcForbidRegistration l) \<longrightarrow> (\<exists>e. r = Err e))"
proof -
  let ?get = "getJob (envNomad (traced ev)) (lcClient l) (lcParentJobID l)"
  define s1 where "s1 = snd (world ?get s)"
  have get: "world ?get s = (Ok job, s1)"
    using world_run [of ?get s, OF assms(1)] by (simp add: s1_def)
  have "keeps (callsAre isWrite (filter isWrite (calls s))) (world ?get)" by (intro quiet; simp)
  from keepsD [OF this, of s] have c1: "filter isWrite (calls s1) = filter isWrite (calls s)"
    by (simp add: s1_def callsAre_def)
  have reg: "calls (snd (world (registerJob (envNomad (traced ev)) (lcClient l) (lcSpec l)) t)) = calls t @ [Http (registerRequest l)]" for t
    using registerJob_calls [of ev l "lsWorld t"] by (simp add: world_def case_prod_beta)
  have post: "rqMethod (registerRequest l) = ''POST''" by (simp add: registerRequest_def)
  have attempt: "calls (snd (registerParent (traced ev) l k t)) = calls t @ [Http (registerRequest l)]" for t k
    using reg [of t] unfolding registerParent_def
    by (cases "world (registerJob (envNomad (traced ev)) (lcClient l) (lcSpec l)) t";
        cases "fst (world (registerJob (envNomad (traced ev)) (lcClient l) (lcSpec l)) t)")
      (simp_all add: bindS_def attempt_def returnS_def failS_def)
  have fin: "registerParent (traced ev) l k t = (x, t') \<Longrightarrow>
      filter isWrite (calls t') = filter isWrite (calls t) @ [Http (registerRequest l)]" for k t x t'
    using attempt [of k t] post by simp
  have log: "logDecision l m t = (Ok (), if lcLogf l then t\<lparr>lsLog := lsLog t @ [m]\<rparr> else t)"
    for m and t :: "('a \<times> apiCall list) lstate"
    by (simp add: logDecision_def whenS_def modifyS_def returnS_def)
  show ?thesis
  proof (cases job)
    case None
    then show ?thesis
      using assms(2) get c1 unfolding ensureParentRegistered_def
      by (auto simp: bindS_def [of "wrapS _ _ _"] wrapS_def parentPoolMoveRefusal_def parentPoolMoveWarning_def whenS_def
          failS_def Let_def dest!: fin split: if_splits)
  next
    case (Some pm)
    obtain p m where pm: "pm = (p, m)" by fastforce
    show ?thesis
      using assms(2) get c1 Some pm log unfolding ensureParentRegistered_def
      by (auto simp: bindS_def [of "wrapS _ _ _"] bindS_def [of "logDecision _ _"] wrapS_def parentPoolMoveRefusal_def
          parentPoolMoveWarning_def whenS_def returnS_def failS_def Let_def dest!: fin split: if_splits)
  qed
qed

theorem ensureParent_guarded_witness:
  "filter isWrite (calls (snd (ensureParentRegistered (traced stubEnv) stubLife (stubState [])))) = [Http (registerRequest stubLife)]"
  using ensureParent_guarded [of stubEnv stubLife "stubState []", OF stub_getJob prod.collapse [symmetric]]
  by (simp add: stubState_def Let_def)

end
