(* ===== verification/Box.thy ===== *)
theory Box
  imports Dispatch Shell_Words
begin

text \<open>
  Reaching into a session's box (\<^verbatim>\<open>ops.go\<close>): the allocation that backs the session,
  the wait until its task takes an exec, the bounded retry of a torn exec stream,
  the driving verbs, and the probes of what runs inside.
\<close>

subsection \<open>The current allocation\<close>

definition sessionMissing :: "string \<Rightarrow> goerr" where
  "sessionMissing sessionName =
    EWrap (''session '' @ goQuote sessionName @ '' has no provisioned box: '') (ESent ErrSessionNotFound) []"

definition pickAlloc :: "'w env \<Rightarrow> lifecycle \<Rightarrow> string \<Rightarrow> binding \<Rightarrow> ('w lstate, allocRecord) prog" where
  "pickAlloc ev l sessionName b =
    bindS (wrapS (''resolving alloc for session '' @ goQuote sessionName @ '': '') []
             (listAllocs ev l (ChildJobID b))) (\<lambda>allocs.
    if allocs = []
    then failS (EWrap2 (''session '' @ goQuote sessionName @ '' has no allocation yet: '') (ESent ErrSessionNotFound)
                  ''; '' (ESent ErrAllocNotReady) [])
    else case find (\<lambda>a. \<not> isTerminalStatus (arClientStatus a)) allocs of
           Some a \<Rightarrow> returnS a
         | None \<Rightarrow> failS (EWrap (''session '' @ goQuote sessionName @ '' has no non-terminal alloc: '')
                            (ESent ErrSessionNotFound) []))"

text \<open>A missing or unbound record is repaired under the session lock, which is held until
  the function returns.\<close>

definition currentAllocRecord :: "'w env \<Rightarrow> lifecycle \<Rightarrow> string \<Rightarrow> ('w lstate, allocRecord) prog" where
  "currentAllocRecord ev l sessionName =
    bindS (sidecar_load sessionName) (\<lambda>found.
    if found \<noteq> None \<and> ChildJobID (the found) \<noteq> [] then pickAlloc ev l sessionName (the found)
    else withLock sessionName
      (bindS (sidecar_load sessionName) (\<lambda>again.
       if again \<noteq> None \<and> ChildJobID (the again) \<noteq> [] then pickAlloc ev l sessionName (the again)
       else bindS (attempt (recoverBinding ev l sessionName again)) (\<lambda>r.
         case r of
           Inr b \<Rightarrow> pickAlloc ev l sessionName b
         | Inl e \<Rightarrow>
             if errIs e ErrBindingNoMatch \<or> errIs e ErrBindingTerminal then failS (sessionMissing sessionName)
             else failS e))))"

definition currentAlloc :: "'w env \<Rightarrow> lifecycle \<Rightarrow> string \<Rightarrow> ('w lstate, string) prog" where
  "currentAlloc ev l sessionName = bindS (currentAllocRecord ev l sessionName) (\<lambda>rec. returnS (arID rec))"

definition taskStateOf :: "lifecycle \<Rightarrow> allocRecord \<Rightarrow> allocTaskState option" where
  "taskStateOf l rec = (case arTaskStates rec of None \<Rightarrow> None | Some m \<Rightarrow> map_of m (lcExecTask l))"

definition allocExecReady :: "lifecycle \<Rightarrow> allocRecord \<Rightarrow> bool" where
  "allocExecReady l rec =
    (case taskStateOf l rec of
       Some st \<Rightarrow> atsState st = ''running''
     | None \<Rightarrow> arClientStatus rec = ''running'')"

definition describeTaskState :: "string \<Rightarrow> allocTaskState \<Rightarrow> string" where
  "describeTaskState allocID st =
    ''alloc '' @ allocID @ '' task state '' @ goQuote (atsState st)
    @ (if atsLastEvent st \<noteq> [] then '', last event '' @ atsLastEvent st else [])"

subsection \<open>Waiting for the task\<close>

text \<open>One observation of the allocation: ready, something to wait for, or an error.\<close>

definition observeAlloc :: "'w env \<Rightarrow> lifecycle \<Rightarrow> string \<Rightarrow> ('w lstate, string + string) prog" where
  "observeAlloc ev l sessionName =
    bindS (attempt (currentAllocRecord ev l sessionName)) (\<lambda>r.
    case r of
      Inr rec \<Rightarrow>
        if allocExecReady l rec then returnS (Inr (arID rec))
        else returnS (Inl (case taskStateOf l rec of
            Some st \<Rightarrow> describeTaskState (arID rec) st
          | None \<Rightarrow> ''alloc '' @ arID rec @ '' client status '' @ goQuote (arClientStatus rec) @ '' with no task states yet''))
    | Inl e \<Rightarrow> if errIs e ErrAllocNotReady then returnS (Inl (errText e)) else failS e)"

text \<open>The loop of \<^verbatim>\<open>awaitExecAllocReadyWithin\<close>; the first argument bounds the rounds, and
  running out of them stands for a wait that does not end.\<close>

fun awaitLoop ::
  "nat \<Rightarrow> 'w env \<Rightarrow> lifecycle \<Rightarrow> string \<Rightarrow> duration \<Rightarrow> duration \<Rightarrow> gotime \<Rightarrow> ('w lstate, string) prog" where
  "awaitLoop 0 ev l sessionName timeout interval deadline = hangS"
| "awaitLoop (Suc k) ev l sessionName timeout interval deadline =
    bindS (observeAlloc ev l sessionName) (\<lambda>seen.
    case seen of
      Inr allocID \<Rightarrow> returnS allocID
    | Inl observed \<Rightarrow>
        bindS (timeNow ev) (\<lambda>now.
        if \<not> now < deadline
        then failS (ENew (''session '' @ goQuote sessionName @ '': task '' @ goQuote (lcExecTask l)
               @ '' was not running within '' @ durationText timeout @ '' (last seen: '' @ observed @ '')''))
        else bindS (sleepFor ev interval) (\<lambda>_. awaitLoop k ev l sessionName timeout interval deadline)))"

definition awaitExecAllocReadyWithin ::
  "'w env \<Rightarrow> lifecycle \<Rightarrow> string \<Rightarrow> duration \<Rightarrow> duration \<Rightarrow> ('w lstate, string) prog" where
  "awaitExecAllocReadyWithin ev l sessionName timeout interval =
    bindS (timeNow ev) (\<lambda>start.
    awaitLoop (nat (timeout div interval) + 2) ev l sessionName timeout interval (start + timeout))"

definition allocTaskRunningTimeout :: duration where
  "allocTaskRunningTimeout = 180 * second"

definition allocTaskRunningPoll :: duration where
  "allocTaskRunningPoll = 500000000"

definition awaitExecAllocReady :: "'w env \<Rightarrow> lifecycle \<Rightarrow> string \<Rightarrow> ('w lstate, string) prog" where
  "awaitExecAllocReady ev l sessionName =
    awaitExecAllocReadyWithin ev l sessionName allocTaskRunningTimeout allocTaskRunningPoll"

subsection \<open>Retrying a torn stream\<close>

definition allocExecReadyAttempts :: nat where
  "allocExecReadyAttempts = 20"

definition allocExecReadyDelay :: duration where
  "allocExecReadyDelay = 250000000"

definition allocReadyRetryable :: "goerr \<Rightarrow> bool" where
  "allocReadyRetryable e \<longleftrightarrow>
    errIs e ErrAllocNotReady \<or> errIs e IoEOF \<or> errIs e IoUnexpectedEOF \<or> errIs e ECONNRESET \<or> errIs e EPIPE
    \<or> containsS (errText e) ''connection reset by peer'' \<or> containsS (errText e) ''broken pipe''"

text \<open>\<open>left\<close> attempts remain after this one.\<close>

fun retryFrom :: "nat \<Rightarrow> 'w env \<Rightarrow> ('w lstate, 'a) prog \<Rightarrow> ('w lstate, 'a) prog" where
  "retryFrom left ev operation =
    bindS (attempt operation) (\<lambda>r.
    case r of
      Inr x \<Rightarrow> returnS x
    | Inl e \<Rightarrow>
        (case left of
           0 \<Rightarrow> failS e
         | Suc k \<Rightarrow>
            if \<not> allocReadyRetryable e then failS e
            else bindS (sleepFor ev allocExecReadyDelay) (\<lambda>_. retryFrom k ev operation)))"

definition retryAllocExecReady :: "'w env \<Rightarrow> ('w lstate, 'a) prog \<Rightarrow> ('w lstate, 'a) prog" where
  "retryAllocExecReady ev operation = retryFrom (allocExecReadyAttempts - 1) ev operation"

declare retryFrom.simps [simp del]

definition execStage :: "'w env \<Rightarrow> lifecycle \<Rightarrow> string \<Rightarrow> string list \<Rightarrow> string \<Rightarrow> ('w lstate, unit) prog" where
  "execStage ev l sessionName command stdin =
    bindS (awaitExecAllocReady ev l sessionName) (\<lambda>allocID.
    retryAllocExecReady ev
      (bindS (execAllocStdin ev allocID (lcExecTask l) command stdin) (\<lambda>(code, out).
       if code \<noteq> 0 then failS (ENew (''tar exited '' @ intText code @ '': '' @ out)) else returnS ())))"

definition execExcerpt :: "string \<Rightarrow> string" where
  "execExcerpt b = (let s = trimSpace b in goQuote (if 512 < length s then take 512 s @ ''...'' else s))"

definition validatedSecretsDir :: "string \<Rightarrow> string \<Rightarrow> string result" where
  "validatedSecretsDir sessionName reported0 =
    (let reported = trimSpace reported0 in
     if reported = [] \<or> CHR 0x0A \<in> set reported \<or> CHR 0x0D \<in> set reported
     then Err (ENew (''session '' @ goQuote sessionName @ '' reports no usable Nomad secrets mount (NOMAD_SECRETS_DIR=''
            @ goQuote reported @ ''): refusing to stage runtime secrets to a path the box cannot see''))
     else Ok reported)"

definition boxSecretsDir :: "'w env \<Rightarrow> lifecycle \<Rightarrow> string \<Rightarrow> ('w lstate, string) prog" where
  "boxSecretsDir ev l sessionName =
    bindS (awaitExecAllocReady ev l sessionName) (\<lambda>allocID.
    bindS (retryAllocExecReady ev
      (bindS (execAlloc ev allocID (lcExecTask l)
         [''/bin/sh'', ''-c'', ''printf %s '' @ goQuote ''$NOMAD_SECRETS_DIR'', ''gc-runtime-nomad-secrets-dir'']) (\<lambda>(code, out).
       if code \<noteq> 0 then failS (ENew (''secrets-dir probe exited '' @ intText code @ '': '' @ execExcerpt out))
       else returnS (trimSpace out)))) (\<lambda>resolved.
    liftR (validatedSecretsDir sessionName resolved)))"

subsection \<open>Driving verbs\<close>

definition runDrivingVerb ::
  "'w env \<Rightarrow> lifecycle \<Rightarrow> string \<Rightarrow> string \<Rightarrow> string list \<Rightarrow> ('w lstate, unit) prog" where
  "runDrivingVerb ev l sessionName verb command =
    (let ctx = verb @ '' session '' @ goQuote sessionName @ '': '' in
     bindS (wrapS ctx [] (currentAlloc ev l sessionName)) (\<lambda>allocID.
     bindS (wrapS ctx [] (execAlloc ev allocID (lcExecTask l) command)) (\<lambda>(code, out).
     if code \<noteq> 0 then failS (ENew (ctx @ ''tmux command exited '' @ intText code @ '': '' @ out)) else returnS ())))"

definition bestEffort :: "('w lstate, unit) prog \<Rightarrow> ('w lstate, unit) prog" where
  "bestEffort p = bindS (attempt p) (\<lambda>r.
    case r of Inr _ \<Rightarrow> returnS () | Inl e \<Rightarrow> if errIs e ErrSessionNotFound then returnS () else failS e)"

definition opNudge :: "'w env \<Rightarrow> lifecycle \<Rightarrow> string \<Rightarrow> string \<Rightarrow> ('w lstate, unit) prog" where
  "opNudge ev l sessionName text =
    bestEffort (runDrivingVerb ev l sessionName ''nudge''
      [''/bin/sh'', ''-c'',
       ''tmux send-keys -t '' @ goQuote ''$1'' @ '' -l -- '' @ goQuote ''$2'' @ '' && tmux send-keys -t '' @ goQuote ''$1'' @ '' Enter'',
       ''nudge'', tmuxSessionName, text])"

definition opPeek :: "'w env \<Rightarrow> lifecycle \<Rightarrow> string \<Rightarrow> int \<Rightarrow> ('w lstate, string) prog" where
  "opPeek ev l sessionName lines =
    (let ctx = ''peeking session '' @ goQuote sessionName @ '': '';
         command = [''tmux'', ''capture-pane'', ''-t'', tmuxSessionName, ''-p'']
           @ (if 0 < lines then [''-S'', ''-'' @ intText lines] else []) in
     bindS (wrapS ctx [] (currentAlloc ev l sessionName)) (\<lambda>allocID.
     bindS (wrapS ctx [] (execAlloc ev allocID (lcExecTask l) command)) (\<lambda>(code, out).
     if code \<noteq> 0 then failS (ENew (ctx @ ''tmux capture-pane exited '' @ intText code @ '': '' @ out)) else returnS out)))"

definition opInterrupt :: "'w env \<Rightarrow> lifecycle \<Rightarrow> string \<Rightarrow> ('w lstate, unit) prog" where
  "opInterrupt ev l sessionName =
    bestEffort (runDrivingVerb ev l sessionName ''interrupt'' [''tmux'', ''send-keys'', ''-t'', tmuxSessionName, ''C-c''])"

definition opSendKeys :: "'w env \<Rightarrow> lifecycle \<Rightarrow> string \<Rightarrow> string list \<Rightarrow> ('w lstate, unit) prog" where
  "opSendKeys ev l sessionName keys =
    runDrivingVerb ev l sessionName ''send-keys'' ([''tmux'', ''send-keys'', ''-t'', tmuxSessionName] @ keys)"

definition opClearScrollback :: "'w env \<Rightarrow> lifecycle \<Rightarrow> string \<Rightarrow> ('w lstate, unit) prog" where
  "opClearScrollback ev l sessionName =
    runDrivingVerb ev l sessionName ''clear-scrollback'' [''tmux'', ''clear-history'', ''-t'', tmuxSessionName]"

subsection \<open>What runs inside\<close>

definition liveAllocID :: "'w env \<Rightarrow> lifecycle \<Rightarrow> binding \<Rightarrow> ('w lstate, string) prog" where
  "liveAllocID ev l b =
    bindS (attempt (listAllocs ev l (ChildJobID b))) (\<lambda>r.
    returnS (case r of
      Inl e \<Rightarrow> []
    | Inr allocs \<Rightarrow> (case find (\<lambda>a. \<not> isTerminalStatus (arClientStatus a)) allocs of None \<Rightarrow> [] | Some a \<Rightarrow> arID a)))"

definition probeAgentAlive :: "'w env \<Rightarrow> lifecycle \<Rightarrow> string \<Rightarrow> int \<Rightarrow> ('w lstate, bool) prog" where
  "probeAgentAlive ev l allocID pid =
    bindS (execAlloc ev allocID (lcExecTask l)
      [''/bin/sh'', ''-c'', ''tmux has-session -t '' @ tmuxSessionName
         @ (if 0 < pid then '' && kill -0 '' @ intText pid else [])]) (\<lambda>(code, out).
    returnS (code = 0))"

text \<open>\<^const>\<open>None\<close> is \<^verbatim>\<open>known = false\<close>.\<close>

definition bindingAgentStatus :: "'w env \<Rightarrow> lifecycle \<Rightarrow> binding \<Rightarrow> ('w lstate, bool option) prog" where
  "bindingAgentStatus ev l b =
    bindS (liveAllocID ev l b) (\<lambda>allocID.
    if allocID = [] then returnS None
    else bindS (attempt (probeAgentAlive ev l allocID (AgentPID b))) (\<lambda>r.
      returnS (case r of Inl e \<Rightarrow> None | Inr alive \<Rightarrow> Some alive)))"

definition capturePanePID :: "'w env \<Rightarrow> lifecycle \<Rightarrow> string \<Rightarrow> ('w lstate, int) prog" where
  "capturePanePID ev l sessionName =
    bindS (currentAlloc ev l sessionName) (\<lambda>allocID.
    bindS (execAlloc ev allocID (lcExecTask l)
      [''tmux'', ''list-panes'', ''-t'', tmuxSessionName, ''-F'', ''#{pane_pid}'']) (\<lambda>(code, out).
    if code \<noteq> 0 then failS (ENew (''tmux list-panes exited '' @ intText code @ '': '' @ out))
    else case parseInt (trimSpace out) of
        Some pid \<Rightarrow> returnS pid
      | None \<Rightarrow> failS (EWrap (''parsing pane pid '' @ goQuote (trimSpace out) @ '': '') (atoiError (trimSpace out)) [])))"

definition bareShellCommands :: "string list" where
  "bareShellCommands = [''sh'', ''bash'', ''dash'', ''zsh'', ''ash'', ''ksh'']"

definition paneRunsAgent :: "string \<Rightarrow> bool" where
  "paneRunsAgent paneCommand = (let c = trimSpace paneCommand in c \<noteq> [] \<and> c \<notin> set bareShellCommands)"

definition processNames :: "string \<Rightarrow> string list" where
  "processNames out =
    map pathBase (filter (\<lambda>name. name \<noteq> [] \<and> name \<noteq> ''COMMAND'') (map trimSpace (splitChar (CHR 0x0A) out)))"

definition isFurniture :: "string \<Rightarrow> bool" where
  "isFurniture name \<longleftrightarrow>
    name = ''sleep'' \<or> name = ''ps'' \<or> name = ''COMMAND'' \<or> hasPrefix name ''tmux'' \<or> name \<in> set bareShellCommands"

text \<open>The answer as \<^verbatim>\<open>(runs, unmeasurable)\<close>; the argument is the outcome of the exec.\<close>

definition classifyProcessProbe :: "goerr + int \<times> string \<Rightarrow> bool \<times> bool" where
  "classifyProcessProbe r =
    (case r of
       Inl e \<Rightarrow> (True, False)
     | Inr (code, out) \<Rightarrow>
         if code \<noteq> 0 then (True, True)
         else (list_ex (\<lambda>name. \<not> isFurniture name) (processNames out), False))"

definition psCommand :: "string list" where
  "psCommand = [''/bin/sh'', ''-c'', ''ps -eo comm 2>/dev/null || ps -o comm 2>/dev/null'']"

definition boxRunsAnAgent :: "'w env \<Rightarrow> lifecycle \<Rightarrow> string \<Rightarrow> ('w lstate, bool \<times> bool) prog" where
  "boxRunsAnAgent ev l allocID =
    bindS (attempt (execAlloc ev allocID (lcExecTask l) psCommand)) (\<lambda>r. returnS (classifyProcessProbe r))"

definition paneCurrentCommand :: "'w env \<Rightarrow> lifecycle \<Rightarrow> string \<Rightarrow> ('w lstate, string) prog" where
  "paneCurrentCommand ev l allocID =
    bindS (execAlloc ev allocID (lcExecTask l)
      [''tmux'', ''list-panes'', ''-t'', tmuxSessionName, ''-F'', ''#{pane_current_command}'']) (\<lambda>(code, out).
    if code \<noteq> 0 then failS (ENew (''tmux list-panes exited '' @ intText code @ '': '' @ execExcerpt out))
    else returnS (trimSpace (hd (splitChar (CHR 0x0A) (trimSpace out)))))"

definition paneLaunchSettle :: duration where
  "paneLaunchSettle = 3 * second"

definition paneLaunchPoll :: duration where
  "paneLaunchPoll = 500000000"

definition bareShellRefusalHint :: string where
  "bareShellRefusalHint =
    ''the launch command started nothing in this box. A provider shaped for the orchestrator ''
    @ ''(argv flags, hook support, argv priming) does not survive here; the box needs gc's rendered launch ''
    @ ''command. Left unchecked this box reports healthy forever and claims no work''"

definition cannotTell :: "string \<Rightarrow> goerr" where
  "cannotTell sessionName =
    ENew (''launching session '' @ goQuote sessionName @ '': cannot tell whether an agent is running '' @ emDash @ '' ''
      @ ''the process probe exited nonzero inside the box, which means the image has no ''
      @ ''usable `ps`. This runtime requires it (COMPATIBILITY.md, '' @ goQuote ''The agent image'' @ ''): ''
      @ ''without it an empty box is indistinguishable from a working one, for every ''
      @ ''session this deployment ever runs'')"

fun verifyLoop ::
  "nat \<Rightarrow> 'w env \<Rightarrow> lifecycle \<Rightarrow> string \<Rightarrow> string \<Rightarrow> gotime \<Rightarrow> string \<Rightarrow> ('w lstate, unit) prog" where
  "verifyLoop 0 ev l sessionName allocID deadline lst = hangS"
| "verifyLoop (Suc k) ev l sessionName allocID deadline lst =
    bindS (boxRunsAnAgent ev l allocID) (\<lambda>(runs, unmeasurable).
    if unmeasurable then failS (cannotTell sessionName)
    else if runs then returnS ()
    else bindS (attempt (paneCurrentCommand ev l allocID)) (\<lambda>r.
      let seen = (case r of Inl e \<Rightarrow> lst | Inr cmd \<Rightarrow> cmd) in
      if (case r of Inl e \<Rightarrow> False | Inr cmd \<Rightarrow> paneRunsAgent cmd) then returnS ()
      else bindS (timeNow ev) (\<lambda>now.
        if \<not> now < deadline
        then (if seen = [] then returnS ()
              else failS (ENew (''launching session '' @ goQuote sessionName @ '': the pane is running '' @ goQuote seen
                     @ '' and no agent after '' @ durationText paneLaunchSettle @ '' '' @ emDash @ '' ''
                     @ bareShellRefusalHint)))
        else bindS (sleepFor ev paneLaunchPoll) (\<lambda>_. verifyLoop k ev l sessionName allocID deadline seen))))"

definition verifyPaneRunsAgent :: "'w env \<Rightarrow> lifecycle \<Rightarrow> string \<Rightarrow> ('w lstate, unit) prog" where
  "verifyPaneRunsAgent ev l sessionName =
    bindS (attempt (currentAlloc ev l sessionName)) (\<lambda>r.
    case r of
      Inl e \<Rightarrow> returnS ()
    | Inr allocID \<Rightarrow>
        bindS (timeNow ev) (\<lambda>start.
        verifyLoop (nat (paneLaunchSettle div paneLaunchPoll) + 2) ev l sessionName allocID (start + paneLaunchSettle) []))"

definition warnIfPaneRunsNoAgent :: "'w env \<Rightarrow> lifecycle \<Rightarrow> string \<Rightarrow> ('w lstate, unit) prog" where
  "warnIfPaneRunsNoAgent ev l sessionName =
    bindS (attempt (verifyPaneRunsAgent ev l sessionName)) (\<lambda>r.
    case r of Inr _ \<Rightarrow> returnS () | Inl e \<Rightarrow> warnLine (''gc-runtime-nomad: WARNING: '' @ errText e @ [CHR 0x0A]))"

definition processListHasAny :: "string \<Rightarrow> string list \<Rightarrow> bool" where
  "processListHasAny psOut wanted = list_ex (\<lambda>name. name \<in> set wanted) (processNames psOut)"

text \<open>The answer as \<^verbatim>\<open>(alive, observed)\<close> with the error of the lookup.\<close>

definition namedProcessAlive ::
  "'w env \<Rightarrow> lifecycle \<Rightarrow> string \<Rightarrow> string list \<Rightarrow> ('w lstate, bool \<times> bool \<times> goerr option) prog" where
  "namedProcessAlive ev l sessionName names =
    (let wanted = map pathBase (filter (\<lambda>t. t \<noteq> []) (map trimSpace names)) in
     if wanted = [] then returnS (True, False, None)
     else bindS (attempt (currentAlloc ev l sessionName)) (\<lambda>r.
       case r of
         Inl e \<Rightarrow> returnS (True, False, Some e)
       | Inr allocID \<Rightarrow>
           if allocID = [] then returnS (True, False, None)
           else bindS (attempt (execAlloc ev allocID (lcExecTask l) psCommand)) (\<lambda>x.
             returnS (case x of
                 Inl e \<Rightarrow> (True, False, None)
               | Inr (code, out) \<Rightarrow>
                   if code \<noteq> 0 then (True, False, None) else (processListHasAny out wanted, True, None)))))"

subsection \<open>What reaching into the box leaves alone\<close>

definition boxQuiet :: "(apiCall \<Rightarrow> bool) \<Rightarrow> bool" where
  "boxQuiet K \<longleftrightarrow> readQuiet K \<and> (\<forall>a t c. \<not> K (ExecCall a t c))"

lemma boxQuiet_kinds [simp]: "boxQuiet isDispatch" "boxQuiet isWrite" "boxQuiet (isMethod ''DELETE'')" "boxQuiet (isMethod ''POST'')"
  by (auto simp: boxQuiet_def readQuiet_def)

lemma boxQuietD:
  "boxQuiet K \<Longrightarrow> rqMethod rq = ''GET'' \<Longrightarrow> \<not> K (Http rq)" "boxQuiet K \<Longrightarrow> \<not> K (AllocsCall j i d)"
  "boxQuiet K \<Longrightarrow> \<not> K (ExecCall a t c)" "boxQuiet K \<Longrightarrow> readQuiet K"
  by (auto simp: boxQuiet_def readQuiet_def)

lemma keeps_pickAlloc [keeps_intros]: "keeps (storeIs v) (pickAlloc ev l n b)"
  unfolding pickAlloc_def by (intro keeps_intros)

lemma quiet_pickAlloc [quiet]: "boxQuiet K \<Longrightarrow> keeps (callsAre K ks) (pickAlloc (traced ev) l n b)"
  unfolding pickAlloc_def by (intro keeps_intros quiet boxQuietD)

lemma quiet_currentAlloc [quiet]:
  assumes "boxQuiet K"
  shows "keeps (callsAre K ks) (currentAllocRecord (traced ev) l n)" and "keeps (callsAre K ks) (currentAlloc (traced ev) l n)"
proof -
  show 1: "keeps (callsAre K ks) (currentAllocRecord (traced ev) l n)"
    unfolding currentAllocRecord_def by (intro keeps_intros quiet assms boxQuietD(1) [OF assms])
  show "keeps (callsAre K ks) (currentAlloc (traced ev) l n)"
    unfolding currentAlloc_def by (intro keeps_intros 1)
qed

lemma quiet_boxExec [quiet]:
  assumes "boxQuiet K"
  shows "keeps (callsAre K ks) (execAllocObserved (traced ev) a t c x)" "keeps (callsAre K ks) (execAllocStdin (traced ev) a t c x)"
    "keeps (callsAre K ks) (execAlloc (traced ev) a t c)" "keeps (callsAre K ks) (listAllocs (traced ev) l j)"
  by (intro quiet boxQuietD [OF assms])+

lemma quiet_runDrivingVerb [quiet]:
  "boxQuiet K \<Longrightarrow> keeps (callsAre K ks) (runDrivingVerb (traced ev) l n verb command)"
  unfolding runDrivingVerb_def Let_def by (intro keeps_intros quiet)

text \<open>For a session whose binding names a child, finding its allocation repairs nothing.\<close>

definition bound :: "(string \<Rightarrow> binding option) \<Rightarrow> string \<Rightarrow> bool" where
  "bound V n \<longleftrightarrow> (\<exists>b. V n = Some b \<and> ChildJobID b \<noteq> [])"

lemma at_currentAlloc:
  assumes "bound V n" and "boxQuiet K"
  shows "keeps (at V K ks) (currentAllocRecord (traced ev) l n)" and "keeps (at V K ks) (currentAlloc (traced ev) l n)"
proof -
  obtain b where b: "V n = Some b" "ChildJobID b \<noteq> []" using assms(1) by (auto simp: bound_def)
  have p: "keeps (at V K ks) (pickAlloc (traced ev) l n b)"
    by (intro keeps_at keeps_intros quiet assms)
  show 1: "keeps (at V K ks) (currentAllocRecord (traced ev) l n)"
    unfolding currentAllocRecord_def by (rule keeps_at_load) (simp add: b p)
  show "keeps (at V K ks) (currentAlloc (traced ev) l n)"
    unfolding currentAlloc_def by (intro keeps_intros 1)
qed

lemma at_boxExec:
  assumes "boxQuiet K"
  shows "keeps (at V K ks) (execAllocObserved (traced ev) a t c x)" "keeps (at V K ks) (execAllocStdin (traced ev) a t c x)"
    "keeps (at V K ks) (execAlloc (traced ev) a t c)" "keeps (at V K ks) (listAllocs (traced ev) l j)"
    "keeps (at V K ks) (timeNow (traced ev))" "keeps (at V K ks) (sleepFor (traced ev) d)"
  by (intro keeps_at keeps_store quiet assms)+

lemma at_runDrivingVerb:
  assumes "bound V n" and "boxQuiet K"
  shows "keeps (at V K ks) (runDrivingVerb (traced ev) l n verb command)"
  unfolding runDrivingVerb_def Let_def by (intro keeps_intros at_currentAlloc(2) [OF assms] at_boxExec [OF assms(2)])

end
