(* ===== verification/Stop.thy ===== *)
theory Stop
  imports Box
begin

text \<open>
  Stopping a session (\<^verbatim>\<open>ops.go\<close>, \<^verbatim>\<open>opStop\<close>): the egress of its evidence into a local
  sink, the flush of the log shipper, the deregistration, and the order of these
  with the receipts in the sidecar.
\<close>

subsection \<open>The egress sink\<close>

definition sinkFault :: "('w lstate, goerr option) prog" where
  "sinkFault s =
    (case lsSinkFaults s of
       [] \<Rightarrow> (Ok None, s)
     | f # fs \<Rightarrow> (Ok (map_option ENew f), s\<lparr>lsSinkFaults := fs\<rparr>))"

definition sink_MkdirAll :: "string \<Rightarrow> ('w lstate, unit) prog" where
  "sink_MkdirAll name = bindS sinkFault (\<lambda>f. case f of Some e \<Rightarrow> failS e | None \<Rightarrow> returnS ())"

definition sink_WriteFile :: "string \<Rightarrow> string \<Rightarrow> ('w lstate, unit) prog" where
  "sink_WriteFile name bytes =
    bindS sinkFault (\<lambda>f. case f of
      Some e \<Rightarrow> failS e
    | None \<Rightarrow> modifyS (\<lambda>s. s\<lparr>lsSink := mapSet name bytes (lsSink s)\<rparr>))"

definition sink_Rename :: "string \<Rightarrow> string \<Rightarrow> ('w lstate, unit) prog" where
  "sink_Rename old new =
    bindS sinkFault (\<lambda>f. case f of
      Some e \<Rightarrow> failS e
    | None \<Rightarrow> modifyS (\<lambda>s. s\<lparr>lsSink := mapSet new (mapGet (lsSink s) old) (mapDel old (lsSink s))\<rparr>))"

subsection \<open>Egress\<close>

definition egressFiles :: "(string \<times> string) list" where
  "egressFiles =
    [(''alloc/logs/transcript.log'', ''transcript.log''), (''alloc/data/evidence.json'', ''evidence.json''),
     (''alloc/data/agent.exit'', ''agent.exit''), (''alloc/data/agent.stdout'', ''agent.stdout''),
     (''alloc/data/agent.stderr'', ''agent.stderr'')]"

definition egressOne :: "'w env \<Rightarrow> lifecycle \<Rightarrow> string \<Rightarrow> string \<Rightarrow> string \<times> string \<Rightarrow> ('w lstate, unit) prog" where
  "egressOne ev l destDir allocID f =
    bindS (attempt (world (readAllocFile (envNomad ev) (lcClient l) allocID (fst f)))) (\<lambda>r.
    case r of
      Inl e \<Rightarrow>
        if errIs e ErrAllocFileGone then returnS ()
        else failS (EWrap (''egress: reading '' @ fst f @ '' for alloc '' @ goQuote allocID @ '': '') e [])
    | Inr bytes \<Rightarrow>
        (let dest = destDir @ ''/'' @ allocID @ ''-'' @ snd f; tmp = dest @ ''.tmp'' in
         bindS (wrapS (''egress: writing '' @ dest @ '': '') [] (sink_WriteFile tmp bytes)) (\<lambda>_.
         wrapS (''egress: committing '' @ dest @ '': '') [] (sink_Rename tmp dest))))"

fun egressEach :: "'w env \<Rightarrow> lifecycle \<Rightarrow> string \<Rightarrow> (string \<times> string \<times> string) list \<Rightarrow> ('w lstate, unit) prog" where
  "egressEach ev l destDir [] = returnS ()"
| "egressEach ev l destDir ((allocID, f) # rest) =
    bindS (egressOne ev l destDir allocID f) (\<lambda>_. egressEach ev l destDir rest)"

definition egressAllocFiles :: "'w env \<Rightarrow> lifecycle \<Rightarrow> string \<Rightarrow> string \<Rightarrow> ('w lstate, unit) prog" where
  "egressAllocFiles ev l sessionName childJobID =
    (if lcEgressDir l = [] then returnS ()
     else bindS (wrapS (''egress: listing allocations for '' @ goQuote childJobID @ '': '') []
            (listAllocs ev l childJobID)) (\<lambda>allocs.
       let destDir = lcEgressDir l @ ''/'' @ rawURLEncode sessionName in
       bindS (wrapS ''egress: creating sink directory: '' [] (sink_MkdirAll destDir)) (\<lambda>_.
       egressEach ev l destDir (concat (map (\<lambda>a. map (\<lambda>f. (arID a, f)) egressFiles) allocs)))))"

definition egressMaxAttempts :: nat where
  "egressMaxAttempts = 3"

text \<open>The error of the last attempt, when every attempt failed.\<close>

fun egressRetry :: "nat \<Rightarrow> ('w lstate, unit) prog \<Rightarrow> ('w lstate, goerr option) prog" where
  "egressRetry 0 p = returnS None"
| "egressRetry (Suc k) p =
    bindS (attempt p) (\<lambda>r. case r of Inr _ \<Rightarrow> returnS None | Inl e \<Rightarrow> if k = 0 then returnS (Some e) else egressRetry k p)"

subsection \<open>The log shipper\<close>

definition logShipperTaskName :: string where
  "logShipperTaskName = ''log-shipper''"

definition logShipperFlushTimeout :: duration where
  "logShipperFlushTimeout = 15 * second"

definition logShipperPollInterval :: duration where
  "logShipperPollInterval = 25000000"

definition logShipperFlushCommand :: string where
  "logShipperFlushCommand = joinStrings [CHR 0x0A]
    [''set -eu'', ''pid_file='' @ goQuote ''$NOMAD_ALLOC_DIR/.gc-log-shipper.pid'',
     ''flush_request='' @ goQuote ''$NOMAD_ALLOC_DIR/.gc-log-shipper.flush'',
     ''if [ ! -s '' @ goQuote ''$pid_file'' @ '' ]; then'', ''  exit 1'', ''fi'',
     '': >'' @ goQuote ''$flush_request'',
     ''kill -TERM '' @ [CHR 0x22] @ ''$(cat '' @ goQuote ''$pid_file'' @ '')'' @ [CHR 0x22], []]"

definition logShipperFlushProbe :: string where
  "logShipperFlushProbe = ''test -f '' @ goQuote ''$NOMAD_ALLOC_DIR/.gc-log-shipper.flushed''"

text \<open>The wait for the completion marker, inside a context that ends at the deadline.\<close>

fun flushLoop :: "nat \<Rightarrow> 'w env \<Rightarrow> lifecycle \<Rightarrow> string \<Rightarrow> gotime \<Rightarrow> ('w lstate, unit) prog" where
  "flushLoop 0 ev l allocID deadline = hangS"
| "flushLoop (Suc k) ev l allocID deadline =
    bindS (wrapS ''flushing log shipper: waiting for completion: '' []
      (execAlloc ev allocID (lcExecTask l) [''/bin/sh'', ''-c'', logShipperFlushProbe])) (\<lambda>(code, out).
    if code = 0 then returnS ()
    else bindS (timeNow ev) (\<lambda>now.
      if deadline - now \<le> logShipperPollInterval
      then failS (EWrap ''flushing log shipper: completion timeout: '' (ENew ''context deadline exceeded'') [])
      else bindS (sleepFor ev logShipperPollInterval) (\<lambda>_. flushLoop k ev l allocID deadline)))"

definition flushLogShipper :: "'w env \<Rightarrow> lifecycle \<Rightarrow> string \<Rightarrow> ('w lstate, unit) prog" where
  "flushLogShipper ev l allocID =
    (if \<not> lcLogShipper l then returnS ()
     else bindS (wrapS ''flushing log shipper: '' []
            (execAlloc ev allocID logShipperTaskName [''/bin/sh'', ''-c'', logShipperFlushCommand])) (\<lambda>(code, out).
       if code \<noteq> 0 then failS (ENew (''flushing log shipper: request exited '' @ intText code @ '': '' @ out))
       else bindS (timeNow ev) (\<lambda>start.
         flushLoop (nat (logShipperFlushTimeout div logShipperPollInterval) + 2) ev l allocID
           (start + logShipperFlushTimeout))))"

subsection \<open>Stop\<close>

definition blockingWait :: duration where
  "blockingWait = 5 * second"

definition flushStep :: "'w env \<Rightarrow> lifecycle \<Rightarrow> string \<Rightarrow> binding \<Rightarrow> ('w lstate, binding) prog" where
  "flushStep ev l sessionName b =
    (if lcLogShipper l \<and> \<not> EvidenceLost b
     then bindS (attempt (currentAlloc ev l sessionName)) (\<lambda>r.
       case r of
         Inl e \<Rightarrow> returnS (b\<lparr>EvidenceLost := True\<rparr>)
       | Inr allocID \<Rightarrow>
           bindS (attempt (flushLogShipper ev l allocID)) (\<lambda>f.
           case f of Inl e \<Rightarrow> returnS (b\<lparr>EvidenceLost := True\<rparr>) | Inr _ \<Rightarrow> returnS b))
     else returnS b)"

definition egressStep :: "'w env \<Rightarrow> lifecycle \<Rightarrow> string \<Rightarrow> bool \<Rightarrow> binding \<Rightarrow> ('w lstate, binding) prog" where
  "egressStep ev l sessionName needEgress b =
    (if needEgress
     then bindS (egressRetry egressMaxAttempts (egressAllocFiles ev l sessionName (ChildJobID b))) (\<lambda>err.
       returnS (case err of None \<Rightarrow> b\<lparr>EgressComplete := True\<rparr> | Some e \<Rightarrow> b\<lparr>EvidenceLost := True\<rparr>))
     else returnS b)"

definition opStop :: "'w env \<Rightarrow> lifecycle \<Rightarrow> string \<Rightarrow> ('w lstate, unit) prog" where
  "opStop ev l sessionName =
    bindS (sidecar_load sessionName) (\<lambda>found.
    case found of
      None \<Rightarrow> returnS ()
    | Some b \<Rightarrow>
        if ChildJobID b = [] then sidecar_remove sessionName
        else
          bindS (attempt (runDrivingVerb ev l sessionName ''stop-kill-session''
                   [''tmux'', ''kill-session'', ''-t'', tmuxSessionName])) (\<lambda>_.
          bindS (flushStep ev l sessionName b) (\<lambda>b1.
          bindS (egressStep ev l sessionName (\<not> EgressComplete b \<and> \<not> EvidenceLost b) b1) (\<lambda>b2.
          bindS (whenS (EgressComplete b2 \<or> EvidenceLost b2) (sidecar_save b2)) (\<lambda>_.
          bindS (world (deregisterJob (envNomad ev) (lcClient l) (ChildJobID b2) False)) (\<lambda>idx.
          bindS (whenS (0 < idx)
            (bindS (attempt (world (listAllocsForJob (envNomad ev) (lcClient l) (ChildJobID b2) (idx - 1) blockingWait)))
               (\<lambda>_. returnS ()))) (\<lambda>_.
          sidecar_remove sessionName)))))))"

subsection \<open>What each step changes\<close>

lemma at_sink:
  "keeps (at V K ks) (sink_MkdirAll d)" "keeps (at V K ks) (sink_WriteFile p c)" "keeps (at V K ks) (sink_Rename p q)"
proof -
  have f: "keeps (at V K ks) sinkFault"
    by (auto simp: keeps_def sinkFault_def at_def split: list.split)
  show "keeps (at V K ks) (sink_MkdirAll d)" "keeps (at V K ks) (sink_WriteFile p c)" "keeps (at V K ks) (sink_Rename p q)"
    unfolding sink_MkdirAll_def sink_WriteFile_def sink_Rename_def
    by (intro keeps_intros keeps_modify f; simp add: at_def)+
qed

lemma at_egressAllocFiles:
  assumes "boxQuiet K"
  shows "keeps (at V K ks) (egressAllocFiles (traced ev) l n j)"
proof -
  have r: "keeps (at V K ks) (world (readAllocFile (envNomad (traced ev)) c a p))" for c a p
    by (intro keeps_at keeps_store quiet boxQuietD(1) [OF assms])
  have "keeps (at V K ks) (egressOne (traced ev) l d a f)" for d a f
    unfolding egressOne_def Let_def by (intro keeps_intros r at_sink)
  then have "keeps (at V K ks) (egressEach (traced ev) l d xs)" for d xs
    by (induction xs) (auto intro!: keeps_intros)
  then show ?thesis
    unfolding egressAllocFiles_def Let_def by (intro keeps_intros at_sink at_boxExec [OF assms])
qed

lemma keeps_egressRetry: "keeps I p \<Longrightarrow> keeps I (egressRetry k p)"
  by (induction k) (auto intro!: keeps_intros)

lemma at_flush:
  assumes "boxQuiet K"
  shows "keeps (at V K ks) (flushLogShipper (traced ev) l a)"
proof -
  have "keeps (at V K ks) (flushLoop k (traced ev) l a d)" for k d
    by (induction k) (auto intro!: keeps_intros at_boxExec [OF assms])
  then show ?thesis
    unfolding flushLogShipper_def by (intro keeps_intros at_boxExec [OF assms])
qed

text \<open>The two evidence steps only set flags of the record they carry.\<close>

definition evidenceOf :: "binding \<Rightarrow> binding \<Rightarrow> bool" where
  "evidenceOf b b' \<longleftrightarrow>
    b'\<lparr>EgressComplete := False, EvidenceLost := False\<rparr> = b\<lparr>EgressComplete := False, EvidenceLost := False\<rparr>"

lemma evidenceOf_fields:
  assumes "evidenceOf b b'"
  shows "SessionName b' = SessionName b" and "ChildJobID b' = ChildJobID b"
  using arg_cong [OF assms [unfolded evidenceOf_def], of SessionName]
    arg_cong [OF assms [unfolded evidenceOf_def], of ChildJobID] by simp_all

lemma evidenceOf_step [simp]:
  "evidenceOf b b" "evidenceOf b b' \<Longrightarrow> evidenceOf b (b'\<lparr>EgressComplete := x\<rparr>)"
  "evidenceOf b b' \<Longrightarrow> evidenceOf b (b'\<lparr>EvidenceLost := y\<rparr>)"
  by (simp_all add: evidenceOf_def)

lemma evidenceOf_trans: "evidenceOf b c \<Longrightarrow> evidenceOf c d \<Longrightarrow> evidenceOf b d"
  by (simp add: evidenceOf_def)

lemma wp_flushStep:
  assumes "at V K ks s" and "bound V n" and "boxQuiet K"
    and "\<And>r s'. at V K ks s' \<Longrightarrow> (\<forall>b'. r \<noteq> Ok b') \<Longrightarrow> Q r s'"
    and "\<And>b' s'. at V K ks s' \<Longrightarrow> evidenceOf b b' \<Longrightarrow> (EvidenceLost b \<Longrightarrow> EvidenceLost b') \<Longrightarrow>
          (EgressComplete b \<Longrightarrow> EgressComplete b') \<Longrightarrow> Q (Ok b') s'"
  shows "wp (flushStep (traced ev) l n b) Q s"
proof -
  have bad: "Q (Panic m) s'" "Q Hang s'" if "at V K ks s'" for m s'
    by (rule assms(4) [OF that]; simp)+
  have good: "Q (Ok b) s'" "Q (Ok (b\<lparr>EvidenceLost := True\<rparr>)) s'" if "at V K ks s'" for s'
    by (rule assms(5) [OF that]; simp)+
  have fl: "wp (bindS (attempt (flushLogShipper (traced ev) l a)) (\<lambda>f.
      case f of Inl e \<Rightarrow> returnS (b\<lparr>EvidenceLost := True\<rparr>) | Inr _ \<Rightarrow> returnS b)) Q s'" if "at V K ks s'" for a s'
    unfolding wp_bind wp_attempt
    by (rule wp_keeps [OF that at_flush [OF assms(3)]]) (simp add: wp_return bad good split: result.split)
  have "wp (bindS (attempt (currentAlloc (traced ev) l n)) (\<lambda>r.
       case r of
         Inl e \<Rightarrow> returnS (b\<lparr>EvidenceLost := True\<rparr>)
       | Inr allocID \<Rightarrow>
           bindS (attempt (flushLogShipper (traced ev) l allocID)) (\<lambda>f.
           case f of Inl e \<Rightarrow> returnS (b\<lparr>EvidenceLost := True\<rparr>) | Inr _ \<Rightarrow> returnS b))) Q s"
    unfolding wp_bind [of "attempt (currentAlloc _ _ _)"] wp_attempt
    by (rule wp_keeps [OF assms(1) at_currentAlloc(2) [OF assms(2,3)]])
      (simp add: wp_return bad good fl split: result.split)
  then show ?thesis
    using good [OF assms(1)] by (simp add: flushStep_def wp_return)
qed

lemma wp_egressStep:
  assumes "at V K ks s" and "boxQuiet K"
    and "\<And>r s'. at V K ks s' \<Longrightarrow> (\<forall>b'. r \<noteq> Ok b') \<Longrightarrow> Q r s'"
    and "\<And>b' s'. at V K ks s' \<Longrightarrow> evidenceOf b b' \<Longrightarrow> (need \<Longrightarrow> EgressComplete b' \<or> EvidenceLost b') \<Longrightarrow>
          (\<not> need \<Longrightarrow> b' = b) \<Longrightarrow> Q (Ok b') s'"
  shows "wp (egressStep (traced ev) l n need b) Q s"
proof (cases need)
  case True
  have bad: "Q (Panic m) s'" "Q Hang s'" "Q (Err e) s'" if "at V K ks s'" for m e s'
    by (rule assms(3) [OF that]; simp)+
  have good: "Q (Ok (b\<lparr>EgressComplete := True\<rparr>)) s'" "Q (Ok (b\<lparr>EvidenceLost := True\<rparr>)) s'" if "at V K ks s'" for s'
    by (rule assms(4) [OF that]; simp add: True)+
  show ?thesis
    unfolding egressStep_def if_P [OF True] wp_bind
    by (intro wp_keeps [OF assms(1) keeps_egressRetry [OF at_egressAllocFiles [OF assms(2)]]])
      (simp add: wp_return bad good split: result.split option.split)
next
  case False
  then show ?thesis using assms(1,4) by (simp add: egressStep_def wp_return)
qed

definition deregisterRequest :: "lifecycle \<Rightarrow> string \<Rightarrow> http_request" where
  "deregisterRequest l child = \<lparr>rqMethod = ''DELETE'', rqPath = ''/v1/job/'' @ child,
     rqQuery = [(''namespace'', clNamespace (lcClient l))], rqBody = None, rqToken = clToken (lcClient l)\<rparr>"

lemma deregisterJob_calls:
  "snd (snd (deregisterJob (envNomad (traced ev)) (lcClient l) child False w)) = snd w @ [Http (deregisterRequest l child)]"
proof -
  let ?p = "doIndexed (envNomad (traced ev)) (lcClient l) ''DELETE'' [''v1'', ''job'', child] (nsQuery (lcClient l)) None
    (decObj (natField ''JobModifyIndex'')) 0"
  have "snd (snd (?p w)) = snd w @ [Http (deregisterRequest l child)]"
    by (simp add: doIndexed_calls deregisterRequest_def urlPath_def nsQuery_def)
  then show ?thesis
    unfolding deregisterJob_def
    by (cases "?p w"; cases "fst (?p w)") (auto simp: bindS_def attempt_def failS_def returnS_def split: prod.split)
qed

text \<open>Kinds of calls that hold every deregistration and nothing else that a stop does.\<close>

definition stopKind :: "(apiCall \<Rightarrow> bool) \<Rightarrow> bool" where
  "stopKind K \<longleftrightarrow> boxQuiet K \<and> (\<forall>rq. rqMethod rq = ''DELETE'' \<longrightarrow> K (Http rq))"

lemma stopKind_delete: "stopKind (isMethod ''DELETE'')"
  by (simp add: stopKind_def)

lemma stopKindD: "stopKind K \<Longrightarrow> boxQuiet K" "stopKind K \<Longrightarrow> rqMethod rq = ''DELETE'' \<Longrightarrow> K (Http rq)"
  by (simp_all add: stopKind_def)

text \<open>The server accepted a deregistration of the child: the request was answered with success in a world in
  which the calls of kind \<open>K\<close> made before it were \<open>ks\<close>.\<close>

definition accepted :: "(apiCall \<Rightarrow> bool) \<Rightarrow> 'w env \<Rightarrow> lifecycle \<Rightarrow> string \<Rightarrow> apiCall list \<Rightarrow> bool" where
  "accepted K ev l child ks \<longleftrightarrow>
    (\<exists>w idx w'. deregisterJob (envNomad (traced ev)) (lcClient l) child False w = (Ok idx, w') \<and> filter K (snd w) = ks)"

lemma wp_deregister:
  assumes kind: "stopKind K" and "at V K ks s"
    and "\<And>r s'. at V K (ks @ [Http (deregisterRequest l child)]) s' \<Longrightarrow> (\<And>idx. r = Ok idx \<Longrightarrow> accepted K ev l child ks) \<Longrightarrow> Q r s'"
  shows "wp (world (deregisterJob (envNomad (traced ev)) (lcClient l) child False)) Q s"
proof -
  let ?p = "deregisterJob (envNomad (traced ev)) (lcClient l) child False"
  have "calls (snd (world ?p s)) = calls s @ [Http (deregisterRequest l child)]"
    using deregisterJob_calls [of ev l child "lsWorld s"] by (simp add: world_def case_prod_beta)
  then have "at V K (ks @ [Http (deregisterRequest l child)]) (snd (world ?p s))"
    using assms(2) keepsD [OF keeps_store(1), of V s ?p] stopKindD(2) [OF kind] by (simp add: at_def callsAre_def deregisterRequest_def)
  moreover have "accepted K ev l child ks" if "fst (world ?p s) = Ok idx" for idx
    unfolding accepted_def using that assms(2)
    by (intro exI [of _ "lsWorld s"] exI [of _ idx] exI [of _ "snd (?p (lsWorld s))"])
      (simp add: prod_eq_iff world_def at_def callsAre_def case_prod_beta)
  ultimately show ?thesis using assms(3) by (simp add: wp_iff)
qed

text \<open>The outcomes of stopping a bound session.\<close>

definition stopOutcome ::
  "(apiCall \<Rightarrow> bool) \<Rightarrow> 'w env \<Rightarrow> lifecycle \<Rightarrow> string \<Rightarrow> binding \<Rightarrow> (string \<Rightarrow> binding option) \<Rightarrow> apiCall list \<Rightarrow> unit result
    \<Rightarrow> ('w \<times> apiCall list) lstate \<Rightarrow> bool" where
  "stopOutcome K ev l n b V ks r s \<longleftrightarrow>
    (r = Ok () \<and> at (V(n := None)) K (ks @ [Http (deregisterRequest l (ChildJobID b))]) s
      \<and> accepted K ev l (ChildJobID b) ks) \<or>
    (r \<noteq> Ok () \<and> (\<exists>b'. evidenceOf b b' \<and>
       (at (V(n \<mapsto> b')) K ks s \<or>
        (EgressComplete b' \<or> EvidenceLost b') \<and>
          at (V(n \<mapsto> b')) K (ks @ [Http (deregisterRequest l (ChildJobID b))]) s)))"

text \<open>After the receipt: deregister, wait, forget.\<close>

lemma wp_finishStop:
  assumes kind: "stopKind K" and "at (V(n \<mapsto> b')) K ks s" and "evidenceOf b b'" and "EgressComplete b' \<or> EvidenceLost b'"
    and "\<And>r s'. stopOutcome K ev l n b V ks r s' \<Longrightarrow> Q r s'"
  shows "wp (bindS (world (deregisterJob (envNomad (traced ev)) (lcClient l) (ChildJobID b') False)) (\<lambda>idx.
          bindS (whenS (0 < idx)
            (bindS (attempt (world (listAllocsForJob (envNomad (traced ev)) (lcClient l) (ChildJobID b') (idx - 1) blockingWait)))
               (\<lambda>_. returnS ()))) (\<lambda>_.
          sidecar_remove n))) Q s"
proof -
  let ?ks = "ks @ [Http (deregisterRequest l (ChildJobID b))]"
  have id: "ChildJobID b' = ChildJobID b" by (rule evidenceOf_fields(2) [OF assms(3)])
  have fail: "Q r s'" if "r \<noteq> Ok ()" "at (V(n \<mapsto> b')) K ?ks s'" for r s'
    by (rule assms(5)) (use that assms(3,4) in \<open>auto simp: stopOutcome_def\<close>)
  have rem: "wp (sidecar_remove n) Q s'" if "at (V(n \<mapsto> b')) K ?ks s'" "accepted K ev l (ChildJobID b) ks" for s'
    by (rule wp_remove [OF that(1)]) (use that(2) fail in \<open>auto simp: stopOutcome_def intro!: assms(5)\<close>)
  have k: "keeps (at (V(n \<mapsto> b')) K ?ks) (whenS (0 < idx)
      (bindS (attempt (world (listAllocsForJob (envNomad (traced ev)) (lcClient l) (ChildJobID b') (idx - 1) blockingWait)))
         (\<lambda>_. returnS ())))" for idx
    by (intro keeps_intros keeps_at keeps_store quiet boxQuietD [OF stopKindD(1) [OF kind]])
  have wait: "wp (bindS (whenS (0 < idx)
      (bindS (attempt (world (listAllocsForJob (envNomad (traced ev)) (lcClient l) (ChildJobID b') (idx - 1) blockingWait)))
         (\<lambda>_. returnS ()))) (\<lambda>_. sidecar_remove n)) Q s'" if "at (V(n \<mapsto> b')) K ?ks s'" "accepted K ev l (ChildJobID b) ks" for idx s'
    unfolding wp_bind [of "whenS _ _"]
    by (rule wp_keeps [OF that(1) k]) (simp add: rem that(2) fail split: result.split)
  show ?thesis
    unfolding wp_bind [of "world (deregisterJob _ _ _ _)"]
  proof (rule wp_deregister [OF kind assms(2)], goal_cases)
    case (1 r s')
    then have "at (V(n \<mapsto> b')) K ?ks s'" "\<And>idx. r = Ok idx \<Longrightarrow> accepted K ev l (ChildJobID b) ks" by (simp_all add: id)
    then show ?case using wait fail by (cases r) auto
  qed
qed

lemma wp_stop:
  assumes kind: "stopKind K" and "at V K ks s" and "V n = Some b" and "SessionName b = n" and "ChildJobID b \<noteq> []"
    and "\<And>r s'. stopOutcome K ev l n b V ks r s' \<Longrightarrow> Q r s'"
  shows "wp (opStop (traced ev) l n) Q s"
proof -
  have V: "V(n \<mapsto> b) = V" using assms(3) by auto
  have bnd: "bound V n" using assms(3,5) by (auto simp: bound_def)
  have fail: "Q r s'" if "at V K ks s'" "r \<noteq> Ok ()" for r s'
    by (rule assms(6)) (use that V in \<open>auto simp: stopOutcome_def intro!: exI [of _ b]\<close>)
  let ?finish = "\<lambda>b2. bindS (world (deregisterJob (envNomad (traced ev)) (lcClient l) (ChildJobID b2) False)) (\<lambda>idx.
      bindS (whenS (0 < idx)
        (bindS (attempt (world (listAllocsForJob (envNomad (traced ev)) (lcClient l) (ChildJobID b2) (idx - 1) blockingWait)))
           (\<lambda>_. returnS ()))) (\<lambda>_. sidecar_remove n))"
  have receipt: "wp (bindS (whenS (EgressComplete b2 \<or> EvidenceLost b2) (sidecar_save b2)) (\<lambda>_. ?finish b2)) Q s'"
    if "at V K ks s'" "evidenceOf b b2" "EgressComplete b2 \<or> EvidenceLost b2" for b2 s'
    unfolding whenS_def [of "EgressComplete b2 \<or> EvidenceLost b2"] if_P [OF that(3)] wp_bind [of "sidecar_save _"]
  proof (rule wp_save [OF that(1)], goal_cases)
    case (1 r s'')
    then show ?case using fail by (cases r) auto
  next
    case (2 s'')
    then have "at (V(n \<mapsto> b2)) K ks s''" using evidenceOf_fields(1) [OF that(2)] assms(4) by simp
    then show ?case using wp_finishStop [OF kind _ that(2,3) assms(6)] by simp
  qed
  have egress: "wp (bindS (egressStep (traced ev) l n (\<not> EgressComplete b \<and> \<not> EvidenceLost b) b1) (\<lambda>b2.
      bindS (whenS (EgressComplete b2 \<or> EvidenceLost b2) (sidecar_save b2)) (\<lambda>_. ?finish b2))) Q s'"
    if "at V K ks s'" "evidenceOf b b1" "EvidenceLost b \<longrightarrow> EvidenceLost b1" "EgressComplete b \<longrightarrow> EgressComplete b1" for b1 s'
    unfolding wp_bind [of "egressStep _ _ _ _ _"]
  proof (rule wp_egressStep [OF that(1) stopKindD(1) [OF kind]], goal_cases)
    case (1 r s'')
    then show ?case using fail by (cases r) auto
  next
    case (2 b2 s'')
    then have "EgressComplete b2 \<or> EvidenceLost b2" using that by blast
    then show ?case using receipt [OF 2(1) evidenceOf_trans [OF that(2) 2(2)]] by simp
  qed
  have flush: "wp (bindS (flushStep (traced ev) l n b) (\<lambda>b1. bindS (egressStep (traced ev) l n
      (\<not> EgressComplete b \<and> \<not> EvidenceLost b) b1) (\<lambda>b2.
      bindS (whenS (EgressComplete b2 \<or> EvidenceLost b2) (sidecar_save b2)) (\<lambda>_. ?finish b2)))) Q s'"
    if "at V K ks s'" for s'
    unfolding wp_bind [of "flushStep _ _ _ _"]
  proof (rule wp_flushStep [OF that bnd stopKindD(1) [OF kind]], goal_cases)
    case (1 r s'')
    then show ?case using fail by (cases r) auto
  next
    case (2 b1 s'')
    then show ?case using egress by simp
  qed
  have kill: "wp (bindS (attempt (runDrivingVerb (traced ev) l n v c)) (\<lambda>_. p)) Q s'"
    if "at V K ks s'" "\<And>s. at V K ks s \<Longrightarrow> wp p Q s" for v c p s'
    unfolding wp_bind wp_attempt
    by (rule wp_keeps [OF that(1) at_runDrivingVerb [OF bnd stopKindD(1) [OF kind]]])
      (use that(2) fail in \<open>auto split: result.split\<close>)
  show ?thesis
    unfolding opStop_def wp_bind [of "sidecar_load _"]
    by (rule wp_load [OF assms(2)]) (use assms(3,5) fail kill flush in auto)
qed

text \<open>C4. Stopping a session that has a box: success means that exactly one
  deregistration of its child was issued, without purge, that the server accepted it (when every deregistration
  fails, stop never succeeds), and that the binding is gone. On every failure the
  binding stays and still names the child; and when the deregistration had been
  issued, the record already says what became of the evidence. Other sessions'
  bindings never change.\<close>

theorem stop_forgets_only_deregistered:
  assumes "sidecar_wf s" and "sidecar_view s n = Some b" and "ChildJobID b \<noteq> []"
    and "opStop (traced ev) l n s = (r, s')"
  shows "sidecar_wf s' \<and> (\<forall>m. m \<noteq> n \<longrightarrow> sidecar_view s' m = sidecar_view s m) \<and>
    (let before = filter (isMethod ''DELETE'') (calls s); after = filter (isMethod ''DELETE'') (calls s');
         issued = before @ [Http (deregisterRequest l (ChildJobID b))] in
     if r = Ok () then sidecar_view s' n = None \<and> after = issued \<and>
       (\<exists>w idx w'. deregisterJob (envNomad (traced ev)) (lcClient l) (ChildJobID b) False w = (Ok idx, w')
          \<and> filter (isMethod ''DELETE'') (snd w) = before)
     else \<exists>b'. sidecar_view s' n = Some b' \<and> ChildJobID b' = ChildJobID b \<and>
       (after = before \<or> after = issued \<and> (EgressComplete b' \<or> EvidenceLost b')))"
proof -
  let ?ks = "filter (isMethod ''DELETE'') (calls s)"
  have "at (sidecar_view s) (isMethod ''DELETE'') ?ks s"
    using assms(1) by (simp add: at_def storeIs_def callsAre_def)
  then have "wp (opStop (traced ev) l n) (stopOutcome (isMethod ''DELETE'') ev l n b (sidecar_view s) ?ks) s"
    by (rule wp_stop [OF stopKind_delete]) (simp_all add: assms(2,3) sc.view_name [OF assms(1,2)])
  then have out: "stopOutcome (isMethod ''DELETE'') ev l n b (sidecar_view s) ?ks r s'" using assms(4) by (simp add: wp_def)
  show ?thesis
  proof (cases "r = Ok ()")
    case True
    then show ?thesis using out by (simp add: stopOutcome_def accepted_def at_def storeIs_def callsAre_def Let_def)
  next
    case False
    then obtain b' where b': "evidenceOf b b'" "at ((sidecar_view s)(n \<mapsto> b')) (isMethod ''DELETE'') ?ks s' \<or>
        (EgressComplete b' \<or> EvidenceLost b') \<and> at ((sidecar_view s)(n \<mapsto> b')) (isMethod ''DELETE'')
          (?ks @ [Http (deregisterRequest l (ChildJobID b))]) s'"
      using out by (auto simp: stopOutcome_def)
    then show ?thesis
      using False evidenceOf_fields(2) [OF b'(1)] by (auto simp: at_def storeIs_def callsAre_def Let_def)
  qed
qed

text \<open>The tombstone of an absent session: nothing to do.\<close>

lemma opStop_absent:
  "fs_faults s = [] \<Longrightarrow> map_of (fs_files s) (sidecar_path n) = None \<Longrightarrow> opStop ev l n s = (Ok (), s)"
  by (simp add: opStop_def bindS_def sidecar_load_plain returnS_def)

theorem stop_forgets_only_deregistered_witness:
  "let s = stubState [(sidecar_path ''a'', CBinding ((newBinding ''a'')\<lparr>ChildJobID := ''c''\<rparr>))]; s' = snd (opStop (traced stubEnv) stubLife ''a'' s)
   in sidecar_view s' ''a'' = None \<and> filter (isMethod ''DELETE'') (calls s') = [Http (deregisterRequest stubLife ''c'')]"
proof -
  let ?b = "(newBinding ''a'')\<lparr>ChildJobID := ''c''\<rparr>"
  let ?s = "stubState [(sidecar_path ''a'', CBinding ?b)]"
  have st: "sidecar_wf ?s" "sidecar_view ?s ''a'' = Some ?b" "calls ?s = []"
    using entryOK_intros(2) [of ?b] by (simp_all add: stubState_def sidecar_wf_def sidecar_view_def)
  have ok: "fst (opStop (traced stubEnv) stubLife ''a'' ?s) = Ok ()"
    by (simp add: opStop_def stubState_def sidecar_load_plain sidecar_save_plain sidecar_remove_plain runDrivingVerb_def
        currentAlloc_def currentAllocRecord_def pickAlloc_def listAllocs_def flushStep_def egressStep_def egressAllocFiles_def
        egressMaxAttempts_def numeral_3_eq_3 stub_runs isTerminalStatus_def whenS_def prog_defs Let_def newBinding_def)
  show ?thesis
    using stop_forgets_only_deregistered [OF st(1,2), of stubEnv stubLife "Ok ()"
        "snd (opStop (traced stubEnv) stubLife ''a'' ?s)"] ok st(3) by (simp add: prod_eq_iff Let_def)
qed

end
