(* ===== verification/Jobspec.thy ===== *)
theory Jobspec
  imports Gc_Capability Stop
begin

text \<open>
  The job every session is dispatched from (\<^verbatim>\<open>jobspec.go\<close>, \<^verbatim>\<open>image_tar.go\<close>): the wire types as
  records, the parent job with its session group, the optional log shipper with its
  configuration file, the placement settings and their parsers, and the fingerprint that is
  stamped into the job. SHA-256 is a parameter of the fingerprint.
\<close>

subsection \<open>Wire types\<close>

record nomadConstraint =
  ncLTarget :: string
  ncRTarget :: string
  ncOperand :: string

record nomadParameterizedJob =
  npMetaOptional :: "string list"
  npPayload :: string

record nomadRestartPolicy =
  nrAttempts :: int
  nrMode :: string

record nomadReschedulePolicy =
  nsAttempts :: int
  nsUnlimited :: bool

text \<open>\<^verbatim>\<open>Replace\<close> is a pointer: \<^const>\<open>None\<close> leaves the field out.\<close>

record nomadDisconnect =
  ndReplace :: "bool option"
  ndReconcile :: string
  ndLostAfter :: int

record nomadNetwork =
  nnMode :: string
  nnDNS :: "string list option"
  nnDynamicPorts :: "string list"

record nomadTaskLifecycle =
  nlHook :: string
  nlSidecar :: bool

record nomadResources =
  nrCPU :: int
  nrMemoryMB :: int
  nrSecretsMB :: int

record nomadArtifact =
  naGetterSource :: string
  naGetterMode :: string
  naGetterOptions :: gomap
  naRelativeDest :: string

record nomadTemplate =
  ntEmbeddedTmpl :: string
  ntDestPath :: string
  ntChangeMode :: string

record nomadTask =
  tkrName :: string
  tkrDriver :: string
  tkrLeader :: bool
  tkrLifecycle :: "nomadTaskLifecycle option"
  tkrConfig :: "(string \<times> json) list"
  tkrEnv :: gomap
  tkrArtifacts :: "nomadArtifact list"
  tkrTemplates :: "nomadTemplate list"
  tkrResources :: nomadResources
  tkrKillTimeout :: int

record nomadTaskGroup =
  ngName :: string
  ngCount :: int
  ngRestartPolicy :: nomadRestartPolicy
  ngReschedulePolicy :: nomadReschedulePolicy
  ngDisconnect :: "nomadDisconnect option"
  ngNetworks :: "nomadNetwork list"
  ngTasks :: "nomadTask list"

record nomadJob =
  njID :: string
  njNamespace :: string
  njNodePool :: string
  njType :: string
  njPriority :: int
  njConstraints :: "nomadConstraint list"
  njParameterizedJob :: "nomadParameterizedJob option"
  njTaskGroups :: "nomadTaskGroup list"
  njMeta :: gomap

subsection \<open>Encoding\<close>

text \<open>The fields of a struct: a field marked \<^verbatim>\<open>omitempty\<close> is left out when it is the zero value;
  the keys of a map are sorted.\<close>

definition omitStr :: "string \<Rightarrow> string \<Rightarrow> (string \<times> json) list" where
  "omitStr k s = (if s = [] then [] else [(k, JStr s)])"

definition omitInt :: "string \<Rightarrow> int \<Rightarrow> (string \<times> json) list" where
  "omitInt k n = (if n = 0 then [] else [(k, JNum n)])"

definition omitBool :: "string \<Rightarrow> bool \<Rightarrow> (string \<times> json) list" where
  "omitBool k b = (if b then [(k, JBool True)] else [])"

definition omitArr :: "string \<Rightarrow> json list \<Rightarrow> (string \<times> json) list" where
  "omitArr k js = (if js = [] then [] else [(k, JArr js)])"

definition encSortedMap :: "gomap \<Rightarrow> json" where
  "encSortedMap m = JObj (map (\<lambda>k. (k, JStr (mapGet m k))) (sortedKeys m))"

definition omitMap :: "string \<Rightarrow> gomap \<Rightarrow> (string \<times> json) list" where
  "omitMap k m = (if m = [] then [] else [(k, encSortedMap m)])"

definition encConstraint :: "nomadConstraint \<Rightarrow> json" where
  "encConstraint c = JObj [(''LTarget'', JStr (ncLTarget c)), (''RTarget'', JStr (ncRTarget c)), (''Operand'', JStr (ncOperand c))]"

definition encNetwork :: "nomadNetwork \<Rightarrow> json" where
  "encNetwork n = JObj ([(''Mode'', JStr (nnMode n))]
    @ (case nnDNS n of None \<Rightarrow> [] | Some servers \<Rightarrow> [(''DNS'', JObj (omitArr ''Servers'' (map JStr servers)))])
    @ omitArr ''DynamicPorts'' (map (\<lambda>p. JObj [(''Label'', JStr p)]) (nnDynamicPorts n)))"

definition encArtifact :: "nomadArtifact \<Rightarrow> json" where
  "encArtifact a = JObj ([(''GetterSource'', JStr (naGetterSource a))] @ omitStr ''GetterMode'' (naGetterMode a)
    @ omitMap ''GetterOptions'' (naGetterOptions a) @ omitStr ''RelativeDest'' (naRelativeDest a))"

definition encTemplate :: "nomadTemplate \<Rightarrow> json" where
  "encTemplate t = JObj ([(''EmbeddedTmpl'', JStr (ntEmbeddedTmpl t)), (''DestPath'', JStr (ntDestPath t))]
    @ omitStr ''ChangeMode'' (ntChangeMode t))"

definition encTask :: "nomadTask \<Rightarrow> json" where
  "encTask t = JObj ([(''Name'', JStr (tkrName t)), (''Driver'', JStr (tkrDriver t))] @ omitBool ''Leader'' (tkrLeader t)
    @ (case tkrLifecycle t of None \<Rightarrow> []
       | Some c \<Rightarrow> [(''Lifecycle'', JObj (omitStr ''Hook'' (nlHook c) @ omitBool ''Sidecar'' (nlSidecar c)))])
    @ (if tkrConfig t = [] then [] else [(''Config'', JObj (map (\<lambda>k. (k, the (map_of (tkrConfig t) k))) (sortedKeys (tkrConfig t))))])
    @ omitMap ''Env'' (tkrEnv t) @ omitArr ''Artifacts'' (map encArtifact (tkrArtifacts t))
    @ omitArr ''Templates'' (map encTemplate (tkrTemplates t))
    @ [(''Resources'', JObj ([(''CPU'', JNum (nrCPU (tkrResources t))), (''MemoryMB'', JNum (nrMemoryMB (tkrResources t)))]
        @ omitInt ''SecretsMB'' (nrSecretsMB (tkrResources t))))]
    @ omitInt ''KillTimeout'' (tkrKillTimeout t))"

definition encGroup :: "nomadTaskGroup \<Rightarrow> json" where
  "encGroup g = JObj ([(''Name'', JStr (ngName g)), (''Count'', JNum (ngCount g)),
     (''RestartPolicy'', JObj [(''Attempts'', JNum (nrAttempts (ngRestartPolicy g))), (''Mode'', JStr (nrMode (ngRestartPolicy g)))]),
     (''ReschedulePolicy'', JObj [(''Attempts'', JNum (nsAttempts (ngReschedulePolicy g))), (''Unlimited'', JBool (nsUnlimited (ngReschedulePolicy g)))])]
    @ (case ngDisconnect g of None \<Rightarrow> []
       | Some d \<Rightarrow> [(''Disconnect'', JObj ((case ndReplace d of None \<Rightarrow> [] | Some b \<Rightarrow> [(''Replace'', JBool b)])
           @ omitStr ''Reconcile'' (ndReconcile d) @ omitInt ''LostAfter'' (ndLostAfter d)))])
    @ omitArr ''Networks'' (map encNetwork (ngNetworks g)) @ [(''Tasks'', JArr (map encTask (ngTasks g)))])"

definition encJob :: "nomadJob \<Rightarrow> json" where
  "encJob j = JObj ([(''ID'', JStr (njID j)), (''Namespace'', JStr (njNamespace j))] @ omitStr ''NodePool'' (njNodePool j)
    @ [(''Type'', JStr (njType j)), (''Priority'', JNum (njPriority j))]
    @ omitArr ''Constraints'' (map encConstraint (njConstraints j))
    @ (case njParameterizedJob j of None \<Rightarrow> []
       | Some p \<Rightarrow> [(''ParameterizedJob'', JObj (omitArr ''MetaOptional'' (map JStr (npMetaOptional p)) @ omitStr ''Payload'' (npPayload p)))])
    @ [(''TaskGroups'', JArr (map encGroup (njTaskGroups j)))] @ omitMap ''Meta'' (njMeta j))"

text \<open>The text \<^verbatim>\<open>json.Marshal\<close> gives for strings that are valid UTF-8: the characters that matter
  in HTML and the two separators of JavaScript are escaped.\<close>

fun htmlEscape :: "string \<Rightarrow> string" where
  "htmlEscape (a # b # c # s) =
    (if [a, b, c] = [CHR 0xE2, CHR 0x80, CHR 0xA8] then [CHR 0x5C] @ ''u2028'' @ htmlEscape s
     else if [a, b, c] = [CHR 0xE2, CHR 0x80, CHR 0xA9] then [CHR 0x5C] @ ''u2029'' @ htmlEscape s
     else (if a = CHR ''<'' then [CHR 0x5C] @ ''u003c'' else if a = CHR ''>'' then [CHR 0x5C] @ ''u003e''
           else if a = CHR ''&'' then [CHR 0x5C] @ ''u0026'' else [a]) @ htmlEscape (b # c # s))"
| "htmlEscape (a # s) =
    (if a = CHR ''<'' then [CHR 0x5C] @ ''u003c'' else if a = CHR ''>'' then [CHR 0x5C] @ ''u003e''
     else if a = CHR ''&'' then [CHR 0x5C] @ ''u0026'' else [a]) @ htmlEscape s"
| "htmlEscape [] = []"

definition jobspecHash :: "(string \<Rightarrow> bytes) \<Rightarrow> nomadJob \<Rightarrow> string" where
  "jobspecHash sha256 job = take 16 (hexEncode (sha256 (htmlEscape (jsonText (encJob job)))))"

subsection \<open>Constants\<close>

definition killTimeout :: duration where
  "killTimeout = 30 * second"

definition lostAfter :: duration where
  "lostAfter = 300 * second"

definition sessionCPU :: int where
  "sessionCPU = 200"

definition sessionMemoryMB :: int where
  "sessionMemoryMB = 512"

definition sessionSecretsMB :: int where
  "sessionSecretsMB = 512"

definition imageTarMetaKey :: string where
  "imageTarMetaKey = ''gc_image_tar''"

definition imageTarSumMetaKey :: string where
  "imageTarSumMetaKey = ''gc_image_tar_sha''"

definition gcArtifactMetaKey :: string where
  "gcArtifactMetaKey = ''gc_artifact''"

definition gcArtifactSumMetaKey :: string where
  "gcArtifactSumMetaKey = ''gc_artifact_sha''"

definition gcCommitPlaceholder :: string where
  "gcCommitPlaceholder = ''{commit}''"

definition gcArtifactRelativeDest :: string where
  "gcArtifactRelativeDest = ''local/'' @ gcArtifactDest @ ''/'' @ gcBinaryName"

definition imageTarDest :: string where
  "imageTarDest = ''imagetar''"

definition imageTarFileName :: string where
  "imageTarFileName = ''image.tar''"

definition imageTarRelativeDest :: string where
  "imageTarRelativeDest = ''local/'' @ imageTarDest @ ''/'' @ imageTarFileName"

definition imageTarLoadPath :: string where
  "imageTarLoadPath = imageTarDest @ ''/'' @ imageTarFileName"

text \<open>An interpolation of a dispatch metadata key, \<^verbatim>\<open>${NOMAD_META_k}\<close>.\<close>

definition metaRef :: "string \<Rightarrow> string" where
  "metaRef k = ''${NOMAD_META_'' @ k @ ''}''"

subsection \<open>Artifacts and settings\<close>

record gcArtifactConfig =
  gaSource :: string
  gaChecksum :: string

record imageTarConfig =
  itSource :: string
  itChecksum :: string

definition noArtifact :: gcArtifactConfig where
  "noArtifact = \<lparr>gaSource = [], gaChecksum = []\<rparr>"

definition noImageTar :: imageTarConfig where
  "noImageTar = \<lparr>itSource = [], itChecksum = []\<rparr>"

definition artifact_enabled :: "gcArtifactConfig \<Rightarrow> bool" where
  "artifact_enabled a \<longleftrightarrow> trimSpace (gaSource a) \<noteq> [] \<and> trimSpace (gaChecksum a) \<noteq> []"

definition imageTar_enabled :: "imageTarConfig \<Rightarrow> bool" where
  "imageTar_enabled c \<longleftrightarrow> itSource c \<noteq> []"

datatype sessionTaskOpt = ArtifactOpt gcArtifactConfig | ImageTarOpt imageTarConfig

fun splitSessionTaskOpts :: "sessionTaskOpt list \<Rightarrow> gcArtifactConfig \<times> imageTarConfig \<Rightarrow> gcArtifactConfig \<times> imageTarConfig" where
  "splitSessionTaskOpts [] acc = acc"
| "splitSessionTaskOpts (ArtifactOpt a # opts) (art, tar) = splitSessionTaskOpts opts (a, tar)"
| "splitSessionTaskOpts (ImageTarOpt t # opts) (art, tar) = splitSessionTaskOpts opts (art, t)"

definition firstArtifact :: "gcArtifactConfig list \<Rightarrow> gcArtifactConfig" where
  "firstArtifact opt = (case opt of [] \<Rightarrow> noArtifact | a # rest \<Rightarrow> a)"

definition resolveGCArtifact :: "string \<Rightarrow> string \<Rightarrow> gcArtifactConfig" where
  "resolveGCArtifact tmpl commit =
    (let t = trimSpace tmpl; c = trimSpace commit; source = replaceAll gcCommitPlaceholder c t in
     if t = [] \<or> c = [] then noArtifact
     else \<lparr>gaSource = source, gaChecksum = ''file:'' @ source @ ''.sha256''\<rparr>)"

definition imageTar :: "host \<Rightarrow> imageTarConfig" where
  "imageTar h =
    (let src = trimSpace (getenv h ''GC_NOMAD_AGENT_IMAGE_TAR''); sum = trimSpace (getenv h ''GC_NOMAD_AGENT_IMAGE_TAR_SHA256'') in
     if src = [] then noImageTar
     else \<lparr>itSource = src, itChecksum = (if sum = [] then ''file:'' @ src @ ''.sha256'' else sum)\<rparr>)"

definition gcArtifact :: "host \<Rightarrow> gcArtifactConfig" where
  "gcArtifact h =
    (let tmpl = trimSpace (getenv h ''GC_NOMAD_GC_ARTIFACT_URL'') in
     if tmpl = [] then noArtifact else resolveGCArtifact tmpl (hostGCCommit h))"

record logShipperConfig =
  lgSink :: string
  lgTokenFile :: string
  lgLabels :: string
  lgArtifact :: string

definition logShipper_enabled :: "logShipperConfig \<Rightarrow> bool" where
  "logShipper_enabled c \<longleftrightarrow> lgSink c \<noteq> []"

record placementConfig =
  plDnsServers :: "string list"
  plNodeConstraints :: "nomadConstraint list"

subsection \<open>Placement settings\<close>

text \<open>\<^verbatim>\<open>net.ParseIP\<close> answers something: four decimal numbers, or an IPv6 address. The second
  function is its loop over the groups of an IPv6 address; \<open>i\<close> counts the bytes read and
  \<open>ell\<close> says that the abbreviation was seen.\<close>

definition isHexDigit :: "char \<Rightarrow> bool" where
  "isHexDigit c \<longleftrightarrow> isDigit c \<or> c \<in> set ''abcdefABCDEF''"

definition validIPv4 :: "string \<Rightarrow> bool" where
  "validIPv4 s =
    (let parts = splitChar (CHR ''.'') s in
     length parts = 4 \<and> list_all (\<lambda>p. p \<noteq> [] \<and> list_all isDigit p \<and> (length p = 1 \<or> hd p \<noteq> CHR ''0'') \<and> digitsVal p \<le> 255) parts)"

definition ellipsisFits :: "nat \<Rightarrow> bool \<Rightarrow> bool" where
  "ellipsisFits i ell = (if i < 16 then ell else \<not> ell)"

function validIPv6From :: "nat \<Rightarrow> bool \<Rightarrow> string \<Rightarrow> bool" where
  "validIPv6From i ell s =
    (if 16 \<le> i then s = [] \<and> \<not> ell
     else let digits = takeWhile isHexDigit s; rest = drop (length digits) s in
       if digits = [] \<or> 4 < length digits then False
       else if rest \<noteq> [] \<and> hd rest = CHR ''.'' then (ell \<or> i = 12) \<and> i + 4 \<le> 16 \<and> validIPv4 s \<and> ellipsisFits (i + 4) ell
       else if rest = [] then ellipsisFits (i + 2) ell
       else if hd rest \<noteq> CHR '':'' \<or> tl rest = [] then False
       else if hd (tl rest) = CHR '':'' then \<not> ell \<and>
         (if tl (tl rest) = [] then ellipsisFits (i + 2) True else validIPv6From (i + 2) True (tl (tl rest)))
       else validIPv6From (i + 2) ell (tl rest))"
  by pat_completeness auto
termination
  by (relation "measure (\<lambda>(i, ell, s). 16 - i)") auto

definition parsesAsIP :: "string \<Rightarrow> bool" where
  "parsesAsIP s =
    (case find (\<lambda>c. c \<in> set ''.:%'') s of
       None \<Rightarrow> False
     | Some c \<Rightarrow>
         if c = CHR ''.'' then validIPv4 s
         else if c = CHR ''%'' \<or> CHR ''%'' \<in> set s then False
         else if hasPrefix s ''::'' then drop 2 s = [] \<or> validIPv6From 0 True (drop 2 s)
         else validIPv6From 0 False s)"

fun dnsServersFrom :: "string list \<Rightarrow> goerr + string list" where
  "dnsServersFrom [] = Inr []"
| "dnsServersFrom (raw # parts) =
    (let p = trimSpace raw in
     if p = [] then dnsServersFrom parts
     else if \<not> parsesAsIP p
       then Inl (ENew (''parsing GC_NOMAD_DNS_SERVERS: '' @ goQuote p
              @ '' is not an IP address (the value is a comma-separated list of resolver addresses such as 192.168.0.202)''))
     else (case dnsServersFrom parts of Inl e \<Rightarrow> Inl e | Inr ps \<Rightarrow> Inr (p # ps)))"

definition parseDNSServers :: "string \<Rightarrow> goerr + string list" where
  "parseDNSServers raw = dnsServersFrom (splitChar (CHR '','') raw)"

definition nomadConstraintOperands :: "string list" where
  "nomadConstraintOperands =
    [''='', ''=='', ''!='', ''=~'', ''!~'', ''>'', ''<'', ''>='', ''<='', ''in'', ''not'', ''is'', ''bitset'']"

definition parseConstraint :: "string \<Rightarrow> goerr + nomadConstraint" where
  "parseConstraint part =
    (case strFields part of
       [l, operand, r] \<Rightarrow>
         if operand \<notin> set nomadConstraintOperands
         then Inl (ENew (''parsing GC_NOMAD_NODE_CONSTRAINT: '' @ goQuote operand @ '' in '' @ goQuote part
            @ '' is not an operand Nomad accepts (want one of = == != =~ !~ > < >= <= in not is bitset)''))
         else Inr \<lparr>ncLTarget = l, ncRTarget = r, ncOperand = operand\<rparr>
     | _ \<Rightarrow> Inl (ENew (''parsing GC_NOMAD_NODE_CONSTRAINT: '' @ goQuote part @ '' is not '' @ dq ''<ltarget> <operand> <rtarget>''
            @ '' (e.g. '' @ dq ''${node.unique.name} != prod-nomad'' @ '')'')))"

fun constraintsFrom :: "string list \<Rightarrow> goerr + nomadConstraint list" where
  "constraintsFrom [] = Inr []"
| "constraintsFrom (raw # parts) =
    (let p = trimSpace raw in
     if p = [] then constraintsFrom parts
     else (case parseConstraint p of
             Inl e \<Rightarrow> Inl e
           | Inr c \<Rightarrow> (case constraintsFrom parts of Inl e \<Rightarrow> Inl e | Inr cs \<Rightarrow> Inr (c # cs))))"

definition parseNodeConstraints :: "string \<Rightarrow> goerr + nomadConstraint list" where
  "parseNodeConstraints raw = constraintsFrom (splitChar (CHR '';'') raw)"

subsection \<open>The log shipper\<close>

definition vectorVersion :: string where
  "vectorVersion = ''0.58.0''"

definition vectorArchive :: string where
  "vectorArchive = ''vector-'' @ vectorVersion @ ''-x86_64-unknown-linux-gnu.tar.gz''"

definition vectorSHA256 :: string where
  "vectorSHA256 = ''a4634bea859a7ad7064ff3dd6f6ad7eb0e8dd4493cc41657d84da8dd66f09d09''"

definition vectorURL :: string where
  "vectorURL = ''https://github.com/vectordotdev/vector/releases/download/v'' @ vectorVersion @ ''/'' @ vectorArchive"

definition vectorBinPath :: string where
  "vectorBinPath = ''local/vector-x86_64-unknown-linux-gnu/bin/vector''"

definition logShipperMetricsPortLabel :: string where
  "logShipperMetricsPortLabel = ''metrics''"

definition logShipperKillTimeout :: duration where
  "logShipperKillTimeout = killTimeout + 15 * second"

definition logShipperWrapperScript :: string where
  \<open>logShipperWrapperScript = joinStrings [newline]
    [''set -eu'',
     ''pid_file="$NOMAD_ALLOC_DIR/.gc-log-shipper.pid"'',
     ''flush_request="$NOMAD_ALLOC_DIR/.gc-log-shipper.flush"'',
     ''flush_complete="$NOMAD_ALLOC_DIR/.gc-log-shipper.flushed"'',
     ''rm -f "$pid_file" "$flush_complete"'',
     ''if [ -n "${GC_LOG_SINK_TOKEN_FILE:-}" ]; then'',
     ''  GC_LOG_SINK_TOKEN="$(cat "$GC_LOG_SINK_TOKEN_FILE")"'',
     ''  export GC_LOG_SINK_TOKEN'',
     ''fi'',
     ''mkdir -p /var/lib/vector'',
     vectorBinPath @ '' --config local/vector.toml &'',
     ''vector_pid=$!'',
     ''printf '' @ sq (''%s'' @ [CHR 0x5C] @ ''n'') @ '' "$vector_pid" >"$pid_file"'',
     ''vector_status=0'',
     ''wait "$vector_pid" || vector_status=$?'',
     ''rm -f "$pid_file"'',
     ''if [ -e "$flush_request" ] && [ "$vector_status" -eq 0 ]; then'',
     ''  : >"$flush_complete"'',
     ''fi'',
     ''exit "$vector_status"'']\<close>

definition artifactSource :: "logShipperConfig \<Rightarrow> string" where
  "artifactSource c = (if lgArtifact c \<noteq> [] then lgArtifact c else vectorURL)"

definition escapeDollar :: "string \<Rightarrow> string" where
  "escapeDollar s = replaceAll ''${'' ''$${'' s"

definition fileSource :: "string \<Rightarrow> string \<Rightarrow> string list" where
  \<open>fileSource name includes =
    [''[sources.'' @ name @ '']'', ''type = "file"'', ''include = ['' @ includes @ '']'', ''read_from = "beginning"'',
     ''ignore_checkpoints = true'', []]\<close>

definition allocPath :: "string \<Rightarrow> string" where
  \<open>allocPath p = ''"{{ env "NOMAD_ALLOC_DIR" }}/'' @ p @ ''"''\<close>

definition vectorConfigBase :: string where
  \<open>vectorConfigBase = joinStrings [newline]
    (fileSource ''session_jsonl'' (allocPath ''data/*.jsonl'' @ '', "${HOME}/.claude/projects/**/*.jsonl"'')
     @ fileSource ''session_stdout'' (allocPath ''data/agent.stdout'' @ '', '' @ allocPath ''data/agent.stdout.*'')
     @ fileSource ''session_stderr'' (allocPath ''data/agent.stderr'' @ '', '' @ allocPath ''data/agent.stderr.*'')
     @ fileSource ''agent_exit'' (allocPath ''data/agent.exit'')
     @ [''[sources.internal_metrics]'', ''type = "internal_metrics"'', [],
        ''[transforms.label]'', ''type = "remap"'',
        ''inputs = ["session_jsonl", "session_stdout", "session_stderr", "agent_exit"]'',
        ''source = '' @ replicate 3 quoteChar,
        ''.session_name = "{{ env "NOMAD_META_GC_SESSION" }}"'',
        ''.alloc_id = "{{ env "NOMAD_ALLOC_ID" }}"'',
        ''.node = "{{ env "GC_LOG_NODE_NAME" }}"'',
        ''.runtime = "nomad"'',
        ''extra, err = parse_key_value("{{ env "GC_LOG_LABELS" }}", key_value_delimiter: "=", field_delimiter: ",")'',
        ''if err == null {'',
        ''  . = merge!(., extra)'',
        ''}'',
        replicate 3 quoteChar, [],
        ''[sinks.gc_log_sink]'', ''type = "http"'', ''inputs = ["label"]'', ''uri = "{{ env "GC_LOG_SINK" }}"'',
        ''encoding.codec = "json"'', ''framing.method = "newline_delimited"'', [],
        ''[sinks.prom_exporter]'', ''type = "prometheus_exporter"'', ''inputs = ["internal_metrics"]'',
        ''address = "0.0.0.0:{{ env "NOMAD_PORT_metrics" }}"'', []])\<close>

definition vectorAuthBlock :: "logShipperConfig \<Rightarrow> string" where
  \<open>vectorAuthBlock cfg =
    (if lgTokenFile cfg = [] then []
     else joinStrings [newline] [[], [], ''[sinks.gc_log_sink.auth]'', ''strategy = "bearer"'', ''token = "${GC_LOG_SINK_TOKEN}"'', []])\<close>

definition vectorConfigTOML :: "logShipperConfig \<Rightarrow> string" where
  "vectorConfigTOML cfg = escapeDollar (vectorConfigBase @ vectorAuthBlock cfg @ [newline])"

definition logShipperTask :: "logShipperConfig \<Rightarrow> nomadTask" where
  "logShipperTask cfg =
    \<lparr>tkrName = logShipperTaskName, tkrDriver = ''exec'', tkrLeader = False,
     tkrLifecycle = Some \<lparr>nlHook = ''poststart'', nlSidecar = True\<rparr>,
     tkrConfig = [(''command'', JStr ''/bin/sh''), (''args'', JArr [JStr ''-c'', JStr (escapeDollar logShipperWrapperScript)])],
     tkrEnv = [(''GC_LOG_SINK'', lgSink cfg), (''GC_LOG_LABELS'', lgLabels cfg), (''GC_LOG_NODE_NAME'', ''${node.unique.name}'')]
       @ (if lgTokenFile cfg \<noteq> [] then [(''GC_LOG_SINK_TOKEN_FILE'', lgTokenFile cfg)] else []),
     tkrArtifacts = [\<lparr>naGetterSource = artifactSource cfg, naGetterMode = [],
       naGetterOptions = [(''checksum'', ''sha256:'' @ vectorSHA256)], naRelativeDest = ''local/''\<rparr>],
     tkrTemplates = [\<lparr>ntEmbeddedTmpl = vectorConfigTOML cfg, ntDestPath = ''local/vector.toml'', ntChangeMode = ''noop''\<rparr>],
     tkrResources = \<lparr>nrCPU = 100, nrMemoryMB = 128, nrSecretsMB = 0\<rparr>,
     tkrKillTimeout = logShipperKillTimeout\<rparr>"

subsection \<open>The session group and the parent job\<close>

definition gcArtifactStanza :: nomadArtifact where
  "gcArtifactStanza =
    \<lparr>naGetterSource = metaRef gcArtifactMetaKey, naGetterMode = ''file'',
     naGetterOptions = [(''checksum'', metaRef gcArtifactSumMetaKey)], naRelativeDest = gcArtifactRelativeDest\<rparr>"

definition imageTarStanza :: nomadArtifact where
  "imageTarStanza =
    \<lparr>naGetterSource = metaRef imageTarMetaKey, naGetterMode = ''file'',
     naGetterOptions = [(''checksum'', metaRef imageTarSumMetaKey), (''archive'', ''false'')], naRelativeDest = imageTarRelativeDest\<rparr>"

definition sessionTask :: "string \<Rightarrow> sessionTaskOpt list \<Rightarrow> nomadTask" where
  "sessionTask img opts =
    (case splitSessionTaskOpts opts (noArtifact, noImageTar) of (art, imgTar) \<Rightarrow>
      \<lparr>tkrName = ''agent'', tkrDriver = ''docker'', tkrLeader = False, tkrLifecycle = None,
       tkrConfig = [(''image'', JStr (metaRef agentImageMetaKey)), (''command'', JStr ''/bin/sleep''), (''args'', JArr [JStr ''infinity''])]
         @ (if imageTar_enabled imgTar then [(''load'', JStr imageTarLoadPath)] else []),
       tkrEnv = [],
       tkrArtifacts = (if artifact_enabled art then [gcArtifactStanza] else [])
         @ (if imageTar_enabled imgTar then [imageTarStanza] else []),
       tkrTemplates = [],
       tkrResources = \<lparr>nrCPU = sessionCPU, nrMemoryMB = sessionMemoryMB, nrSecretsMB = sessionSecretsMB\<rparr>,
       tkrKillTimeout = killTimeout\<rparr>)"

definition sessionTaskGroup :: "logShipperConfig \<Rightarrow> string \<Rightarrow> placementConfig \<Rightarrow> sessionTaskOpt list \<Rightarrow> nomadTaskGroup" where
  "sessionTaskGroup shipper img dep opts =
    (let agent = sessionTask img opts;
         dns = (if plDnsServers dep \<noteq> [] then Some (plDnsServers dep) else None) in
     \<lparr>ngName = ''session'', ngCount = 1,
      ngRestartPolicy = \<lparr>nrAttempts = 0, nrMode = ''fail''\<rparr>,
      ngReschedulePolicy = \<lparr>nsAttempts = 0, nsUnlimited = False\<rparr>,
      ngDisconnect = Some \<lparr>ndReplace = Some False, ndReconcile = ''keep_original'', ndLostAfter = lostAfter\<rparr>,
      ngNetworks = [\<lparr>nnMode = ''bridge'', nnDNS = dns,
        nnDynamicPorts = (if logShipper_enabled shipper then [logShipperMetricsPortLabel] else [])\<rparr>],
      ngTasks = (if logShipper_enabled shipper then [agent\<lparr>tkrLeader := True\<rparr>, logShipperTask shipper] else [agent])\<rparr>)"

definition fatalConstraints :: "nomadConstraint list" where
  "fatalConstraints =
    [\<lparr>ncLTarget = ''${attr.kernel.name}'', ncRTarget = ''linux'', ncOperand = ''=''\<rparr>,
     \<lparr>ncLTarget = ''${attr.cpu.arch}'', ncRTarget = ''amd64'', ncOperand = ''=''\<rparr>]"

definition dispatchMetaKeys :: "string list" where
  "dispatchMetaKeys =
    [''gc_session'', ''gc_nonce'', ''gc_created_at'', agentImageMetaKey, gcArtifactMetaKey, gcArtifactSumMetaKey,
     imageTarMetaKey, imageTarSumMetaKey]"

definition parentJobSpec ::
  "(string \<Rightarrow> bytes) \<Rightarrow> string \<Rightarrow> string \<Rightarrow> string \<Rightarrow> logShipperConfig \<Rightarrow> string \<Rightarrow> placementConfig \<Rightarrow> sessionTaskOpt list \<Rightarrow> nomadJob" where
  "parentJobSpec sha256 namespace pool parentID shipper img dep opts =
    (case splitSessionTaskOpts opts (noArtifact, noImageTar) of (art, imgTar) \<Rightarrow>
      let job = \<lparr>njID = parentID, njNamespace = namespace, njNodePool = pool, njType = ''batch'', njPriority = 40,
            njConstraints = fatalConstraints @ plNodeConstraints dep,
            njParameterizedJob = Some \<lparr>npMetaOptional = dispatchMetaKeys, npPayload = ''forbidden''\<rparr>,
            njTaskGroups = [sessionTaskGroup shipper img dep opts],
            njMeta = [(agentImageMetaKey, img), (gcArtifactMetaKey, gaSource art), (gcArtifactSumMetaKey, gaChecksum art),
              (imageTarMetaKey, itSource imgTar), (imageTarSumMetaKey, itChecksum imgTar)]\<rparr>
      in job\<lparr>njMeta := mapSet jobspecHashMetaKey (jobspecHash sha256 job) (njMeta job)\<rparr>)"

text \<open>\<^verbatim>\<open>(l *lifecycle) parentJobSpec\<close>; the shipper and the placement are the settings the
  configuration was read with.\<close>

definition life_parentJobSpec :: "host \<Rightarrow> (string \<Rightarrow> bytes) \<Rightarrow> lifecycle \<Rightarrow> logShipperConfig \<Rightarrow> placementConfig \<Rightarrow> nomadJob" where
  "life_parentJobSpec h sha256 l shipper dep =
    parentJobSpec sha256 (clNamespace (lcClient l)) (lcNodePool l) (lcParentJobID l) shipper (lcAgentImage l) dep
      [ArtifactOpt (gcArtifact h), ImageTarOpt (imageTar h)]"

subsection \<open>Every metadata key is declared\<close>

text \<open>The keys a text refers to, and the texts of a task that Nomad interpolates.\<close>

fun metaRefs :: "string \<Rightarrow> string list" where
  "metaRefs [] = []"
| "metaRefs (c # s) =
    (if hasPrefix (c # s) ''${NOMAD_META_'' then [takeWhile (\<lambda>d. d \<noteq> CHR ''}'') (drop 13 (c # s))] else []) @ metaRefs s"

fun jsonStrings :: "json \<Rightarrow> string list" where
  "jsonStrings (JStr s) = [s]"
| "jsonStrings (JArr js) = concat (map jsonStrings js)"
| "jsonStrings (JObj fs) = concat (map (\<lambda>(k, v). jsonStrings v) fs)"
| "jsonStrings _ = []"

definition taskTexts :: "nomadTask \<Rightarrow> string list" where
  "taskTexts t = concat (map (\<lambda>(k, v). jsonStrings v) (tkrConfig t)) @ map snd (tkrEnv t)
    @ concat (map (\<lambda>a. [naGetterSource a, naRelativeDest a] @ map snd (naGetterOptions a)) (tkrArtifacts t))"

definition agentTask :: "nomadJob \<Rightarrow> nomadTask" where
  "agentTask j = hd (ngTasks (hd (njTaskGroups j)))"

lemmas meta_key_defs = agentImageMetaKey_def gcArtifactMetaKey_def gcArtifactSumMetaKey_def imageTarMetaKey_def
  imageTarSumMetaKey_def createdAtMetaKey_def jobspecHashMetaKey_def

lemma agentTask_texts:
  "taskTexts (agentTask (parentJobSpec sha256 ns pool pid shipper img dep opts)) = taskTexts (sessionTask img opts)"
  by (auto simp: parentJobSpec_def agentTask_def sessionTaskGroup_def taskTexts_def Let_def split: prod.split)

lemma sessionTask_refs:
  "set (concat (map metaRefs (taskTexts (sessionTask img opts)))) \<subseteq> set dispatchMetaKeys - {''gc_session'', ''gc_nonce'', ''gc_created_at''}"
  by (simp add: sessionTask_def taskTexts_def gcArtifactStanza_def imageTarStanza_def metaRef_def hasPrefix_def
      dispatchMetaKeys_def meta_key_defs gcArtifactRelativeDest_def imageTarRelativeDest_def imageTarLoadPath_def gcArtifactDest_def
      gcBinaryName_def imageTarDest_def imageTarFileName_def split: prod.split)

text \<open>C35. Nomad refuses a dispatch that names an undeclared metadata key and starts nothing when
  a reference has no value. Every key a dispatch sends is declared by the parent job,
  for every session, time and image; and every metadata key the agent task refers to
  is declared for an override and has a default in the job.\<close>

theorem dispatch_metadata_declared:
  "set (map fst (dispatchMeta fmt sessionName nonce t sessionImage))
     \<subseteq> set (npMetaOptional (the (njParameterizedJob (parentJobSpec sha256 ns pool pid shipper img dep opts))))
   \<and> set (concat (map metaRefs (taskTexts (agentTask (parentJobSpec sha256 ns pool pid shipper img dep opts)))))
     \<subseteq> set (npMetaOptional (the (njParameterizedJob (parentJobSpec sha256 ns pool pid shipper img dep opts))))
        \<inter> set (map fst (njMeta (parentJobSpec sha256 ns pool pid shipper img dep opts)))"
proof -
  let ?j = "parentJobSpec sha256 ns pool pid shipper img dep opts"
  have declared: "npMetaOptional (the (njParameterizedJob ?j)) = dispatchMetaKeys"
    by (simp add: parentJobSpec_def Let_def split: prod.split)
  have defaults: "set (map fst (njMeta ?j)) = insert jobspecHashMetaKey (set dispatchMetaKeys - {''gc_session'', ''gc_nonce'', ''gc_created_at''})"
    by (simp add: parentJobSpec_def Let_def mapSet_def dispatchMetaKeys_def meta_key_defs split: prod.split)
  show ?thesis
    unfolding declared defaults agentTask_texts
    using sessionTask_refs [of img opts] by (auto simp: dispatchMeta_def dispatchMetaKeys_def meta_key_defs)
qed

subsection \<open>Nothing of a placement setting is dropped\<close>

lemma constraintsFrom_iff:
  "constraintsFrom parts = Inr cs \<longleftrightarrow> map parseConstraint (filter (\<lambda>p. p \<noteq> []) (map trimSpace parts)) = map Inr cs"
  by (induction parts arbitrary: cs) (auto simp: Let_def Cons_eq_map_conv split: sum.split, blast+)

lemma parseConstraint_iff:
  "parseConstraint p = Inr c \<longleftrightarrow> strFields p = [ncLTarget c, ncOperand c, ncRTarget c] \<and> ncOperand c \<in> set nomadConstraintOperands"
  by (cases c) (auto simp: parseConstraint_def split: list.split if_splits)

text \<open>C36. The node constraints an operator writes are accepted exactly when every part between
  semicolons that is not blank is three words with an operand Nomad knows; then each of
  them, in order, is a constraint of the job. None is dropped or changed.\<close>

theorem parseNodeConstraints_exact:
  "parseNodeConstraints raw = Inr cs \<longleftrightarrow>
    map strFields (filter (\<lambda>p. p \<noteq> []) (map trimSpace (splitChar (CHR '';'') raw)))
      = map (\<lambda>c. [ncLTarget c, ncOperand c, ncRTarget c]) cs
    \<and> list_all (\<lambda>c. ncOperand c \<in> set nomadConstraintOperands) cs"
proof -
  have "map parseConstraint ps = map Inr cs \<longleftrightarrow> map strFields ps = map (\<lambda>c. [ncLTarget c, ncOperand c, ncRTarget c]) cs
      \<and> list_all (\<lambda>c. ncOperand c \<in> set nomadConstraintOperands) cs" for ps
    by (induction cs arbitrary: ps) (auto simp: map_eq_Cons_conv parseConstraint_iff)
  then show ?thesis by (simp add: parseNodeConstraints_def constraintsFrom_iff)
qed

subsection \<open>Templates survive Nomad's interpolation\<close>

text \<open>Nomad replaces an expression \<^verbatim>\<open>${...}\<close> and reads the doubled dollar as an escape.\<close>

definition unescapeDollar :: "string \<Rightarrow> string" where
  "unescapeDollar s = replaceAll ''$${'' ''${'' s"

lemma replaceAll_Nil: "replaceAll old new [] = []"
  by (simp add: replaceAll.simps)

lemma replaceAll_hit: "old \<noteq> [] \<Longrightarrow> replaceAll old new (old @ s) = new @ replaceAll old new s"
  by (subst replaceAll.simps) (simp add: hasPrefix_iff)

lemma replaceAll_miss: "\<not> hasPrefix (c # s) old \<Longrightarrow> replaceAll old new (c # s) = c # replaceAll old new s"
  by (subst replaceAll.simps) (auto simp: hasPrefix_iff)

lemma escapeDollar_simps:
  "escapeDollar [] = []"
  "escapeDollar (CHR ''$'' # CHR ''{'' # s) = ''$${'' @ escapeDollar s"
  "\<not> hasPrefix (c # s) ''${'' \<Longrightarrow> escapeDollar (c # s) = c # escapeDollar s"
  using replaceAll_hit [of "''${''" "''$${''" s]
  by (simp_all add: escapeDollar_def replaceAll_Nil replaceAll_miss)

lemma unescapeDollar_simps:
  "unescapeDollar [] = []"
  "unescapeDollar (''$${'' @ s) = ''${'' @ unescapeDollar s"
  "\<not> hasPrefix (c # s) ''$${'' \<Longrightarrow> unescapeDollar (c # s) = c # unescapeDollar s"
  using replaceAll_hit [of "''$${''" "''${''" s]
  by (simp_all add: unescapeDollar_def replaceAll_Nil replaceAll_miss)

lemma dollar_cases:
  obtains "s = []" | t where "s = CHR ''$'' # CHR ''{'' # t" | c t where "s = c # t" "\<not> hasPrefix s ''${''"
proof (cases s)
  case (Cons c t)
  then show thesis using that by (cases t) (auto simp: hasPrefix_def)
qed (use that in simp)

lemma escapeDollar_head: "escapeDollar s = [] \<or> hd (escapeDollar s) = hd s"
  by (cases s rule: dollar_cases) (simp_all add: escapeDollar_simps)

lemma escapeDollar_guarded: "\<not> hasPrefix (escapeDollar s) ''${''"
proof (cases s rule: dollar_cases)
  case (3 c t)
  then show ?thesis
    using escapeDollar_head [of t] by (cases t; cases "escapeDollar t") (auto simp: escapeDollar_simps hasPrefix_def)
qed (simp_all add: escapeDollar_simps hasPrefix_def)

lemma unescape_escape: "unescapeDollar (escapeDollar s) = s"
proof (induction s rule: length_induct)
  case (1 s)
  show ?case
  proof (cases s rule: dollar_cases)
    case (2 t)
    then show ?thesis using 1 by (simp add: escapeDollar_simps unescapeDollar_simps(2) [simplified])
  next
    case (3 c t)
    then have "\<not> hasPrefix (c # escapeDollar t) ''$${''"
      using escapeDollar_guarded [of t] by (auto simp: hasPrefix_def)
    then show ?thesis using 3 1 by (simp add: escapeDollar_simps unescapeDollar_simps)
  qed (simp add: escapeDollar_simps unescapeDollar_simps)
qed

text \<open>The text \<^verbatim>\<open>s\<close> holds no expression Nomad would replace: every \<^verbatim>\<open>${\<close> has another dollar before it.\<close>

fun guardedFrom :: "bool \<Rightarrow> string \<Rightarrow> bool" where
  "guardedFrom dollar [] = True"
| "guardedFrom dollar (c # s) = ((dollar \<or> \<not> hasPrefix (c # s) ''${'') \<and> guardedFrom (c = CHR ''$'') s)"

lemma guarded_escape: "guardedFrom d (escapeDollar s)"
proof (induction s arbitrary: d rule: length_induct)
  case (1 s)
  show ?case
  proof (cases s rule: dollar_cases)
    case (2 t)
    then show ?thesis using 1 by (simp add: escapeDollar_simps hasPrefix_def)
  next
    case (3 c t)
    then show ?thesis
      using 1 escapeDollar_guarded [of s] by (simp add: escapeDollar_simps)
  qed (simp add: escapeDollar_simps)
qed

text \<open>C37. The shipper's configuration file and its shell script reach the box as they were
  written: neither holds an expression Nomad would substitute, and undoing the escape
  gives back the script and the configuration, whatever the deployment's settings.\<close>

theorem shipper_texts_survive:
  "guardedFrom False (vectorConfigTOML cfg)
   \<and> unescapeDollar (vectorConfigTOML cfg) = vectorConfigBase @ vectorAuthBlock cfg @ [newline]
   \<and> (\<exists>script. map_of (tkrConfig (logShipperTask cfg)) ''args'' = Some (JArr [JStr ''-c'', JStr script])
        \<and> guardedFrom False script \<and> unescapeDollar script = logShipperWrapperScript)"
  by (simp add: vectorConfigTOML_def guarded_escape unescape_escape logShipperTask_def)

end
