(* ===== verification/Diagnosis.thy ===== *)
theory Diagnosis
  imports Jobspec
begin

text \<open>
  What the runtime says about a box that did not come up (\<^verbatim>\<open>artifact_fetch.go\<close> and the
  diagnosis part of \<^verbatim>\<open>ops.go\<close>): the classification of the driver's event, the sentence for
  each cause, and the two reads that ask Nomad for it.
\<close>

subsection \<open>Causes\<close>

record knownArtifacts =
  kaGC :: string
  kaImageTar :: string

definition life_knownArtifacts :: "host \<Rightarrow> knownArtifacts" where
  "life_knownArtifacts h = \<lparr>kaGC = gaSource (gcArtifact h), kaImageTar = itSource (imageTar h)\<rparr>"

definition containsOne :: "string \<Rightarrow> string list \<Rightarrow> bool" where
  "containsOne e words = list_ex (containsS e) words"

definition isArtifactFetchFailure :: "string \<Rightarrow> bool" where
  "isArtifactFetchFailure event = containsOne (toLower event)
    [''failed artifact download'', ''failed to download artifact'', ''failed to parse artifact'', ''checksums did not match'', ''checksum mismatch'']"

definition isChecksumMismatch :: "string \<Rightarrow> bool" where
  "isChecksumMismatch event = containsOne (toLower event) [''checksums did not match'', ''checksum mismatch'']"

definition isOOMFailure :: "string \<Rightarrow> bool" where
  "isOOMFailure event = containsOne (toLower event) [''oom killed'', ''oom-killed'', ''oomkilled'', ''out of memory'']"

definition isImagePullFailure :: "string \<Rightarrow> bool" where
  "isImagePullFailure event = containsOne (toLower event)
    [''failed to pull'', ''pull access denied'', ''repository does not exist'', ''manifest unknown'', ''no such image'', ''image not found'']"

definition classifyArtifact :: "string \<Rightarrow> knownArtifacts \<Rightarrow> string \<times> string" where
  "classifyArtifact event known =
    (let gc = trimSpace (kaGC known); tar = trimSpace (kaImageTar known) in
     if gc \<noteq> [] \<and> containsS event gc then
       (''the per-box gc ('' @ gc @ '')'',
        ''THAT URL IS NOT CONFIGURED ANYWHERE '' @ emDash @ '' it is derived from the commit of the gc ''
        @ ''driving this pack, so it changes on every pin roll and the fix is always on the ''
        @ ''PUBLISHING side, for this exact commit. Either publish the linux/amd64 gc and its ''
        @ ''.sha256 sidecar for that commit, or unset GC_NOMAD_GC_ARTIFACT_URL''
        @ '' and let the box run the gc baked into the image (which will then be whatever the ''
        @ ''image carries, and may be several rolls stale)'')
     else if tar \<noteq> [] \<and> containsS event tar then
       (''the agent image tarball ('' @ tar @ '')'',
        ''That URL comes from GC_NOMAD_AGENT_IMAGE_TAR, so it IS yours to fix: make it ''
        @ ''fetchable from the client, or unset it and let the driver resolve the image by ''
        @ ''name instead'')
     else
       (''one of its artifacts'',
        ''This pack did not declare that URL, so it is neither the derived gc download nor ''
        @ ''GC_NOMAD_AGENT_IMAGE_TAR '' @ emDash @ '' read the URL in the event below and fix it where it is set''))"

definition describeArtifactFetchFailure :: "string \<Rightarrow> string \<Rightarrow> knownArtifacts \<Rightarrow> string" where
  "describeArtifactFetchFailure taskName event known =
    (case classifyArtifact event known of (which, provenance) \<Rightarrow>
     let head = ''the '' @ goQuote taskName @ '' task never ran: Nomad could not stage '' @ which @ '', and artifacts are ''
           @ ''fetched and checksummed BEFORE the task starts, so nothing in the box has executed '' @ emDash @ '' ''
           @ ''this is a FETCH fault, not a start fault and not a fault in the image, the agent or gc'' in
     if isChecksumMismatch event then
       head @ ''. The bytes ARRIVED and failed verification, so this is not a ''
       @ ''missing publish: the artifact and its sha256 sidecar disagree, which means one of ''
       @ ''the two was republished without the other. Republish BOTH from the same bytes: '' @ event
     else head @ ''. '' @ provenance @ '': '' @ event)"

subsection \<open>The diagnosis of a list of allocations\<close>

definition failedStatus :: "allocRecord \<Rightarrow> bool" where
  "failedStatus a \<longleftrightarrow> toLower (trimSpace (arClientStatus a)) \<in> {''failed'', ''lost''}"

text \<open>The last failed or lost allocation, or else the last one.\<close>

fun pickFailed :: "allocRecord \<Rightarrow> allocRecord list \<Rightarrow> allocRecord" where
  "pickFailed cur [] = cur"
| "pickFailed cur (a # as) = pickFailed (if failedStatus a then a else cur) as"

definition eventText :: "allocTaskState \<Rightarrow> string" where
  "eventText ts = (let event = trimSpace (atsFailureEvent ts) in if event = [] then trimSpace (atsLastEvent ts) else event)"

definition describeEvent :: "string \<Rightarrow> string \<Rightarrow> knownArtifacts \<Rightarrow> allocTaskState \<Rightarrow> string \<Rightarrow> string" where
  "describeEvent agentImage taskName known ts event =
    (let img = trimSpace agentImage; state = trimSpace (atsState ts) in
     if isArtifactFetchFailure event then describeArtifactFetchFailure taskName event known
     else if isImagePullFailure event then
       (if img = [] then ''the agent image is not on this node: '' @ event
        else if imageIsRegistryless img then
          ''the image '' @ goQuote img @ '' is not on this node AND NAMES NO REGISTRY, so no ''
          @ ''node can ever pull it '' @ emDash @ '' a bare name resolves against Docker Hub, which will not ''
          @ ''have a privately built agent image. This allocation did not lose a race with a ''
          @ ''pull; it landed on a node that was never given the image. Push it to a registry ''
          @ ''your clients can reach, or pre-load it on every eligible node: '' @ event
        else ''the image '' @ goQuote img @ '' is not on this node: '' @ event)
     else if isOOMFailure event then
       ''the '' @ goQuote taskName @ '' task was OOM-killed '' @ emDash @ '' the box ran out of the memory its ''
       @ ''resources block allows, which is a sizing fault, not a start fault: '' @ event
     else ''the '' @ goQuote taskName @ '' task never started (state ''
       @ goQuote (if state = [] then ''unknown'' else state) @ ''): '' @ event)"

definition allocFailureDiagnosis :: "string \<Rightarrow> allocRecord list \<Rightarrow> string \<Rightarrow> knownArtifacts \<Rightarrow> string" where
  "allocFailureDiagnosis agentImage allocs taskName known =
    (if allocs = [] then []
     else case arTaskStates (pickFailed (last allocs) allocs) of
       None \<Rightarrow> []
     | Some states \<Rightarrow>
         (case map_of states taskName of
            None \<Rightarrow> []
          | Some ts \<Rightarrow> (let event = eventText ts in
              if event = [] then [] else describeEvent agentImage taskName known ts event)))"

definition describeConstraints :: "nomadConstraint list \<Rightarrow> string" where
  "describeConstraints cs =
    (if cs = [] then ''no constraints at all (so this is capacity, not placement)''
     else joinStrings '', '' (map (\<lambda>c. trimSpace (ncLTarget c @ '' '' @ ncOperand c @ '' '' @ ncRTarget c)) cs))"

subsection \<open>Asking Nomad\<close>

definition deadChildReason :: "'w env \<Rightarrow> host \<Rightarrow> lifecycle \<Rightarrow> string \<Rightarrow> ('w lstate, string) prog" where
  "deadChildReason ev h l childJobID =
    bindS (attempt (listAllocs ev l childJobID)) (\<lambda>r. case r of
      Inl e \<Rightarrow> returnS []
    | Inr allocs \<Rightarrow> returnS (if allocs = [] then []
        else allocFailureDiagnosis (lcAgentImage l) allocs (lcExecTask l) (life_knownArtifacts h)))"

definition provisionFailureDetail :: "'w env \<Rightarrow> host \<Rightarrow> lifecycle \<Rightarrow> string \<Rightarrow> ('w lstate, string) prog" where
  "provisionFailureDetail ev h l sessionName =
    bindS (attempt (sidecar_load sessionName)) (\<lambda>r. case r of
      Inl e \<Rightarrow> returnS (''could not read the binding to diagnose this: '' @ errText e)
    | Inr None \<Rightarrow> returnS []
    | Inr (Some b) \<Rightarrow>
        if trimSpace (ChildJobID b) = [] then returnS []
        else bindS (attempt (listAllocs ev l (ChildJobID b))) (\<lambda>ra. case ra of
          Inl e \<Rightarrow> returnS (''could not read the allocations of child '' @ goQuote (ChildJobID b) @ '' to diagnose this: '' @ errText e)
        | Inr allocs \<Rightarrow>
            (let d = allocFailureDiagnosis (lcAgentImage l) allocs (lcExecTask l) (life_knownArtifacts h) in
             returnS (if d \<noteq> [] then d
               else ''child '' @ goQuote (ChildJobID b) @ '' has '' @ natText (length allocs)
                 @ '' allocation(s) and none reports why task '' @ goQuote (lcExecTask l) @ '' is not running''))))"

definition childHasLiveAlloc :: "'w env \<Rightarrow> lifecycle \<Rightarrow> string \<Rightarrow> ('w lstate, bool) prog" where
  "childHasLiveAlloc ev l childJobID =
    bindS (listAllocs ev l childJobID) (\<lambda>allocs. returnS
      (list_ex (\<lambda>a. toLower (trimSpace (arClientStatus a)) \<notin> {''complete'', ''failed'', ''lost''}) allocs))"

subsection \<open>The diagnosis is the recorded event\<close>

text \<open>The evidence: what the task recorded in the last allocation whose status is failed or lost, or in the
  last one when none is: its failure event, or its last event when it has no failure event.\<close>

definition evidence :: "allocRecord list \<Rightarrow> string \<Rightarrow> string" where
  "evidence allocs taskName =
    (let status = (\<lambda>a. toLower (trimSpace (arClientStatus a)));
         bad = filter (\<lambda>a. status a = ''failed'' \<or> status a = ''lost'') allocs;
         picked = (if bad \<noteq> [] then last bad else last allocs) in
     if allocs = [] then []
     else case arTaskStates picked of None \<Rightarrow> []
       | Some states \<Rightarrow> (case map_of states taskName of None \<Rightarrow> []
           | Some ts \<Rightarrow> if trimSpace (atsFailureEvent ts) \<noteq> [] then trimSpace (atsFailureEvent ts) else trimSpace (atsLastEvent ts)))"

lemma pickFailed_eq: "pickFailed cur as = (if filter failedStatus as \<noteq> [] then last (filter failedStatus as) else cur)"
  by (induction as arbitrary: cur) auto

lemma describeEvent_ends: "\<exists>before. before \<noteq> [] \<and> describeEvent img taskName known ts event = before @ event"
proof -
  have "\<exists>before. before \<noteq> [] \<and> describeArtifactFetchFailure taskName event known = before @ event"
    unfolding describeArtifactFetchFailure_def Let_def case_prod_beta by (simp only: append_assoc [symmetric] split: if_split) auto
  then show ?thesis
    unfolding describeEvent_def Let_def by (simp only: append_assoc [symmetric] split: if_split) auto
qed

lemma diagnosis_of_evidence:
  "\<exists>ts. allocFailureDiagnosis img allocs taskName known =
    (if evidence allocs taskName = [] then [] else describeEvent img taskName known ts (evidence allocs taskName))"
proof -
  have "failedStatus = (\<lambda>a. toLower (trimSpace (arClientStatus a)) = ''failed'' \<or> toLower (trimSpace (arClientStatus a)) = ''lost'')"
    by (auto simp: fun_eq_iff failedStatus_def)
  then show ?thesis
    by (auto simp: allocFailureDiagnosis_def evidence_def eventText_def pickFailed_eq Let_def split: option.split)
qed

text \<open>C38. The diagnosis of a box never invents a cause. It is empty exactly when the allocation it
  reads (the last failed or lost one, or else the last) recorded no event for the task; otherwise it is a
  sentence that ends in that event, word for word, where the event is the task's failure event and only
  for want of one its last event. When the event says that an image could not be pulled and no artifact
  failed, the sentence names the configured image.\<close>

theorem diagnosis_is_evidence:
  "let event = evidence allocs taskName; said = allocFailureDiagnosis img allocs taskName known in
    (event = [] \<longrightarrow> said = []) \<and>
    (event \<noteq> [] \<longrightarrow> (\<exists>before. before \<noteq> [] \<and> said = before @ event)) \<and>
    (isImagePullFailure event \<and> \<not> isArtifactFetchFailure event \<and> trimSpace img \<noteq> [] \<longrightarrow>
      (\<exists>u v. said = u @ goQuote (trimSpace img) @ v))"
proof -
  obtain ts where d: "allocFailureDiagnosis img allocs taskName known =
      (if evidence allocs taskName = [] then [] else describeEvent img taskName known ts (evidence allocs taskName))"
    using diagnosis_of_evidence by blast
  have "\<exists>u v. describeEvent img taskName known ts event = u @ goQuote (trimSpace img) @ v"
    if "isImagePullFailure event" "\<not> isArtifactFetchFailure event" "trimSpace img \<noteq> []" for event
    using that by (auto simp: describeEvent_def Let_def intro: exI [of _ "''the image ''"])
  moreover have "\<not> isImagePullFailure []" by code_simp
  ultimately show ?thesis
    using d describeEvent_ends [of img taskName known ts "evidence allocs taskName"] by (auto simp: Let_def)
qed

text \<open>An allocation that failed to pull its image and a later one that runs; Nomad appended the restart policy after the cause.\<close>

definition pullFailed :: "allocRecord list" where
  "pullFailed = [\<lparr>arID = ''x'', arClientStatus = ''failed'', arDesiredStatus = ''run'', arTaskStates = Some [(''agent'',
      \<lparr>atsState = ''dead'', atsLastEvent = ''Policy allows no restarts'', atsFailureEvent = ''Failed to pull''\<rparr>)]\<rparr>,
     \<lparr>arID = ''y'', arClientStatus = ''running'', arDesiredStatus = ''run'', arTaskStates = Some []\<rparr>]"

theorem diagnosis_is_evidence_witness:
  "let said = allocFailureDiagnosis ''reg/img'' pullFailed ''agent'' \<lparr>kaGC = [], kaImageTar = []\<rparr> in
   (\<exists>before. before \<noteq> [] \<and> said = before @ ''Failed to pull'') \<and> (\<exists>u v. said = u @ goQuote ''reg/img'' @ v)"
proof -
  have "evidence pullFailed ''agent'' = ''Failed to pull''" by code_simp
  moreover have "isImagePullFailure ''Failed to pull''" "\<not> isArtifactFetchFailure ''Failed to pull''" "trimSpace ''reg/img'' = ''reg/img''"
    by code_simp+
  ultimately show ?thesis
    using diagnosis_is_evidence [where allocs = pullFailed and taskName = "''agent''" and img = "''reg/img''"
        and known = "\<lparr>kaGC = [], kaImageTar = []\<rparr>"] by (simp add: Let_def)
qed

end
