(* ===== verification/Prime.thy ===== *)
theory Prime
  imports Diagnosis
begin

text \<open>
  Priming (\<^verbatim>\<open>prime.go\<close>): the files of the detached window that types the first prompt, the
  window's start, the two markers that are copied back onto the binding, and what is said
  when the pane is gone.
\<close>

subsection \<open>The prime files\<close>

definition primeDirName :: string where
  "primeDirName = ''gc-prime''"

definition primeWindowName :: string where
  "primeWindowName = ''gc-prime''"

definition primeScriptFile :: string where
  "primeScriptFile = ''run.sh''"

definition primeReadyBudget :: nat where
  "primeReadyBudget = 180"

definition primeInterval :: nat where
  "primeInterval = 2"

definition primeDefaultReadyDelayMs :: nat where
  "primeDefaultReadyDelayMs = 1500"

definition primeSubmitDebounceMs :: nat where
  "primeSubmitDebounceMs = 500"

definition primeSubmitMaxSends :: nat where
  "primeSubmitMaxSends = 3"

definition primeSubmitBackoffMs :: nat where
  "primeSubmitBackoffMs = 200"

definition primeConfirmPollsPerSend :: nat where
  "primeConfirmPollsPerSend = 4"

definition primeConfirmPollMs :: nat where
  "primeConfirmPollMs = 150"

text \<open>\<^verbatim>\<open>fmt.Sprintf("%g", float64(ms)/1000)\<close>: the decimal fraction without trailing zeros.\<close>

definition seconds :: "nat \<Rightarrow> string" where
  "seconds ms =
    (let frac = rev (dropWhile (\<lambda>c. c = CHR ''0'') (rev (drop 1 (natText (1000 + ms mod 1000))))) in
     natText (ms div 1000) @ (if frac = [] then [] else ''.'' @ frac))"

definition primeScript :: string where
  \<open>primeScript = joinStrings [newline]
    [''#!/bin/sh'',
     ''set -u'',
     ''DIR="$(CDPATH= cd -- "$(dirname -- "$0")" && pwd)"'',
     ''PREFIX=""'',
     ''if [ -f "$DIR/ready_prefix.txt" ]; then PREFIX="$(cat "$DIR/ready_prefix.txt")"; fi'',
     ''# The TUI markers. The codex-family defaults live at the USE SITE as'',
     ''# ${LOADING:-loading} / ${BUSY:-esc to interrupt}, not here, because pane_ready()'',
     ''# is extracted and run as a standalone unit by its own guard'',
     ''# (TestPrimeReadinessRejectsLoadingFrameAcceptsLoadedFrame) '' @ [CHR 0xE2, CHR 0x80, CHR 0x94] @ '' a default that'',
     ''# lived only in this preamble would vanish under extraction and leave grep'',
     ''# matching the empty string, i.e. rejecting every frame. Defaulting at the use'',
     ''# site keeps each predicate self-contained.'',
     ''#'',
     ''# An absent or empty marker file therefore falls back to the default rather than'',
     ''# disabling the check: skipping the loading check is fail-OPEN on readiness, and'',
     ''# typing into a startup discard window is what crashed the agent before this'',
     ''# readiness rule existed. An absent'',
     ''# or empty marker file must not disable the check: skipping the loading check is'',
     ''# fail-OPEN on readiness, and typing into a startup discard window is what'',
     ''# crashed the agent before this readiness rule existed. A family that paints'',
     ''# something else overrides these by staging its own value.'',
     ''LOADING=""'',
     ''if [ -s "$DIR/loading_marker.txt" ]; then LOADING="$(cat "$DIR/loading_marker.txt")"; fi'',
     ''BUSY=""'',
     ''if [ -s "$DIR/busy_marker.txt" ]; then BUSY="$(cat "$DIR/busy_marker.txt")"; fi'',
     ''DELAY_MS='' @ natText primeDefaultReadyDelayMs,
     ''if [ -f "$DIR/ready_delay_ms.txt" ]; then'',
     ''  staged="$(cat "$DIR/ready_delay_ms.txt")"'',
     ''  case "$staged" in '' @ [CHR 0x27, CHR 0x27] @ ''|*[!0-9]*) : ;; *) DELAY_MS="$staged" ;; esac'',
     ''fi'',
     [],
     ''# pane_ready FILE: exit 0 when FILE (a tmux capture-pane -p rendering)'',
     ''# shows the configured ready prefix AND carries no "loading" marker'',
     ''# (Codex paints its ready row in the SAME frame as'',
     ''# "model: loading"/"directory: loading", so the prefix alone is not'',
     ''# enough). PREFIX empty (no ready_prompt_prefix configured) skips the'',
     ''# prefix half only, matching the Go matcher'' @ [CHR 0x27] @ ''s own fallback. Named and kept'',
     ''# this small on purpose: it is the exact unit TestPrimeReadinessRejects...'',
     ''# extracts and runs against real captured fixtures.'',
     ''pane_ready() {'',
     ''  f="$1"'',
     ''  if [ -n "$PREFIX" ] && ! awk -v p="$PREFIX" '' @ [CHR 0x27] @ ''{'',
     ''      line=$0'',
     ''      sub(/^[ '' @ [CHR 0x5C] @ ''t]+/, "", line)'',
     ''      sub(/[ '' @ [CHR 0x5C] @ ''t]+$/, "", line)'',
     ''      if (length(p) <= length(line) && substr(line, 1, length(p)) == p) found=1'',
     ''    } END { exit !found }'' @ [CHR 0x27] @ '' "$f"; then'',
     ''    return 1'',
     ''  fi'',
     ''  if grep -q "${LOADING:-loading}" "$f"; then'',
     ''    return 1'',
     ''  fi'',
     ''  return 0'',
     ''}'',
     [],
     ''PANEFILE="$DIR/.pane_now"'',
     ''PREVFILE="$DIR/.pane_prev"'',
     '': > "$PREVFILE"'',
     ''elapsed=0'',
     ''ready=0'',
     ''while [ "$elapsed" -le '' @ natText primeReadyBudget @ '' ]; do'',
     ''  tmux capture-pane -p -t main >"$PANEFILE" 2>/dev/null || : >"$PANEFILE"'',
     ''  if pane_ready "$PANEFILE" && cmp -s "$PANEFILE" "$PREVFILE"; then'',
     ''    ready=1'',
     ''    break'',
     ''  fi'',
     ''  cp "$PANEFILE" "$PREVFILE"'',
     ''  sleep '' @ natText primeInterval,
     ''  elapsed=$((elapsed + '' @ natText primeInterval @ ''))'',
     ''done'',
     [],
     ''pane_busy() {'',
     ''  tmux capture-pane -p -t main 2>/dev/null | grep -q "${BUSY:-esc to interrupt}"'',
     ''}'',
     [],
     ''if [ "$ready" -eq 1 ]; then'',
     ''  settle="$(awk -v ms="$DELAY_MS" '' @ [CHR 0x27] @ ''BEGIN{printf "%.3f", ms/1000}'' @ [CHR 0x27] @ '')"'',
     ''  sleep "$settle"'',
     ''  # Delivery rides tmux'' @ [CHR 0x27] @ ''s own paste path, never send-keys with the text as an'',
     ''  # argument: tmux 3.7b rejects an argument over ~16 KiB ("command too long",'',
     ''  # rc=1) and the worker-local charter is 20,857 bytes, so the literal-argument'',
     ''  # form died right here and the seat was handed NOTHING while the launch still'',
     ''  # looked healthy. load-buffer takes a FILE path, so no'',
     ''  # argument-size limit applies; paste-buffer -p keeps the prompt'' @ [CHR 0x27] @ ''s line feeds'',
     ''  # and -d deletes the buffer as it pastes, so a 20 KB prompt does not linger'',
     ''  # in the box'' @ [CHR 0x27] @ ''s tmux state. The explicit delete-buffer covers a paste that'',
     ''  # died mid-way, which is the only path where -d does not run.'',
     ''  if ! tmux load-buffer -b gc-prime-nudge "$DIR/nudge.txt"; then'',
     ''    printf '' @ [CHR 0x27] @ ''nudge_failed'' @ [CHR 0x5C] @ ''n'' @ [CHR 0x27] @ '' > "$DIR/status"'',
     ''    exit 0'',
     ''  fi'',
     ''  BEFORE="$DIR/.pane_pre_paste"'',
     ''  tmux capture-pane -p -t main >"$BEFORE" 2>/dev/null || : >"$BEFORE"'',
     ''  if ! tmux paste-buffer -p -d -t main -b gc-prime-nudge; then'',
     ''    tmux delete-buffer -b gc-prime-nudge 2>/dev/null'',
     ''    printf '' @ [CHR 0x27] @ ''nudge_failed'' @ [CHR 0x5C] @ ''n'' @ [CHR 0x27] @ '' > "$DIR/status"'',
     ''    exit 0'',
     ''  fi'',
     ''  # gc'' @ [CHR 0x27] @ ''s own paste-to-submit debounce (tmux.NudgeSession -> nudgeSubmitDebounce).'',
     ''  sleep '' @ seconds primeSubmitDebounceMs,
     ''  # Fail CLOSED on delivery. A paste that leaves the pane byte-identical put'',
     ''  # nothing in front of the agent: status is nudge_failed and prompted_at is'',
     ''  # NOT written, because a prime that records success while the pane still'',
     ''  # reads "Ask Codex to do anything" is exactly what made a dark lane look'',
     ''  # healthy. Only a definite no-change counts as failure - a pane'',
     ''  # that repainted for any reason at all passes - so this can never turn a real'',
     ''  # delivery into a false negative.'',
     ''  AFTER="$DIR/.pane_post_paste"'',
     ''  tmux capture-pane -p -t main >"$AFTER" 2>/dev/null || : >"$AFTER"'',
     ''  if cmp -s "$BEFORE" "$AFTER"; then'',
     ''    printf '' @ [CHR 0x27] @ ''nudge_failed'' @ [CHR 0x5C] @ ''n'' @ [CHR 0x27] @ '' > "$DIR/status"'',
     ''    exit 0'',
     ''  fi'',
     ''  confirmed=0'',
     ''  send=0'',
     ''  while [ "$send" -lt '' @ natText primeSubmitMaxSends @ '' ]; do'',
     ''    if [ "$send" -gt 0 ]; then'',
     ''      # Never re-send into a pane that already went busy - that would be a'',
     ''      # second submit of an already-started turn (submitEnterAndConfirm).'',
     ''      if pane_busy; then confirmed=1; break; fi'',
     ''      sleep '' @ seconds primeSubmitBackoffMs,
     ''    fi'',
     ''    # codex'' @ [CHR 0x27] @ ''s submit sequence is Escape THEN Enter, never a lone Enter: a'',
     ''    # send-keys burst lands as a bracketed paste, and codex reads a trailing'',
     ''    # lone Enter as a composer newline rather than submit.'',
     ''    tmux send-keys -t main Escape'',
     ''    tmux send-keys -t main Enter'',
     ''    poll=0'',
     ''    while [ "$poll" -lt '' @ natText primeConfirmPollsPerSend @ '' ]; do'',
     ''      if pane_busy; then confirmed=1; break; fi'',
     ''      sleep '' @ seconds primeConfirmPollMs,
     ''      poll=$((poll + 1))'',
     ''    done'',
     ''    [ "$confirmed" -eq 1 ] && break'',
     ''    send=$((send + 1))'',
     ''  done'',
     ''  date -u +%Y-%m-%dT%H:%M:%SZ > "$DIR/prompted_at"'',
     ''  if [ "$confirmed" -eq 1 ]; then'',
     ''    printf '' @ [CHR 0x27] @ ''delivered'' @ [CHR 0x5C] @ ''n'' @ [CHR 0x27] @ '' > "$DIR/status"'',
     ''  else'',
     ''    printf '' @ [CHR 0x27] @ ''submit_unconfirmed'' @ [CHR 0x5C] @ ''n'' @ [CHR 0x27] @ '' > "$DIR/status"'',
     ''  fi'',
     ''else'',
     ''  # The readiness budget is a fail-closed startup check, not a silent wait.'',
     ''  # Keep the last bounded pane view beside the status so the sidecar can tell'',
     ''  # an interactive trust dialog from a slow or dead agent after this window'',
     ''  # exits. A tmux capture failure still leaves an empty evidence file and the'',
     ''  # not_ready status below, never a false healthy result.'',
     ''  tmux capture-pane -p -t main -S -120 2>/dev/null > "$DIR/pane_tail" || :'',
     ''  printf '' @ [CHR 0x27] @ ''not_ready'' @ [CHR 0x5C] @ ''n'' @ [CHR 0x27] @ '' > "$DIR/status"'',
     ''fi'',
     []]\<close>

definition readyDelayMs :: "int \<Rightarrow> int" where
  "readyDelayMs wireValue = (if 0 < wireValue then wireValue else int primeDefaultReadyDelayMs)"

definition buildPrimeFiles :: "string \<Rightarrow> string \<Rightarrow> string \<Rightarrow> string \<Rightarrow> int \<Rightarrow> stageFile list" where
  "buildPrimeFiles prompt readyPrefix loading busy delay =
    [\<lparr>sfPath = primeScriptFile, sfContent = primeScript, sfMode = 493\<rparr>,
     \<lparr>sfPath = ''nudge.txt'', sfContent = prompt, sfMode = 384\<rparr>,
     \<lparr>sfPath = ''ready_prefix.txt'', sfContent = readyPrefix, sfMode = 384\<rparr>,
     \<lparr>sfPath = ''loading_marker.txt'', sfContent = loading, sfMode = 384\<rparr>,
     \<lparr>sfPath = ''busy_marker.txt'', sfContent = busy, sfMode = 384\<rparr>,
     \<lparr>sfPath = ''ready_delay_ms.txt'', sfContent = intText (readyDelayMs delay), sfMode = 384\<rparr>]"

definition primeFilesFor :: "string \<Rightarrow> stageConfig \<Rightarrow> stageFile list" where
  "primeFilesFor prompt cfg =
    buildPrimeFiles prompt (readyPromptPrefix cfg) (loadingMarker cfg) (busyMarker cfg) (cfg_readyDelayMs cfg)"

subsection \<open>When the pane is gone\<close>

definition paneGoneMarkers :: "string list" where
  "paneGoneMarkers = [''no server running'', ''error connecting to'']"

definition paneGone :: "string \<Rightarrow> bool" where
  "paneGone stderr = list_ex (containsS (toLower stderr)) paneGoneMarkers"

definition isFSErrorBody :: "string \<Rightarrow> bool" where
  "isFSErrorBody body =
    (let low = toLower body in
     containsS low ''no such file or directory'' \<or> containsS low ''permission denied'' \<or> containsS low ''unknown allocation''
     \<or> hasPrefix low ''stat '' \<or> hasPrefix low ''open '')"

definition looksLikeAgentExitRecord :: "string \<Rightarrow> bool" where
  "looksLikeAgentExitRecord body = containsS body ''exit=''"

definition lastLine :: "string \<Rightarrow> string" where
  "lastLine s =
    (case find (\<lambda>line. trimSpace line \<noteq> []) (rev (splitChar newline (trimRightChars {newline} s))) of
       None \<Rightarrow> [] | Some line \<Rightarrow> line)"

definition missingPath :: "string \<Rightarrow> string list" where
  "missingPath raw =
    (let line = trimSpace raw; p = trimPrefix line ''missing-path:'' in
     if p = line \<or> trimSpace p = [] then [] else [trimSpace p])"

definition hostPathFinding :: "string \<Rightarrow> string" where
  "hostPathFinding report =
    (let paths = concat (map missingPath (splitChar newline report)) in
     if paths = [] then []
     else '' AND THE BOX WAS GIVEN PATHS THAT DO NOT EXIST IN IT: '' @ joinStrings '', '' paths
       @ '' '' @ emDash @ '' these are absolute paths in the AGENT'' @ [quoteChar] @ ''S OWN ARGUMENTS, which are rendered on the ''
       @ ''orchestrator, where they do exist. Nothing in the image can fix this; the provider ''
       @ ''configuration has to name a path that is valid inside the allocation (stage the file, bake ''
       @ ''it into the image, or drop the argument in the runtime'' @ [quoteChar] @ ''s shape).'')"

definition readBoxFile :: "'w env \<Rightarrow> lifecycle \<Rightarrow> string \<Rightarrow> string \<Rightarrow> ('w lstate, string option) prog" where
  "readBoxFile ev l allocID path =
    bindS (attempt (world (readAllocFile (envNomad ev) (lcClient l) allocID path))) (\<lambda>r. case r of
      Inl e \<Rightarrow> returnS None
    | Inr raw \<Rightarrow> (let body = trimSpace raw in
        returnS (if body = [] \<or> isFSErrorBody body then None else Some body)))"

definition noExitRecord :: string where
  "noExitRecord = '' The pane'' @ [quoteChar] @ ''s command has exited (a tmux server exits with its last session), but this box ''
    @ ''wrote NO usable agent-capture record at alloc/data/agent.exit, so why it exited cannot be ''
    @ ''recovered from here. In the prebaked-image shape that record is the IMAGE'' @ [quoteChar] @ ''s responsibility: ''
    @ ''an image that does not write it makes this exact failure permanently unexplainable. Fix that ''
    @ ''in the image rather than looking further at tmux.''"

definition diagnosePaneGone :: "'w env \<Rightarrow> lifecycle \<Rightarrow> string \<Rightarrow> ('w lstate, string) prog" where
  "diagnosePaneGone ev l allocID =
    (if allocID = [] then returnS []
     else bindS (readBoxFile ev l allocID ''alloc/data/agent.exit'') (\<lambda>r.
       case r of
         Some rec \<Rightarrow>
           if looksLikeAgentExitRecord rec then
             bindS (readBoxFile ev l allocID ''alloc/data/agent.stderr'') (\<lambda>errRec.
             bindS (readBoxFile ev l allocID (''alloc/data/'' @ hostPathReportName)) (\<lambda>report.
             returnS ('' THE PANE'' @ [quoteChar] @ ''S COMMAND EXITED '' @ emDash @ '' a tmux server exits with its last session, and that ''
               @ ''session ends when its pane'' @ [quoteChar] @ ''s command does, so the server being gone IS the agent having ''
               @ ''died. The box'' @ [quoteChar] @ ''s own exit record says: '' @ execExcerpt (lastLine rec)
               @ (case errRec of None \<Rightarrow> []
                  | Some e \<Rightarrow> (let t = trimSpace (lastLine e) in if t \<noteq> [] then '' Its stderr ended: '' @ execExcerpt t else []))
               @ (case report of None \<Rightarrow> [] | Some t \<Rightarrow> hostPathFinding t))))
           else returnS noExitRecord
       | None \<Rightarrow> returnS noExitRecord))"

subsection \<open>The detached window\<close>

definition primeWindowExists :: "'w env \<Rightarrow> lifecycle \<Rightarrow> string \<Rightarrow> ('w lstate, bool) prog" where
  \<open>primeWindowExists ev l sessionName =
    bindS (currentAlloc ev l sessionName) (\<lambda>allocID.
    bindS (execAlloc ev allocID (lcExecTask l)
      [''/bin/sh'', ''-c'', ''tmux list-windows -t '' @ tmuxSessionName @ '' -F '' @ sq ''#{window_name}'' @ '' 2>/dev/null || true'']) (\<lambda>(code, out).
    returnS (code = 0 \<and> list_ex (\<lambda>name. trimSpace name = primeWindowName) (splitChar newline out))))\<close>

definition stagePrimeCommand :: "string list" where
  \<open>stagePrimeCommand =
    [''/bin/sh'', ''-c'',
     ''mkdir -p '' @ dq (''$NOMAD_SECRETS_DIR/'' @ primeDirName) @ '' && tar -x -f - -C '' @ dq (''$NOMAD_SECRETS_DIR/'' @ primeDirName),
     ''stage-prime'']\<close>

definition spawnPrimeCommand :: "string list" where
  \<open>spawnPrimeCommand =
    [''/bin/sh'', ''-c'',
     ''tmux new-window -d -t '' @ tmuxSessionName @ '' -n '' @ primeWindowName @ '' ''
     @ sq (''/bin/sh '' @ dq (''$NOMAD_SECRETS_DIR/'' @ primeDirName @ ''/'' @ primeScriptFile))]\<close>

definition spawnPrimeWindow :: "'w env \<Rightarrow> lifecycle \<Rightarrow> string \<Rightarrow> ('w lstate, unit) prog" where
  "spawnPrimeWindow ev l sessionName =
    (let ctx = ''spawning prime window for '' @ goQuote sessionName @ '': '' in
     bindS (currentAlloc ev l sessionName) (\<lambda>allocID.
     bindS (wrapS ctx [] (execAllocObserved ev allocID (lcExecTask l) spawnPrimeCommand [])) (\<lambda>(code, out, boxErr).
     if code \<noteq> 0 then
       bindS (if paneGone boxErr then diagnosePaneGone ev l allocID else returnS []) (\<lambda>cause.
       failS (ENew (ctx @ ''tmux new-window exited '' @ intText code @ '': stdout='' @ execExcerpt out
         @ '' stderr='' @ execExcerpt boxErr
         @ (if cause \<noteq> [] then cause
            else '' (the launch of this session was already confirmed, so tmux was reachable moments ''
              @ ''ago '' @ emDash @ '' a socket path difference between the launch env and this exec, or a server that ''
              @ ''exited, are the two shapes that produce this)''))))
     else logDecision l (''startup-prime session='' @ sessionName @ '' window=spawned''))))"

definition startupPrimeDetached :: "'w env \<Rightarrow> host \<Rightarrow> lifecycle \<Rightarrow> string \<Rightarrow> stageConfig \<Rightarrow> ('w lstate, unit) prog" where
  "startupPrimeDetached ev h l sessionName cfg =
    (let prompt = fst (startupPrompt cfg) in
     if prompt = [] then returnS ()
     else bindS (sidecar_load sessionName) (\<lambda>found. case found of
       None \<Rightarrow> failS (ENew (''session '' @ goQuote sessionName @ '' binding vanished before the startup prompt could be primed''))
     | Some b \<Rightarrow>
         if PromptedAt b \<noteq> None then returnS ()
         else bindS (attempt (primeWindowExists ev l sessionName)) (\<lambda>r. case r of
           Inl e \<Rightarrow> logDecision l (''startup-prime session='' @ sessionName @ '' window-check error: '' @ errText e)
         | Inr True \<Rightarrow> returnS ()
         | Inr False \<Rightarrow>
             (case buildTar (primeFilesFor prompt cfg) of
                Inl e \<Rightarrow> failS (EWrap (''building prime script for '' @ goQuote sessionName @ '': '') e [])
              | Inr entries \<Rightarrow>
                  bindS (wrapS (''staging prime script for '' @ goQuote sessionName @ '': '') []
                    (execStage ev l sessionName stagePrimeCommand (hostTar h entries))) (\<lambda>_.
                  spawnPrimeWindow ev l sessionName)))))"

subsection \<open>The markers\<close>

text \<open>The two files of a marker directory in one read, split at the record separator.\<close>

definition markerCommand :: "string \<Rightarrow> string \<Rightarrow> string \<Rightarrow> string list" where
  "markerCommand dir a b =
    [''/bin/sh'', ''-c'',
     ''cat '' @ dq (''$NOMAD_SECRETS_DIR/'' @ dir @ ''/'' @ a) @ '' 2>/dev/null; printf '' @ sq ([CHR 0x5C] @ ''036'') @ ''; cat ''
     @ dq (''$NOMAD_SECRETS_DIR/'' @ dir @ ''/'' @ b) @ '' 2>/dev/null'']"

definition splitMarker :: "string \<Rightarrow> string \<times> string" where
  "splitMarker out =
    (trimSpace (takeWhile (\<lambda>c. c \<noteq> CHR 0x1E) out), trimSpace (drop 1 (dropWhile (\<lambda>c. c \<noteq> CHR 0x1E) out)))"

definition promptStatusDelivered :: string where
  "promptStatusDelivered = ''delivered''"

definition promptStatusNotReady :: string where
  "promptStatusNotReady = ''not_ready''"

definition applyPromptMarker :: "'w env \<Rightarrow> string \<Rightarrow> string \<Rightarrow> string \<Rightarrow> binding \<Rightarrow> ('w lstate, binding) prog" where
  "applyPromptMarker ev marker status pane b =
    bindS (if marker = [] then returnS (PromptedAt b)
           else case envParseTime ev marker of
             Some t \<Rightarrow> returnS (Some t)
           | None \<Rightarrow> bindS (timeNow ev) (\<lambda>now. returnS (Some now))) (\<lambda>at.
    returnS (b\<lparr>PromptedAt := at,
      PromptStatus := (if status \<noteq> [] then status else if marker \<noteq> [] then promptStatusDelivered else PromptStatus b),
      PromptPaneTail := pane\<rparr>))"

definition syncPromptedMarker :: "'w env \<Rightarrow> lifecycle \<Rightarrow> string \<Rightarrow> ('w lstate, unit) prog" where
  "syncPromptedMarker ev l sessionName =
    bindS (attempt (sidecar_load sessionName)) (\<lambda>r. case r of
      Inr (Some b) \<Rightarrow>
        if PromptedAt b \<noteq> None \<or> PromptPending b = None then returnS ()
        else bindS (attempt (currentAlloc ev l sessionName)) (\<lambda>ra. case ra of
          Inl e \<Rightarrow> returnS ()
        | Inr allocID \<Rightarrow>
            bindS (attempt (execAlloc ev allocID (lcExecTask l) (markerCommand primeDirName ''prompted_at'' ''status''))) (\<lambda>rx. case rx of
              Inl e \<Rightarrow> returnS ()
            | Inr (code, out) \<Rightarrow>
                if code \<noteq> 0 then returnS ()
                else bindS (attempt (execAlloc ev allocID (lcExecTask l)
                    [''/bin/sh'', ''-c'', ''cat '' @ dq (''$NOMAD_SECRETS_DIR/'' @ primeDirName @ ''/pane_tail'') @ '' 2>/dev/null''])) (\<lambda>rt.
                  let pane = (case rt of Inr (tailCode, t) \<Rightarrow> if tailCode = 0 then trimSpace t else [] | Inl e \<Rightarrow> []) in
                  case splitMarker out of (marker, status) \<Rightarrow>
                    if marker = [] \<and> status = [] then returnS ()
                    else bindS (applyPromptMarker ev marker status pane b) (\<lambda>b'.
                      bindS (attempt (sidecar_save b')) (\<lambda>rs. case rs of
                        Inr _ \<Rightarrow> returnS ()
                      | Inl e \<Rightarrow> logDecision l (''startup-prime session='' @ sessionName @ '' marker sync could not save: '' @ errText e))))))
    | _ \<Rightarrow> returnS ())"

definition syncCityCheckoutMarker :: "'w env \<Rightarrow> host \<Rightarrow> lifecycle \<Rightarrow> string \<Rightarrow> ('w lstate, unit) prog" where
  "syncCityCheckoutMarker ev h l sessionName =
    (if trimSpace (getenv h envCityMirrorURL) = [] then returnS ()
     else bindS (attempt (sidecar_load sessionName)) (\<lambda>r. case r of
      Inr (Some b) \<Rightarrow>
        bindS (attempt (currentAlloc ev l sessionName)) (\<lambda>ra. case ra of
          Inl e \<Rightarrow> returnS ()
        | Inr allocID \<Rightarrow>
            bindS (attempt (execAlloc ev allocID (lcExecTask l) (markerCommand cityMirrorDirName ''sha'' ''status''))) (\<lambda>rx. case rx of
              Inl e \<Rightarrow> returnS ()
            | Inr (code, out) \<Rightarrow>
                if code \<noteq> 0 then returnS ()
                else case splitMarker out of (sha, status) \<Rightarrow>
                  if sha = [] \<and> status = [] then returnS ()
                  else bindS (whenS (status \<noteq> [] \<and> status \<noteq> CityCheckoutStatus b)
                      (logDecision l (''city-mirror session='' @ sessionName @ '' status='' @ status @ '' sha='' @ sha))) (\<lambda>_.
                    if sha = CityCheckoutSHA b \<and> status = CityCheckoutStatus b then returnS ()
                    else bindS (attempt (sidecar_save (b\<lparr>CityCheckoutSHA := sha, CityCheckoutStatus := status\<rparr>))) (\<lambda>rs. case rs of
                        Inr _ \<Rightarrow> returnS ()
                      | Inl e \<Rightarrow> logDecision l (''city-mirror session='' @ sessionName @ '' checkout sha/status sync could not save: '' @ errText e)))))
    | _ \<Rightarrow> returnS ()))"

end
