(* ===== verification/Fake_World.thy ===== *)
theory Fake_World
  imports Lifecycle_Base Fake_Nomad
begin

text \<open>
  The runtime pack on the repository's own fake cluster, the configuration its
  integration tests run: the world of the lifecycle is the state of
  \<^verbatim>\<open>fakenomad\<close> and a clock. Requests go through the server's router; the Nomad SDK
  calls become the requests the SDK documents, with the response decoded; the
  effect of a command inside an allocation is a parameter.
\<close>

record fworld =
  fwServer :: fserver
  fwClock :: gotime

text \<open>One request takes one tick of the clock.\<close>

definition fakeHttp :: "(string \<Rightarrow> taskSpec \<Rightarrow> taskFate) \<Rightarrow> http_request \<Rightarrow> (fworld, http_response) prog" where
  "fakeHttp host rq w =
    (case serveHTTP host (fwClock w div second) rq (fwServer w) of
       (rs, s) \<Rightarrow> (Ok rs, \<lparr>fwServer = s, fwClock = fwClock w + 1\<rparr>))"

definition sdkError :: "http_response \<Rightarrow> goerr" where
  "sdkError rs = ENew (''Unexpected response code: '' @ natText (rsStatus rs) @ '' ('' @ rsRaw rs @ '')'')"

definition fakeDispatch ::
  "(string \<Rightarrow> taskSpec \<Rightarrow> taskFate) \<Rightarrow> string \<Rightarrow> gomap \<Rightarrow> string \<Rightarrow> string \<Rightarrow> (fworld, string option) prog" where
  "fakeDispatch host parent meta ns token =
    bindS (fakeHttp host \<lparr>rqMethod = ''POST'', rqPath = ''/v1/job/'' @ parent @ ''/dispatch'',
        rqQuery = [(''namespace'', ns), (''idempotency_token'', token)],
        rqBody = Some (JObj [(''Meta'', encStrMap meta)]), rqToken = []\<rparr>) (\<lambda>rs.
    if rsStatus rs \<noteq> 200 then failS (sdkError rs)
    else returnS (Some (strOr ''DispatchedJobID'' (objOf (rsDoc rs)))))"

definition decSdkAlloc :: "json \<Rightarrow> sdkAlloc" where
  "decSdkAlloc j =
    (let a = objOf (Some j) in
     \<lparr>saID = strOr ''ID'' a, saClientStatus = strOr ''ClientStatus'' a, saDesiredStatus = strOr ''DesiredStatus'' a,
      saTaskStates = map (\<lambda>(t, st). (t, Some \<lparr>stState = st, stEvents = []\<rparr>)) (mapOr ''TaskStates'' a)\<rparr>)"

definition fakeAllocations ::
  "(string \<Rightarrow> taskSpec \<Rightarrow> taskFate) \<Rightarrow> string \<Rightarrow> string \<Rightarrow> nat \<Rightarrow> duration \<Rightarrow> (fworld, sdkAlloc option list \<times> nat option) prog" where
  "fakeAllocations host ns jobID sinceIndex wait =
    bindS (fakeHttp host \<lparr>rqMethod = ''GET'', rqPath = ''/v1/job/'' @ jobID @ ''/allocations'',
        rqQuery = [(''namespace'', ns)], rqBody = None, rqToken = []\<rparr>) (\<lambda>rs.
    if rsStatus rs \<noteq> 200 then failS (sdkError rs)
    else returnS (map (\<lambda>j. Some (decSdkAlloc j)) (arrOf (rsDoc rs)), parseUint64 (rsIndex rs)))"

definition fakeEnv ::
  "(string \<Rightarrow> taskSpec \<Rightarrow> taskFate) \<Rightarrow> (string \<Rightarrow> string \<Rightarrow> string list \<Rightarrow> string \<Rightarrow> int \<times> string \<times> string) \<Rightarrow> fworld env" where
  "fakeEnv host run =
    \<lparr>envNomad = \<lparr>httpDo = fakeHttp host, sdkDispatch = fakeDispatch host, sdkAllocations = fakeAllocations host\<rparr>,
     envNow = (\<lambda>w. (fwClock w, w)),
     envSleep = (\<lambda>d w. w\<lparr>fwClock := fwClock w + max 0 d\<rparr>),
     envRand = (\<lambda>w. (Inr (map (\<lambda>i. word_of_int (fwClock w) + word_of_nat i) [0..<16]), w)),
     envExec = (\<lambda>a t c i w. (Ok (run a t c i), w\<lparr>fwClock := fwClock w + 1\<rparr>)),
     envFmtTime = intText, envParseTime = parseInt\<rparr>"

lemma fakeEnv_sel [simp]:
  "httpDo (envNomad (fakeEnv host run)) = fakeHttp host" "sdkDispatch (envNomad (fakeEnv host run)) = fakeDispatch host"
  "sdkAllocations (envNomad (fakeEnv host run)) = fakeAllocations host" "envNow (fakeEnv host run) w = (fwClock w, w)"
  "envSleep (fakeEnv host run) d w = w\<lparr>fwClock := fwClock w + max 0 d\<rparr>"
  "envExec (fakeEnv host run) a t c i w = (Ok (run a t c i), w\<lparr>fwClock := fwClock w + 1\<rparr>)"
  by (simp_all add: fakeEnv_def)

text \<open>A fresh server, and a sidecar directory with the given files.\<close>

definition fakeState :: "(string \<times> content) list \<Rightarrow> fworld lstate" where
  "fakeState files =
    \<lparr>fs_files = files, fs_faults = [], lsWorld = \<lparr>fwServer = newServer, fwClock = 1000\<rparr>, lsLocks = [], lsLog = [],
     lsSink = [], lsSinkFaults = []\<rparr>"

end
