(* ===== verification/Session.thy ===== *)
theory Session
  imports Prime
begin

text \<open>
  Putting an agent into a box (\<^verbatim>\<open>ops.go\<close>, \<^verbatim>\<open>pem_advice.go\<close>, part of \<^verbatim>\<open>drain_ack.go\<close>): the advice about
  declared secrets, staging under the pending marker, the launch and what is recorded
  about it, relaunch and exec.
\<close>

subsection \<open>Advice about the declared secrets\<close>

text \<open>\<^verbatim>\<open>strings.ToUpper\<close>, exact for ASCII results: the two letters outside ASCII whose capital is
  an ASCII letter are mapped, every other character outside ASCII is left.\<close>

fun toUpper :: "string \<Rightarrow> string" where
  "toUpper (a # b # s) =
    (if [a, b] = [CHR 0xC4, CHR 0xB1] then CHR ''I'' # toUpper s
     else if [a, b] = [CHR 0xC5, CHR 0xBF] then CHR ''S'' # toUpper s
     else (if byteIn 97 122 a then char_of (of_char a - 32 :: nat) else a) # toUpper (b # s))"
| "toUpper [a] = [if byteIn 97 122 a then char_of (of_char a - 32 :: nat) else a]"
| "toUpper [] = []"

definition credentialShapedSubstrings :: "string list" where
  "credentialShapedSubstrings = 
    [''TOKEN'', ''SECRET'', ''PASSWORD'', ''CREDENTIAL'', ''OAUTH'', ''PRIVATE_KEY'', ''API_KEY'', ''ACCESS_KEY'', ''AUTH_JSON'']"

definition countingNotCredential :: "string list" where
  "countingNotCredential = [''TOKENS'', ''TOKEN_LIMIT'', ''TOKEN_COUNT'', ''TOKEN_BUDGET'', ''CONTEXT_WINDOW'']"

definition credentialShapedName :: "string \<Rightarrow> bool" where
  "credentialShapedName key \<longleftrightarrow>
    \<not> list_ex (containsS (toUpper key)) countingNotCredential \<and> list_ex (containsS (toUpper key)) credentialShapedSubstrings"

definition warnCredentialShapedNames :: "string \<Rightarrow> string list \<Rightarrow> string" where
  "warnCredentialShapedNames sessionName declared =
    (let flagged = sort (filter (\<lambda>k. k \<noteq> [] \<and> pemPointerName k = None \<and> credentialShapedName k) (map trimSpace declared)) in
     if flagged = [] then []
     else ''warning: session '' @ goQuote sessionName @ '' stages '' @ natText (length flagged)
       @ '' credential-shaped key(s) into the agent'' @ [quoteChar] @ ''s PROCESS ENVIRONMENT, ''
       @ ''not as files: '' @ joinStrings '', '' flagged @ ''. Those values are readable in /proc/<pid>/environ by the agent and every process it ''
       @ ''spawns. Renaming a key to end in _PEM routes it to a file under $NOMAD_SECRETS_DIR instead and hands ''
       @ ''the agent a PATH, so the bytes never enter an environment '' @ emDash @ '' and the name is what decides this, which ''
       @ ''is not reversible after the value has already been staged under the other name. If these are feature ''
       @ ''flags rather than credentials, the name is the only thing misleading here and this warning is the ''
       @ ''cost of that.'' @ [newline])"

definition warnIncompleteCityTarget :: "string \<Rightarrow> gomap \<Rightarrow> string" where
  "warnIncompleteCityTarget sessionName env =
    (let name = trimSpace (mapGet env ''GC_CITY_NAME''); url = trimSpace (mapGet env ''GC_CITY_URL'');
         missing = (if url = [] then ''GC_CITY_URL'' else ''GC_CITY_NAME'');
         present = (if url = [] then ''GC_CITY_NAME'' else ''GC_CITY_URL'') in
     if (name = []) = (url = []) then []
     else ''gc-runtime-nomad: warning: session '' @ goQuote sessionName @ '' sets '' @ present @ '' but not '' @ missing @ '', so NO remote city ''
       @ ''context was staged into the box. Both halves are required '' @ emDash @ '' neither alone describes a ''
       @ ''city. The box will come up and look healthy, and every in-box gc call that needs the ''
       @ ''city will fail as though the city were unreachable.'' @ [newline])"

definition warnDeclaredSecrets :: "host \<Rightarrow> string \<Rightarrow> stageConfig \<Rightarrow> ('w lstate, unit) prog" where
  "warnDeclaredSecrets h sessionName cfg =
    (case mergeExtraSecretEnv h (cfgEnv cfg) (extraSecretKeys h) of (merged, extra, absent) \<Rightarrow>
     let w1 = warnAbsentSecretKeys sessionName absent; w2 = warnIncompleteCityTarget sessionName merged;
         w3 = warnCredentialShapedNames sessionName (extraSecretKeys h) in
     bindS (whenS (w1 \<noteq> []) (warnLine w1)) (\<lambda>_.
     bindS (whenS (w2 \<noteq> []) (warnLine w2)) (\<lambda>_. whenS (w3 \<noteq> []) (warnLine w3))))"

subsection \<open>Staging\<close>

definition stageWorkspaceCommand :: "string \<Rightarrow> string list" where
  "stageWorkspaceCommand workDir =
    [''/bin/sh'', ''-c'', ''mkdir -p '' @ dq ''$1'' @ '' && tar -x -f - -C '' @ dq ''$1'', ''stage-workspace'', workDir]"

definition stageSecretsCommand :: "string list" where
  "stageSecretsCommand =
    [''/bin/sh'', ''-c'', ''mkdir -p '' @ dq ''$NOMAD_SECRETS_DIR'' @ '' && tar -x -f - -C '' @ dq ''$NOMAD_SECRETS_DIR'', ''stage-secrets'']"

text \<open>The exec of one archive with the diagnosis of a box that did not come up.\<close>

definition stageArchive ::
  "'w env \<Rightarrow> host \<Rightarrow> lifecycle \<Rightarrow> string \<Rightarrow> string \<Rightarrow> string list \<Rightarrow> stageFile list \<Rightarrow> ('w lstate, unit) prog" where
  "stageArchive ev h l sessionName what command files =
    (let ctx = ''staging '' @ what @ '' for '' @ goQuote sessionName @ '': '' in
     case buildTar files of
       Inl e \<Rightarrow> failS (EWrap ctx e [])
     | Inr entries \<Rightarrow>
         bindS (attempt (execStage ev l sessionName command (hostTar h entries))) (\<lambda>r. case r of
           Inr _ \<Rightarrow> returnS ()
         | Inl e \<Rightarrow> bindS (provisionFailureDetail ev h l sessionName) (\<lambda>detail.
             failS (EWrap (if detail \<noteq> [] then ctx @ detail @ '': '' else ctx) e []))))"

fun stageArgFiles :: "'w env \<Rightarrow> lifecycle \<Rightarrow> string \<Rightarrow> stageFile list \<Rightarrow> ('w lstate, unit) prog" where
  "stageArgFiles ev l sessionName [] = returnS ()"
| "stageArgFiles ev l sessionName (f # fs) =
    bindS (attempt (execStage ev l sessionName (argFileStageCommand (sfPath f)) (sfContent f))) (\<lambda>r.
    bindS (case r of
        Inr _ \<Rightarrow> returnS ()
      | Inl e \<Rightarrow> logDecision l (''staging the argument-named file '' @ goQuote (sfPath f) @ '' for '' @ goQuote sessionName
          @ '' failed, so the box will report it missing: '' @ errText e)) (\<lambda>_.
    stageArgFiles ev l sessionName fs))"

definition stage :: "'w env \<Rightarrow> host \<Rightarrow> lifecycle \<Rightarrow> string \<Rightarrow> stageConfig \<Rightarrow> ('w lstate, unit) prog" where
  "stage ev h l sessionName cfg =
    (case copyFilesToStageFiles h (cfgCopyFiles cfg) of
       Inl e \<Rightarrow> failS (EWrap (''staging workspace for '' @ goQuote sessionName @ '': '') e [])
     | Inr workspaceFiles \<Rightarrow>
         bindS (whenS (workspaceFiles \<noteq> [])
           (stageArchive ev h l sessionName ''workspace''
             (stageWorkspaceCommand (if cfgWorkDir cfg = [] then ''.'' else cfgWorkDir cfg)) workspaceFiles)) (\<lambda>_.
         bindS (stageArgFiles ev l sessionName (argFilesToStage h (cfgCommand cfg))) (\<lambda>_.
         case stagedSecretEnv h cfg of (secretEnv, extraKeys) \<Rightarrow>
         bindS (if lcAgentImage l = [] then returnS []
                else wrapS (''staging secrets for '' @ goQuote sessionName @ '': '') [] (boxSecretsDir ev l sessionName)) (\<lambda>secretsDir.
         case secretFilesOf secretEnv extraKeys secretsDir of
           Inl e \<Rightarrow> failS (EWrap (''staging secrets for '' @ goQuote sessionName @ '': '') e [])
         | Inr secretFiles \<Rightarrow>
             whenS (secretFiles \<noteq> []) (stageArchive ev h l sessionName ''secrets'' stageSecretsCommand secretFiles)))))"

text \<open>A change of the session's binding, re-read first; \<open>f\<close> gives nothing when it already holds.\<close>

definition updateBinding :: "string \<Rightarrow> string \<Rightarrow> (binding \<Rightarrow> binding option) \<Rightarrow> ('w lstate, unit) prog" where
  "updateBinding sessionName what f =
    bindS (sidecar_load sessionName) (\<lambda>found. case found of
      None \<Rightarrow> failS (ENew (''session '' @ goQuote sessionName @ '' binding vanished before '' @ what))
    | Some b \<Rightarrow> (case f b of None \<Rightarrow> returnS () | Some b' \<Rightarrow> sidecar_save b'))"

definition savePromptPending :: "string \<Rightarrow> stageConfig \<Rightarrow> ('w lstate, unit) prog" where
  "savePromptPending sessionName cfg =
    whenS (fst (startupPrompt cfg) \<noteq> [])
      (updateBinding sessionName ''its startup prompt could be recorded'' (\<lambda>b. Some (b\<lparr>PromptPending := Some (promptSubset cfg)\<rparr>)))"

definition saveLifecyclePending :: "string \<Rightarrow> stageConfig \<Rightarrow> ('w lstate, unit) prog" where
  "saveLifecyclePending sessionName cfg =
    (let v = trimSpace (cfgLifecycle cfg) in
     whenS (v \<noteq> [])
       (updateBinding sessionName ''its lifecycle could be recorded'' (\<lambda>b. if Lifecycle b = v then None else Some (b\<lparr>Lifecycle := v\<rparr>))))"

definition setStagePending :: "string \<Rightarrow> bool \<Rightarrow> ('w lstate, unit) prog" where
  "setStagePending sessionName pending =
    updateBinding sessionName ''staging could be recorded''
      (\<lambda>b. if StagePending b = pending then None else Some (b\<lparr>StagePending := pending\<rparr>))"

definition stageTracked :: "'w env \<Rightarrow> host \<Rightarrow> lifecycle \<Rightarrow> string \<Rightarrow> stageConfig \<Rightarrow> ('w lstate, unit) prog" where
  "stageTracked ev h l sessionName cfg =
    bindS (savePromptPending sessionName cfg) (\<lambda>_.
    bindS (saveLifecyclePending sessionName cfg) (\<lambda>_.
    if \<not> stagesAnything h cfg \<and> lcAgentImage l = [] then stage ev h l sessionName cfg
    else bindS (setStagePending sessionName True) (\<lambda>_.
      bindS (stage ev h l sessionName cfg) (\<lambda>_. setStagePending sessionName False))))"

subsection \<open>Launch\<close>

definition launchWithCommand :: "'w env \<Rightarrow> lifecycle \<Rightarrow> string \<Rightarrow> string list \<Rightarrow> ('w lstate, unit) prog" where
  "launchWithCommand ev l sessionName command =
    (let ctx = ''launching session '' @ goQuote sessionName @ '': '' in
     bindS (awaitExecAllocReady ev l sessionName) (\<lambda>allocID.
     retryAllocExecReady ev
       (bindS (wrapS ctx [] (execAllocObserved ev allocID (lcExecTask l) command [])) (\<lambda>(code, out, boxErr).
        if code \<noteq> 0 then failS (ENew (ctx @ ''launch command exited '' @ intText code @ '': stdout='' @ execExcerpt out
          @ '' stderr='' @ execExcerpt boxErr))
        else returnS ()))))"

definition launch :: "'w env \<Rightarrow> host \<Rightarrow> lifecycle \<Rightarrow> string \<Rightarrow> gomap \<Rightarrow> string \<Rightarrow> string \<Rightarrow> ('w lstate, unit) prog" where
  "launch ev h l sessionName env workDir providerCommand =
    (case launchCommand h sessionName env workDir providerCommand of
       Inl e \<Rightarrow> failS e
     | Inr command \<Rightarrow> launchWithCommand ev l sessionName command)"

definition warnIfBoxGCIsStale :: "'w env \<Rightarrow> host \<Rightarrow> lifecycle \<Rightarrow> string \<Rightarrow> string \<Rightarrow> ('w lstate, unit) prog" where
  "warnIfBoxGCIsStale ev h l sessionName allocID =
    (let commit = hostGCCommit h; say = (\<lambda>w. whenS (w \<noteq> []) (logDecision l (w @ '' (session '' @ goQuote sessionName @ '')''))) in
     if commit = [] then returnS ()
     else bindS (attempt (execAlloc ev allocID (lcExecTask l) inBoxVersionCommand)) (\<lambda>r. case r of
       Inl e \<Rightarrow> returnS ()
     | Inr (code, out) \<Rightarrow>
         if boxGCLoadFailure out \<noteq> [] then say (boxGCLoadFailure out)
         else say (staleBoxGCWarning commit (gcCommitFromVersionJSON out))))"

definition warnIfBoxGCCannotClaim :: "'w env \<Rightarrow> host \<Rightarrow> lifecycle \<Rightarrow> string \<Rightarrow> ('w lstate, unit) prog" where
  "warnIfBoxGCCannotClaim ev h l sessionName =
    bindS (attempt (currentAlloc ev l sessionName)) (\<lambda>ra. case ra of
      Inl e \<Rightarrow> returnS ()
    | Inr allocID \<Rightarrow>
        bindS (attempt (execAlloc ev allocID (lcExecTask l) inBoxProbeCommand)) (\<lambda>r. case r of
          Inl e \<Rightarrow> logDecision l (''in-box gc capability probe did not run for session '' @ goQuote sessionName @ '': '' @ errText e @ '' ''
            @ ''(so whether the gc INSIDE the box can claim is unverified; a compliant host ''
            @ ''gc with a base-lineage gc in the image gives green boxes and dark seats)'')
        | Inr (code, out) \<Rightarrow>
            bindS (whenS (inBoxWorkerSurfaceWarning out \<noteq> [])
              (logDecision l (inBoxWorkerSurfaceWarning out @ '' (session '' @ goQuote sessionName @ '')''))) (\<lambda>_.
            warnIfBoxGCIsStale ev h l sessionName allocID)))"

text \<open>A field of the binding that is only overwritten by a value that is not empty.\<close>

definition overwrite :: "string \<Rightarrow> string \<Rightarrow> string" where
  "overwrite new old = (if new \<noteq> [] then new else old)"

definition launchedBinding :: "int \<Rightarrow> string \<Rightarrow> string \<Rightarrow> string \<Rightarrow> binding \<Rightarrow> binding" where
  "launchedBinding pid workDir providerCommand lifecycleValue b =
    b\<lparr>Launched := True, AgentPID := pid, WorkDir := overwrite workDir (WorkDir b),
      ProviderCommand := overwrite providerCommand (ProviderCommand b), Lifecycle := overwrite lifecycleValue (Lifecycle b)\<rparr>"

definition confirmLaunched ::
  "'w env \<Rightarrow> host \<Rightarrow> lifecycle \<Rightarrow> string \<Rightarrow> string \<Rightarrow> string \<Rightarrow> string \<Rightarrow> ('w lstate, unit) prog" where
  "confirmLaunched ev h l sessionName workDir providerCommand lifecycleValue =
    bindS (warnIfPaneRunsNoAgent ev l sessionName) (\<lambda>_.
    bindS (warnIfBoxGCCannotClaim ev h l sessionName) (\<lambda>_.
    bindS (attempt (capturePanePID ev l sessionName)) (\<lambda>rp.
    updateBinding sessionName ''launch could be recorded''
      (\<lambda>b. Some (launchedBinding (case rp of Inr pid \<Rightarrow> pid | Inl e \<Rightarrow> 0) workDir providerCommand lifecycleValue b)))))"

text \<open>The recorded binding, nothing when it is missing or unreadable.\<close>

definition peekBinding :: "string \<Rightarrow> ('w lstate, binding option) prog" where
  "peekBinding sessionName =
    bindS (attempt (sidecar_load sessionName)) (\<lambda>r. returnS (case r of Inr found \<Rightarrow> found | Inl e \<Rightarrow> None))"

definition markLaunched :: "'w env \<Rightarrow> host \<Rightarrow> lifecycle \<Rightarrow> string \<Rightarrow> stageConfig \<Rightarrow> ('w lstate, unit) prog" where
  "markLaunched ev h l sessionName cfg =
    (let wd = cfgWorkDir cfg; pc = trimSpace (cfgCommand cfg) in
     bindS (if wd = [] \<or> pc = [] then peekBinding sessionName else returnS None) (\<lambda>found.
     let workDir = (case found of Some b \<Rightarrow> overwrite wd (WorkDir b) | None \<Rightarrow> wd);
         providerCommand = (case found of Some b \<Rightarrow> overwrite pc (trimSpace (ProviderCommand b)) | None \<Rightarrow> pc) in
     bindS (launch ev h l sessionName (cfgEnv cfg) workDir providerCommand) (\<lambda>_.
     bindS (confirmLaunched ev h l sessionName workDir providerCommand (cfgLifecycle cfg)) (\<lambda>_.
     startupPrimeDetached ev h l sessionName cfg))))"

definition markTransportLaunched :: "'w env \<Rightarrow> host \<Rightarrow> lifecycle \<Rightarrow> string \<Rightarrow> string list \<Rightarrow> ('w lstate, unit) prog" where
  "markTransportLaunched ev h l sessionName transport =
    (if length transport \<noteq> 6 then failS (ENew (''invalid transport launch argv length '' @ natText (length transport)))
     else bindS (peekBinding sessionName) (\<lambda>found.
       let workDir = (case found of Some b \<Rightarrow> WorkDir b | None \<Rightarrow> []) in
       bindS (launchWithCommand ev l sessionName
         (buildLaunchCommandForTmuxWithPaneCommand h [] (take 4 (drop 1 transport)) workDir (transport ! 5))) (\<lambda>_.
       bindS (peekBinding sessionName) (\<lambda>pending.
       let cfg = (case pending of Some b \<Rightarrow> (case PromptPending b of Some c \<Rightarrow> c | None \<Rightarrow> emptyConfig) | None \<Rightarrow> emptyConfig) in
       bindS (confirmLaunched ev h l sessionName workDir (transport ! 5) (cfgLifecycle cfg)) (\<lambda>_.
       startupPrimeDetached ev h l sessionName cfg)))))"

definition opRelaunch :: "'w env \<Rightarrow> host \<Rightarrow> lifecycle \<Rightarrow> string \<Rightarrow> ('w lstate, unit) prog" where
  "opRelaunch ev h l sessionName =
    bindS (wrapS (''relaunching session '' @ goQuote sessionName @ '': '') [] (currentAlloc ev l sessionName)) (\<lambda>_.
    markLaunched ev h l sessionName emptyConfig)"

subsection \<open>Exec\<close>

text \<open>The exit code and the output of the command.\<close>

definition opExec :: "'w env \<Rightarrow> host \<Rightarrow> lifecycle \<Rightarrow> string \<Rightarrow> string list \<Rightarrow> ('w lstate, int \<times> string) prog" where
  "opExec ev h l sessionName command =
    (case separableTransportLaunch command of
       Some transport \<Rightarrow>
         withLock sessionName
           (bindS (wrapS (''launching transport session '' @ goQuote sessionName @ '': '') []
             (markTransportLaunched ev h l sessionName transport)) (\<lambda>_. returnS (0, [])))
     | None \<Rightarrow>
         bindS (currentAlloc ev l sessionName) (\<lambda>allocID.
         bindS (wrapS (''exec on session '' @ goQuote sessionName @ '': '') []
           (execAllocObserved ev allocID (lcExecTask l) command [])) (\<lambda>(code, out, boxErr).
         bindS (whenS (code \<noteq> 0) (logDecision l (''exec on session '' @ goQuote sessionName @ '' exited '' @ intText code
           @ '': stdout='' @ execExcerpt out @ '' stderr='' @ execExcerpt boxErr))) (\<lambda>_.
         returnS (code, out)))))"

end
