(* ===== verification/Adoption.thy ===== *)
theory Adoption
  imports Session
begin

text \<open>
  The operations that mint, adopt and observe sessions (\<^verbatim>\<open>ops.go\<close>, \<^verbatim>\<open>drain_ack.go\<close>): what is done
  with a box that is already there, provision and start, the reap of a drained one-shot
  session, is-running and list-running.
\<close>

subsection \<open>What to do with a live child\<close>

datatype adoptPath = adoptReuse | adoptReject | adoptSelfHealLaunched | adoptReap

definition defaultAdoptMaxAge :: duration where
  "defaultAdoptMaxAge = 1800 * second"

definition adoptAgeLimit :: "lifecycle \<Rightarrow> duration" where
  "adoptAgeLimit l = (if 0 < lcAdoptMaxAge l then lcAdoptMaxAge l else defaultAdoptMaxAge)"

text \<open>The decision for a child whose probe answered \<open>status\<close>; \<^const>\<open>None\<close> is an unknown answer.\<close>

definition judgeAgent :: "duration \<Rightarrow> duration \<Rightarrow> binding \<Rightarrow> bool option \<Rightarrow> adoptPath \<times> string" where
  "judgeAgent age limit b status =
    (case (Launched b, status) of
       (True, Some True) \<Rightarrow> (adoptReject, ''agent alive in the launched box (binding age '' @ durationText age @ '')'')
     | (True, Some False) \<Rightarrow> (adoptReap, ''binding says launched but its in-box agent is gone: the box is a shell, not a session'')
     | (True, None) \<Rightarrow> (adoptReject, ''agent liveness unknown (probe unavailable, binding age '' @ durationText age
         @ ''): keeping the already-exists contract'')
     | (False, None) \<Rightarrow> (adoptReap, ''agent absence could not be confirmed (in-box probe or alloc lookup unavailable, binding age ''
         @ durationText age @ ''): reaping instead of re-staging a box this pack cannot measure'')
     | (False, Some True) \<Rightarrow> (adoptSelfHealLaunched, ''binding says launched=false but an agent is running: the launch confirm write was lost'')
     | (False, Some False) \<Rightarrow> (adoptReuse, ''binding age '' @ durationText age @ '' within the limit '' @ durationText limit
         @ '' and its agent is absent: re-driving this pack'' @ [quoteChar] @ ''s own half against the box it already made''))"

definition classifyAdoption :: "'w env \<Rightarrow> lifecycle \<Rightarrow> string \<Rightarrow> binding \<Rightarrow> ('w lstate, adoptPath \<times> string) prog" where
  "classifyAdoption ev l sessionName b =
    bindS (timeNow ev) (\<lambda>t0.
    let age = durationRound (timeSub t0 (CreatedAt b)) second; limit = adoptAgeLimit l in
    if CreatedAt b = 0
    then returnS (adoptReject, ''binding creation age is unknown; refusing adoption because the adoption age limit ''
      @ durationText limit @ '' cannot be enforced'')
    else bindS (timeNow ev) (\<lambda>t1.
      if limit < timeSub t1 (CreatedAt b)
      then returnS (adoptReap, ''binding age '' @ durationText age @ '' exceeds the adoption age limit '' @ durationText limit)
      else bindS (bindingAgentStatus ev l b) (\<lambda>status. returnS (judgeAgent age limit b status))))"

definition reapChild :: "'w env \<Rightarrow> lifecycle \<Rightarrow> string \<Rightarrow> binding \<Rightarrow> string \<Rightarrow> ('w lstate, unit) prog" where
  "reapChild ev l sessionName b why =
    bindS (liveAllocID ev l b) (\<lambda>allocID.
    bindS (timeNow ev) (\<lambda>t0.
    bindS (timeNow ev) (\<lambda>t1.
    bindS (wrapS (''tombstoning stale box for session '' @ goQuote sessionName @ '': '') []
      (sidecar_tombstone \<lparr>tsSessionName = sessionName, tsChildJobID = ChildJobID b, tsAllocID = allocID, tsCreatedAt = CreatedAt b,
         tsAge = durationText (durationRound (timeSub t0 (CreatedAt b)) second), tsLaunched = Launched b, tsAgentPID = AgentPID b,
         tsReason = why, tsTombstonedAt = t1\<rparr>)) (\<lambda>_.
    wrapS (''reaping stale child '' @ goQuote (ChildJobID b) @ '' of session '' @ goQuote sessionName @ '' (tombstone already written): '') []
      (opStop ev l sessionName)))))"

definition adoptExisting :: "'w env \<Rightarrow> host \<Rightarrow> lifecycle \<Rightarrow> string \<Rightarrow> binding \<Rightarrow> string \<Rightarrow> ('w lstate, bool) prog" where
  "adoptExisting ev h l sessionName b op =
    (let line = (\<lambda>path why. op @ '' '' @ goQuote sessionName @ '': path='' @ path @ '' '' @ emDash @ '' '' @ why) in
     bindS (classifyAdoption ev l sessionName b) (\<lambda>(path, why).
     case path of
       adoptReuse \<Rightarrow> bindS (logDecision l (line ''adopt'' why)) (\<lambda>_. returnS True)
     | adoptSelfHealLaunched \<Rightarrow>
         bindS (logDecision l (line ''self-heal-launched-marker'' why)) (\<lambda>_.
         bindS (confirmLaunched ev h l sessionName (WorkDir b) (ProviderCommand b) (Lifecycle b)) (\<lambda>_.
         failS (ENew (''session '' @ goQuote sessionName @ '' already exists''))))
     | adoptReap \<Rightarrow>
         bindS (logDecision l (line ''reap-then-provision-fresh'' why)) (\<lambda>_.
         bindS (reapChild ev l sessionName b why) (\<lambda>_. returnS False))
     | adoptReject \<Rightarrow>
         bindS (logDecision l (line ''reject-already-exists'' why)) (\<lambda>_.
         failS (ENew (''session '' @ goQuote sessionName @ '' already exists: '' @ why)))))"

subsection \<open>Provision and start\<close>

definition allocPlacementTimeout :: duration where
  "allocPlacementTimeout = 30 * second"

definition allocPlacementPoll :: duration where
  "allocPlacementPoll = second"

text \<open>The constraints of the job this configuration registers.\<close>

definition decConstraint :: "(string \<times> json) list \<Rightarrow> nomadConstraint option" where
  "decConstraint fs =
    (case (strField ''LTarget'' fs, strField ''RTarget'' fs, strField ''Operand'' fs) of
       (Some a, Some b, Some c) \<Rightarrow> Some \<lparr>ncLTarget = a, ncRTarget = b, ncOperand = c\<rparr>
     | _ \<Rightarrow> None)"

definition specConstraints :: "json \<Rightarrow> nomadConstraint list" where
  "specConstraints spec =
    (case spec of
       JObj fs \<Rightarrow> (case jfield ''Constraints'' fs of
           Some cs \<Rightarrow> (case decList decConstraint cs of Some xs \<Rightarrow> xs | None \<Rightarrow> []) | None \<Rightarrow> [])
     | _ \<Rightarrow> [])"

definition terminalClientStatus :: "string \<Rightarrow> bool" where
  "terminalClientStatus status \<longleftrightarrow> toLower (trimSpace status) \<in> {''complete'', ''failed'', ''lost''}"

definition notPlaced :: "'w env \<Rightarrow> lifecycle \<Rightarrow> string \<Rightarrow> string \<Rightarrow> string \<Rightarrow> ('w lstate, unit) prog" where
  "notPlaced ev l sessionName childJobID lastStatus =
    (if lastStatus \<noteq> []
     then failS (ENew (''provision '' @ goQuote sessionName @ '': child '' @ childJobID @ '' placed an allocation that went '' @ lastStatus
       @ '' without starting '' @ emDash @ '' if the agent image ('' @ lcAgentImage l
       @ '') is not present on the node, that is why; read `nomad alloc status` for the driver'' @ [quoteChar] @ ''s own error''))
     else bindS (world (jobPlacementFailure (envNomad ev) (lcClient l) childJobID)) (\<lambda>pf.
       let sched = describePlacementFailure pf;
           head = ''provision '' @ goQuote sessionName @ '': child '' @ childJobID
             @ '' was dispatched but NO allocation was placed within '' @ durationText allocPlacementTimeout in
       if emptyNodePool pf \<and> sched \<noteq> [] then failS (ENew (head @ ''.'' @ sched))
       else failS (ENew (head @ '' '' @ emDash @ '' ''
         @ ''no client satisfied the job'' @ [quoteChar] @ ''s constraints. This job requires '' @ describeConstraints (specConstraints (lcSpec l))
         @ ''. Compare them against ''
         @ ''`nomad node status -verbose <node>`; an image that is merely missing would have PLACED ''
         @ ''and then failed, so a placement that never happens is a constraint or capacity fault, ''
         @ ''not an image one.'' @ sched))))"

fun placedLoop :: "nat \<Rightarrow> 'w env \<Rightarrow> lifecycle \<Rightarrow> string \<Rightarrow> string \<Rightarrow> gotime \<Rightarrow> string \<Rightarrow> ('w lstate, unit) prog" where
  "placedLoop 0 ev l sessionName childJobID deadline lastStatus = hangS"
| "placedLoop (Suc k) ev l sessionName childJobID deadline lastStatus =
    bindS (wrapS (''provision '' @ goQuote sessionName @ '': reading allocations of '' @ childJobID @ '': '') []
      (listAllocs ev l childJobID)) (\<lambda>allocs.
    if list_ex (\<lambda>a. \<not> terminalClientStatus (arClientStatus a)) allocs then returnS ()
    else let seen = (if allocs = [] then lastStatus else arClientStatus (last allocs)) in
      bindS (timeNow ev) (\<lambda>now.
      if deadline < now then notPlaced ev l sessionName childJobID seen
      else bindS (sleepFor ev allocPlacementPoll) (\<lambda>_. placedLoop k ev l sessionName childJobID deadline seen)))"

definition confirmDispatchPlaced :: "'w env \<Rightarrow> lifecycle \<Rightarrow> string \<Rightarrow> ('w lstate, unit) prog" where
  "confirmDispatchPlaced ev l sessionName =
    bindS (wrapS (''provision '' @ goQuote sessionName @ '': confirming the dispatch was placed: '') [] (sidecar_load sessionName)) (\<lambda>found.
    case found of
      Some b \<Rightarrow>
        if ChildJobID b = [] then failS (ENew (''provision '' @ goQuote sessionName @ '': dispatch accepted but no child job was recorded for this session''))
        else bindS (timeNow ev) (\<lambda>start.
          placedLoop (nat (allocPlacementTimeout div allocPlacementPoll) + 2) ev l sessionName (ChildJobID b)
            (start + allocPlacementTimeout) [])
    | None \<Rightarrow> failS (ENew (''provision '' @ goQuote sessionName @ '': dispatch accepted but no child job was recorded for this session'')))"

definition opProvisionWithConfig :: "'w env \<Rightarrow> host \<Rightarrow> lifecycle \<Rightarrow> string \<Rightarrow> stageConfig \<Rightarrow> ('w lstate, unit) prog" where
  "opProvisionWithConfig ev h l sessionName cfg =
    bindS (warnDeclaredSecrets h sessionName cfg) (\<lambda>_.
    withLock sessionName
      (bindS (liveChild ev l sessionName) (\<lambda>live.
       bindS (case live of None \<Rightarrow> returnS False | Some b \<Rightarrow> adoptExisting ev h l sessionName b ''provision'') (\<lambda>reuse.
       if reuse then stageTracked ev h l sessionName cfg
       else
         bindS (dispatch ev l sessionName (sessionAgentImage cfg)) (\<lambda>_.
         bindS (confirmDispatchPlaced ev l sessionName) (\<lambda>_.
         stageTracked ev h l sessionName cfg))))))"

definition opStartWithConfig :: "'w env \<Rightarrow> host \<Rightarrow> lifecycle \<Rightarrow> string \<Rightarrow> stageConfig \<Rightarrow> ('w lstate, unit) prog" where
  "opStartWithConfig ev h l sessionName cfg =
    bindS (warnDeclaredSecrets h sessionName cfg) (\<lambda>_.
    withLock sessionName
      (bindS (liveChild ev l sessionName) (\<lambda>live.
       bindS (case live of None \<Rightarrow> returnS False | Some b \<Rightarrow> adoptExisting ev h l sessionName b ''start'') (\<lambda>reuse.
       bindS (if reuse then returnS () else dispatch ev l sessionName (sessionAgentImage cfg)) (\<lambda>_.
       bindS (stageTracked ev h l sessionName cfg) (\<lambda>_.
       markLaunched ev h l sessionName cfg))))))"

subsection \<open>Retiring a drained one-shot session\<close>

definition lifecycleOneShot :: string where
  "lifecycleOneShot = ''one_shot''"

definition exitReasonDrainAck :: string where
  "exitReasonDrainAck = ''drain_ack''"

definition drainAckGrepPattern :: "string \<Rightarrow> string \<times> bool" where
  "drainAckGrepPattern marker =
    (if hasPrefix marker ''(?i)'' then (drop 4 marker, True) else (marker, False))"

definition paneShowsDrainAck :: "'w env \<Rightarrow> lifecycle \<Rightarrow> string \<Rightarrow> string \<Rightarrow> ('w lstate, bool) prog" where
  "paneShowsDrainAck ev l allocID marker =
    (case drainAckGrepPattern marker of (pattern, caseInsensitive) \<Rightarrow>
     bindS (execAlloc ev allocID (lcExecTask l)
       [''/bin/sh'', ''-c'', ''grep '' @ (if caseInsensitive then ''-Eqi'' else ''-Eq'') @ '' '' @ shellQuote pattern @ '' ''
          @ dq (''${NOMAD_ALLOC_DIR:-/tmp}/data/'' @ agentStdoutCaptureName) @ '' 2>/dev/null'']) (\<lambda>(code, out).
     returnS (code = 0)))"

definition reapDrainedOneShot :: "'w env \<Rightarrow> lifecycle \<Rightarrow> string \<Rightarrow> binding \<Rightarrow> string \<Rightarrow> ('w lstate, bool) prog" where
  "reapDrainedOneShot ev l sessionName b allocID =
    (let say = (\<lambda>t. logDecision l (''session '' @ goQuote sessionName @ '': '' @ t)) in
     if Lifecycle b \<noteq> lifecycleOneShot \<or> ExitReason b \<noteq> [] then returnS False
     else case lcDrainMarker l of
       Inl e \<Rightarrow> bindS (say (''drain-ack marker disabled this poll: '' @ errText e)) (\<lambda>_. returnS False)
     | Inr marker \<Rightarrow>
         bindS (attempt (paneShowsDrainAck ev l allocID marker)) (\<lambda>r.
         if r \<noteq> Inr True then returnS False
         else
           bindS (attempt (sidecar_save (b\<lparr>ExitReason := exitReasonDrainAck\<rparr>))) (\<lambda>rs.
           bindS (case rs of Inr _ \<Rightarrow> returnS ()
                  | Inl e \<Rightarrow> say (''could not record exit_reason='' @ exitReasonDrainAck @ '' before stopping: '' @ errText e)) (\<lambda>_.
           bindS (say (''one_shot agent'' @ [quoteChar] @ ''s drain-ack is already acknowledged and it is still parked at its prompt ''
               @ emDash @ '' retiring the incarnation (exit_reason='' @ exitReasonDrainAck @ '')'')) (\<lambda>_.
           bindS (attempt (opStop ev l sessionName)) (\<lambda>rt. case rt of
             Inr _ \<Rightarrow> returnS True
           | Inl e \<Rightarrow> bindS (say (''retiring after drain-ack failed, leaving the slot held: '' @ errText e)) (\<lambda>_. returnS False)))))))"

subsection \<open>Observation\<close>

definition isForbiddenErr :: "goerr \<Rightarrow> bool" where
  "isForbiddenErr e \<longleftrightarrow> errIs e ErrJobForbidden \<or> containsS (errText e) ''response code: 403''"

definition warnUnknownLiveness :: "string \<Rightarrow> string \<Rightarrow> goerr \<Rightarrow> string" where
  "warnUnknownLiveness sessionName what e =
    ''gc-runtime-nomad: warning: session '' @ goQuote sessionName @ '' reports running because its state is ''
    @ ''UNKNOWN, not because it was observed alive '' @ emDash @ '' '' @ what @ '' failed: '' @ errText e @ ''.''
    @ (if isForbiddenErr e
       then '' This is an AUTHORISATION failure, not a blip: it will answer the same way on ''
         @ ''every call until a credential changes, so every session will keep reporting healthy ''
         @ ''until then.'' else []) @ [newline]"

definition opIsRunning :: "'w env \<Rightarrow> host \<Rightarrow> lifecycle \<Rightarrow> string \<Rightarrow> ('w lstate, bool) prog" where
  "opIsRunning ev h l sessionName =
    bindS (sidecar_load sessionName) (\<lambda>found. case found of
      None \<Rightarrow> returnS False
    | Some b \<Rightarrow>
        if ChildJobID b = [] \<or> \<not> Launched b then returnS False
        else bindS (attempt (listAllocs ev l (ChildJobID b))) (\<lambda>ra. case ra of
          Inl e \<Rightarrow> bindS (warnLine (warnUnknownLiveness sessionName ''listing allocations'' e)) (\<lambda>_. returnS True)
        | Inr allocs \<Rightarrow>
            (case find (\<lambda>a. \<not> isTerminalStatus (arClientStatus a)) allocs of
               None \<Rightarrow> returnS False
             | Some a \<Rightarrow>
                 if arID a = [] then returnS False
                 else bindS (attempt (probeAgentAlive ev l (arID a) (AgentPID b))) (\<lambda>rp. case rp of
                   Inl e \<Rightarrow> bindS (warnLine (warnUnknownLiveness sessionName ''probing in-box liveness'' e)) (\<lambda>_. returnS True)
                 | Inr alive \<Rightarrow>
                     bindS (syncPromptedMarker ev l sessionName) (\<lambda>_.
                     bindS (syncCityCheckoutMarker ev h l sessionName) (\<lambda>_.
                     bindS (peekBinding sessionName) (\<lambda>latest.
                     if latest \<noteq> None \<and> PromptStatus (the latest) = promptStatusNotReady then returnS False
                     else if alive
                       then bindS (peekBinding sessionName) (\<lambda>again. case again of
                         None \<Rightarrow> returnS True
                       | Some b' \<Rightarrow> bindS (reapDrainedOneShot ev l sessionName b' (arID a)) (\<lambda>reaped. returnS (\<not> reaped)))
                     else returnS False)))))))"

text \<open>One row of the list: the name, or nothing when it is filtered out or its box is dead.\<close>

definition listOne :: "'w env \<Rightarrow> host \<Rightarrow> lifecycle \<Rightarrow> string \<Rightarrow> string list \<Rightarrow> childJob \<Rightarrow> ('w lstate, string list) prog" where
  "listOne ev h l pre launched c =
    (let name = mapGet (cjMeta c) ''gc_session'' in
     if cjTerminal c \<or> cjID c \<notin> set launched \<or> name = [] \<or> (pre \<noteq> [] \<and> \<not> hasPrefix name pre) then returnS []
     else bindS (attempt (childHasLiveAlloc ev l (cjID c))) (\<lambda>r.
       if r = Inr False
       then bindS (deadChildReason ev h l (cjID c)) (\<lambda>why.
         bindS (whenS (why \<noteq> []) (warnLine (''gc-runtime-nomad: seat '' @ goQuote name @ '' is gone: '' @ why @ [newline]))) (\<lambda>_.
         returnS []))
       else returnS [name]))"

fun listEach :: "'w env \<Rightarrow> host \<Rightarrow> lifecycle \<Rightarrow> string \<Rightarrow> string list \<Rightarrow> childJob list \<Rightarrow> ('w lstate, string list) prog" where
  "listEach ev h l pre launched [] = returnS []"
| "listEach ev h l pre launched (c # cs) =
    bindS (listOne ev h l pre launched c) (\<lambda>ns.
    bindS (listEach ev h l pre launched cs) (\<lambda>rest. returnS (ns @ rest)))"

definition opListRunning :: "'w env \<Rightarrow> host \<Rightarrow> lifecycle \<Rightarrow> string \<Rightarrow> ('w lstate, string list) prog" where
  "opListRunning ev h l pre =
    bindS (wrapS (''list-running: listing children of '' @ goQuote (lcParentJobID l) @ '': '') []
      (world (listChildJobs (envNomad ev) (lcClient l) (lcParentJobID l)))) (\<lambda>children.
    bindS sidecar_list (\<lambda>bindings.
    bindS (listEach ev h l pre (map ChildJobID (filter (\<lambda>b. ChildJobID b \<noteq> [] \<and> Launched b) bindings)) children) (\<lambda>names.
    returnS (sort names))))"

end
