(* ===== verification/Waits.thy ===== *)
theory Waits
  imports Stop Fake_World Adoption
begin

text \<open>
  Whether the lifecycle's operations return. The interface is a world that answers
  every call in finite time and whose clock never goes back and advances at least
  as far as a sleep asks; the model bounds each polling loop by the rounds its
  deadline leaves room for, and under that interface the bound is never reached. The
  only other way not to return is a second acquisition of a session lock the
  process already holds.
\<close>

lemma rounds_cover:
  fixes d i :: int
  assumes "0 < i"
  shows "d \<le> int (Suc (nat (d div i))) * i"
proof -
  have "d = d div i * i + d mod i" by simp
  also have "\<dots> \<le> d div i * i + i" by (intro add_left_mono less_imp_le pos_mod_bound assms)
  also have "\<dots> = (d div i + 1) * i" by (simp add: algebra_simps)
  also have "\<dots> \<le> int (Suc (nat (d div i))) * i" using assms by (intro mult_right_mono) auto
  finally show ?thesis .
qed

locale answering_world =
  fixes ev :: "'w env" and clock :: "'w \<Rightarrow> gotime"
  assumes answers_http: "fst (httpDo (envNomad ev) rq w) \<noteq> Hang \<and> clock w \<le> clock (snd (httpDo (envNomad ev) rq w))"
    and answers_dispatch: "fst (sdkDispatch (envNomad ev) p m n t w) \<noteq> Hang \<and> clock w \<le> clock (snd (sdkDispatch (envNomad ev) p m n t w))"
    and answers_allocs: "fst (sdkAllocations (envNomad ev) n j i d w) \<noteq> Hang \<and> clock w \<le> clock (snd (sdkAllocations (envNomad ev) n j i d w))"
    and answers_exec: "fst (envExec ev a t' c x w) \<noteq> Hang \<and> clock w \<le> clock (snd (envExec ev a t' c x w))"
    and answers_now: "clock w \<le> fst (envNow ev w) \<and> fst (envNow ev w) \<le> clock (snd (envNow ev w))"
    and answers_sleep: "clock w + d \<le> clock (envSleep ev d w) \<and> clock w \<le> clock (envSleep ev d w)"
    and answers_rand: "clock w \<le> clock (snd (envRand ev w))"
begin

text \<open>The clock has reached \<open>t\<close> and the process holds exactly the locks \<open>L\<close>.\<close>

definition reached :: "string list \<Rightarrow> gotime \<Rightarrow> 'w lstate \<Rightarrow> bool" where
  "reached L t s \<longleftrightarrow> t \<le> clock (lsWorld s) \<and> lsLocks s = L"

lemma reached_mono: "reached L t s \<Longrightarrow> u \<le> t \<Longrightarrow> reached L u s"
  by (simp add: reached_def)

lemma settles_calls:
  "settles (\<lambda>w. t \<le> clock w) (httpDo (envNomad ev) rq)" "settles (\<lambda>w. t \<le> clock w) (sdkDispatch (envNomad ev) p m n k)"
  "settles (\<lambda>w. t \<le> clock w) (sdkAllocations (envNomad ev) n j i d)" "settles (\<lambda>w. t \<le> clock w) (envExec ev a t' c x)"
  using answers_http answers_dispatch answers_allocs answers_exec by (auto simp: settles_def intro: order_trans)

lemma settles_world:
  assumes "settles (\<lambda>w. t \<le> clock w) p"
  shows "settles (reached L t) (world p)"
proof (rule settlesI)
  fix s assume "reached L t s"
  then show "fst (world p s) \<noteq> Hang \<and> reached L t (snd (world p s))"
    using settlesD [OF assms, of "lsWorld s"] by (cases "p (lsWorld s)") (simp add: world_def reached_def)
qed

lemma settles_client [settles_intros]:
  "settles (reached L t) (world (getJob (envNomad ev) c j))" "settles (reached L t) (world (listChildJobs (envNomad ev) c j))"
  "settles (reached L t) (world (deregisterJob (envNomad ev) c j b))" "settles (reached L t) (world (registerJob (envNomad ev) c spec))"
  "settles (reached L t) (world (readAllocFile (envNomad ev) c a p))" "settles (reached L t) (world (listAllocsForJob (envNomad ev) c j i d))"
  "settles (reached L t) (world (dispatchChildAt (envNomad ev) f c p n k u img))"
  "settles (reached L t) (world (jobPlacementFailure (envNomad ev) c j))"
proof -
  have body: "settles (\<lambda>w. t \<le> clock w) (readBody what r)" for what r
    unfolding readBody_def by (intro settles_intros)
  have idx: "settles (\<lambda>w. t \<le> clock w) (doIndexed (envNomad ev) c m parts q b dec z)" for m parts q b and dec :: "json \<Rightarrow> 'x option" and z
    unfolding doIndexed_def by (intro settles_intros settles_calls body)
  have noOut: "settles (\<lambda>w. t \<le> clock w) (doNoOut (envNomad ev) c m parts b)" for m parts b
    unfolding doNoOut_def by (intro settles_intros settles_calls body)
  show "settles (reached L t) (world (getJob (envNomad ev) c j))" "settles (reached L t) (world (listChildJobs (envNomad ev) c j))"
    "settles (reached L t) (world (deregisterJob (envNomad ev) c j b))" "settles (reached L t) (world (registerJob (envNomad ev) c spec))"
    "settles (reached L t) (world (readAllocFile (envNomad ev) c a p))" "settles (reached L t) (world (listAllocsForJob (envNomad ev) c j i d))"
    "settles (reached L t) (world (dispatchChildAt (envNomad ev) f c p n k u img))"
    "settles (reached L t) (world (jobPlacementFailure (envNomad ev) c j))"
    unfolding jobPlacementFailure_def getJob_def listChildJobs_def deregisterJob_def registerJob_def readAllocFile_def listAllocsForJob_def dispatchChildAt_def
    by (intro settles_world settles_intros settles_calls body idx noOut)+
qed

lemma settles_exec [settles_intros]:
  "settles (reached L t) (execAllocObserved ev a k c x)" "settles (reached L t) (execAllocStdin ev a k c x)"
  "settles (reached L t) (execAlloc ev a k c)" "settles (reached L t) (listAllocs ev l j)" "settles (reached L t) (readRandom ev)"
  "settles (reached L t) (timeNow ev)" "0 \<le> d \<Longrightarrow> settles (reached L t) (sleepFor ev d)"
proof -
  show "settles (reached L t) (execAllocObserved ev a k c x)" "settles (reached L t) (execAllocStdin ev a k c x)"
    "settles (reached L t) (execAlloc ev a k c)" "settles (reached L t) (listAllocs ev l j)"
    unfolding execAlloc_def execAllocStdin_def execAllocObserved_def listAllocs_def
    by (intro settles_world settles_intros settles_calls)+
  show "settles (reached L t) (readRandom ev)"
    unfolding readRandom_def
    by (rule settles_world) (auto simp: settles_def case_prod_beta intro: order_trans [OF _ answers_rand])
  show "settles (reached L t) (timeNow ev)"
    unfolding timeNow_def
    by (rule settles_world) (use answers_now in \<open>auto simp: settles_def case_prod_beta intro: order_trans\<close>)
  show "settles (reached L t) (sleepFor ev d)"
    unfolding sleepFor_def
    by (rule settles_world) (use answers_sleep in \<open>auto simp: settles_def intro: order_trans\<close>)
qed

text \<open>Reading the clock and sleeping move the lower bound on.\<close>

lemma settles_now:
  assumes "\<And>now. t \<le> now \<Longrightarrow> settles (reached L now) (f now)"
  shows "settles (reached L t) (bindS (timeNow ev) f)"
proof (rule settlesI)
  fix s assume s: "reached L t s"
  obtain now w where w: "envNow ev (lsWorld s) = (now, w)" by fastforce
  have "t \<le> now" "reached L now (s\<lparr>lsWorld := w\<rparr>)"
    using s answers_now [of "lsWorld s"] by (auto simp: w reached_def)
  then show "fst (bindS (timeNow ev) f s) \<noteq> Hang \<and> reached L t (snd (bindS (timeNow ev) f s))"
    using settlesD [OF assms, of now] reached_mono [of L now _ t] by (simp add: bindS_def timeNow_def world_def w)
qed

lemma settles_sleep:
  assumes "settles (reached L (t + d)) q" and "0 \<le> d"
  shows "settles (reached L t) (bindS (sleepFor ev d) (\<lambda>_. q))"
proof (rule settlesI)
  fix s assume s: "reached L t s"
  have "reached L (t + d) (s\<lparr>lsWorld := envSleep ev d (lsWorld s)\<rparr>)"
    using s answers_sleep [of "lsWorld s" d] by (simp add: reached_def)
  then show "fst (bindS (sleepFor ev d) (\<lambda>_. q) s) \<noteq> Hang \<and> reached L t (snd (bindS (sleepFor ev d) (\<lambda>_. q) s))"
    using settlesD [OF assms(1)] reached_mono [of L "t + d" _ t] assms(2) by (simp add: bindS_def sleepFor_def world_def)
qed

lemma settles_fault: "settles (reached L t) takeFault"
  by (auto simp: settles_def takeFault_def reached_def split: list.split)

lemma settles_sidecar [settles_intros]:
  "settles (reached L t) (sidecar_load n)" "settles (reached L t) (sidecar_save b)" "settles (reached L t) (sidecar_remove n)"
  "settles (reached L t) (sidecar_tombstone tb)" "settles (reached L t) (logDecision l m)" "settles (reached L t) (warnLine m)"
proof -
  have os: "settles (reached L t) (os_WriteFile k c)" "settles (reached L t) (os_Rename k k')" "settles (reached L t) (os_Remove k)"
    "settles (reached L t) (os_MkdirAll k)" "settles (reached L t) (os_ReadFile k)" for k k' c
    unfolding os_WriteFile_def os_Rename_def os_Remove_def os_MkdirAll_def os_ReadFile_def
    by (intro settles_intros settles_modify settles_fault; simp add: reached_def)+
  show "settles (reached L t) (sidecar_load n)" unfolding sidecar_load_def by (intro settles_intros os)
  show "settles (reached L t) (sidecar_save b)" unfolding sidecar_save_def by (intro settles_intros os)
  show "settles (reached L t) (sidecar_remove n)" unfolding sidecar_remove_def by (intro settles_intros os)
  show "settles (reached L t) (sidecar_tombstone tb)" unfolding sidecar_tombstone_def by (intro settles_intros os)
  show "settles (reached L t) (logDecision l m)" "settles (reached L t) (warnLine m)"
    unfolding logDecision_def warnLine_def by (intro settles_intros settles_modify; simp add: reached_def)+
qed

text \<open>A lock that is free is taken and given back.\<close>

lemma settles_withLock [settles_intros]:
  assumes "n \<notin> set L" and "settles (reached (n # L) t) p"
  shows "settles (reached L t) (withLock n p)"
proof (rule settlesI)
  fix s assume s: "reached L t s"
  have lock: "lsLocks s' = n # L \<and> t \<le> clock (lsWorld s')" if "lockSession n s = (Ok u, s')" for u s'
    using that s assms(1) by (auto simp: lockSession_def prog_defs takeFault_def reached_def split: list.splits option.splits)
  have ret: "fst (lockSession n s) \<noteq> Hang \<and> reached L t (snd (lockSession n s))" if "\<forall>u. fst (lockSession n s) \<noteq> Ok u"
    using that s assms(1) by (auto simp: lockSession_def prog_defs takeFault_def reached_def split: list.splits option.splits)
  show "fst (withLock n p s) \<noteq> Hang \<and> reached L t (snd (withLock n p s))"
  proof (cases "lockSession n s")
    case (Pair r s1)
    show ?thesis
    proof (cases r)
      case (Ok u)
      then have "reached (n # L) t s1" using lock [of u s1] Pair by (simp add: reached_def)
      with settlesD [OF assms(2) this] Pair Ok assms(1) show ?thesis
        by (cases "p s1"; cases "fst (p s1)") (auto simp: withLock_def bindS_def finallyS_def reached_def unlockSession_def)
    qed (use ret Pair in \<open>auto simp: withLock_def bindS_def\<close>)
  qed
qed

lemma settles_recover [settles_intros]: "settles (reached L t) (recoverBinding ev l n prior)"
  unfolding recoverBinding_def by (intro settles_intros)

lemma settles_currentAlloc [settles_intros]:
  assumes "n \<notin> set L"
  shows "settles (reached L t) (currentAllocRecord ev l n)" and "settles (reached L t) (currentAlloc ev l n)"
proof -
  have pick: "settles (reached M t) (pickAlloc ev l n b)" for M b
    unfolding pickAlloc_def by (intro settles_intros)
  show 1: "settles (reached L t) (currentAllocRecord ev l n)"
    unfolding currentAllocRecord_def by (intro settles_intros pick assms)
  show "settles (reached L t) (currentAlloc ev l n)"
    unfolding currentAlloc_def by (intro settles_intros 1)
qed

text \<open>The readiness wait: \<open>k + 1\<close> rounds cover a deadline \<open>k\<close> intervals away.\<close>

lemma settles_awaitLoop:
  assumes "n \<notin> set L" and "0 < interval"
  shows "deadline \<le> t + int k * interval \<Longrightarrow> settles (reached L t) (awaitLoop (Suc k) ev l n timeout interval deadline)"
proof (induction k arbitrary: t)
  case 0
  have obs: "settles (reached L t) (observeAlloc ev l n)"
    unfolding observeAlloc_def by (intro settles_intros assms)
  show ?case
    unfolding awaitLoop.simps(2) [of 0]
    by (intro settles_bind obs settles_sum settles_now) (use 0 in \<open>auto intro!: settles_intros\<close>)
next
  case (Suc k)
  have obs: "settles (reached L t) (observeAlloc ev l n)"
    unfolding observeAlloc_def by (intro settles_intros assms)
  have "settles (reached L u) (awaitLoop (Suc k) ev l n timeout interval deadline)" if "t + interval \<le> u" for u
    by (rule Suc.IH) (use Suc.prems that in \<open>simp add: algebra_simps\<close>)
  then show ?case
    unfolding awaitLoop.simps(2) [of "Suc k"]
    by (intro settles_bind obs settles_sum settles_now settles_if settles_sleep settles_intros) (use assms(2) in auto)
qed

lemma settles_await [settles_intros]:
  assumes "n \<notin> set L" and "0 < interval"
  shows "settles (reached L t) (awaitExecAllocReadyWithin ev l n timeout interval)"
proof -
  have "settles (reached L now) (awaitLoop (Suc (Suc (nat (timeout div interval)))) ev l n timeout interval (now + timeout))" for now
    by (intro settles_awaitLoop assms) (use rounds_cover [OF assms(2)] in simp)
  then show ?thesis
    unfolding awaitExecAllocReadyWithin_def by (intro settles_now) (simp add: numeral_2_eq_2)
qed

lemma settles_awaitReady [settles_intros]: "n \<notin> set L \<Longrightarrow> settles (reached L t) (awaitExecAllocReady ev l n)"
  unfolding awaitExecAllocReady_def
  by (intro settles_await) (simp_all add: allocTaskRunningPoll_def)

lemma settles_retry [settles_intros]:
  assumes "settles (reached L t) p"
  shows "settles (reached L t) (retryAllocExecReady ev p)"
proof -
  have "settles (reached L t) (retryFrom k ev p)" for k
    by (induction k; subst retryFrom.simps)
      (auto intro!: settles_intros assms simp: allocExecReadyDelay_def)
  then show ?thesis by (simp add: retryAllocExecReady_def)
qed

lemma settles_verbs [settles_intros]:
  assumes "n \<notin> set L"
  shows "settles (reached L t) (runDrivingVerb ev l n verb command)" "settles (reached L t) (opPeek ev l n lines)"
    "settles (reached L t) (execStage ev l n command stdin)" "settles (reached L t) (boxSecretsDir ev l n)"
    "settles (reached L t) (capturePanePID ev l n)"
proof -
  have v: "validatedSecretsDir n d \<noteq> Hang" for d by (simp add: validatedSecretsDir_def Let_def)
  show "settles (reached L t) (runDrivingVerb ev l n verb command)" "settles (reached L t) (opPeek ev l n lines)"
    "settles (reached L t) (execStage ev l n command stdin)" "settles (reached L t) (boxSecretsDir ev l n)"
    "settles (reached L t) (capturePanePID ev l n)"
    unfolding runDrivingVerb_def opPeek_def execStage_def boxSecretsDir_def capturePanePID_def
    by (intro settles_intros assms v)+
qed

text \<open>The check of a fresh pane, and the flush of the log shipper.\<close>

lemma settles_verifyLoop:
  "deadline \<le> t + int k * paneLaunchPoll \<Longrightarrow> settles (reached L t) (verifyLoop (Suc k) ev l n a deadline lst)"
proof (induction k arbitrary: t lst)
  case 0
  have runs: "settles (reached L t) (boxRunsAnAgent ev l a)" "settles (reached L t) (paneCurrentCommand ev l a)"
    unfolding boxRunsAnAgent_def paneCurrentCommand_def by (intro settles_intros)+
  show ?case
    unfolding verifyLoop.simps(2) [of 0] Let_def
    by (intro settles_bind settles_attempt settles_prod settles_if runs settles_now) (use 0 in \<open>auto intro!: settles_intros\<close>)
next
  case (Suc k)
  have runs: "settles (reached L t) (boxRunsAnAgent ev l a)" "settles (reached L t) (paneCurrentCommand ev l a)"
    unfolding boxRunsAnAgent_def paneCurrentCommand_def by (intro settles_intros)+
  have "settles (reached L u) (verifyLoop (Suc k) ev l n a deadline lst')" if "t + paneLaunchPoll \<le> u" for u lst'
    by (rule Suc.IH) (use Suc.prems that in \<open>simp add: algebra_simps\<close>)
  then show ?case
    unfolding verifyLoop.simps(2) [of "Suc k"] Let_def
    by (intro settles_bind settles_attempt settles_prod settles_if runs settles_now settles_sleep settles_intros)
      (auto simp: paneLaunchPoll_def)
qed

lemma settles_verify [settles_intros]:
  assumes "n \<notin> set L"
  shows "settles (reached L t) (verifyPaneRunsAgent ev l n)" and "settles (reached L t) (warnIfPaneRunsNoAgent ev l n)"
proof -
  have "settles (reached L now) (verifyLoop (Suc (Suc (nat (paneLaunchSettle div paneLaunchPoll)))) ev l n a (now + paneLaunchSettle) [])" for a now
    by (intro settles_verifyLoop) (use rounds_cover [of paneLaunchPoll paneLaunchSettle] in \<open>simp add: paneLaunchPoll_def\<close>)
  then show 1: "settles (reached L t) (verifyPaneRunsAgent ev l n)"
    unfolding verifyPaneRunsAgent_def
    by (intro settles_bind settles_attempt settles_sum settles_now settles_currentAlloc assms settles_simple)
      (simp add: numeral_2_eq_2)
  show "settles (reached L t) (warnIfPaneRunsNoAgent ev l n)"
    unfolding warnIfPaneRunsNoAgent_def by (intro settles_intros 1)
qed

lemma settles_flushLoop:
  "deadline \<le> t + int k * logShipperPollInterval \<Longrightarrow> settles (reached L t) (flushLoop (Suc k) ev l a deadline)"
proof (induction k arbitrary: t)
  case 0
  then show ?case
    unfolding flushLoop.simps(2) [of 0]
    by (intro settles_bind settles_wrap settles_prod settles_if settles_exec settles_simple settles_now)
      (auto simp: logShipperPollInterval_def intro!: settles_intros)
next
  case (Suc k)
  have "settles (reached L u) (flushLoop (Suc k) ev l a deadline)" if "t + logShipperPollInterval \<le> u" for u
    by (rule Suc.IH) (use Suc.prems that in \<open>simp add: algebra_simps\<close>)
  then show ?case
    unfolding flushLoop.simps(2) [of "Suc k"]
    by (intro settles_bind settles_wrap settles_prod settles_if settles_exec settles_simple settles_now settles_sleep)
      (auto simp: logShipperPollInterval_def)
qed

lemma settles_flush [settles_intros]: "settles (reached L t) (flushLogShipper ev l a)"
proof -
  have "settles (reached L now) (flushLoop (Suc (Suc (nat (logShipperFlushTimeout div logShipperPollInterval)))) ev l a (now + logShipperFlushTimeout))" for now
    by (intro settles_flushLoop) (use rounds_cover [of logShipperPollInterval logShipperFlushTimeout] in \<open>simp add: logShipperPollInterval_def\<close>)
  then show ?thesis
    unfolding flushLogShipper_def
    by (intro settles_if settles_bind settles_wrap settles_prod settles_exec settles_simple settles_now) (simp add: numeral_2_eq_2)
qed

lemma settles_notPlaced: "settles (reached L t) (notPlaced ev l n c x)"
  unfolding notPlaced_def by (intro settles_intros)

lemma settles_placedLoop:
  "deadline < t + int k * allocPlacementPoll \<Longrightarrow> settles (reached L t) (placedLoop (Suc k) ev l n c deadline seen)"
proof (induction k arbitrary: t seen)
  case 0
  then show ?case
    unfolding placedLoop.simps(2) [of 0]
    by (intro settles_now settles_bind settles_wrap settles_let settles_if settles_exec settles_simple settles_notPlaced) auto
next
  case (Suc k)
  have "settles (reached L u) (placedLoop (Suc k) ev l n c deadline x)" if "t + allocPlacementPoll \<le> u" for u x
    by (rule Suc.IH) (use Suc.prems that in \<open>simp add: algebra_simps\<close>)
  then show ?case
    unfolding placedLoop.simps(2) [of "Suc k"]
    by (intro settles_now settles_sleep settles_bind settles_wrap settles_let settles_if settles_exec settles_simple settles_notPlaced)
      (auto simp: allocPlacementPoll_def)
qed

lemma settles_placed [settles_intros]: "settles (reached L t) (confirmDispatchPlaced ev l n)"
proof -
  have "settles (reached L now) (placedLoop (nat (allocPlacementTimeout div allocPlacementPoll) + 2) ev l n c (now + allocPlacementTimeout) x)" for now c x
    using settles_placedLoop [of "now + allocPlacementTimeout" now 31] by (simp add: allocPlacementTimeout_def allocPlacementPoll_def)
  then show ?thesis
    unfolding confirmDispatchPlaced_def
    by (intro settles_now settles_intros)
qed

lemma settles_egress [settles_intros]: "settles (reached L t) (egressAllocFiles ev l n j)"
proof -
  have f: "settles (reached L t) sinkFault"
    by (auto simp: settles_def sinkFault_def reached_def split: list.split)
  have sink: "settles (reached L t) (sink_MkdirAll d)" "settles (reached L t) (sink_WriteFile p c)" "settles (reached L t) (sink_Rename p q)" for d p c q
    unfolding sink_MkdirAll_def sink_WriteFile_def sink_Rename_def
    by (intro settles_intros settles_modify f; simp add: reached_def)+
  have "settles (reached L t) (egressOne ev l d a g)" for d a g
    unfolding egressOne_def by (intro settles_intros sink)
  then have "settles (reached L t) (egressEach ev l d xs)" for d xs
    by (induction xs) (auto intro!: settles_intros)
  then show ?thesis unfolding egressAllocFiles_def by (intro settles_intros sink)
qed

lemma settles_stop [settles_intros]:
  assumes "n \<notin> set L"
  shows "settles (reached L t) (opStop ev l n)"
proof -
  have r: "settles (reached L t) (egressRetry k p)" if "settles (reached L t) p" for k p
    by (induction k) (auto intro!: settles_intros that)
  show ?thesis
    unfolding opStop_def flushStep_def egressStep_def by (intro settles_intros r assms)
qed

lemma settles_dispatch [settles_intros]: "settles (reached L t) (dispatch ev l n img)"
proof -
  have live: "settles (reached L t) (checkLive ev l n b r)" for b r
    unfolding checkLive_def by (intro settles_intros)
  have use: "settles (reached L t) (useRecovered ev l n r)" for r
    unfolding useRecovered_def by (intro settles_intros live)
  have "settles (reached L t) (liveChild ev l n)"
    unfolding liveChild_def by (intro settles_intros live use)
  moreover have "settles (reached L t) (ensureParentRegistered ev l)"
    unfolding ensureParentRegistered_def registerParent_def by (intro settles_intros)
  moreover have "settles (reached L t) (dispatchFresh ev l n i)" for i
    unfolding dispatchFresh_def newNonce_def by (intro settles_intros) (auto split: sum.split)
  ultimately show ?thesis
    unfolding dispatch_def findOrphanByNonce_def by (intro settles_intros)
qed

end

text \<open>The process gets an answer and holds afterwards the locks it held before.\<close>

definition returnsFrom :: "'w lstate \<Rightarrow> ('w lstate, 'a) prog \<Rightarrow> bool" where
  "returnsFrom s p \<longleftrightarrow> fst (p s) \<noteq> Hang \<and> lsLocks (snd (p s)) = lsLocks s"

context answering_world
begin

lemma settled: "settles (reached (lsLocks s) (clock (lsWorld s))) p \<Longrightarrow> returnsFrom s p"
  by (drule settlesD [where s = s]) (simp_all add: reached_def returnsFrom_def)

lemma ops_return:
  assumes "n \<notin> set (lsLocks s)" and "0 < interval"
  shows "returnsFrom s (awaitExecAllocReadyWithin ev l n timeout interval) \<and> returnsFrom s (verifyPaneRunsAgent ev l n)
    \<and> returnsFrom s (flushLogShipper ev l a) \<and> returnsFrom s (execStage ev l n command stdin)
    \<and> returnsFrom s (opStop ev l n) \<and> returnsFrom s (dispatch ev l n img) \<and> returnsFrom s (confirmDispatchPlaced ev l n)"
  by (intro conjI settled settles_intros assms)

end

subsection \<open>The fake cluster answers\<close>

lemma fakeHttp_answers: "fst (fakeHttp host rq w) \<noteq> Hang \<and> fwClock (snd (fakeHttp host rq w)) = fwClock w + 1"
  by (simp add: fakeHttp_def case_prod_beta)

lemma fake_sdk_answers:
  fixes g :: "http_response \<Rightarrow> 'a"
  defines "f \<equiv> \<lambda>rs. if rsStatus rs \<noteq> 200 then failS (sdkError rs) else returnS (g rs)"
  shows "fst (bindS (fakeHttp host rq) f w) \<noteq> Hang \<and> fwClock w \<le> fwClock (snd (bindS (fakeHttp host rq) f w))"
proof (cases "fakeHttp host rq w")
  case (Pair r w')
  then obtain rs where r: "r = Ok rs" by (auto simp: fakeHttp_def split: prod.splits)
  have "fwClock w' = fwClock w + 1" using fakeHttp_answers [of host rq w] by (simp add: Pair)
  then show ?thesis by (simp add: bindS_def Pair r failS_def returnS_def f_def)
qed

interpretation fake: answering_world "fakeEnv host run" fwClock for host run
proof
  fix rq w p m n t j i d a t' c x
  show "fst (httpDo (envNomad (fakeEnv host run)) rq w) \<noteq> Hang
      \<and> fwClock w \<le> fwClock (snd (httpDo (envNomad (fakeEnv host run)) rq w))"
    using fakeHttp_answers [of host rq w] by simp
  show "fst (sdkDispatch (envNomad (fakeEnv host run)) p m n t w) \<noteq> Hang
      \<and> fwClock w \<le> fwClock (snd (sdkDispatch (envNomad (fakeEnv host run)) p m n t w))"
    unfolding fakeEnv_sel fakeDispatch_def by (rule fake_sdk_answers)
  show "fst (sdkAllocations (envNomad (fakeEnv host run)) n j i d w) \<noteq> Hang
      \<and> fwClock w \<le> fwClock (snd (sdkAllocations (envNomad (fakeEnv host run)) n j i d w))"
    unfolding fakeEnv_sel fakeAllocations_def by (rule fake_sdk_answers)
qed (simp_all add: fakeEnv_def [of host run])

subsection \<open>Every wait ends\<close>

text \<open>C12. In a world that answers and whose clock advances, the polling loops end: the wait
  for the session's task, the check of a fresh pane, the flush of the log shipper and the
  wait for a placement return with a value or an error, for every timeout and every positive interval,
  and so do the operations built on them (staging, stop, dispatch), provided the
  process does not already hold the session's lock. They give back every lock.\<close>

theorem waits_return:
  assumes "answering_world ev clock" and "n \<notin> set (lsLocks s)" and "0 < interval"
  shows "returnsFrom s (awaitExecAllocReadyWithin ev l n timeout interval) \<and> returnsFrom s (verifyPaneRunsAgent ev l n)
    \<and> returnsFrom s (flushLogShipper ev l a) \<and> returnsFrom s (execStage ev l n command stdin)
    \<and> returnsFrom s (opStop ev l n) \<and> returnsFrom s (dispatch ev l n img) \<and> returnsFrom s (confirmDispatchPlaced ev l n)"
  using answering_world.ops_return [OF assms] by blast

theorem waits_return_witness:
  "returnsFrom (fakeState []) (awaitExecAllocReadyWithin (fakeEnv (\<lambda>_ _. Starts) (\<lambda>_ _ _ _. (0, [], []))) stubLife ''a'' (3 * second) 1000)
   \<and> returnsFrom (fakeState []) (opStop (fakeEnv (\<lambda>_ _. Starts) (\<lambda>_ _ _ _. (0, [], []))) stubLife ''a'')"
  using waits_return [OF fake.answering_world_axioms, of "''a''" "fakeState []" 1000 "\<lambda>_ _. Starts" "\<lambda>_ _ _ _. (0, [], [])" stubLife "3 * second"]
  by (simp add: fakeState_def)

subsection \<open>Bounded retries\<close>

definition isExec :: "apiCall \<Rightarrow> bool" where
  "isExec c = (case c of ExecCall a t cmd \<Rightarrow> True | _ \<Rightarrow> False)"

lemma isExec_kinds [simp]:
  "isExec (ExecCall a t c)" "\<not> isExec (Http rq)" "\<not> isExec (DispatchCall p m n t)" "\<not> isExec (AllocsCall j i d)"
  by (simp_all add: isExec_def)

lemma quiet_await:
  assumes "readQuiet K"
  shows "keeps (callsAre K ks) (awaitExecAllocReady (traced ev) l n)"
proof -
  have pick: "keeps (callsAre K ks) (pickAlloc (traced ev) l n b)" for b
    unfolding pickAlloc_def by (intro keeps_intros quiet readQuietD [OF assms])
  have rec: "keeps (callsAre K ks) (currentAllocRecord (traced ev) l n)"
    unfolding currentAllocRecord_def by (intro keeps_intros quiet pick readQuietD(1) [OF assms])
  have "keeps (callsAre K ks) (observeAlloc (traced ev) l n)"
    unfolding observeAlloc_def by (intro keeps_intros rec)
  then have "keeps (callsAre K ks) (awaitLoop k (traced ev) l n timeout interval deadline)" for k timeout interval deadline
    by (induction k) (auto intro!: keeps_intros quiet)
  then show ?thesis
    unfolding awaitExecAllocReady_def awaitExecAllocReadyWithin_def by (intro keeps_intros quiet)
qed

text \<open>Each attempt is one exec of the same command in the same allocation.\<close>

lemma retry_calls:
  assumes once: "\<And>s. filter isExec (calls (snd (p s))) = filter isExec (calls s) @ [c]"
  shows "\<exists>k. 0 < k \<and> k \<le> Suc left \<and>
    filter isExec (calls (snd (retryFrom left (traced ev) p s))) = filter isExec (calls s) @ replicate k c"
proof (induction left arbitrary: s)
  case 0
  show ?case
    using once [of s] by (subst retryFrom.simps, cases "p s"; cases "fst (p s)")
      (auto simp: prog_defs intro: exI [of _ 1])
next
  case (Suc left)
  have one: "\<exists>k. 0 < k \<and> k \<le> Suc (Suc left) \<and> filter isExec (calls s) @ [c] = filter isExec (calls s) @ replicate k c"
    by (intro exI [of _ 1]) simp
  show ?case
  proof (cases "\<exists>e. fst (p s) = Err e \<and> allocReadyRetryable e")
    case False
    then show ?thesis
      using once [of s] one by (subst retryFrom.simps, cases "p s"; cases "fst (p s)") (auto simp: prog_defs)
  next
    case True
    then obtain e s1 where e: "p s = (Err e, s1)" "allocReadyRetryable e" by (cases "p s") auto
    define s2 where "s2 = snd (sleepFor (traced ev) allocExecReadyDelay s1)"
    have s2: "sleepFor (traced ev) allocExecReadyDelay s1 = (Ok (), s2)"
      by (simp add: s2_def sleepFor_def world_def)
    have c2: "filter isExec (calls s2) = filter isExec (calls s) @ [c]"
      using once [of s] e keepsD [OF quiet_calls(2) [of isExec], of "filter isExec (calls s1)" s1]
      by (simp add: s2_def callsAre_def)
    obtain k where "0 < k" "k \<le> Suc left"
      "filter isExec (calls (snd (retryFrom left (traced ev) p s2))) = filter isExec (calls s2) @ replicate k c"
      using Suc.IH by blast
    then show ?thesis
      by (subst retryFrom.simps) (auto simp: bindS_def attempt_def e s2 c2 intro!: exI [of _ "Suc k"])
  qed
qed

text \<open>C20. Staging one archive runs the command in one allocation at most twenty times, at
  least once when the wait for the task succeeded and not at all when it failed, and
  makes no other exec.\<close>

theorem execStage_bounded:
  "\<exists>a k. k \<le> 20 \<and> (0 < k \<longleftrightarrow> (\<exists>x. fst (awaitExecAllocReady (traced ev) l n s) = Ok x)) \<and>
    filter isExec (calls (snd (execStage (traced ev) l n command stdin s)))
      = filter isExec (calls s) @ replicate k (ExecCall a (lcExecTask l) command)"
proof -
  let ?run = "\<lambda>a. bindS (execAllocStdin (traced ev) a (lcExecTask l) command stdin) (\<lambda>(code, out).
       if code \<noteq> 0 then failS (ENew (''tar exited '' @ intText code @ '': '' @ out)) else returnS ())"
  have once: "filter isExec (calls (snd (?run a t))) = filter isExec (calls t) @ [ExecCall a (lcExecTask l) command]" for a t
    by (auto simp: execAllocStdin_def execAllocObserved_def world_def tracedCall_def bindS_def returnS_def failS_def
        split: prod.split result.split)
  obtain r s1 where w: "awaitExecAllocReady (traced ev) l n s = (r, s1)" by fastforce
  have "readQuiet isExec" by (simp add: readQuiet_def)
  from keepsD [OF quiet_await [OF this], of "filter isExec (calls s)" s ev l n]
  have c1: "filter isExec (calls s1) = filter isExec (calls s)" using w by (simp add: callsAre_def)
  show ?thesis
  proof (cases r)
    case (Ok a)
    have "\<exists>k. 0 < k \<and> k \<le> 20 \<and> filter isExec (calls (snd (retryAllocExecReady (traced ev) (?run a) s1)))
        = filter isExec (calls s1) @ replicate k (ExecCall a (lcExecTask l) command)"
      using retry_calls [OF once, of 19] by (simp add: retryAllocExecReady_def allocExecReadyAttempts_def)
    then show ?thesis using Ok w c1 by (auto simp: execStage_def bindS_def [of "awaitExecAllocReady _ _ _"])
  qed (use w c1 in \<open>auto simp: execStage_def bindS_def intro: exI [of _ 0]\<close>)
qed

end
