(* ===== verification/Startup_Prompt.thy ===== *)
theory Startup_Prompt
  imports Startup Prime Waits
begin

text \<open>
  Typing the first prompt while the caller waits (\<^verbatim>\<open>startup.go\<close>): the probe of the pane, the
  wait for readiness, the nudge and its receipt on the binding. The effects are
  injected as \<^verbatim>\<open>startupIO\<close> does; the locale \<open>prompt_io\<close> is what the step relies on, and
  the lifecycle's own effects are an instance of it. A context that ends shows as
  an error of the wait.
\<close>

subsection \<open>Constants and printing\<close>

definition startupReadyIntervalDefault :: duration where
  "startupReadyIntervalDefault = 2 * second"

definition startupReadyBudgetDefault :: duration where
  "startupReadyBudgetDefault = 180 * second"

definition promptStatusNudgeFailed :: string where
  "promptStatusNudgeFailed = ''nudge_failed''"

text \<open>The verb \<^verbatim>\<open>%t\<close>.\<close>

definition fmtBool :: "bool \<Rightarrow> string" where
  "fmtBool b = (if b then ''true'' else ''false'')"

text \<open>\<^verbatim>\<open>time.RFC3339\<close> of a UTC time. The year is counted from March, so that the leap day
  comes last; 306 days separate the first of March of the year 0 from the zero time.\<close>

definition civilDate :: "int \<Rightarrow> int \<times> int \<times> int" where
  "civilDate days =
    (let z = days + 306; era = z div 146097; doe = z mod 146097;
         yoe = (doe - doe div 1460 + doe div 36524 - doe div 146096) div 365;
         doy = doe - (365 * yoe + yoe div 4 - yoe div 100);
         mp = (5 * doy + 2) div 153;
         d = doy - (153 * mp + 2) div 5 + 1;
         m = (if mp < 10 then mp + 3 else mp - 9)
     in (yoe + era * 400 + (if m \<le> 2 then 1 else 0), m, d))"

definition padInt :: "nat \<Rightarrow> int \<Rightarrow> string" where
  "padInt w n = (let t = natText (nat \<bar>n\<bar>) in (if n < 0 then ''-'' else []) @ replicate (w - length t) CHR ''0'' @ t)"

definition fmtRFC3339 :: "gotime \<Rightarrow> string" where
  "fmtRFC3339 t =
    (let sec = t div second; days = sec div 86400; s = sec mod 86400 in
     case civilDate days of (y, m, d) \<Rightarrow>
       padInt 4 y @ ''-'' @ padInt 2 m @ ''-'' @ padInt 2 d @ ''T''
       @ padInt 2 (s div 3600) @ '':'' @ padInt 2 (s div 60 mod 60) @ '':'' @ padInt 2 (s mod 60) @ ''Z'')"

text \<open>A 64-bit product of a duration wraps.\<close>

definition wrapInt64 :: "int \<Rightarrow> int" where
  "wrapInt64 n = (n + 2 ^ 63) mod 2 ^ 64 - 2 ^ 63"

subsection \<open>The injected effects\<close>

record 'w startupIO =
  sioAlloc :: "string \<Rightarrow> ('w lstate, string) prog"
  sioPane :: "string \<Rightarrow> int \<Rightarrow> ('w lstate, bool \<times> string) prog"
  sioNudge :: "string \<Rightarrow> string \<Rightarrow> ('w lstate, unit) prog"
  sioWait :: "duration \<Rightarrow> ('w lstate, unit) prog"
  sioNow :: "('w lstate, gotime) prog"
  sioInterval :: duration
  sioBudget :: duration

text \<open>With a context that is never done.\<close>

definition sleepCtx :: "'w env \<Rightarrow> duration \<Rightarrow> ('w lstate, unit) prog" where
  "sleepCtx ev d = (if d \<le> 0 then returnS () else sleepFor ev d)"

definition probeStartupPane :: "'w env \<Rightarrow> lifecycle \<Rightarrow> string \<Rightarrow> int \<Rightarrow> ('w lstate, bool \<times> string) prog" where
  "probeStartupPane ev l allocID pid =
    (let check = ''tmux has-session -t '' @ tmuxSessionName
           @ (if 0 < pid then '' && kill -0 '' @ intText pid else [])
           @ '' && tmux capture-pane -t '' @ tmuxSessionName @ '' -p'' in
     bindS (execAlloc ev allocID (lcExecTask l) [''/bin/sh'', ''-c'', check]) (\<lambda>(exitCode, out).
     returnS (exitCode = 0, out)))"

definition lifecycle_startupIO :: "'w env \<Rightarrow> lifecycle \<Rightarrow> 'w startupIO" where
  "lifecycle_startupIO ev l =
    \<lparr>sioAlloc = currentAlloc ev l, sioPane = probeStartupPane ev l, sioNudge = opNudge ev l, sioWait = sleepCtx ev,
     sioNow = timeNow ev, sioInterval = startupReadyIntervalDefault, sioBudget = startupReadyBudgetDefault\<rparr>"

lemma lifecycle_startupIO_sel [simp]:
  "sioAlloc (lifecycle_startupIO ev l) = currentAlloc ev l" "sioPane (lifecycle_startupIO ev l) = probeStartupPane ev l"
  "sioNudge (lifecycle_startupIO ev l) = opNudge ev l" "sioWait (lifecycle_startupIO ev l) = sleepCtx ev"
  "sioNow (lifecycle_startupIO ev l) = timeNow ev" "sioInterval (lifecycle_startupIO ev l) = startupReadyIntervalDefault"
  "sioBudget (lifecycle_startupIO ev l) = startupReadyBudgetDefault"
  by (simp_all add: lifecycle_startupIO_def)

definition effectiveBudget :: "'w startupIO \<Rightarrow> duration" where
  "effectiveBudget io = (if 0 < sioBudget io then sioBudget io else startupReadyBudgetDefault)"

subsection \<open>Waiting for the prompt\<close>

text \<open>One look at the pane; an error of either call is not ready yet.\<close>

definition lookReady :: "'w startupIO \<Rightarrow> string \<Rightarrow> int \<Rightarrow> stageConfig \<Rightarrow> ('w lstate, bool) prog" where
  "lookReady io sessionName pid cfg =
    bindS (attempt (sioAlloc io sessionName)) (\<lambda>r. case r of
      Inl e \<Rightarrow> returnS False
    | Inr allocID \<Rightarrow>
        bindS (attempt (sioPane io allocID pid)) (\<lambda>p. case p of
          Inl e \<Rightarrow> returnS False
        | Inr (alive, captured) \<Rightarrow> returnS (alive \<and> paneShowsReadyPrompt captured (cfgReadyPromptPrefix cfg))))"

fun readyLoop :: "nat \<Rightarrow> 'w startupIO \<Rightarrow> string \<Rightarrow> int \<Rightarrow> stageConfig \<Rightarrow> duration \<Rightarrow> gotime \<Rightarrow> ('w lstate, bool) prog" where
  "readyLoop 0 io sessionName pid cfg interval deadline = hangS"
| "readyLoop (Suc k) io sessionName pid cfg interval deadline =
    bindS (lookReady io sessionName pid cfg) (\<lambda>ready.
    if ready then returnS True
    else bindS (sioNow io) (\<lambda>now.
      if \<not> now < deadline then returnS False
      else bindS (sioWait io interval) (\<lambda>_. readyLoop k io sessionName pid cfg interval deadline)))"

definition awaitReady :: "'w startupIO \<Rightarrow> string \<Rightarrow> int \<Rightarrow> stageConfig \<Rightarrow> ('w lstate, bool) prog" where
  "awaitReady io sessionName pid cfg =
    (let interval = (if sioInterval io \<le> 0 then startupReadyIntervalDefault else sioInterval io);
         budget = (if sioBudget io \<le> 0 then startupReadyBudgetDefault else sioBudget io) in
     bindS (sioNow io) (\<lambda>start.
     bindS (whenS (0 < cfgReadyDelayMs cfg)
       (sioWait io (let delay = wrapInt64 (cfgReadyDelayMs cfg * 1000000) in if budget < delay then budget else delay))) (\<lambda>_.
     readyLoop (nat (budget div interval) + 2) io sessionName pid cfg interval (start + budget))))"

subsection \<open>Delivering it\<close>

abbreviation promptLine :: "string \<Rightarrow> string" where
  "promptLine sessionName \<equiv> ''startup-prompt session='' @ sessionName"

text \<open>From the wait on.\<close>

definition deliverPrompt ::
  "'w startupIO \<Rightarrow> (string \<Rightarrow> ('w lstate, unit) prog) \<Rightarrow> string \<Rightarrow> stageConfig \<Rightarrow> binding \<Rightarrow> ('w lstate, unit) prog" where
  "deliverPrompt io logf sessionName cfg b =
    bindS (awaitReady io sessionName (AgentPID b) cfg) (\<lambda>ready.
    if \<not> ready then
      bindS (sidecar_save (b\<lparr>PromptStatus := promptStatusNotReady\<rparr>)) (\<lambda>_.
      logf (promptLine sessionName @ '' result=not-ready within='' @ durationText (effectiveBudget io)
        @ '' prompt_prefix='' @ fmtBool (cfgReadyPromptPrefix cfg \<noteq> [])))
    else bindS (attempt (sioNudge io sessionName (fst (startupPrompt cfg)))) (\<lambda>typed. case typed of
      Inl e \<Rightarrow>
        bindS (attempt (sidecar_save (b\<lparr>PromptStatus := promptStatusNudgeFailed\<rparr>))) (\<lambda>saved. case saved of
          Inl saveErr \<Rightarrow> logf (promptLine sessionName @ '' result=nudge-failed but the binding could not be marked: '' @ errText saveErr)
        | Inr _ \<Rightarrow> logf (promptLine sessionName @ '' result=nudge-failed: '' @ errText e))
    | Inr _ \<Rightarrow>
        bindS (sioNow io) (\<lambda>deliveredAt.
        bindS (sidecar_save (b\<lparr>PromptedAt := Some deliveredAt, PromptStatus := promptStatusDelivered\<rparr>)) (\<lambda>_.
        logf (promptLine sessionName @ '' result=delivered source='' @ snd (startupPrompt cfg)
          @ '' bytes='' @ natText (length (fst (startupPrompt cfg))))))))"

definition startupPrime ::
  "'w startupIO \<Rightarrow> (string \<Rightarrow> ('w lstate, unit) prog) \<Rightarrow> string \<Rightarrow> stageConfig \<Rightarrow> ('w lstate, unit) prog" where
  "startupPrime io logf sessionName cfg =
    bindS (logf (promptLine sessionName @ '' wire command='' @ fmtBool (cfgCommand cfg \<noteq> []) @ '' nudge='' @ fmtBool (cfgNudge cfg \<noteq> [])
      @ '' ready_prompt_prefix='' @ fmtBool (cfgReadyPromptPrefix cfg \<noteq> []) @ '' ready_delay_ms='' @ intText (cfgReadyDelayMs cfg)
      @ '' process_names='' @ fmtBool (0 < length (cfgProcessNames cfg)) @ '' prompt_source='' @ snd (startupPrompt cfg)
      @ '' prompt_bytes='' @ natText (length (fst (startupPrompt cfg))))) (\<lambda>_.
    if fst (startupPrompt cfg) = [] then returnS ()
    else bindS (sidecar_load sessionName) (\<lambda>found. case found of
      None \<Rightarrow> failS (ENew (''session '' @ goQuote sessionName @ '' binding vanished before the startup prompt could be delivered''))
    | Some b \<Rightarrow>
        (case PromptedAt b of
           Some t \<Rightarrow> logf (promptLine sessionName @ '' skipped=already-primed at='' @ fmtRFC3339 t)
         | None \<Rightarrow> deliverPrompt io logf sessionName cfg b)))"

definition lifecycle_startupPrime :: "'w env \<Rightarrow> lifecycle \<Rightarrow> string \<Rightarrow> stageConfig \<Rightarrow> ('w lstate, unit) prog" where
  "lifecycle_startupPrime ev l = startupPrime (lifecycle_startupIO ev l) (logDecision l)"

subsection \<open>What the pane sees\<close>

text \<open>
  \<open>watched\<close> writes down what the probe showed and when text is sent, in a list kept beside
  the world; \<open>beside\<close> runs a world next to such a list without touching it.
\<close>

datatype promptEvent = Shown bool string | Typing string | Typed

abbreviation events :: "('w \<times> 'e) lstate \<Rightarrow> 'e" where
  "events s \<equiv> snd (lsWorld s)"

definition noteEvent :: "promptEvent \<Rightarrow> (('w \<times> promptEvent list) lstate, unit) prog" where
  "noteEvent e = modifyS (\<lambda>s. s\<lparr>lsWorld := (fst (lsWorld s), events s @ [e])\<rparr>)"

definition watched :: "('w \<times> promptEvent list) startupIO \<Rightarrow> ('w \<times> promptEvent list) startupIO" where
  "watched io = io\<lparr>
     sioPane := (\<lambda>a pid. bindS (sioPane io a pid) (\<lambda>(alive, captured). bindS (noteEvent (Shown alive captured)) (\<lambda>_. returnS (alive, captured)))),
     sioNudge := (\<lambda>n t. bindS (noteEvent (Typing t)) (\<lambda>_. bindS (sioNudge io n t) (\<lambda>_. noteEvent Typed)))\<rparr>"

lemma watched_sel [simp]:
  "sioAlloc (watched io) = sioAlloc io" "sioWait (watched io) = sioWait io" "sioNow (watched io) = sioNow io"
  "sioInterval (watched io) = sioInterval io" "sioBudget (watched io) = sioBudget io"
  by (simp_all add: watched_def)

lemma watched_ops:
  "sioPane (watched io) a pid = bindS (sioPane io a pid) (\<lambda>(alive, captured). bindS (noteEvent (Shown alive captured)) (\<lambda>_. returnS (alive, captured)))"
  "sioNudge (watched io) n t = bindS (noteEvent (Typing t)) (\<lambda>_. bindS (sioNudge io n t) (\<lambda>_. noteEvent Typed))"
  by (simp_all add: watched_def)

definition besideP :: "('w, 'a) prog \<Rightarrow> ('w \<times> 'e, 'a) prog" where
  "besideP p we = (case p (fst we) of (r, w) \<Rightarrow> (r, (w, snd we)))"

definition beside :: "'w env \<Rightarrow> ('w \<times> 'e) env" where
  "beside ev =
    \<lparr>envNomad = \<lparr>httpDo = (\<lambda>rq. besideP (httpDo (envNomad ev) rq)),
       sdkDispatch = (\<lambda>p m n t. besideP (sdkDispatch (envNomad ev) p m n t)),
       sdkAllocations = (\<lambda>n j i d. besideP (sdkAllocations (envNomad ev) n j i d))\<rparr>,
     envNow = (\<lambda>we. case envNow ev (fst we) of (t, w) \<Rightarrow> (t, (w, snd we))),
     envSleep = (\<lambda>d we. (envSleep ev d (fst we), snd we)),
     envRand = (\<lambda>we. case envRand ev (fst we) of (r, w) \<Rightarrow> (r, (w, snd we))),
     envExec = (\<lambda>a t c i. besideP (envExec ev a t c i)),
     envFmtTime = envFmtTime ev, envParseTime = envParseTime ev\<rparr>"

text \<open>Looks at a pane that is not ready; then one that is, and the text.\<close>

abbreviation readyLook :: "stageConfig \<Rightarrow> bool \<Rightarrow> string \<Rightarrow> bool" where
  "readyLook cfg alive captured \<equiv> alive \<and> paneShowsReadyPrompt captured (cfgReadyPromptPrefix cfg)"

fun orderly :: "stageConfig \<Rightarrow> string \<Rightarrow> promptEvent list \<Rightarrow> bool" where
  "orderly cfg text [] = True"
| "orderly cfg text (Shown alive captured # es) =
    (if readyLook cfg alive captured then es = [Typing text] \<or> es = [Typing text, Typed] else orderly cfg text es)"
| "orderly cfg text (e # es) = False"

definition unready :: "stageConfig \<Rightarrow> promptEvent \<Rightarrow> bool" where
  "unready cfg e \<longleftrightarrow> (\<exists>alive captured. e = Shown alive captured \<and> \<not> readyLook cfg alive captured)"

lemma orderly_looks: "list_all (unready cfg) looks \<Longrightarrow> orderly cfg text (looks @ es) = orderly cfg text es"
  by (induction looks) (auto simp: unready_def)

lemma unready_quiet: "list_all (unready cfg) looks \<Longrightarrow> Typed \<notin> set looks"
  by (auto simp: list_all_iff unready_def)

lemma sidecar_load_recorded:
  assumes "sidecar_view s n = Some b"
  shows "(\<exists>e. fst (sidecar_load n s) = Err e) \<or> fst (sidecar_load n s) = Ok (Some b)"
  using assms unfolding sidecar_view_Some
  by (cases "fs_faults s") (auto simp: sidecar_load_def sidecar_op_defs decodeBinding_def split: option.splits)

text \<open>The receipt of a delivered prompt.\<close>

definition receipt :: "string \<Rightarrow> 'w lstate \<Rightarrow> bool" where
  "receipt n s \<longleftrightarrow> (\<exists>b. sidecar_view s n = Some b \<and> PromptedAt b \<noteq> None \<and> PromptStatus b = promptStatusDelivered)"

lemma receipt_files: "receipt n s \<Longrightarrow> fs_files s' = fs_files s \<Longrightarrow> receipt n s'"
  by (simp add: receipt_def sidecar_view_def)

locale prompt_io =
  fixes io :: "('w \<times> promptEvent list) startupIO" and logf :: "string \<Rightarrow> (('w \<times> promptEvent list) lstate, unit) prog"
  assumes silent: "keeps (\<lambda>s. events s = es) (sioAlloc io n)" "keeps (\<lambda>s. events s = es) (sioPane io a pid)"
      "keeps (\<lambda>s. events s = es) (sioNudge io n t)" "keeps (\<lambda>s. events s = es) (sioWait io d)"
      "keeps (\<lambda>s. events s = es) (sioNow io)"
    and logs: "keeps (\<lambda>s. events s = es \<and> fs_files s = files) (logf m)"
begin

lemma wp_silent:
  assumes "keeps (\<lambda>s. events s = es) p" and "events s = es" and "\<And>r s'. events s' = es \<Longrightarrow> Q r s'"
  shows "wp p Q s"
  unfolding wp_iff by (rule assms(3)) (rule keepsD [OF assms(1,2)])

lemma wp_logs:
  assumes "events s = es" and "\<And>r s'. events s' = es \<Longrightarrow> fs_files s' = fs_files s \<Longrightarrow> Q r s'"
  shows "wp (logf m) Q s"
proof -
  have "events (snd (logf m s)) = es \<and> fs_files (snd (logf m s)) = fs_files s"
    by (rule keepsD [OF logs]) (simp add: assms(1))
  then show ?thesis unfolding wp_iff using assms(2) by blast
qed

lemma wp_look:
  assumes "events s = es" and "\<And>r s'. events s' = es \<Longrightarrow> r \<noteq> Ok True \<Longrightarrow> Q r s'"
    and "\<And>a c s'. events s' = es @ [Shown a c] \<Longrightarrow> Q (Ok (readyLook cfg a c)) s'"
  shows "wp (lookReady (watched io) n pid cfg) Q s"
proof -
  have pane: "wp (sioPane io a pid) R s'" if "events s' = es" "\<And>r s'. events s' = es \<Longrightarrow> R r s'" for a s' R
    by (rule wp_silent [OF silent(2) that(1)]) (rule that(2))
  show ?thesis
    unfolding lookReady_def wp_bind wp_attempt watched_sel
    by (rule wp_silent [OF silent(1) assms(1)])
      (auto simp: wp_simps watched_ops noteEvent_def split: result.split intro!: pane assms(2) assms(3))
qed

lemma wp_loop:
  assumes "events s = es"
    and "\<And>looks r s'. list_all (unready cfg) looks \<Longrightarrow> events s' = es @ looks \<Longrightarrow> r \<noteq> Ok True \<Longrightarrow> Q r s'"
    and "\<And>looks a c s'. list_all (unready cfg) looks \<Longrightarrow> readyLook cfg a c \<Longrightarrow> events s' = es @ looks @ [Shown a c] \<Longrightarrow> Q (Ok True) s'"
  shows "wp (readyLoop k (watched io) n pid cfg interval deadline) Q s"
  using assms
proof (induction k arbitrary: s es)
  case 0
  then show ?case by (simp add: wp_simps) (rule 0(2) [of "[]"]; simp)
next
  case (Suc k)
  have again: "wp (bindS (sioNow io) (\<lambda>now. if \<not> now < deadline then returnS False
      else bindS (sioWait io interval) (\<lambda>_. readyLoop k (watched io) n pid cfg interval deadline))) Q s'"
    if looks: "list_all (unready cfg) looks" and s': "events s' = es @ looks" for looks s'
  proof -
    have stop: "Q r s''" if "events s'' = es @ looks" "r \<noteq> Ok True" for r s''
      using Suc.prems(2) looks that by blast
    have rest: "wp (readyLoop k (watched io) n pid cfg interval deadline) Q s''" if "events s'' = es @ looks" for s''
      using Suc.prems(2) [of "looks @ _"] Suc.prems(3) [of "looks @ _"] looks
      by (intro Suc.IH [OF that]) auto
    have wait: "wp (sioWait io interval) R s''" if "events s'' = es @ looks" "\<And>r t. events t = es @ looks \<Longrightarrow> R r t" for s'' R
      by (rule wp_silent [OF silent(4) that(1)]) (rule that(2))
    show ?thesis
      unfolding wp_bind
      by (rule wp_silent [OF silent(5) s']) (auto simp: wp_simps split: result.split intro!: wait rest stop)
  qed
  show ?case
    unfolding readyLoop.simps(2) wp_bind watched_sel
  proof (rule wp_look [OF Suc.prems(1)], goal_cases)
    case (1 r s')
    then show ?case
      using again [of "[]" s'] Suc.prems(2) [of "[]" s'] by (auto split: result.split)
  next
    case (2 a c s')
    show ?case
    proof (cases "readyLook cfg a c")
      case True
      then show ?thesis using Suc.prems(3) [of "[]" a c s'] 2 by (simp add: wp_simps)
    next
      case False
      then show ?thesis using again [of "[Shown a c]" s'] 2 by (auto simp: unready_def)
    qed
  qed
qed

lemma wp_await:
  assumes "events s = es"
    and "\<And>looks r s'. list_all (unready cfg) looks \<Longrightarrow> events s' = es @ looks \<Longrightarrow> r \<noteq> Ok True \<Longrightarrow> Q r s'"
    and "\<And>looks a c s'. list_all (unready cfg) looks \<Longrightarrow> readyLook cfg a c \<Longrightarrow> events s' = es @ looks @ [Shown a c] \<Longrightarrow> Q (Ok True) s'"
  shows "wp (awaitReady (watched io) n pid cfg) Q s"
proof -
  have stop: "Q r s'" if "events s' = es" "r \<noteq> Ok True" for r s'
    using assms(2) [of "[]"] that by simp
  have wait: "wp (sioWait io d) R s'" if "events s' = es" "\<And>r t. events t = es \<Longrightarrow> R r t" for s' R d
    by (rule wp_silent [OF silent(4) that(1)]) (rule that(2))
  have loop: "wp (readyLoop k (watched io) n pid cfg interval deadline) Q s'" if "events s' = es" for k interval deadline s'
    by (rule wp_loop [OF that]) (use assms(2,3) in blast)+
  show ?thesis
    unfolding awaitReady_def Let_def wp_bind watched_sel
    by (rule wp_silent [OF silent(5) assms(1)])
      (auto simp: wp_simps whenS_def simp del: readyLoop.simps split: result.split intro!: wait loop stop)
qed

lemma wp_nudge:
  assumes "events s = es" and "\<And>r s'. events s' = es @ [Typing t] \<Longrightarrow> \<forall>u. r \<noteq> Ok u \<Longrightarrow> Q r s'"
    and "\<And>s'. events s' = es @ [Typing t, Typed] \<Longrightarrow> Q (Ok ()) s'"
  shows "wp (sioNudge (watched io) n t) Q s"
proof -
  have nudge: "wp (sioNudge io n t) R s'" if "events s' = es @ [Typing t]" "\<And>r t'. events t' = es @ [Typing t] \<Longrightarrow> R r t'" for s' R
    by (rule wp_silent [OF silent(3) that(1)]) (rule that(2))
  show ?thesis
    using assms(1) by (auto simp: watched_ops noteEvent_def wp_simps split: result.split intro!: nudge assms(2,3))
qed

lemma wp_saves:
  assumes "events s = es" and "\<And>e s'. events s' = es \<Longrightarrow> Q (Err e) s'"
    and "\<And>s'. events s' = es \<Longrightarrow> sidecar_view s' (SessionName b) = Some b \<Longrightarrow> Q (Ok ()) s'"
  shows "wp (sidecar_save b) Q s"
proof -
  have "events (snd (sidecar_save b s)) = es"
    by (rule keepsD [OF keeps_sidecar(3)]) (simp_all add: assms(1))
  moreover have "fst (sidecar_save b s) = Ok () \<or> (\<exists>e. fst (sidecar_save b s) = Err e)"
    using sidecar_save_outcome [of b s] by blast
  ultimately show ?thesis
    unfolding wp_iff using assms(2,3) sidecar_save_ok_view [of b s] by (metis fun_upd_same)
qed

lemma wp_notes: "(\<And>r s2. events s2 = events s1 \<Longrightarrow> fs_files s2 = fs_files s1 \<Longrightarrow> R r s2) \<Longrightarrow> wp (logf m) R s1"
  by (rule wp_logs [OF refl])

lemma wp_deliver:
  assumes "events s = es0" and "SessionName b = n"
  shows "wp (deliverPrompt (watched io) logf n cfg b)
    (\<lambda>r s'. \<exists>es. events s' = es0 @ es \<and> orderly cfg (fst (startupPrompt cfg)) es
      \<and> (Typed \<in> set es \<and> r = Ok () \<longrightarrow> receipt n s')) s" (is "wp _ ?Q s")
proof -
  define text0 where "text0 = fst (startupPrompt cfg)"
  define Q where "Q = ?Q"
  have quiet: "Q r s'" if "list_all (unready cfg) looks" "events s' = es0 @ looks" for looks r s'
    using that orderly_looks [OF that(1), of _ "[]"] unready_quiet [OF that(1)] by (simp add: Q_def)
  have sent: "Q r s'" if "list_all (unready cfg) looks" "readyLook cfg a c" "es = [Typing text0] \<or> es = [Typing text0, Typed]"
    "events s' = es0 @ looks @ Shown a c # es" "Typed \<in> set es \<Longrightarrow> r = Ok () \<Longrightarrow> receipt n s'" for looks a c es r s'
    using that orderly_looks [OF that(1), of _ "Shown a c # es"] unready_quiet [OF that(1)]
    unfolding Q_def text0_def by (intro exI [of _ "looks @ Shown a c # es"]) auto
  have "wp (deliverPrompt (watched io) logf n cfg b) Q s"
    unfolding deliverPrompt_def wp_bind [of "awaitReady _ _ _ _"]
  proof (rule wp_await [OF assms(1)], goal_cases)
    case (1 looks r s')
    then show ?case by (auto simp: wp_simps split: result.split intro!: wp_saves [OF refl] wp_notes quiet)
  next
    case (2 looks a c s')
    have failed: "Q r t" if "events t = events s' @ [Typing text0]" for r t
      by (rule sent [OF 2(1,2)]) (use that 2(3) in auto)
    have typed: "Q r t" if "events t = events s' @ [Typing text0, Typed]" "r = Ok () \<Longrightarrow> receipt n t" for r t
      by (rule sent [OF 2(1,2)]) (use that 2(3) in auto)
    have clock: "wp (sioNow io) R t" if "\<And>r t'. events t' = events t \<Longrightarrow> R r t'" for R t
      by (rule wp_silent [OF silent(5) refl that])
    have recorded: "receipt n t'" if "sidecar_view t n = Some (b\<lparr>PromptedAt := Some now, PromptStatus := promptStatusDelivered\<rparr>)"
      "fs_files t' = fs_files t" for t t' :: "('w \<times> promptEvent list) lstate" and now
      by (rule receipt_files [OF _ that(2)]) (simp add: receipt_def that(1))
    show ?case
      unfolding result.case simp_thms if_False wp_bind [of "attempt _"] wp_attempt text0_def [symmetric]
    proof (rule wp_nudge [OF refl], goal_cases)
      case (1 r t)
      then show ?case by (auto simp: wp_simps split: result.split intro!: wp_saves [OF refl] wp_notes failed)
    next
      case (2 t)
      then show ?case
        by (auto simp: wp_simps assms(2) split: result.split intro!: wp_saves [OF refl] wp_notes clock typed intro: recorded)
    qed
  qed
  then show ?thesis by (simp only: Q_def)
qed

lemma wp_loads:
  assumes "(\<exists>e. fst (sidecar_load n s) = Err e) \<or> fst (sidecar_load n s) = Ok v" and "events s = es"
    and "\<And>e s'. events s' = es \<Longrightarrow> R (Err e) s'" and "\<And>s'. events s' = es \<Longrightarrow> R (Ok v) s'"
  shows "wp (sidecar_load n) R s"
proof -
  have "events (snd (sidecar_load n s)) = es"
    by (rule keepsD [OF keeps_sidecar(2)]) (simp_all add: assms(2))
  then show ?thesis using assms(1,3,4) unfolding wp_iff by metis
qed

lemma wp_prime:
  assumes "sidecar_wf s" and "events s = es0"
  shows "wp (startupPrime (watched io) logf n cfg)
    (\<lambda>r s'. \<exists>es. events s' = es0 @ es \<and> orderly cfg (fst (startupPrompt cfg)) es
      \<and> (es \<noteq> [] \<longrightarrow> fst (startupPrompt cfg) \<noteq> [] \<and> (\<exists>b. sidecar_view s n = Some b \<and> PromptedAt b = None))
      \<and> (Typed \<in> set es \<and> r = Ok () \<longrightarrow> receipt n s')) s" (is "wp _ ?Q s")
proof -
  define Q where "Q = ?Q"
  have idle: "Q r s'" if "events s' = es0" for r s'
    using that by (simp add: Q_def)
  have wait: "wp (deliverPrompt (watched io) logf n cfg b) Q s'"
    if "events s' = es0" "fst (startupPrompt cfg) \<noteq> []" "sidecar_view s n = Some b" "PromptedAt b = None" for s' b
    by (rule wp_mono [OF wp_deliver [OF that(1) sc.view_name [OF assms(1) that(3)]]]) (use that in \<open>auto simp: Q_def\<close>)
  have load: "wp (sidecar_load n) R s1"
    if "events s1 = es0" "fs_files s1 = fs_files s" "\<And>e s2. events s2 = es0 \<Longrightarrow> R (Err e) s2"
      "\<And>s2. events s2 = es0 \<Longrightarrow> R (Ok (sidecar_view s n)) s2" for R s1
    by (rule wp_loads [where v = "sidecar_view s n"])
      (use assms(1) that sidecar_load_value [of s1 n] in \<open>auto simp: sidecar_wf_def sidecar_view_def\<close>)
  have "wp (startupPrime (watched io) logf n cfg) Q s"
    unfolding startupPrime_def wp_bind [of "logf _"]
    by (rule wp_logs [OF assms(2)])
      (auto simp: wp_simps split: result.split option.split intro!: load wp_notes wait idle)
  then show ?thesis by (simp only: Q_def)
qed

text \<open>A recorded prompt is not typed again.\<close>

lemma primed_idle:
  assumes "sidecar_view s n = Some b" and "PromptedAt b \<noteq> None"
  shows "events (snd (startupPrime (watched io) logf n cfg s)) = events s"
proof -
  obtain t where t: "PromptedAt b = Some t" using assms(2) by blast
  have load: "wp (sidecar_load n) R s1"
    if "events s1 = events s" "fs_files s1 = fs_files s" "\<And>e s2. events s2 = events s \<Longrightarrow> R (Err e) s2"
      "\<And>s2. events s2 = events s \<Longrightarrow> R (Ok (Some b)) s2" for R s1
    by (rule wp_loads [where v = "Some b"])
      (use assms(1) that sidecar_load_recorded [of s1 n b] in \<open>auto simp: sidecar_view_def\<close>)
  have "wp (startupPrime (watched io) logf n cfg) (\<lambda>r s'. events s' = events s) s"
    unfolding startupPrime_def wp_bind [of "logf _"]
    by (rule wp_logs [OF refl]) (auto simp: wp_simps t split: result.split intro!: load wp_notes)
  then show ?thesis by (simp add: wp_iff)
qed

end

subsection \<open>The lifecycle's effects\<close>

lemma beside_sel [simp]:
  "httpDo (envNomad (beside ev)) rq = besideP (httpDo (envNomad ev) rq)"
  "sdkAllocations (envNomad (beside ev)) n j i d = besideP (sdkAllocations (envNomad ev) n j i d)"
  "envExec (beside ev) a t c x = besideP (envExec ev a t c x)"
  by (simp_all add: beside_def)

lemma keeps_besideP: "keeps (\<lambda>we. snd we = es) (besideP p)"
  by (auto simp: keeps_def besideP_def split: prod.split)

lemma keeps_events_world:
  fixes p :: "('w \<times> 'e, 'a) prog"
  assumes "keeps (\<lambda>we. snd we = es) p"
  shows "keeps (\<lambda>s. events s = es) (world p)"
proof (rule keepsI)
  fix s :: "('w \<times> 'e) lstate" assume "events s = es"
  with keepsD [OF assms, of "lsWorld s"] show "events (snd (world p s)) = es"
    by (cases "p (lsWorld s)") (simp add: world_def)
qed

lemma keeps_events_local [keeps_intros]:
  "keeps (\<lambda>s. events s = es) (sidecar_load n)" "keeps (\<lambda>s. events s = es) (sidecar_save b)"
  "keeps (\<lambda>s. events s = es) p \<Longrightarrow> keeps (\<lambda>s. events s = es) (withLock n p)"
proof -
  show "keeps (\<lambda>s. events s = es) (sidecar_load n)" "keeps (\<lambda>s. events s = es) (sidecar_save b)"
    by (rule keeps_sidecar; simp)+
  have "keeps (\<lambda>s. events s = es) (lockSession n)"
    unfolding lockSession_def by (intro keeps_intros keeps_modify keeps_sidecar) simp_all
  then show "keeps (\<lambda>s. events s = es) p \<Longrightarrow> keeps (\<lambda>s. events s = es) (withLock n p)"
    unfolding withLock_def by (intro keeps_intros keeps_finally) (simp_all add: unlockSession_def)
qed

lemma keeps_events_calls [keeps_intros]:
  "keeps (\<lambda>s. events s = es) (world (listChildJobs (envNomad (beside ev)) c j))"
  "keeps (\<lambda>s. events s = es) (listAllocs (beside ev) l j)" "keeps (\<lambda>s. events s = es) (execAlloc (beside ev) a t cmd)"
  "keeps (\<lambda>s. events s = es) (timeNow (beside ev))" "keeps (\<lambda>s. events s = es) (sleepCtx (beside ev) d)"
proof -
  have body: "keeps (\<lambda>we. snd we = es) (readBody what r)" for what r
    unfolding readBody_def by (intro keeps_intros)
  show "keeps (\<lambda>s. events s = es) (world (listChildJobs (envNomad (beside ev)) c j))"
    unfolding listChildJobs_def doIndexed_def Let_def beside_sel
    by (intro keeps_events_world keeps_intros keeps_besideP body)
  show "keeps (\<lambda>s. events s = es) (listAllocs (beside ev) l j)"
    unfolding listAllocs_def listAllocsForJob_def beside_sel by (intro keeps_intros keeps_events_world keeps_besideP)
  show "keeps (\<lambda>s. events s = es) (execAlloc (beside ev) a t cmd)"
    unfolding execAlloc_def execAllocStdin_def execAllocObserved_def beside_sel
    by (intro keeps_intros keeps_events_world keeps_besideP)
  show "keeps (\<lambda>s. events s = es) (timeNow (beside ev))" "keeps (\<lambda>s. events s = es) (sleepCtx (beside ev) d)"
    unfolding timeNow_def sleepCtx_def sleepFor_def
    by (intro keeps_intros keeps_events_world keepsI; simp add: beside_def split: prod.split)+
qed

lemma keeps_events_alloc [keeps_intros]: "keeps (\<lambda>s. events s = es) (currentAlloc (beside ev) l n)"
proof -
  have pick: "keeps (\<lambda>s. events s = es) (pickAlloc (beside ev) l n b)" for b
    unfolding pickAlloc_def by (intro keeps_intros)
  have recover: "keeps (\<lambda>s. events s = es) (recoverBinding (beside ev) l n prior)" for prior
    unfolding recoverBinding_def Let_def by (intro keeps_intros)
  show ?thesis
    unfolding currentAlloc_def currentAllocRecord_def by (intro keeps_intros pick recover)
qed

interpretation pane: prompt_io "lifecycle_startupIO (beside ev) l" "logDecision l" for ev l
proof
  fix es n a pid t d files m
  show "keeps (\<lambda>s. events s = es) (sioAlloc (lifecycle_startupIO (beside ev) l) n)"
    "keeps (\<lambda>s. events s = es) (sioPane (lifecycle_startupIO (beside ev) l) a pid)"
    "keeps (\<lambda>s. events s = es) (sioNudge (lifecycle_startupIO (beside ev) l) n t)"
    "keeps (\<lambda>s. events s = es) (sioWait (lifecycle_startupIO (beside ev) l) d)"
    "keeps (\<lambda>s. events s = es) (sioNow (lifecycle_startupIO (beside ev) l))"
    unfolding lifecycle_startupIO_sel probeStartupPane_def opNudge_def bestEffort_def runDrivingVerb_def Let_def
    by (intro keeps_intros)+
  show "keeps (\<lambda>s. events s = es \<and> fs_files s = files) (logDecision l m)"
    unfolding logDecision_def by (intro keeps_intros keeps_modify) simp
qed

subsection \<open>The wait returns\<close>

context answering_world
begin

lemma settles_sleepCtx [settles_intros]: "settles (reached L t) (sleepCtx ev d)"
  unfolding sleepCtx_def by (intro settles_intros) simp

lemma settles_look [settles_intros]:
  assumes "n \<notin> set L"
  shows "settles (reached L t) (lookReady (lifecycle_startupIO ev l) n pid cfg)"
  unfolding lookReady_def lifecycle_startupIO_sel probeStartupPane_def
  by (intro settles_intros assms)

lemma settles_readyLoop:
  assumes "n \<notin> set L" and "0 < interval"
  shows "deadline \<le> t + int k * interval
    \<Longrightarrow> settles (reached L t) (readyLoop (Suc k) (lifecycle_startupIO ev l) n pid cfg interval deadline)"
proof (induction k arbitrary: t)
  case 0
  show ?case
    unfolding readyLoop.simps(2) [of 0] lifecycle_startupIO_sel
    by (intro settles_bind settles_look settles_now settles_if settles_simple assms) (use 0 in \<open>auto intro!: settles_intros\<close>)
next
  case (Suc k)
  have "settles (reached L u) (readyLoop (Suc k) (lifecycle_startupIO ev l) n pid cfg interval deadline)" if "t + interval \<le> u" for u
    by (rule Suc.IH) (use Suc.prems that in \<open>simp add: algebra_simps\<close>)
  moreover have "sleepCtx ev interval = sleepFor ev interval" using assms(2) by (simp add: sleepCtx_def)
  ultimately show ?case
    unfolding readyLoop.simps(2) [of "Suc k"] lifecycle_startupIO_sel
    by (simp only:) (intro settles_bind settles_look settles_now settles_if settles_sleep settles_simple assms;
      use assms(2) in simp)
qed

lemma settles_awaitPrompt [settles_intros]:
  assumes "n \<notin> set L"
  shows "settles (reached L t) (awaitReady (lifecycle_startupIO ev l) n pid cfg)"
proof -
  have "settles (reached L now) (readyLoop (Suc (Suc (nat (startupReadyBudgetDefault div startupReadyIntervalDefault))))
      (lifecycle_startupIO ev l) n pid cfg startupReadyIntervalDefault (now + startupReadyBudgetDefault))" for now
    by (intro settles_readyLoop assms)
      (use rounds_cover [of startupReadyIntervalDefault startupReadyBudgetDefault] in \<open>simp_all add: startupReadyIntervalDefault_def\<close>)
  then show ?thesis
    unfolding awaitReady_def Let_def lifecycle_startupIO_sel
    by (intro settles_now settles_bind settles_when settles_sleepCtx)
      (simp add: numeral_2_eq_2 startupReadyIntervalDefault_def startupReadyBudgetDefault_def)
qed

lemma startupPrime_returns:
  assumes "n \<notin> set (lsLocks s)"
  shows "returnsFrom s (lifecycle_startupPrime ev l n cfg)"
  unfolding lifecycle_startupPrime_def startupPrime_def deliverPrompt_def lifecycle_startupIO_sel opNudge_def bestEffort_def
  by (intro settled settles_intros assms)

end

text \<open>On the fake cluster the blocking delivery returns, whatever the pane shows.\<close>

lemma fake_startupPrime_returns:
  "n \<notin> set (lsLocks s) \<Longrightarrow> returnsFrom s (lifecycle_startupPrime (fakeEnv host run) l n cfg)"
  by (rule fake.startupPrime_returns)

subsection \<open>Once, and only into a ready pane\<close>

text \<open>The nudge answers no error when the session's box is gone, so a prompt that reached no pane
  is recorded as delivered.\<close>

lemma opNudge_lost:
  assumes "currentAlloc ev l n s = (Err e, s')" and "errIs e ErrSessionNotFound"
  shows "opNudge ev l n t s = (Ok (), s')"
  using assms by (simp add: opNudge_def bestEffort_def runDrivingVerb_def prog_defs Let_def)

text \<open>C34. Whatever the world answers and whatever fails: the prompt is sent at most once, and only
  right after a look that found the pane and its agent alive and at the prompt; nothing is
  looked at or sent when there is no text or the binding already carries a receipt; when the
  nudge and the step return without an error, the receipt is on the binding and a
  later step, whatever it is asked to send, leaves the pane alone.\<close>

theorem prompt_typed_once:
  fixes ev :: "'w env" and l :: lifecycle and n :: string and s :: "('w \<times> promptEvent list) lstate"
  assumes "sidecar_wf s" and "events s = []"
  defines "run \<equiv> startupPrime (watched (lifecycle_startupIO (beside ev) l)) (logDecision l) n"
  shows "case run cfg s of (r, s') \<Rightarrow>
    orderly cfg (fst (startupPrompt cfg)) (events s')
    \<and> (events s' \<noteq> [] \<longrightarrow> fst (startupPrompt cfg) \<noteq> [] \<and> (\<exists>b. sidecar_view s n = Some b \<and> PromptedAt b = None))
    \<and> (Typed \<in> set (events s') \<and> r = Ok () \<longrightarrow> receipt n s' \<and> events (snd (run cfg' s')) = events s')"
proof -
  obtain r s' where run: "run cfg s = (r, s')" by fastforce
  then have "orderly cfg (fst (startupPrompt cfg)) (events s')
      \<and> (events s' \<noteq> [] \<longrightarrow> fst (startupPrompt cfg) \<noteq> [] \<and> (\<exists>b. sidecar_view s n = Some b \<and> PromptedAt b = None))
      \<and> (Typed \<in> set (events s') \<and> r = Ok () \<longrightarrow> receipt n s')"
    using pane.wp_prime [OF assms(1,2), of ev l n cfg] by (auto simp: wp_def run_def)
  moreover have "events (snd (run cfg' s')) = events s'" if "receipt n s'"
    using that pane.primed_idle [of s' n _ ev l cfg'] by (auto simp: receipt_def run_def)
  ultimately show ?thesis using run by simp
qed

definition promptState :: "(unit \<times> promptEvent list) lstate" where
  "promptState =
    \<lparr>fs_files = [(sidecar_path ''a'', CBinding ((newBinding ''a'')\<lparr>ChildJobID := ''c''\<rparr>))], fs_faults = [],
     lsWorld = ((), []), lsLocks = [], lsLog = [], lsSink = [], lsSinkFaults = []\<rparr>"

definition quietLife :: lifecycle where
  "quietLife = stubLife\<lparr>lcLogf := False\<rparr>"

lemma unit_world: "s\<lparr>lsWorld := ((), events s)\<rparr> = (s :: (unit \<times> 'e) lstate)"
  by (cases s; cases "lsWorld s") simp

lemma quiet_runs:
  "logDecision quietLife m s = (Ok (), s)" "timeNow (beside stubEnv) s = (Ok 5, s)"
  "execAlloc (beside stubEnv) a t c s = (Ok (0, []), s)"
  "fs_faults s = [] \<Longrightarrow> map_of (fs_files s) (sidecar_path n) = Some (CBinding b) \<Longrightarrow> ChildJobID b \<noteq> [] \<Longrightarrow>
    currentAlloc (beside stubEnv) l n s = (Ok ''alloc-1'', s)"
  by (simp_all add: logDecision_def quietLife_def whenS_def timeNow_def world_def beside_def besideP_def stubEnv_def execAlloc_def
      execAllocStdin_def execAllocObserved_def currentAlloc_def currentAllocRecord_def pickAlloc_def listAllocs_def
      listAllocsForJob_def stubAlloc_def allocRecordOf_def isTerminalStatus_def sidecar_load_plain prog_defs unit_world)

theorem prompt_typed_once_witness:
  "let cfg = emptyConfig\<lparr>cfgNudge := ''hi''\<rparr>;
       run = startupPrime (watched (lifecycle_startupIO (beside stubEnv) quietLife)) (logDecision quietLife) ''a'';
       s' = snd (run cfg promptState) in
   events s' = [Shown True [], Typing ''hi'', Typed] \<and> receipt ''a'' s' \<and> events (snd (run cfg s')) = events s'"
proof -
  let ?cfg = "emptyConfig\<lparr>cfgNudge := ''hi''\<rparr>"
  let ?run = "startupPrime (watched (lifecycle_startupIO (beside stubEnv) quietLife)) (logDecision quietLife) ''a''"
  have prompt: "startupPrompt ?cfg = (''hi'', ''nudge'')" "cfgReadyDelayMs ?cfg = 0" "cfgReadyPromptPrefix ?cfg = []"
    using trimSpace_nonempty [of "CHR ''h''" "''hi''"] by (simp_all add: startupPrompt_def emptyConfig_def spaceCodes_def)
  have pane: "paneShowsReadyPrompt [] []" by (simp add: paneShowsReadyPrompt_def trimSpace_def)
  have loop: "readyLoop (nat (startupReadyBudgetDefault div startupReadyIntervalDefault) + 2) = readyLoop (Suc 91)"
    by (simp add: startupReadyBudgetDefault_def startupReadyIntervalDefault_def)
  have pos: "0 < startupReadyBudgetDefault" "0 < startupReadyIntervalDefault"
    by (simp_all add: startupReadyBudgetDefault_def startupReadyIntervalDefault_def)
  have "fst (?run ?cfg promptState) = Ok () \<and> events (snd (?run ?cfg promptState)) = [Shown True [], Typing ''hi'', Typed]"
    by (simp add: startupPrime_def deliverPrompt_def awaitReady_def lookReady_def probeStartupPane_def opNudge_def bestEffort_def
        runDrivingVerb_def watched_ops noteEvent_def quiet_runs promptState_def newBinding_def sidecar_load_plain sidecar_save_plain
        whenS_def prompt pane loop pos prog_defs Let_def)
  moreover have "sidecar_wf promptState" "events promptState = []"
    by (simp_all add: promptState_def sidecar_wf_def entryOK_def newBinding_def)
  ultimately show ?thesis
    using prompt_typed_once [where s = promptState and ev = stubEnv and l = quietLife and n = "''a''" and cfg = ?cfg and cfg' = ?cfg] by (simp add: case_prod_beta)
qed

end
