(* ===== verification/Compat_Transport.thy ===== *)
theory Compat_Transport
  imports Fake_World
begin

text \<open>
  The transport under the Nomad SDK (\<^verbatim>\<open>client.go\<close>, \<^verbatim>\<open>nomadWriteMetaCompatTransport\<close>): it adapts the
  fake server's answers to what the SDK expects. A dispatch sent with PUT is sent again
  with POST when the router does not know it, the compact task states of an allocation listing
  become objects, and a successful write without an index gets one. The results
  relate it to the fake server: through it the SDK sees the records the server holds.
\<close>

subsection \<open>Task states\<close>

text \<open>A JSON object read into a map and written again: the last of equal keys, sorted.\<close>

definition remarshal :: "(string \<times> json) list \<Rightarrow> (string \<times> json) list" where
  "remarshal fs = map (\<lambda>k. (k, the (map_of (rev fs) k))) (sortedKeys fs)"

fun isText :: "json \<Rightarrow> bool" where
  "isText (JStr s) = True"
| "isText _ = False"

definition wrapState :: "json \<Rightarrow> json" where
  "wrapState state = (if isText state then JObj [(''State'', state)] else state)"

text \<open>The task states of a row that change, already wrapped.\<close>

definition changedStates :: "(string \<times> json) list \<Rightarrow> (string \<times> json) list option" where
  "changedStates row =
    (case map_of (rev row) ''TaskStates'' of
       Some (JObj states) \<Rightarrow>
         if list_ex (\<lambda>(name, state). isText state) (remarshal states)
         then Some (map (\<lambda>(name, state). (name, wrapState state)) (remarshal states)) else None
     | _ \<Rightarrow> None)"

definition normalizeRow :: "(string \<times> json) list \<Rightarrow> (string \<times> json) list" where
  "normalizeRow row =
    remarshal (case changedStates row of None \<Rightarrow> row | Some states \<Rightarrow> row @ [(''TaskStates'', JObj states)])"

text \<open>What \<^verbatim>\<open>[]map[string]json.RawMessage\<close> accepts: an array of objects and nulls, or null.\<close>

fun isRow :: "json \<Rightarrow> bool" where
  "isRow (JObj fs) = True"
| "isRow JNull = True"
| "isRow _ = False"

fun rowFields :: "json \<Rightarrow> (string \<times> json) list" where
  "rowFields (JObj fs) = fs"
| "rowFields _ = []"

fun normalizeElem :: "json \<Rightarrow> json" where
  "normalizeElem (JObj fs) = JObj (normalizeRow fs)"
| "normalizeElem j = j"

definition normalizeFakeAllocationTaskStates :: "string \<times> json option \<Rightarrow> string \<times> json option" where
  "normalizeFakeAllocationTaskStates data =
    (case snd data of
       Some (JArr rows) \<Rightarrow>
         if list_all isRow rows \<and> list_ex (\<lambda>row. changedStates (rowFields row) \<noteq> None) rows
         then (let out = JArr (map normalizeElem rows) in (jsonText out, Some out))
         else data
     | _ \<Rightarrow> data)"

subsection \<open>One exchange\<close>

text \<open>Reading and closing a body, and putting what was read back.\<close>

definition drainBody :: "http_response \<Rightarrow> ('w, http_response) prog" where
  "drainBody resp =
    (case rsReadErr resp of
       Some e \<Rightarrow> failS e
     | None \<Rightarrow> (case rsCloseErr resp of Some e \<Rightarrow> failS e | None \<Rightarrow> returnS resp))"

definition notFoundBody :: string where
  "notFoundBody = CHR 0x7B # jsonQuote ''error'' @ '':'' @ jsonQuote ''not found'' @ [CHR 0x7D]"

definition isOK :: "http_response \<Rightarrow> bool" where
  "isOK resp \<longleftrightarrow> 200 \<le> rsStatus resp \<and> rsStatus resp < 300"

definition isNativeDispatch :: "http_request \<Rightarrow> bool" where
  "isNativeDispatch req \<longleftrightarrow> rqMethod req = ''PUT'' \<and> hasSuffix (rqPath req) ''/dispatch''"

definition addIndex :: "http_request \<Rightarrow> http_response \<Rightarrow> http_response" where
  "addIndex req resp =
    (if isOK resp \<and> rsIndex resp = [] \<and> rqMethod req \<in> {''POST'', ''PUT'', ''PATCH'', ''DELETE''}
     then resp\<lparr>rsIndex := ''0''\<rparr> else resp)"

definition adaptListing :: "http_request \<Rightarrow> http_response \<Rightarrow> ('w, http_response) prog" where
  "adaptListing req resp =
    (if isOK resp \<and> rqMethod req = ''GET'' \<and> hasSuffix (rqPath req) ''/allocations''
     then bindS (drainBody resp) (\<lambda>resp.
       case normalizeFakeAllocationTaskStates (rsRaw resp, rsDoc resp) of (raw, doc) \<Rightarrow>
         returnS (addIndex req (resp\<lparr>rsRaw := raw, rsDoc := doc\<rparr>)))
     else returnS (addIndex req resp))"

text \<open>\<open>bodyErr\<close> is the error of reading the request's body, which only a dispatch reads.\<close>

definition roundTrip ::
  "(http_request \<Rightarrow> ('w, http_response) prog) \<Rightarrow> goerr option \<Rightarrow> http_request \<Rightarrow> ('w, http_response) prog" where
  "roundTrip base bodyErr req =
    (case (if isNativeDispatch req \<and> rqBody req \<noteq> None then bodyErr else None) of
       Some e \<Rightarrow> failS e
     | None \<Rightarrow>
         bindS (base req) (\<lambda>resp.
         if isNativeDispatch req \<and> rsStatus resp = 404
         then bindS (drainBody resp) (\<lambda>resp.
           if trimSpace (rsRaw resp) = notFoundBody then base (req\<lparr>rqMethod := ''POST''\<rparr>)
           else adaptListing req resp)
         else adaptListing req resp))"

subsection \<open>What it preserves\<close>

lemma map_of_remarshal: "map_of (remarshal fs) = map_of (rev fs)"
proof
  fix k
  have "map_of (map (\<lambda>k. (k, the (map_of (rev fs) k))) ks) k = (if k \<in> set ks then Some (the (map_of (rev fs) k)) else None)" for ks
    by (induction ks) auto
  moreover have "map_of (rev fs) k = None" if "k \<notin> fst ` set fs"
    using that by (simp add: map_of_eq_None_iff)
  moreover have "map_of (rev fs) k \<noteq> None" if "k \<in> fst ` set fs"
    using that by (simp add: map_of_eq_None_iff)
  ultimately show "map_of (remarshal fs) k = map_of (rev fs) k"
    by (auto simp: remarshal_def)
qed

lemma distinct_remarshal [simp]: "distinct (map fst (remarshal fs))"
  by (simp add: remarshal_def comp_def)

lemma map_of_rev_distinct: "distinct (map fst m) \<Longrightarrow> map_of (rev m) = map_of m"
  by (subst map_of_inject_set) (simp_all add: rev_map [symmetric])

lemma map_of_normalizeRow:
  "map_of (normalizeRow row) k =
    (case changedStates row of Some states \<Rightarrow> if k = ''TaskStates'' then Some (JObj states) else map_of (rev row) k
     | None \<Rightarrow> map_of (rev row) k)"
  by (auto simp: normalizeRow_def map_of_remarshal split: option.split)

lemma changedStates_lookup:
  assumes "changedStates row = Some states" and "map_of (rev row) ''TaskStates'' = Some (JObj ss)"
  shows "map_of states t = map_option wrapState (map_of (rev ss) t)"
  using assms
  by (auto simp: changedStates_def map_of_remarshal [symmetric] map_of_map split: if_splits)

text \<open>Reading a field without regard to case is reading it exactly, where no other key of the object
  is spelled alike.\<close>

definition plainKey :: "string \<Rightarrow> (string \<times> json) list \<Rightarrow> bool" where
  "plainKey k fs \<longleftrightarrow> (\<forall>key \<in> fst ` set fs. toLower key = toLower k \<longrightarrow> key = k)"

lemma jfield_plain: "plainKey k fs \<Longrightarrow> jfield k fs = map_of (rev fs) k"
proof -
  have "map_option snd (find (\<lambda>e. toLower (fst e) = toLower k) es) = map_of es k" if "plainKey k es" for es
    using that by (induction es) (auto simp: plainKey_def)
  then show "plainKey k fs \<Longrightarrow> jfield k fs = map_of (rev fs) k" by (simp add: jfield_def plainKey_def)
qed

lemma keys_remarshal: "fst ` set (remarshal fs) = fst ` set fs"
  by (simp add: remarshal_def image_image)

lemma keys_normalizeRow: "fst ` set (normalizeRow row) = fst ` set row"
proof -
  have "''TaskStates'' \<in> fst ` set row" if "changedStates row \<noteq> None"
    using that by (auto simp: changedStates_def map_of_eq_None_iff split: option.splits dest!: map_of_SomeD intro: rev_image_eqI)
  then show ?thesis by (auto simp: normalizeRow_def keys_remarshal split: option.split)
qed

lemma distinct_normalizeRow [simp]: "distinct (map fst (normalizeRow row))"
  by (simp add: normalizeRow_def)

lemma jfield_normalizeRow:
  assumes "plainKey k row"
  shows "jfield k (normalizeRow row) =
    (case changedStates row of Some states \<Rightarrow> if k = ''TaskStates'' then Some (JObj states) else jfield k row
     | None \<Rightarrow> jfield k row)"
proof -
  have "plainKey k (normalizeRow row)" using assms by (simp add: plainKey_def keys_normalizeRow)
  then show ?thesis
    using assms by (simp add: jfield_plain map_of_rev_distinct map_of_normalizeRow split: option.split)
qed

text \<open>How the SDK reads an allocation: its task states are objects.\<close>

definition nativeStates :: "(string \<times> json) list \<Rightarrow> (string \<times> sdkTaskState option) list" where
  "nativeStates fs =
    (case jfield ''TaskStates'' fs of
       Some (JObj states) \<Rightarrow>
         map (\<lambda>(t, v). (t, case v of JObj st \<Rightarrow> Some \<lparr>stState = strOr ''State'' st, stEvents = []\<rparr> | _ \<Rightarrow> None)) (rev states)
     | _ \<Rightarrow> [])"

definition nativeSdkAlloc :: "json \<Rightarrow> sdkAlloc" where
  "nativeSdkAlloc j =
    (let a = objOf (Some j) in
     \<lparr>saID = strOr ''ID'' a, saClientStatus = strOr ''ClientStatus'' a, saDesiredStatus = strOr ''DesiredStatus'' a,
      saTaskStates = nativeStates a\<rparr>)"

definition sameAlloc :: "sdkAlloc \<Rightarrow> sdkAlloc \<Rightarrow> bool" where
  "sameAlloc a b \<longleftrightarrow> saID a = saID b \<and> saClientStatus a = saClientStatus b \<and> saDesiredStatus a = saDesiredStatus b
    \<and> map_of (saTaskStates a) = map_of (saTaskStates b)"

lemma lower_keys:
  "toLower ''ID'' = ''id''" "toLower ''JobID'' = ''jobid''" "toLower ''Namespace'' = ''namespace''"
  "toLower ''DesiredStatus'' = ''desiredstatus''" "toLower ''ClientStatus'' = ''clientstatus''"
  "toLower ''ModifyIndex'' = ''modifyindex''" "toLower ''Ports'' = ''ports''" "toLower ''TaskStates'' = ''taskstates''"
  by code_simp+

lemma alloc_keys:
  "allocJSON a = JObj row \<Longrightarrow> k \<in> {''ID'', ''ClientStatus'', ''DesiredStatus'', ''TaskStates''} \<Longrightarrow> plainKey k row"
  by (auto simp: allocJSON_def plainKey_def lower_keys simp del: toLower.simps)

text \<open>The task states on the wire.\<close>

definition wireStates :: "gomap \<Rightarrow> (string \<times> json) list" where
  "wireStates ts = map (\<lambda>(k, v). (k, JStr v)) (rev ts)"

lemma wireStates_lookup: "map_of (rev (wireStates ts)) t = map_option JStr (map_of ts t)"
  by (simp add: wireStates_def rev_map map_of_map comp_def)

lemma alloc_states:
  assumes "allocJSON a = JObj row"
  shows "jfield ''TaskStates'' row = Some (if faTaskStates a = [] then JNull else JObj (wireStates (faTaskStates a)))"
  using assms alloc_keys [OF assms, of "''TaskStates''"]
  by (auto simp: jfield_plain allocJSON_def encNilMap_def encStrMap_def wireStates_def)

text \<open>The states of one allocation, as the server files them and as the SDK reads them.\<close>

abbreviation plainState :: "string \<Rightarrow> sdkTaskState option" where
  "plainState st \<equiv> Some \<lparr>stState = st, stEvents = []\<rparr>"

lemma states_before:
  assumes "allocJSON a = JObj row"
  shows "map_of (saTaskStates (decSdkAlloc (JObj row))) = map_option plainState \<circ> map_of (faTaskStates a)"
proof -
  have "decStrMap (wireStates ts) = Some ts" for ts
    by (induction ts) (auto simp: decStrMap_def wireStates_def rev_map)
  then show ?thesis
    by (simp add: decSdkAlloc_def objOf_def mapOr_def mapField_def alloc_states [OF assms] map_of_map comp_def fun_eq_iff)
qed

lemma states_changed:
  assumes "allocJSON a = JObj row"
  shows "changedStates row \<noteq> None \<longleftrightarrow> faTaskStates a \<noteq> []"
proof -
  have row: "map_of (rev row) ''TaskStates'' = Some (if faTaskStates a = [] then JNull else JObj (wireStates (faTaskStates a)))"
    using alloc_states [OF assms] alloc_keys [OF assms, of "''TaskStates''"] by (simp add: jfield_plain)
  have "list_ex (\<lambda>(name, state). isText state) (remarshal (wireStates ts))" if ne: "ts \<noteq> []" for ts
  proof -
    have "map_of ts (fst (hd ts)) \<noteq> None" using ne by (cases ts) auto
    then obtain t v where "map_of ts t = Some v" by blast
    then have "map_of (remarshal (wireStates ts)) t = Some (JStr v)"
      by (simp add: map_of_remarshal wireStates_lookup)
    then show ?thesis by (force simp: list_ex_iff dest!: map_of_SomeD)
  qed
  then show ?thesis using row by (simp add: changedStates_def)
qed

lemma states_after:
  assumes "allocJSON a = JObj row"
  shows "map_of (nativeStates (normalizeRow row)) = map_option plainState \<circ> map_of (faTaskStates a)"
proof (cases "faTaskStates a = []")
  case True
  then have "changedStates row = None" using states_changed [OF assms] by blast
  then show ?thesis
    using True alloc_keys [OF assms, of "''TaskStates''"] alloc_states [OF assms]
    by (simp add: nativeStates_def jfield_normalizeRow fun_eq_iff)
next
  case False
  then obtain states where st: "changedStates row = Some states" using states_changed [OF assms] by blast
  have row: "map_of (rev row) ''TaskStates'' = Some (JObj (wireStates (faTaskStates a)))"
    using False alloc_states [OF assms] alloc_keys [OF assms, of "''TaskStates''"] by (simp add: jfield_plain)
  have "distinct (map fst states)"
    using st row by (auto simp: changedStates_def comp_def case_prod_beta split: if_splits)
  then have "map_of (rev states) = map_of states" by (rule map_of_rev_distinct)
  moreover have "(case wrapState (JStr v) of JObj st \<Rightarrow> plainState (strOr ''State'' st) | _ \<Rightarrow> None) = plainState v" for v
    by (simp add: wrapState_def strOr_def strField_def jfield_def)
  ultimately show ?thesis
    using st alloc_keys [OF assms, of "''TaskStates''"] changedStates_lookup [OF st row]
    by (simp add: nativeStates_def jfield_normalizeRow map_of_map fun_eq_iff wireStates_lookup option.map_comp comp_def)
qed

lemma alloc_same:
  assumes "allocJSON a = JObj row"
  shows "sameAlloc (nativeSdkAlloc (JObj (normalizeRow row))) (decSdkAlloc (JObj row))"
proof -
  have keep: "strOr k (normalizeRow row) = strOr k row" if "k \<in> {''ID'', ''ClientStatus'', ''DesiredStatus''}" for k
    using that jfield_normalizeRow [OF alloc_keys [OF assms, of k]]
    by (auto simp: strOr_def strField_def split: option.splits)
  show ?thesis
    using states_before [OF assms] states_after [OF assms] keep
    by (simp add: sameAlloc_def nativeSdkAlloc_def objOf_def) (simp add: decSdkAlloc_def objOf_def)
qed

text \<open>A row that is not changed reads the same as it is.\<close>

lemma alloc_unchanged:
  assumes "allocJSON a = JObj row" and "faTaskStates a = []"
  shows "sameAlloc (nativeSdkAlloc (JObj row)) (decSdkAlloc (JObj row))"
  using states_before [OF assms(1)] alloc_states [OF assms(1)] assms(2)
  by (simp add: sameAlloc_def nativeSdkAlloc_def decSdkAlloc_def objOf_def nativeStates_def)

lemma listing_same:
  fixes as :: "falloc list"
  defines "rows \<equiv> map allocJSON as"
  shows "list_all2 sameAlloc
    (map nativeSdkAlloc (arrOf (snd (normalizeFakeAllocationTaskStates (raw, Some (JArr rows))))))
    (map decSdkAlloc rows)"
proof -
  have obj: "\<exists>row. allocJSON a = JObj row" for a by (simp add: allocJSON_def)
  have rows: "list_all isRow rows" by (simp add: rows_def list_all_iff allocJSON_def)
  have changed: "sameAlloc (nativeSdkAlloc (normalizeElem (allocJSON a))) (decSdkAlloc (allocJSON a))" for a
    using obj [of a] alloc_same [of a] by auto
  show ?thesis
  proof (cases "list_ex (\<lambda>row. changedStates (rowFields row) \<noteq> None) rows")
    case True
    then show ?thesis
      using rows changed by (simp add: normalizeFakeAllocationTaskStates_def arrOf_def Let_def rows_def list.rel_map list_all2_same)
  next
    case False
    have "faTaskStates a = []" if "a \<in> set as" for a
      using False that states_changed [of a] obj [of a] by (force simp: rows_def list_ex_iff)
    then have "sameAlloc (nativeSdkAlloc (allocJSON a)) (decSdkAlloc (allocJSON a))" if "a \<in> set as" for a
      using obj [of a] alloc_unchanged [of a] that by auto
    then show ?thesis
      using False by (simp add: normalizeFakeAllocationTaskStates_def arrOf_def rows_def list.rel_map list_all2_same)
  qed
qed

subsection \<open>The two calls of the SDK on the fake server\<close>

text \<open>A path that ends in \<^verbatim>\<open>/dispatch\<close> has that as a part.\<close>

lemma dispatch_part:
  assumes "hasSuffix p ''/dispatch''"
  shows "''dispatch'' \<in> set (splitPath p)"
proof -
  obtain q where p: "p = q @ ''/dispatch''" using assms by (auto simp: hasSuffix_iff)
  have right: "trimRightChars {CHR ''/''} (r @ ''dispatch'') = r @ ''dispatch''" for r
    by (simp add: trimRightChars_def)
  have left: "\<exists>r. trimLeftChars {CHR ''/''} p = r @ ''dispatch'' \<and> (r = [] \<or> last r = CHR ''/'')"
  proof (cases "\<exists>x \<in> set q. x \<noteq> CHR ''/''")
    case True
    then have "trimLeftChars {CHR ''/''} p = dropWhile (\<lambda>c. c \<in> {CHR ''/''}) q @ ''/dispatch''"
      by (auto simp: p trimLeftChars_def intro!: dropWhile_append1)
    then show ?thesis by (intro exI [of _ "dropWhile (\<lambda>c. c \<in> {CHR ''/''}) q @ ''/''"]) simp
  next
    case False
    then have "trimLeftChars {CHR ''/''} p = ''dispatch''"
      by (simp add: p trimLeftChars_def dropWhile_append2)
    then show ?thesis by simp
  qed
  then obtain r where r: "trimLeftChars {CHR ''/''} p = r @ ''dispatch''" "r = [] \<or> last r = CHR ''/''" by blast
  have plain: "splitChar (CHR ''/'') ''dispatch'' = [''dispatch'']" by simp
  have "''dispatch'' \<in> set (splitChar (CHR ''/'') (r @ ''dispatch''))"
  proof (cases r rule: rev_cases)
    case Nil
    then show ?thesis using plain by (simp del: splitChar.simps)
  next
    case (snoc r' x)
    then have "r @ ''dispatch'' = r' @ CHR ''/'' # ''dispatch''" using r(2) by simp
    then show ?thesis using plain by (simp only: splitChar_append set_append) simp
  qed
  then show ?thesis by (simp add: splitPath_def r(1) right)
qed

lemma not_found_text: "trimSpace (rsRaw (fst (notFound s))) = notFoundBody"
proof -
  have "trimSpace (jsonText (JObj [(''error'', JStr ''not found'')]) @ [CHR 0x0A]) = notFoundBody"
    by code_simp
  then show ?thesis by (simp add: notFound_def writeJSONError_def writeJSON_def)
qed

lemma put_not_found:
  assumes "fsFaults s = []" and "isNativeDispatch rq"
  shows "serveHTTP host unix rq s = notFound (s\<lparr>fsTrace := fsTrace s @ [''PUT '' @ rqPath rq]\<rparr>)"
proof -
  have "splitPath (rqPath rq) \<noteq> [''v1'', ''system'', ''gc'']"
    using dispatch_part [of "rqPath rq"] assms(2) by (auto simp: isNativeDispatch_def)
  then show ?thesis
    using assms by (simp add: isNativeDispatch_def serveHTTP_def takeFaultFor_def routeJob_def routeOther_def Let_def)
qed

text \<open>The transport changes nothing else: an answer that is neither retried nor a listing comes back as
  it is, up to the index of a successful write.\<close>

lemma roundTrip_other:
  assumes "base rq w = (Ok rs, w')" and "\<not> isNativeDispatch rq" and "rqMethod rq \<noteq> ''GET'' \<or> \<not> hasSuffix (rqPath rq) ''/allocations''"
  shows "roundTrip base be rq w = (Ok (addIndex rq rs), w')"
  using assms by (auto simp: roundTrip_def adaptListing_def prog_defs)

text \<open>A dispatch that was sent again comes back without an index.\<close>

lemma retried_dispatch_index:
  assumes "isNativeDispatch rq" and "base rq w = (Ok (fst (notFound s)), w1)"
    and "base (rq\<lparr>rqMethod := ''POST''\<rparr>) w1 = (Ok rs, w2)"
  shows "roundTrip base None rq w = (Ok rs, w2)"
  using assms not_found_text [of s]
  by (simp add: roundTrip_def drainBody_def notFound_def writeJSONError_def writeJSON_def prog_defs)

lemma listing_adapted:
  fixes w :: 'w and job :: string and srv :: fserver
  assumes "rqMethod lq = ''GET''" and "hasSuffix (rqPath lq) ''/allocations''"
  defines "rs0 \<equiv> fst (srv_listAllocsForJob job srv)"
  shows "\<exists>rs. adaptListing lq rs0 w = (Ok rs, w) \<and> rsStatus rs = rsStatus rs0 \<and> rsIndex rs = rsIndex rs0
      \<and> list_all2 sameAlloc (map nativeSdkAlloc (arrOf (rsDoc rs))) (map decSdkAlloc (arrOf (rsDoc rs0)))"
proof (cases "fsAllocListErr srv")
  case True
  then show ?thesis
    by (simp add: rs0_def srv_listAllocsForJob_def writeJSONError_def writeJSON_def adaptListing_def addIndex_def isOK_def
        returnS_def arrOf_def)
next
  case False
  define as where "as = map snd (filter (\<lambda>(i, a). faJobID a = job) (fsAllocs srv))"
  have out: "map (\<lambda>(i, a). allocJSON a) (filter (\<lambda>(i, a). faJobID a = job) (fsAllocs srv)) = map allocJSON as"
    by (simp add: as_def case_prod_beta)
  have rs0: "rs0 = writeJSON 200 (natText (fsIndex srv)) (if as = [] then JNull else JArr (map allocJSON as))"
    using False unfolding rs0_def srv_listAllocsForJob_def out by (simp add: Let_def)
  have "\<exists>rs. adaptListing lq rs0 w = (Ok rs, w) \<and> rsStatus rs = rsStatus rs0 \<and> rsIndex rs = rsIndex rs0
      \<and> rsDoc rs = snd (normalizeFakeAllocationTaskStates (rsRaw rs0, rsDoc rs0))"
    using assms(1,2) by (simp add: rs0 writeJSON_def adaptListing_def addIndex_def isOK_def drainBody_def case_prod_beta prog_defs)
  moreover have "list_all2 sameAlloc (map nativeSdkAlloc (arrOf (snd (normalizeFakeAllocationTaskStates (rsRaw rs0, rsDoc rs0)))))
      (map decSdkAlloc (arrOf (rsDoc rs0)))"
    using listing_same [of "rsRaw rs0" as]
    by (cases "as = []") (simp_all add: rs0 writeJSON_def arrOf_def normalizeFakeAllocationTaskStates_def)
  ultimately show ?thesis by auto
qed

text \<open>C29. The two calls the runtime makes through the SDK, over the transport, on the fake server: a
  dispatch sent with PUT has the effect and the answer of the same dispatch sent with POST, after
  one more request that leaves only its trace; and the SDK, which reads task states as objects,
  reads from an allocation listing exactly the records the server answered with.\<close>

theorem sdk_calls_reach_fake:
  assumes "isNativeDispatch rq" and "fsFaults (fwServer w) = []"
    and "rqMethod lq = ''GET''" and "hasSuffix (rqPath lq) ''/allocations''"
    and "fakeHttp host lq w = (Ok (fst (srv_listAllocsForJob job srv)), w')"
  shows "roundTrip (fakeHttp host) None rq w =
      fakeHttp host (rq\<lparr>rqMethod := ''POST''\<rparr>)
        \<lparr>fwServer = (fwServer w)\<lparr>fsTrace := fsTrace (fwServer w) @ [''PUT '' @ rqPath rq]\<rparr>, fwClock = fwClock w + 1\<rparr>
    \<and> (\<exists>rs. roundTrip (fakeHttp host) None lq w = (Ok rs, w')
        \<and> rsStatus rs = rsStatus (fst (srv_listAllocsForJob job srv)) \<and> rsIndex rs = rsIndex (fst (srv_listAllocsForJob job srv))
        \<and> list_all2 sameAlloc (map nativeSdkAlloc (arrOf (rsDoc rs)))
            (map decSdkAlloc (arrOf (rsDoc (fst (srv_listAllocsForJob job srv))))))"
proof
  have "fakeHttp host rq w = (Ok (fst (notFound (fwServer w))),
      \<lparr>fwServer = (fwServer w)\<lparr>fsTrace := fsTrace (fwServer w) @ [''PUT '' @ rqPath rq]\<rparr>, fwClock = fwClock w + 1\<rparr>)"
    using put_not_found [OF assms(2,1)] by (simp add: fakeHttp_def notFound_def)
  then show "roundTrip (fakeHttp host) None rq w = fakeHttp host (rq\<lparr>rqMethod := ''POST''\<rparr>)
      \<lparr>fwServer = (fwServer w)\<lparr>fsTrace := fsTrace (fwServer w) @ [''PUT '' @ rqPath rq]\<rparr>, fwClock = fwClock w + 1\<rparr>"
    using assms(1) not_found_text [of "fwServer w"]
    by (simp add: roundTrip_def drainBody_def notFound_def writeJSONError_def writeJSON_def prog_defs)
next
  let ?rs = "fst (srv_listAllocsForJob job srv)"
  have run: "roundTrip (fakeHttp host) None lq w = adaptListing lq ?rs w'"
    using assms(3,5) by (simp add: roundTrip_def isNativeDispatch_def prog_defs)
  show "\<exists>rs. roundTrip (fakeHttp host) None lq w = (Ok rs, w') \<and> rsStatus rs = rsStatus ?rs \<and> rsIndex rs = rsIndex ?rs
      \<and> list_all2 sameAlloc (map nativeSdkAlloc (arrOf (rsDoc rs))) (map decSdkAlloc (arrOf (rsDoc ?rs)))"
    unfolding run by (rule listing_adapted [OF assms(3,4)])
qed

definition agentAlloc :: falloc where
  "agentAlloc =
    \<lparr>faID = ''alloc-1'', faJobID = ''p'', faNamespace = ''default'', faDesiredStatus = ''run'', faClientStatus = ''running'',
     faModifyIndex = 1, faPorts = None, faTaskStates = [(''agent'', ''running'')]\<rparr>"

definition agentWorld :: fworld where
  "agentWorld = \<lparr>fwServer = newServer\<lparr>fsAllocs := [(''alloc-1'', agentAlloc)]\<rparr>, fwClock = 0\<rparr>"

abbreviation bareRequest :: "string \<Rightarrow> string \<Rightarrow> http_request" where
  "bareRequest m p \<equiv> \<lparr>rqMethod = m, rqPath = p, rqQuery = [], rqBody = None, rqToken = []\<rparr>"

theorem sdk_calls_reach_fake_witness:
  "let host = \<lambda>_ _. Starts; rt = roundTrip (fakeHttp host) None in
   (\<exists>w. rt (bareRequest ''PUT'' ''/v1/job/p/dispatch'') agentWorld = fakeHttp host (bareRequest ''POST'' ''/v1/job/p/dispatch'') w)
   \<and> (\<exists>rs w. rt (bareRequest ''GET'' ''/v1/job/p/allocations'') agentWorld = (Ok rs, w) \<and> rsStatus rs = 200
        \<and> list_all2 sameAlloc (map nativeSdkAlloc (arrOf (rsDoc rs))) [decSdkAlloc (allocJSON agentAlloc)])"
proof -
  let ?lq = "bareRequest ''GET'' ''/v1/job/p/allocations''"
  have parts: "splitPath ''/v1/job/p/allocations'' = [''v1'', ''job'', ''p'', ''allocations'']"
    by (simp add: splitPath_def trimLeftChars_def trimRightChars_def)
  have "\<exists>w'. fakeHttp (\<lambda>_ _. Starts) ?lq agentWorld = (Ok (fst (srv_listAllocsForJob ''p'' (fwServer agentWorld))), w')"
    by (simp add: fakeHttp_def serveHTTP_def parts routeJob_def takeFaultFor_def agentWorld_def newServer_def srv_listAllocsForJob_def Let_def)
  then obtain w' where list: "fakeHttp (\<lambda>_ _. Starts) ?lq agentWorld = (Ok (fst (srv_listAllocsForJob ''p'' (fwServer agentWorld))), w')" ..
  have pre: "isNativeDispatch (bareRequest ''PUT'' ''/v1/job/p/dispatch'')" "fsFaults (fwServer agentWorld) = []"
    "hasSuffix ''/v1/job/p/allocations'' ''/allocations''"
    by (simp_all add: isNativeDispatch_def hasSuffix_iff agentWorld_def newServer_def)
  have doc: "rsStatus (fst (srv_listAllocsForJob ''p'' (fwServer agentWorld))) = 200"
    "arrOf (rsDoc (fst (srv_listAllocsForJob ''p'' (fwServer agentWorld)))) = [allocJSON agentAlloc]"
    by (simp_all add: srv_listAllocsForJob_def writeJSON_def agentWorld_def newServer_def agentAlloc_def arrOf_def Let_def)
  show ?thesis
    using sdk_calls_reach_fake [OF pre(1,2) _ _ list] pre(3) doc by (auto simp: Let_def)
qed

end
