(* ===== verification/Store_Refinement.thy ===== *)
theory Store_Refinement
  imports Sidecar
begin

text \<open>
  The sidecar as an abstract store. A client's calls to \<^verbatim>\<open>load\<close>, \<^verbatim>\<open>save\<close>, \<^verbatim>\<open>remove\<close>, \<^verbatim>\<open>list\<close>
  and \<^verbatim>\<open>tombstone\<close> (\<^verbatim>\<open>sidecar.go\<close>) run on the directory of files; the specification is a map from
  session names to bindings whose calls may fail but never half succeed. The
  simulation says that no sequence of calls, under no script of faults, can tell
  the directory from the map, and that without faults no call fails.
\<close>

datatype storeCall = CallLoad string | CallSave binding | CallRemove string | CallTombstone tombstone | CallList

datatype storeReply = GotBinding "binding option" | GotBindings "binding list" | Completed | Failed

subsection \<open>The specification\<close>

fun specStep :: "(string \<rightharpoonup> binding) \<Rightarrow> storeCall \<Rightarrow> storeReply \<Rightarrow> (string \<rightharpoonup> binding) \<Rightarrow> bool" where
  "specStep m c Failed m' \<longleftrightarrow> m' = m"
| "specStep m (CallLoad n) (GotBinding b) m' \<longleftrightarrow> b = m n \<and> m' = m"
| "specStep m (CallSave b) Completed m' \<longleftrightarrow> m' = m(SessionName b \<mapsto> b)"
| "specStep m (CallRemove n) Completed m' \<longleftrightarrow> m' = m(n := None)"
| "specStep m (CallTombstone t) Completed m' \<longleftrightarrow> m' = m"
| "specStep m CallList (GotBindings bs) m' \<longleftrightarrow> set bs = ran m \<and> distinct (map SessionName bs) \<and> m' = m"
| "specStep m _ _ m' \<longleftrightarrow> False"

inductive specRun :: "(string \<rightharpoonup> binding) \<Rightarrow> storeCall list \<Rightarrow> storeReply list \<Rightarrow> (string \<rightharpoonup> binding) \<Rightarrow> bool" where
  specDone: "specRun m [] [] m"
| specMore: "specStep m c r m1 \<Longrightarrow> specRun m1 cs rs m2 \<Longrightarrow> specRun m (c # cs) (r # rs) m2"

inductive_simps specRun_simps: "specRun m [] rs m'" "specRun m (c # cs) rs m'"

subsection \<open>The implementation\<close>

definition replyOf :: "('a \<Rightarrow> storeReply) \<Rightarrow> 'a result \<times> 's \<Rightarrow> storeReply \<times> 's" where
  "replyOf f r = ((case fst r of Ok x \<Rightarrow> f x | _ \<Rightarrow> Failed), snd r)"

fun storeStep :: "storeCall \<Rightarrow> 'a sidecar_fs_scheme \<Rightarrow> storeReply \<times> 'a sidecar_fs_scheme" where
  "storeStep (CallLoad n) s = replyOf GotBinding (sidecar_load n s)"
| "storeStep (CallSave b) s = replyOf (\<lambda>_. Completed) (sidecar_save b s)"
| "storeStep (CallRemove n) s = replyOf (\<lambda>_. Completed) (sidecar_remove n s)"
| "storeStep (CallTombstone t) s = replyOf (\<lambda>_. Completed) (sidecar_tombstone t s)"
| "storeStep CallList s = replyOf GotBindings (sidecar_list s)"

fun storeRun :: "storeCall list \<Rightarrow> 'a sidecar_fs_scheme \<Rightarrow> storeReply list \<times> 'a sidecar_fs_scheme" where
  "storeRun [] s = ([], s)"
| "storeRun (c # cs) s = (case storeStep c s of (r, s1) \<Rightarrow> case storeRun cs s1 of (rs, s2) \<Rightarrow> (r # rs, s2))"

subsection \<open>Listing under faults\<close>

text \<open>A listing under faults fails or returns what it would return without them.\<close>

lemma readFile_cases:
  obtains (faulty) x fs where "os_ReadFile n s = (Err (ENew x), s\<lparr>fs_faults := fs\<rparr>)"
  | (plain) fs where "os_ReadFile n s = (fst (os_ReadFile n (s\<lparr>fs_faults := []\<rparr>)), s\<lparr>fs_faults := fs\<rparr>)"
proof (cases "fs_faults s")
  case Nil
  then have "os_ReadFile n s = (fst (os_ReadFile n (s\<lparr>fs_faults := []\<rparr>)), s\<lparr>fs_faults := []\<rparr>)"
    by (auto simp: sidecar_op_defs split: option.splits)
  then show ?thesis by (rule plain)
next
  case (Cons f fs)
  show ?thesis
  proof (cases f)
    case None
    with Cons have "os_ReadFile n s = (fst (os_ReadFile n (s\<lparr>fs_faults := []\<rparr>)), s\<lparr>fs_faults := fs\<rparr>)"
      by (auto simp: sidecar_op_defs split: option.splits)
    then show ?thesis by (rule plain)
  next
    case (Some x)
    with Cons have "os_ReadFile n s = (Err (ENew x), s\<lparr>fs_faults := fs\<rparr>)" by (simp add: sidecar_op_defs)
    then show ?thesis by (rule faulty)
  qed
qed

lemma readFile_plain:
  "os_ReadFile n (s\<lparr>fs_faults := []\<rparr>) =
    (case map_of (fs_files s) n of None \<Rightarrow> Err (notExist ''open'' n) | Some c \<Rightarrow> Ok c, s\<lparr>fs_faults := []\<rparr>)"
  by (simp add: sidecar_op_defs split: option.splits)

lemma readEntries_faults:
  "\<exists>fs. snd (readEntries es out s) = s\<lparr>fs_faults := fs\<rparr> \<and>
   ((\<exists>e. fst (readEntries es out s) = Err e)
    \<or> fst (readEntries es out s) = fst (readEntries es out (s\<lparr>fs_faults := []\<rparr>)))"
proof (induction es arbitrary: out s)
  case Nil
  have "\<exists>fs. s = s\<lparr>fs_faults := fs\<rparr>" by (rule exI [of _ "fs_faults s"]) simp
  then show ?case by (simp add: returnS_def)
next
  case (Cons e es)
  obtain n c where e: "e = (n, c)" by (cases e)
  show ?case
  proof (cases "c = CDir \<or> \<not> hasSuffix n ''.json''")
    case True
    then show ?thesis using Cons.IH [of out s] e by simp
  next
    case False
    show ?thesis
    proof (cases rule: readFile_cases [of n s])
      case (faulty x fs)
      then show ?thesis using False e by (auto simp: bindS_def attempt_def failS_def)
    next
      case (plain fs)
      have IH: "\<And>out. \<exists>fs'. snd (readEntries es out (s\<lparr>fs_faults := fs\<rparr>)) = s\<lparr>fs_faults := fs'\<rparr> \<and>
          ((\<exists>e. fst (readEntries es out (s\<lparr>fs_faults := fs\<rparr>)) = Err e) \<or>
           fst (readEntries es out (s\<lparr>fs_faults := fs\<rparr>)) = fst (readEntries es out (s\<lparr>fs_faults := []\<rparr>)))"
        using Cons.IH [of _ "s\<lparr>fs_faults := fs\<rparr>"] by simp
      show ?thesis
      proof (cases "map_of (fs_files s) n")
        case None
        then show ?thesis using False e plain IH [of out]
          by (simp add: bindS_def attempt_def readFile_plain notExist_def)
      next
        case (Some c)
        then show ?thesis using False e plain IH
          by (cases "decodeBinding c") (auto simp: bindS_def attempt_def readFile_plain failS_def)
      qed
    qed
  qed
qed

lemma sidecar_list_faults:
  "\<exists>fs. snd (sidecar_list s) = s\<lparr>fs_faults := fs\<rparr> \<and>
   ((\<exists>e. fst (sidecar_list s) = Err e) \<or> fst (sidecar_list s) = fst (sidecar_list (s\<lparr>fs_faults := []\<rparr>)))"
proof (cases "fs_faults s")
  case Nil
  then show ?thesis
    using readEntries_faults [of "sort_key fst (filter (\<lambda>(n, c). CHR ''/'' \<notin> set n) (fs_files s))" "[]" s]
    by (simp add: sidecar_list_def os_ReadDir_def takeFault_def prog_defs)
next
  case (Cons f fs)
  then show ?thesis
    using readEntries_faults [of "sort_key fst (filter (\<lambda>(n, c). CHR ''/'' \<notin> set n) (fs_files s))" "[]" "s\<lparr>fs_faults := fs\<rparr>"]
    by (cases f) (auto simp: sidecar_list_def os_ReadDir_def takeFault_def prog_defs)
qed

subsection \<open>The simulation\<close>

lemma tombstone_result: "fst (sidecar_tombstone t s) = Ok () \<or> (\<exists>e. fst (sidecar_tombstone t s) = Err e)"
  by (cases "fst (sidecar_tombstone t s)")
    (auto simp: sidecar_tombstone_def sidecar_op_defs Let_def split: option.splits list.splits if_splits)

lemma list_simulates:
  assumes "sidecar_wf s"
  shows "sidecar_wf (snd (sidecar_list s)) \<and>
    specStep (sidecar_view s) CallList (fst (storeStep CallList s)) (sidecar_view (snd (sidecar_list s)))"
proof -
  obtain bs where bs: "fst (sidecar_list (s\<lparr>fs_faults := []\<rparr>)) = Ok bs" "distinct (map SessionName bs)"
      "set bs = ran (sidecar_view s)"
    using sidecar_list_plain [of "s\<lparr>fs_faults := []\<rparr>"] assms by (auto simp: ran_def)
  then show ?thesis
    using sidecar_list_faults [of s] assms by (auto simp: replyOf_def)
qed

lemma step_simulates:
  assumes "sidecar_wf s"
  shows "sidecar_wf (snd (storeStep c s)) \<and>
    specStep (sidecar_view s) c (fst (storeStep c s)) (sidecar_view (snd (storeStep c s)))"
proof (cases c)
  case (CallLoad n)
  then show ?thesis
    using sc.load_value [OF assms, of n] sc.load_view [OF assms, of n] sc.load_wf [OF assms, of n] by (auto simp: replyOf_def)
next
  case (CallSave b)
  then show ?thesis
    using sc.save_ok [OF assms, of b] sc.save_err [OF assms, of b] sc.save_wf [OF assms, of b] sidecar_save_outcome [of b s]
    by (auto simp: replyOf_def)
next
  case (CallRemove n)
  then show ?thesis
    using sc.remove_ok [OF assms, of n] sc.remove_err [OF assms, of n] sc.remove_wf [OF assms, of n] sidecar_remove_outcome [of n s]
    by (auto simp: replyOf_def)
next
  case (CallTombstone t)
  then show ?thesis
    using sidecar_tombstone_store [OF assms, of t] tombstone_result [of t s] by (auto simp: replyOf_def)
next
  case CallList
  then show ?thesis using list_simulates [OF assms] by (simp add: replyOf_def)
qed

lemma step_no_fault:
  assumes "sidecar_wf s" and "fs_faults s = []"
  shows "fst (storeStep c s) \<noteq> Failed \<and> fs_faults (snd (storeStep c s)) = []"
proof (cases c)
  case (CallLoad n)
  then show ?thesis
    using sidecar_load_plain [OF assms(2), of n] sidecar_wf_lookup [OF assms(1), of n]
    by (cases "map_of (fs_files s) (sidecar_path n)") (auto simp: replyOf_def assms)
next
  case CallList
  then show ?thesis using sidecar_list_plain [OF assms] by (auto simp: replyOf_def assms)
qed (auto simp: replyOf_def sidecar_save_def sidecar_remove_def sidecar_tombstone_def sidecar_op_defs notExist_def Let_def assms
    split: option.splits)

lemma run_simulates:
  "sidecar_wf s \<Longrightarrow> storeRun cs s = (rs, s') \<Longrightarrow>
    sidecar_wf s' \<and> specRun (sidecar_view s) cs rs (sidecar_view s') \<and> (fs_faults s = [] \<longrightarrow> Failed \<notin> set rs)"
proof (induction cs arbitrary: s rs)
  case (Cons c cs)
  obtain r s1 where 1: "storeStep c s = (r, s1)" by (cases "storeStep c s")
  obtain rs' where 2: "storeRun cs s1 = (rs', s')" "rs = r # rs'"
    using Cons.prems(2) 1 by (auto split: prod.splits)
  have "sidecar_wf s1" "specStep (sidecar_view s) c r (sidecar_view s1)"
    using step_simulates [OF Cons.prems(1), of c] 1 by auto
  moreover have "fs_faults s = [] \<Longrightarrow> r \<noteq> Failed \<and> fs_faults s1 = []"
    using step_no_fault [OF Cons.prems(1), of c] 1 by auto
  ultimately show ?case
    using Cons.IH [OF _ 2(1)] 2(2) by (auto intro: specMore)
qed (auto intro: specDone)

text \<open>C6. Every sequence of sidecar calls, under every script of faults, is a run of the
  map from session names to bindings: a load returns the current binding, a listing
  returns each current binding once, a save or a removal takes effect completely when
  it reports success and not at all when it fails, a reap record changes nothing; without
  faults no call fails.\<close>

theorem sidecar_refines_map:
  assumes "sidecar_wf s" and "storeRun cs s = (rs, s')"
  shows "sidecar_wf s' \<and> specRun (sidecar_view s) cs rs (sidecar_view s') \<and> (fs_faults s = [] \<longrightarrow> Failed \<notin> set rs)"
  by (rule run_simulates [OF assms])

theorem sidecar_refines_map_witness:
  "\<exists>rs s'. storeRun [CallSave (newBinding ''a''), CallRemove ''b'', CallList] \<lparr>fs_files = [], fs_faults = []\<rparr> = (rs, s')
    \<and> Failed \<notin> set rs \<and> specRun Map.empty [CallSave (newBinding ''a''), CallRemove ''b'', CallList] rs (sidecar_view s')"
proof -
  let ?s = "\<lparr>fs_files = [], fs_faults = []\<rparr>" and ?cs = "[CallSave (newBinding ''a''), CallRemove ''b'', CallList]"
  obtain rs s' where "storeRun ?cs ?s = (rs, s')" by (cases "storeRun ?cs ?s")
  moreover have "sidecar_wf ?s" "sidecar_view ?s = Map.empty" by (auto simp: sidecar_wf_def sidecar_view_def fun_eq_iff)
  ultimately show ?thesis using sidecar_refines_map [of ?s ?cs rs s'] by auto
qed

end
