(* ===== verification/Exec_Session.thy ===== *)
theory Exec_Session
  imports Exec_WS Base64 Client Fake_Nomad
begin

text \<open>
  One command over the alloc-exec channel: the client's handshake, its stdin frames and
  the collection of the reply (\<^verbatim>\<open>dialExecWS\<close>, \<^verbatim>\<open>execAllocObserved\<close> of \<^verbatim>\<open>runtime/client.go\<close>), and the fake
  server's side (\<^verbatim>\<open>handleExecWS\<close> of \<^verbatim>\<open>fakenomad/ws.go\<close>). The client writes everything before it reads the
  reply and the server replies after the stdin-close frame, so each side is a function of the bytes
  that arrive from the other. A deadline or a cancelled context is the error the
  reader ends with or the writer fails with.
\<close>

text \<open>
  What the process gets from outside: whether the connection opens, random bytes for the handshake
  and for the mask of each frame, SHA-1, and the JSON tree of a text.
\<close>

record wire_env =
  weDial :: "goerr option"
  weKey :: "goerr + bytes"
  weMask :: "nat \<Rightarrow> goerr + bytes"
  weSHA1 :: "string \<Rightarrow> bytes"
  weJSON :: "string \<Rightarrow> json option"

text \<open>The parts of the address the dialer uses.\<close>

record execTarget =
  etHost :: string
  etPath :: string

definition crlf :: string where
  "crlf = [CHR 0x0D, CHR 0x0A]"

definition wsMagicGUID :: string where
  "wsMagicGUID = ''258EAFA5-E914-47DA-95CA-C5AB0DC85B11''"

definition wsAcceptKey :: "(string \<Rightarrow> bytes) \<Rightarrow> string \<Rightarrow> string" where
  "wsAcceptKey sha clientKey = stdEncode (sha (clientKey @ wsMagicGUID))"

subsection \<open>The client's handshake\<close>

definition execRequest :: "execTarget \<Rightarrow> client \<Rightarrow> string \<Rightarrow> string \<Rightarrow> string \<Rightarrow> string list \<Rightarrow> string" where
  "execRequest t c key allocID task command =
    (let q = nsQuery c @ [(''command'', jsonText (JArr (map JStr command))), (''task'', task), (''tty'', ''false'')];
         path = trimRightChars {CHR ''/''} (etPath t) @ ''/v1/client/allocation/'' @ allocID @ ''/exec?'' @ queryEncode q in
     ''GET '' @ path @ '' HTTP/1.1'' @ crlf @ ''Host: '' @ etHost t @ crlf @ ''Upgrade: websocket'' @ crlf
     @ ''Connection: Upgrade'' @ crlf @ ''Sec-WebSocket-Key: '' @ key @ crlf @ ''Sec-WebSocket-Version: 13'' @ crlf
     @ (if clToken c \<noteq> [] then ''X-Nomad-Token: '' @ clToken c @ crlf else []) @ crlf)"

text \<open>\<^verbatim>\<open>(bufio.Reader).ReadString('\n')\<close>.\<close>

definition readLine :: "reader \<Rightarrow> (string \<times> reader) result" where
  "readLine r =
    (let pre = takeWhile (\<lambda>b. b \<noteq> 10) (rd_data r); rest = dropWhile (\<lambda>b. b \<noteq> 10) (rd_data r) in
     if rest = [] then Err (rd_end r) else Ok (string_of (pre @ [hd rest]), r\<lparr>rd_data := tl rest\<rparr>))"

lemma readLine_shorter: "readLine r = Ok (line, r') \<Longrightarrow> length (rd_data r') < length (rd_data r)"
proof -
  assume a: "readLine r = Ok (line, r')"
  then have "dropWhile (\<lambda>b. b \<noteq> 10) (rd_data r) \<noteq> []" "rd_data r' = tl (dropWhile (\<lambda>b. b \<noteq> 10) (rd_data r))"
    by (auto simp: readLine_def Let_def split: if_splits)
  then show ?thesis
    using length_dropWhile_le [of "\<lambda>b. b \<noteq> 10" "rd_data r"] by (cases "dropWhile (\<lambda>b. b \<noteq> 10) (rd_data r)") auto
qed

definition acceptHeader :: "string \<Rightarrow> string \<Rightarrow> string" where
  "acceptHeader line acc =
    (let l = trimRightChars {CHR 0x0D, CHR 0x0A} line; k = takeWhile (\<lambda>c. c \<noteq> CHR '':'') l; v = drop (length k) l in
     if v \<noteq> [] \<and> toLower (trimSpace k) = toLower ''Sec-WebSocket-Accept'' then trimSpace (tl v) else acc)"

function readHeaders :: "reader \<Rightarrow> string \<Rightarrow> (string \<times> reader) result" where
  "readHeaders r acc =
    (case readLine r of
       Ok (line, r') \<Rightarrow> if line = crlf \<or> line = [CHR 0x0A] then Ok (acc, r') else readHeaders r' (acceptHeader line acc)
     | Err e \<Rightarrow> Err e | Panic m \<Rightarrow> Panic m | Hang \<Rightarrow> Hang)"
  by pat_completeness auto
termination
  by (relation "measure (\<lambda>(r, acc). length (rd_data r))") (auto dest: readLine_shorter)

declare readHeaders.simps [simp del]

definition wrapR :: "string \<Rightarrow> 'a result \<Rightarrow> 'a result" where
  "wrapR m r = (case r of Err e \<Rightarrow> Err (EWrap m e []) | _ \<Rightarrow> r)"

definition dialExecWS ::
  "wire_env \<Rightarrow> execTarget \<Rightarrow> client \<Rightarrow> string \<Rightarrow> string \<Rightarrow> string list \<Rightarrow> writer \<Rightarrow> reader \<Rightarrow> reader result \<times> writer" where
  "dialExecWS we t c allocID task command w r =
    (case weDial we of
       Some e \<Rightarrow> (Err (EWrap ''dialing nomad exec websocket: '' e []), w)
     | None \<Rightarrow>
    (case weKey we of
       Inl e \<Rightarrow> (Err (EWrap ''generating websocket key: '' e []), w)
     | Inr keyBuf \<Rightarrow>
         (let key = stdEncode keyBuf in
          case io_Write (bytes_of (execRequest t c key allocID task command)) w of
            (Some e, w1) \<Rightarrow> (Err (EWrap ''writing websocket handshake: '' e []), w1)
          | (None, w1) \<Rightarrow>
              (bindR (wrapR ''reading websocket handshake status: '' (readLine r)) (\<lambda>(statusLine, r1).
               if \<not> containsS statusLine ''101''
               then Err (ENew (''nomad exec websocket handshake failed: '' @ trimSpace statusLine))
               else bindR (wrapR ''reading websocket handshake headers: '' (readHeaders r1 [])) (\<lambda>(acceptKey, r2).
               if acceptKey \<noteq> wsAcceptKey (weSHA1 we) key
               then Err (ENew ''nomad exec websocket handshake: Sec-WebSocket-Accept mismatch'')
               else Ok r2)), w1))))"

subsection \<open>The client's stdin frames\<close>

definition execStdinChunkSize :: nat where
  "execStdinChunkSize = 32 * 1024"

definition stdinDataFrame :: "bytes \<Rightarrow> json" where
  "stdinDataFrame chunk = JObj [(''stdin'', JObj [(''data'', JStr (stdEncode chunk))])]"

definition stdinCloseFrame :: json where
  "stdinCloseFrame = JObj [(''stdin'', JObj [(''close'', JBool True)])]"

text \<open>\<open>i\<close> counts the frames written, and so the mask key the next one uses.\<close>

function sendStdin :: "wire_env \<Rightarrow> nat \<Rightarrow> bytes \<Rightarrow> writer \<Rightarrow> goerr option \<times> nat \<times> writer" where
  "sendStdin we i stdin w =
    (if stdin = [] then (None, i, w)
     else
       let chunk = take execStdinChunkSize stdin in
       case wsWriteMaskedFrame (weMask we i) wsOpText (bytes_of (jsonText (stdinDataFrame chunk))) w of
         (Some e, w1) \<Rightarrow> (Some (EWrap ''writing exec stdin-data frame: '' e []), i + 1, w1)
       | (None, w1) \<Rightarrow> sendStdin we (i + 1) (drop (length chunk) stdin) w1)"
  by pat_completeness auto
termination
  by (relation "measure (\<lambda>(we, i, stdin, w). length stdin)") (auto simp: execStdinChunkSize_def)

declare sendStdin.simps [simp del]

subsection \<open>The client's view of the reply\<close>

record execFrame =
  efStdout :: "string option"
  efStderr :: "string option"
  efExited :: bool
  efExitCode :: int

definition boolField :: "string \<Rightarrow> (string \<times> json) list \<Rightarrow> bool option" where
  "boolField k fs =
    (case jfield k fs of None \<Rightarrow> Some False | Some JNull \<Rightarrow> Some False | Some (JBool b) \<Rightarrow> Some b | _ \<Rightarrow> None)"

text \<open>A field that is a pointer to a struct, or a struct.\<close>

definition ptrField :: "string \<Rightarrow> ((string \<times> json) list \<Rightarrow> 'a option) \<Rightarrow> (string \<times> json) list \<Rightarrow> 'a option option" where
  "ptrField k f fs =
    (case jfield k fs of
       None \<Rightarrow> Some None | Some JNull \<Rightarrow> Some None
     | Some (JObj g) \<Rightarrow> map_option Some (f g)
     | _ \<Rightarrow> None)"

definition decExecFrame :: "(string \<times> json) list \<Rightarrow> execFrame option" where
  "decExecFrame fs =
    Option.bind (ptrField ''stdout'' (strField ''data'') fs) (\<lambda>so.
    Option.bind (ptrField ''stderr'' (strField ''data'') fs) (\<lambda>se.
    Option.bind (boolField ''exited'' fs) (\<lambda>ex.
    Option.bind (ptrField ''result'' (intField ''exit_code'') fs) (\<lambda>code.
    Some \<lparr>efStdout = so, efStderr = se, efExited = ex, efExitCode = (case code of None \<Rightarrow> 0 | Some n \<Rightarrow> n)\<rparr>))))"

definition streamData :: "string \<Rightarrow> string option \<Rightarrow> bytes result" where
  "streamData what d =
    (case d of
       None \<Rightarrow> Ok []
     | Some s \<Rightarrow> (if s = [] then Ok []
         else case stdDecode s of
           None \<Rightarrow> Err (EWrap (''decoding exec '' @ what @ '': '') (ENew ''illegal base64 data'') [])
         | Some bs \<Rightarrow> Ok bs))"

lemma io_ReadFull_left: "io_ReadFull n r = Ok (bs, r') \<Longrightarrow> length (rd_data r') + n = length (rd_data r)"
  by (auto simp: io_ReadFull_def split: if_splits)

lemma readLength_left: "readLength b r = Ok (n, r') \<Longrightarrow> length (rd_data r') \<le> length (rd_data r)"
  by (auto simp: readLength_def Let_def split: if_splits dest!: io_ReadFull_left)

lemma wsReadFrame_shorter: "wsReadFrame r = Ok (opc, p, r') \<Longrightarrow> length (rd_data r') < length (rd_data r)"
  by (auto simp: wsReadFrame_def Let_def split: if_splits dest!: io_ReadFull_left readLength_left)

lemma fakenomad_wsReadFrame_shorter:
  "fakenomad_wsReadFrame r = Ok (opc, p, r') \<Longrightarrow> length (rd_data r') < length (rd_data r)"
  by (auto simp: fakenomad_wsReadFrame_def Let_def split: if_splits dest!: io_ReadFull_left readLength_left)

function receiveExec :: "wire_env \<Rightarrow> reader \<Rightarrow> bytes \<Rightarrow> bytes \<Rightarrow> (int \<times> bytes \<times> bytes) result" where
  "receiveExec we r stdout stderr =
    (case wsReadFrame r of
       Err e \<Rightarrow> Err (EWrap ''reading exec frame: '' e [])
     | Panic m \<Rightarrow> Panic m | Hang \<Rightarrow> Hang
     | Ok (opcode, payload, r') \<Rightarrow>
         if opcode \<noteq> wsOpText then receiveExec we r' stdout stderr
         else case Option.bind (weJSON we (string_of payload)) (decObj decExecFrame) of
           None \<Rightarrow> Err (EWrap ''decoding exec frame: '' (ENew ''invalid frame'') [])
         | Some msg \<Rightarrow>
             (case streamData ''stdout'' (efStdout msg) of
                Err e \<Rightarrow> Err e | Panic m \<Rightarrow> Panic m | Hang \<Rightarrow> Hang
              | Ok out \<Rightarrow>
             (case streamData ''stderr'' (efStderr msg) of
                Err e \<Rightarrow> Err e | Panic m \<Rightarrow> Panic m | Hang \<Rightarrow> Hang
              | Ok err \<Rightarrow>
                  if efExited msg then Ok (efExitCode msg, stdout @ out, stderr @ err)
                  else receiveExec we r' (stdout @ out) (stderr @ err))))"
  by pat_completeness auto
termination
  by (relation "measure (\<lambda>(we, r, so, se). length (rd_data r))") (auto dest: wsReadFrame_shorter)

declare receiveExec.simps [simp del]

definition wire_execAllocObserved ::
  "wire_env \<Rightarrow> execTarget \<Rightarrow> client \<Rightarrow> string \<Rightarrow> string \<Rightarrow> string list \<Rightarrow> bytes \<Rightarrow> writer \<Rightarrow> reader
    \<Rightarrow> (int \<times> bytes \<times> bytes) result \<times> writer" where
  "wire_execAllocObserved we t c allocID task command stdin w r =
    (case dialExecWS we t c allocID task command w r of
       (Err e, w1) \<Rightarrow> (Err e, w1) | (Panic m, w1) \<Rightarrow> (Panic m, w1) | (Hang, w1) \<Rightarrow> (Hang, w1)
     | (Ok r1, w1) \<Rightarrow>
    (case sendStdin we 0 stdin w1 of
       (Some e, i, w2) \<Rightarrow> (Err e, w2)
     | (None, i, w2) \<Rightarrow>
    (case wsWriteMaskedFrame (weMask we i) wsOpText (bytes_of (jsonText stdinCloseFrame)) w2 of
       (Some e, w3) \<Rightarrow> (Err (EWrap ''writing exec stdin-close frame: '' e []), w3)
     | (None, w3) \<Rightarrow> (receiveExec we r1 [] [], w3))))"

definition wire_execAllocStdin ::
  "wire_env \<Rightarrow> execTarget \<Rightarrow> client \<Rightarrow> string \<Rightarrow> string \<Rightarrow> string list \<Rightarrow> bytes \<Rightarrow> writer \<Rightarrow> reader
    \<Rightarrow> (int \<times> bytes) result \<times> writer" where
  "wire_execAllocStdin we t c allocID task command stdin w r =
    (case wire_execAllocObserved we t c allocID task command stdin w r of
       (res, w') \<Rightarrow> (bindR res (\<lambda>(code, out, err). Ok (code, out)), w'))"

subsection \<open>The fake server's side\<close>

definition switchingProtocols :: "string \<Rightarrow> string" where
  "switchingProtocols accept =
    ''HTTP/1.1 101 Switching Protocols'' @ crlf @ ''Upgrade: websocket'' @ crlf @ ''Connection: Upgrade'' @ crlf
    @ ''Sec-WebSocket-Accept: '' @ accept @ crlf @ crlf"

text \<open>The stdin part of a client frame: its data and its close flag.\<close>

definition decStdinFrame :: "(string \<times> json) list \<Rightarrow> (string \<times> bool) option option" where
  "decStdinFrame = ptrField ''stdin'' (\<lambda>g.
    Option.bind (strField ''data'' g) (\<lambda>d. map_option (\<lambda>c. (d, c)) (boolField ''close'' g)))"

definition stdoutFrame :: "bytes \<Rightarrow> json" where
  "stdoutFrame out = JObj [(''stdout'', JObj [(''data'', JStr (stdEncode out))])]"

definition stderrFrame :: "bytes \<Rightarrow> json" where
  "stderrFrame err = JObj [(''stderr'', JObj [(''data'', JStr (stdEncode err))])]"

definition exitedFrame :: "int \<Rightarrow> json" where
  "exitedFrame code = JObj [(''exited'', JBool True), (''result'', JObj [(''exit_code'', JNum code)])]"

definition replyFrames :: "int \<times> bytes \<times> bytes \<Rightarrow> json list" where
  "replyFrames res = (case res of (code, out, err) \<Rightarrow>
    [stdoutFrame out] @ (if err \<noteq> [] then [stderrFrame err] else []) @ [exitedFrame code])"

text \<open>A subprocess's exit code and output streams.\<close>

type_synonym commandRunner = "string \<Rightarrow> string list \<Rightarrow> bytes \<Rightarrow> int \<times> bytes \<times> bytes"

definition runAndReply :: "commandRunner \<Rightarrow> string \<Rightarrow> string list \<Rightarrow> bytes \<Rightarrow> writer \<Rightarrow> fserver \<Rightarrow> writer \<times> fserver" where
  "runAndReply runCommand allocID command stdin w s =
    (case takeExecReset s of
       (True, s1) \<Rightarrow> (w, s1)
     | (False, s1) \<Rightarrow>
    (case takeExecFailure s1 of
       (True, s2) \<Rightarrow> (w, s2)
     | (False, s2) \<Rightarrow>
         (snd (sendPlainFrames (map (\<lambda>j. ((), wsOpText, bytes_of (jsonText j))) (replyFrames (runCommand allocID command stdin))) w), s2)))"

function serveExec :: "wire_env \<Rightarrow> commandRunner \<Rightarrow> string \<Rightarrow> string list \<Rightarrow> reader \<Rightarrow> bytes \<Rightarrow> writer \<Rightarrow> fserver \<Rightarrow> writer \<times> fserver" where
  "serveExec we run allocID command r stdin w s =
    (case fakenomad_wsReadFrame r of
       Err e \<Rightarrow> (w, s) | Panic m \<Rightarrow> (w, s) | Hang \<Rightarrow> (w, s)
     | Ok (opcode, payload, r') \<Rightarrow>
         if opcode = wsOpClose then (snd (fakenomad_wsWriteFrame wsOpClose [] w), s)
         else if opcode \<noteq> wsOpText then serveExec we run allocID command r' stdin w s
         else case Option.bind (weJSON we (string_of payload)) (decObj decStdinFrame) of
           None \<Rightarrow> serveExec we run allocID command r' stdin w s
         | Some None \<Rightarrow> serveExec we run allocID command r' stdin w s
         | Some (Some (data, close)) \<Rightarrow>
             if data \<noteq> [] then
               (case stdDecode data of
                  None \<Rightarrow> serveExec we run allocID command r' stdin w s
                | Some d \<Rightarrow> serveExec we run allocID command r' (stdin @ d) w s)
             else if close then runAndReply run allocID command stdin w s
             else serveExec we run allocID command r' stdin w s)"
  by pat_completeness auto
termination
  by (relation "measure (\<lambda>(we, run, a, c, r, stdin, w, s). length (rd_data r))") (auto dest: fakenomad_wsReadFrame_shorter)

declare serveExec.simps [simp del]

text \<open>The error of decoding the command is ignored, and an element that is no string stays empty.
  \<open>rawCommand\<close> and \<open>key\<close> are the decoded query parameter and header; the answer is a refusal, or
  what was written on the hijacked connection.\<close>

definition handleExecWS ::
  "wire_env \<Rightarrow> commandRunner \<Rightarrow> string \<Rightarrow> string \<Rightarrow> string \<Rightarrow> reader \<Rightarrow> writer \<Rightarrow> fserver \<Rightarrow> (http_response + writer) \<times> fserver" where
  "handleExecWS we run allocID rawCommand key r w s =
    (if map_of (fsAllocs s) allocID = None then (Inl (writeJSONError 404 [] ''alloc not found''), s)
     else
       let command = (if rawCommand = [] then []
         else case weJSON we rawCommand of
           Some (JArr js) \<Rightarrow> map (\<lambda>v. case v of JStr x \<Rightarrow> x | _ \<Rightarrow> []) js
         | _ \<Rightarrow> []) in
       if key = [] then (Inl (writeJSONError 400 [] ''missing Sec-WebSocket-Key''), s)
       else
         let w1 = snd (io_Write (bytes_of (switchingProtocols (wsAcceptKey (weSHA1 we) key))) w) in
         case takeExecHangup s of
           (True, s1) \<Rightarrow> (Inr w1, s1)
         | (False, s1) \<Rightarrow> (case serveExec we run allocID command r [] w1 s1 of (w2, s2) \<Rightarrow> (Inr w2, s2)))"

subsection \<open>The stdin chunks\<close>

function chunksOf :: "bytes \<Rightarrow> bytes list" where
  "chunksOf b = (if b = [] then [] else take execStdinChunkSize b # chunksOf (drop execStdinChunkSize b))"
  by pat_completeness auto
termination
  by (relation "measure length") (auto simp: execStdinChunkSize_def)

declare chunksOf.simps [simp del]

lemma chunksOf_Nil [simp]: "chunksOf [] = []"
  by (simp add: chunksOf.simps)

lemma concat_chunksOf: "concat (chunksOf b) = b"
  by (induction b rule: chunksOf.induct) (subst chunksOf.simps, simp)

lemma chunksOf_nonempty: "c \<in> set (chunksOf b) \<Longrightarrow> c \<noteq> []"
proof (induction b rule: chunksOf.induct)
  case (1 b)
  show ?case
  proof (cases "b = []")
    case False
    then have "c = take execStdinChunkSize b \<or> c \<in> set (chunksOf (drop execStdinChunkSize b))"
      using 1(2) by (subst (asm) chunksOf.simps) simp
    then show ?thesis using 1(1) False by (auto simp: execStdinChunkSize_def)
  qed (use 1(2) in simp)
qed

definition goodMask :: "wire_env \<Rightarrow> bool" where
  "goodMask we \<longleftrightarrow> (\<forall>i. \<exists>k. weMask we i = Inr k \<and> length k = 4)"

definition maskKey :: "wire_env \<Rightarrow> nat \<Rightarrow> bytes" where
  "maskKey we i = (case weMask we i of Inr k \<Rightarrow> k | Inl e \<Rightarrow> [])"

lemma goodMask_key: "goodMask we \<Longrightarrow> weMask we i = Inr (maskKey we i) \<and> length (maskKey we i) = 4"
proof -
  assume "goodMask we"
  then obtain k where "weMask we i = Inr k" "length k = 4" by (auto simp: goodMask_def)
  then show ?thesis by (simp add: maskKey_def)
qed

text \<open>A message on the wire in each direction.\<close>

definition upWire :: "wire_env \<Rightarrow> nat \<Rightarrow> json \<Rightarrow> bytes" where
  "upWire we i j = maskedWire (maskKey we i) wsOpText (bytes_of (jsonText j))"

fun upStream :: "wire_env \<Rightarrow> nat \<Rightarrow> json list \<Rightarrow> bytes" where
  "upStream we i [] = []"
| "upStream we i (j # js) = upWire we i j @ upStream we (i + 1) js"

definition downWire :: "json \<Rightarrow> bytes" where
  "downWire j = plainWire () wsOpText (bytes_of (jsonText j))"

lemma upStream_append: "upStream we i (js @ ks) = upStream we i js @ upStream we (i + length js) ks"
  by (induction js arbitrary: i) simp_all

lemma sendStdin_wire:
  assumes "goodMask we" and "length (upStream we i (map stdinDataFrame (chunksOf stdin))) \<le> wr_room w"
  shows "sendStdin we i stdin w =
    (None, i + length (chunksOf stdin), snd (io_Write (upStream we i (map stdinDataFrame (chunksOf stdin))) w))"
  using assms(2)
proof (induction stdin arbitrary: i w rule: chunksOf.induct)
  case (1 b)
  show ?case
  proof (cases "b = []")
    case True
    then show ?thesis by (simp add: sendStdin.simps)
  next
    case False
    let ?c = "take execStdinChunkSize b" and ?b = "drop execStdinChunkSize b"
    let ?x = "upWire we i (stdinDataFrame ?c)" and ?y = "upStream we (i + 1) (map stdinDataFrame (chunksOf ?b))"
    have ch: "chunksOf b = ?c # chunksOf ?b" using False by (subst chunksOf.simps) simp
    have dr: "drop (min (length b) execStdinChunkSize) b = ?b" by (cases "length b < execStdinChunkSize") (auto simp: min_def)
    have room: "length ?x \<le> wr_room w" "length ?y \<le> wr_room (snd (io_Write ?x w))"
      using 1(2) by (auto simp: ch io_Write_def)
    have "sendStdin we i b w = sendStdin we (i + 1) ?b (snd (io_Write ?x w))"
      using False goodMask_key [OF assms(1), of i] room(1)
      by (subst sendStdin.simps) (simp add: Let_def dr wsWriteMaskedFrame_wire upWire_def io_Write_def)
    also have "\<dots> = (None, i + 1 + length (chunksOf ?b), snd (io_Write ?y (snd (io_Write ?x w))))"
      by (rule 1(1) [OF False room(2)])
    finally show ?thesis using room by (simp add: ch io_Write_def)
  qed
qed

subsection \<open>The server collects the stdin\<close>

definition parses :: "wire_env \<Rightarrow> json \<Rightarrow> bool" where
  "parses we j \<longleftrightarrow> weJSON we (jsonText j) = Some j \<and> length (jsonText j) \<le> 2 ^ 48"

lemma text_opcode: "opcodeFits wsOpText" "wsOpText \<noteq> wsOpClose"
  by (simp_all add: opcodeFits_def wsOpText_def wsOpClose_def)

lemma char_byte_id [simp]: "char_of_byte \<circ> byte_of_char = id"
  by (simp add: fun_eq_iff)

lemma server_reads:
  assumes "goodMask we" and "parses we j"
  shows "fakenomad_wsReadFrame \<lparr>rd_data = upWire we i j @ rest, rd_end = e\<rparr> =
    Ok (wsOpText, bytes_of (jsonText j), \<lparr>rd_data = rest, rd_end = e\<rparr>)"
  unfolding upWire_def
  by (rule toServer.dec_enc) (use goodMask_key [OF assms(1)] assms(2) text_opcode in \<open>simp add: maskedFits_def parses_def\<close>)

lemma stdEncode_nonempty: "b \<noteq> [] \<Longrightarrow> stdEncode b \<noteq> []"
  by (metis option.inject stdDecode_stdEncode stdDecode_def decodeQuanta.simps(1) filter.simps(1) list.simps(8) option.simps(9))

lemma jfield_simps [simp]:
  "jfield k [] = None" "jfield k [(k, v)] = Some v"
  by (simp_all add: jfield_def)

lemma decStdinFrame_data: "decObj decStdinFrame (stdinDataFrame c) = Some (Some (stdEncode c, False))"
  by (simp add: decObj_def decStdinFrame_def stdinDataFrame_def ptrField_def strField_def boolField_def jfield_def)

lemma decStdinFrame_close: "decObj decStdinFrame stdinCloseFrame = Some (Some ([], True))"
  by (simp add: decObj_def decStdinFrame_def stdinCloseFrame_def ptrField_def strField_def boolField_def jfield_def)

lemma serveExec_collects:
  assumes "goodMask we" and "\<forall>c \<in> set cs. c \<noteq> [] \<and> parses we (stdinDataFrame c)" and "parses we stdinCloseFrame"
  shows "serveExec we run a cmd \<lparr>rd_data = upStream we i (map stdinDataFrame cs @ [stdinCloseFrame]) @ rest, rd_end = e\<rparr> stdin w s =
    runAndReply run a cmd (stdin @ concat cs) w s"
  using assms(2)
proof (induction cs arbitrary: i stdin)
  case Nil
  then show ?case
    using server_reads [OF assms(1,3), of i rest e] assms(3) text_opcode
    by (subst serveExec.simps) (simp add: decStdinFrame_close parses_def)
next
  case (Cons c cs)
  let ?rest = "upStream we (i + 1) (map stdinDataFrame cs @ [stdinCloseFrame]) @ rest"
  have c: "c \<noteq> []" "parses we (stdinDataFrame c)" using Cons.prems by auto
  have "serveExec we run a cmd \<lparr>rd_data = upStream we i (map stdinDataFrame (c # cs) @ [stdinCloseFrame]) @ rest, rd_end = e\<rparr> stdin w s
      = serveExec we run a cmd \<lparr>rd_data = ?rest, rd_end = e\<rparr> (stdin @ c) w s"
    using server_reads [OF assms(1) c(2), of i ?rest e] c text_opcode stdEncode_nonempty [OF c(1)]
    by (subst serveExec.simps) (simp add: decStdinFrame_data parses_def)
  also have "\<dots> = runAndReply run a cmd ((stdin @ c) @ concat cs) w s"
    by (rule Cons.IH) (use Cons.prems in simp)
  finally show ?case by simp
qed

subsection \<open>The client collects the reply\<close>

definition downStream :: "json list \<Rightarrow> bytes" where
  "downStream js = concat (map downWire js)"

lemma downStream_simps [simp]: "downStream [] = []" "downStream (j # js) = downWire j @ downStream js"
  "downStream (js @ ks) = downStream js @ downStream ks"
  by (simp_all add: downStream_def)

lemma client_reads:
  assumes "parses we j"
  shows "wsReadFrame \<lparr>rd_data = downWire j @ rest, rd_end = e\<rparr> = Ok (wsOpText, bytes_of (jsonText j), \<lparr>rd_data = rest, rd_end = e\<rparr>)"
    and "n < length (downWire j) \<Longrightarrow> \<exists>x. wsReadFrame \<lparr>rd_data = take n (downWire j), rd_end = e\<rparr> = Err x"
proof -
  have fits: "plainFits () wsOpText (bytes_of (jsonText j))"
    using assms text_opcode by (simp add: plainFits_def parses_def)
  show "wsReadFrame \<lparr>rd_data = downWire j @ rest, rd_end = e\<rparr> = Ok (wsOpText, bytes_of (jsonText j), \<lparr>rd_data = rest, rd_end = e\<rparr>)"
    unfolding downWire_def by (rule toClient.dec_enc [OF fits])
  assume "n < length (downWire j)"
  then have "strict_prefix (take n (downWire j)) (downWire j)"
    by (metis not_le prefix_order.dual_order.not_eq_order_implies_strict take_all_iff take_is_prefix)
  from toClient.dec_torn [OF fits this [unfolded downWire_def], of e]
  show "\<exists>x. wsReadFrame \<lparr>rd_data = take n (downWire j), rd_end = e\<rparr> = Err x"
    by (auto simp: torn_def downWire_def)
qed

text \<open>What a message of the reply carries.\<close>

definition carries :: "json \<Rightarrow> bytes \<Rightarrow> bytes \<Rightarrow> int option \<Rightarrow> bool" where
  "carries j out err code \<longleftrightarrow> (\<exists>m. decObj decExecFrame j = Some m \<and> streamData ''stdout'' (efStdout m) = Ok out
    \<and> streamData ''stderr'' (efStderr m) = Ok err \<and> efExited m = (code \<noteq> None) \<and> (case code of None \<Rightarrow> True | Some n \<Rightarrow> efExitCode m = n))"

lemma stdEncode_Nil [simp]: "stdEncode [] = []"
  by (simp add: stdEncode_def encodeWith_def padding_def)

lemma streamData_encode: "streamData what (Some (stdEncode b)) = Ok b"
  by (cases "b = []") (simp_all add: streamData_def stdEncode_nonempty)

lemma frame_keys:
  "toLower ''stdout'' = ''stdout''" "toLower ''stderr'' = ''stderr''" "toLower ''exited'' = ''exited''"
  "toLower ''result'' = ''result''" "toLower ''exit_code'' = ''exit_code''" "toLower ''data'' = ''data''"
  by code_simp+

lemma decExecFrame_reply:
  "decObj decExecFrame (stdoutFrame out) = Some \<lparr>efStdout = Some (stdEncode out), efStderr = None, efExited = False, efExitCode = 0\<rparr>"
  "decObj decExecFrame (stderrFrame err) = Some \<lparr>efStdout = None, efStderr = Some (stdEncode err), efExited = False, efExitCode = 0\<rparr>"
  "decObj decExecFrame (exitedFrame code) = Some \<lparr>efStdout = None, efStderr = None, efExited = True, efExitCode = code\<rparr>"
  by (simp_all add: decObj_def decExecFrame_def stdoutFrame_def stderrFrame_def exitedFrame_def ptrField_def
      strField_def boolField_def intField_def jfield_def frame_keys del: toLower.simps)

lemma carries_frames:
  "carries (stdoutFrame out) out [] None" "carries (stderrFrame err) [] err None" "carries (exitedFrame code) [] [] (Some code)"
  unfolding carries_def decExecFrame_reply option.inject
  by (simp_all add: streamData_encode) (simp_all add: streamData_def)

lemma receive_next:
  assumes "parses we j" and "carries j out err code"
  shows "receiveExec we \<lparr>rd_data = downWire j @ rest, rd_end = e\<rparr> so se =
    (case code of Some n \<Rightarrow> Ok (n, so @ out, se @ err) | None \<Rightarrow> receiveExec we \<lparr>rd_data = rest, rd_end = e\<rparr> (so @ out) (se @ err))"
proof -
  obtain m where m: "decObj decExecFrame j = Some m" "streamData ''stdout'' (efStdout m) = Ok out"
      "streamData ''stderr'' (efStderr m) = Ok err" "efExited m = (code \<noteq> None)" "case code of None \<Rightarrow> True | Some n \<Rightarrow> efExitCode m = n"
    using assms(2) by (auto simp: carries_def)
  have "weJSON we (jsonText j) = Some j" using assms(1) by (simp add: parses_def)
  then show ?thesis
    using client_reads(1) [OF assms(1), of rest e] m by (subst receiveExec.simps) (cases code; simp)
qed

lemma receive_torn:
  assumes "parses we j" and "n < length (downWire j)"
  shows "\<exists>x. receiveExec we \<lparr>rd_data = take n (downWire j), rd_end = e\<rparr> so se = Err x"
proof -
  obtain x where "wsReadFrame \<lparr>rd_data = take n (downWire j), rd_end = e\<rparr> = Err x"
    using client_reads(2) [OF assms] by blast
  then show ?thesis by (subst receiveExec.simps) simp
qed

text \<open>A reply cut anywhere is an error, a whole one is what was sent.\<close>

lemma receive_cut:
  assumes "\<forall>(j, out, err) \<in> set fs. parses we j \<and> carries j out err None" and "parses we fin" and "carries fin [] [] (Some code)"
  shows "\<exists>x. receiveExec we \<lparr>rd_data = take n (downStream (map fst fs @ [fin])), rd_end = e\<rparr> so se =
    (if length (downStream (map fst fs @ [fin])) \<le> n
     then Ok (code, so @ concat (map (fst \<circ> snd) fs), se @ concat (map (snd \<circ> snd) fs)) else Err x)"
  using assms(1)
proof (induction fs arbitrary: n so se)
  case Nil
  then show ?case
    using receive_next [OF assms(2,3), of "[]" e so se] receive_torn [OF assms(2), of n e so se]
    by (cases "length (downWire fin) \<le> n") auto
next
  case (Cons f fs)
  obtain j out err where f: "f = (j, out, err)" by (cases f)
  then have j: "parses we j" "carries j out err None" using Cons.prems by auto
  show ?case
  proof (cases "length (downWire j) \<le> n")
    case True
    define S where "S = downStream (map fst fs @ [fin])"
    let ?n = "n - length (downWire j)"
    have all: "downStream (map fst (f # fs) @ [fin]) = downWire j @ S" by (simp add: f S_def)
    then have cut: "take n (downStream (map fst (f # fs) @ [fin])) = downWire j @ take ?n S" using True by simp
    obtain x where "receiveExec we \<lparr>rd_data = take ?n S, rd_end = e\<rparr> (so @ out) (se @ err) =
        (if length S \<le> ?n then Ok (code, (so @ out) @ concat (map (fst \<circ> snd) fs), (se @ err) @ concat (map (snd \<circ> snd) fs)) else Err x)"
      using Cons.IH [of ?n "so @ out" "se @ err"] Cons.prems by (auto simp: S_def)
    moreover have "length S \<le> ?n \<longleftrightarrow> length (downWire j @ S) \<le> n" using True by auto
    moreover have "receiveExec we \<lparr>rd_data = take n (downStream (map fst (f # fs) @ [fin])), rd_end = e\<rparr> so se =
        receiveExec we \<lparr>rd_data = take ?n S, rd_end = e\<rparr> (so @ out) (se @ err)"
      by (simp only: cut receive_next [OF j] option.case)
    ultimately show ?thesis
      by (simp only: all) (rule exI [of _ x], simp add: f comp_def)
  next
    case False
    then have "take n (downStream (map fst (f # fs) @ [fin])) = take n (downWire j)" by (simp add: f)
    then show ?thesis using receive_torn [OF j(1), of n e so se] False by (simp add: f)
  qed
qed

subsection \<open>The handshake\<close>

definition httpLine :: "string \<Rightarrow> bool" where
  "httpLine l \<longleftrightarrow> l \<noteq> [] \<and> last l = CHR 0x0A \<and> CHR 0x0A \<notin> set (butlast l)"

lemma byte_newline: "byte_of_char c = 10 \<longleftrightarrow> c = CHR 0x0A"
proof -
  have "byte_of_char (CHR 0x0A) = 10" by (simp add: byte_of_char_def)
  then show ?thesis by (metis char_of_byte_of_char)
qed

lemma readLine_whole:
  assumes "httpLine l"
  shows "readLine \<lparr>rd_data = bytes_of l @ rest, rd_end = e\<rparr> = Ok (l, \<lparr>rd_data = rest, rd_end = e\<rparr>)"
proof -
  obtain b where l: "l = b @ [CHR 0x0A]" "CHR 0x0A \<notin> set b"
    using assms unfolding httpLine_def by (metis append_butlast_last_id)
  then have "\<forall>x \<in> set (bytes_of b). x \<noteq> 10" by (auto simp: byte_newline)
  then have "takeWhile (\<lambda>x. x \<noteq> 10) (bytes_of l @ rest) = bytes_of b" "dropWhile (\<lambda>x. x \<noteq> 10) (bytes_of l @ rest) = 10 # rest"
    using l by (auto simp: takeWhile_append dropWhile_append byte_newline [THEN iffD2])
  moreover have "string_of (bytes_of b @ [10]) = l"
    using l by (simp add: byte_newline [THEN iffD2, symmetric, OF refl])
  ultimately show ?thesis by (simp add: readLine_def)
qed

lemma readLine_torn:
  assumes "httpLine l" and "n < length l"
  shows "readLine \<lparr>rd_data = take n (bytes_of l), rd_end = e\<rparr> = Err e"
proof -
  have "set (take n l) \<subseteq> set (butlast l)"
    using assms(2) by (metis Suc_pred' butlast_conv_take length_greater_0_conv less_Suc_eq_le list.size(3) not_less_zero set_take_subset_set_take)
  then have "\<forall>x \<in> set (take n (bytes_of l)). x \<noteq> 10"
    using assms(1) by (auto simp: take_map byte_newline httpLine_def)
  then have "dropWhile (\<lambda>x. x \<noteq> 10) (take n (bytes_of l)) = []" by simp
  then show ?thesis by (simp add: readLine_def)
qed

lemma readHeaders_cut:
  assumes "\<forall>l \<in> set ls. httpLine l \<and> l \<noteq> crlf \<and> l \<noteq> [CHR 0x0A]"
  shows "readHeaders \<lparr>rd_data = take n (bytes_of (concat ls @ crlf) @ rest), rd_end = e\<rparr> acc =
    (if length (concat ls @ crlf) \<le> n
     then Ok (fold acceptHeader ls acc, \<lparr>rd_data = take (n - length (concat ls @ crlf)) rest, rd_end = e\<rparr>) else Err e)"
  using assms
proof (induction ls arbitrary: n acc)
  case Nil
  have ok: "httpLine crlf" by (simp add: httpLine_def crlf_def)
  show ?case
  proof (cases "length crlf \<le> n")
    case True
    then show ?thesis
      using readLine_whole [OF ok, of "take (n - length crlf) rest" e] by (subst readHeaders.simps) (simp add: take_map)
  next
    case False
    then show ?thesis
      using readLine_torn [OF ok, of n e] by (subst readHeaders.simps) simp
  qed
next
  case (Cons l ls)
  have ok: "httpLine l" "l \<noteq> crlf" "l \<noteq> [CHR 0x0A]" using Cons.prems by auto
  define S where "S = bytes_of (concat ls @ crlf) @ rest"
  have all: "bytes_of (concat (l # ls) @ crlf) @ rest = bytes_of l @ S" by (simp add: S_def)
  show ?case
  proof (cases "length l \<le> n")
    case True
    then have "take n (bytes_of l @ S) = bytes_of l @ take (n - length l) S" by simp
    then have "readHeaders \<lparr>rd_data = take n (bytes_of l @ S), rd_end = e\<rparr> acc =
        readHeaders \<lparr>rd_data = take (n - length l) S, rd_end = e\<rparr> (acceptHeader l acc)"
      using readLine_whole [OF ok(1), of "take (n - length l) S" e] ok by (subst readHeaders.simps) simp
    then show ?thesis
      using Cons.IH [of "n - length l" "acceptHeader l acc"] Cons.prems True unfolding all S_def
      by (simp add: le_diff_conv2 add.commute add.left_commute)
  next
    case False
    then have "take n (bytes_of l @ S) = take n (bytes_of l)" by simp
    then show ?thesis
      unfolding all using readLine_torn [OF ok(1), of n e] False by (subst readHeaders.simps) simp
  qed
qed

text \<open>A text without the bytes of a space is trimmed to itself.\<close>

definition noSpace :: "string \<Rightarrow> bool" where
  "noSpace s \<longleftrightarrow> (\<forall>c \<in> set s. \<forall>p \<in> set spaceCodes. c \<notin> set p)"

lemma noSpaceI: "(\<And>c. c \<in> set s \<Longrightarrow> 32 < (of_char c :: nat) \<and> (of_char c :: nat) < 128) \<Longrightarrow> noSpace s"
proof -
  have "\<forall>p \<in> set spaceCodes. \<forall>c \<in> set p. (of_char c :: nat) \<le> 32 \<or> 128 \<le> (of_char c :: nat)"
    by (simp add: spaceCodes_def)
  then show "(\<And>c. c \<in> set s \<Longrightarrow> 32 < (of_char c :: nat) \<and> (of_char c :: nat) < 128) \<Longrightarrow> noSpace s"
    unfolding noSpace_def by (meson not_le)
qed

lemma trim_noSpace:
  assumes "noSpace s"
  shows "trimSpaceLeft s = s" and "trimSpaceRight s = s"
proof -
  have "\<not> hasPrefix s p \<and> \<not> hasSuffix s p" if "p \<in> set spaceCodes" for p
  proof -
    have hd: "hd p \<in> set p" using spaceCodes_nonempty [OF that] by simp
    then have "hd p \<notin> set s" using assms that unfolding noSpace_def by blast
    then have "\<not> set p \<subseteq> set s" using hd by blast
    moreover have "hasPrefix s p \<or> hasSuffix s p \<Longrightarrow> set p \<subseteq> set s" by (auto simp: hasPrefix_iff hasSuffix_iff)
    ultimately show ?thesis by blast
  qed
  then have "find (hasPrefix s) spaceCodes = None" "find (hasSuffix s) spaceCodes = None" by (auto simp: find_None_iff)
  then show "trimSpaceLeft s = s" "trimSpaceRight s = s"
    by (simp_all add: trimSpaceLeft.simps trimSpaceRight.simps)
qed

lemma trimSpace_blank:
  assumes "noSpace s"
  shows "trimSpace s = s" and "trimSpace (CHR '' '' # s) = s"
proof -
  have "find (hasPrefix (CHR '' '' # s)) spaceCodes = Some '' ''" by (simp add: spaceCodes_def hasPrefix_def)
  then have "trimSpaceLeft (CHR '' '' # s) = trimSpaceLeft s" by (subst trimSpaceLeft.simps) simp
  then show "trimSpace s = s" "trimSpace (CHR '' '' # s) = s"
    by (simp_all add: trimSpace_def trim_noSpace [OF assms])
qed

lemma base64_clean: "noSpace (stdEncode b)" "CHR 0x0A \<notin> set (stdEncode b)" "CHR 0x0D \<notin> set (stdEncode b)"
proof -
  have sub: "set (stdEncode b) \<subseteq> set (stdAlphabet @ ''='')"
    using set_encodeWith [of stdAlphabet "map unat b"] by (auto simp: stdEncode_def padding_def split: if_splits)
  have "\<forall>c \<in> set (stdAlphabet @ ''=''). 32 < (of_char c :: nat) \<and> (of_char c :: nat) < 128"
    by (simp add: stdAlphabet_def)
  then have range: "32 < (of_char c :: nat) \<and> (of_char c :: nat) < 128" if "c \<in> set (stdEncode b)" for c
    using sub that by blast
  then show "noSpace (stdEncode b)" by (rule noSpaceI)
  show "CHR 0x0A \<notin> set (stdEncode b)" "CHR 0x0D \<notin> set (stdEncode b)"
    using range [of "CHR 0x0A"] range [of "CHR 0x0D"] by auto
qed

lemma trimRight_line:
  assumes "CHR 0x0D \<notin> set l" "CHR 0x0A \<notin> set l"
  shows "trimRightChars {CHR 0x0D, CHR 0x0A} (l @ crlf) = l"
proof -
  have "dropWhile (\<lambda>c. c \<in> {CHR 0x0D, CHR 0x0A}) (rev l) = rev l"
    using assms by (cases l rule: rev_cases) auto
  then show ?thesis by (simp add: trimRightChars_def crlf_def)
qed

lemma accept_lines:
  "acceptHeader (''Upgrade: websocket'' @ crlf) acc = acc"
  "acceptHeader (''Connection: Upgrade'' @ crlf) acc = acc"
  "acceptHeader (''Sec-WebSocket-Accept: '' @ stdEncode b @ crlf) acc = stdEncode b"
proof -
  have n: "noSpace ''Upgrade''" "noSpace ''Connection''" "noSpace ''Sec-WebSocket-Accept''"
    by (rule noSpaceI; auto)+
  have k: "toLower ''Upgrade'' \<noteq> toLower ''Sec-WebSocket-Accept''" "toLower ''Connection'' \<noteq> toLower ''Sec-WebSocket-Accept''"
    by code_simp+
  have "trimRightChars {CHR 0x0D, CHR 0x0A} (''Upgrade: websocket'' @ crlf) = ''Upgrade: websocket''"
    "trimRightChars {CHR 0x0D, CHR 0x0A} (''Connection: Upgrade'' @ crlf) = ''Connection: Upgrade''"
    by (rule trimRight_line; simp)+
  then show "acceptHeader (''Upgrade: websocket'' @ crlf) acc = acc" "acceptHeader (''Connection: Upgrade'' @ crlf) acc = acc"
    using k trimSpace_blank(1) [OF n(1)] trimSpace_blank(1) [OF n(2)]
    by (simp_all add: acceptHeader_def Let_def del: toLower.simps)
  have l: "trimRightChars {CHR 0x0D, CHR 0x0A} ((''Sec-WebSocket-Accept: '' @ stdEncode b) @ crlf) = ''Sec-WebSocket-Accept: '' @ stdEncode b"
    by (rule trimRight_line) (use base64_clean in auto)
  then show "acceptHeader (''Sec-WebSocket-Accept: '' @ stdEncode b @ crlf) acc = stdEncode b"
    using trimSpace_blank(1) [OF n(3)] trimSpace_blank(2) [OF base64_clean(1)]
    by (simp add: acceptHeader_def Let_def del: toLower.simps)
qed

definition statusLine :: string where
  "statusLine = ''HTTP/1.1 101 Switching Protocols'' @ crlf"

definition headerLines :: "bytes \<Rightarrow> string list" where
  "headerLines b = [''Upgrade: websocket'' @ crlf, ''Connection: Upgrade'' @ crlf, ''Sec-WebSocket-Accept: '' @ stdEncode b @ crlf]"

lemma switching_lines: "switchingProtocols (stdEncode b) = statusLine @ concat (headerLines b) @ crlf"
  by (simp add: switchingProtocols_def statusLine_def headerLines_def)

lemma httpLine_crlf: "CHR 0x0A \<notin> set l \<Longrightarrow> httpLine (l @ crlf)"
  by (simp add: httpLine_def crlf_def butlast_append)

lemma header_lines_OK:
  "httpLine statusLine" "containsS statusLine ''101''" "\<forall>l \<in> set (headerLines b). httpLine l \<and> l \<noteq> crlf \<and> l \<noteq> [CHR 0x0A]"
  "fold acceptHeader (headerLines b) acc = stdEncode b"
proof -
  show "httpLine statusLine" unfolding statusLine_def by (rule httpLine_crlf) simp
  show "containsS statusLine ''101''"
    unfolding containsS_iff by (rule exI [of _ "''HTTP/1.1 ''"], rule exI [of _ "'' Switching Protocols'' @ crlf"]) (simp add: statusLine_def)
  have "httpLine ((''Sec-WebSocket-Accept: '' @ stdEncode b) @ crlf)" by (rule httpLine_crlf) (use base64_clean(2) in auto)
  moreover have "httpLine (''Upgrade: websocket'' @ crlf)" "httpLine (''Connection: Upgrade'' @ crlf)" by (rule httpLine_crlf; simp)+
  ultimately show "\<forall>l \<in> set (headerLines b). httpLine l \<and> l \<noteq> crlf \<and> l \<noteq> [CHR 0x0A]"
    by (simp add: headerLines_def crlf_def)
  show "fold acceptHeader (headerLines b) acc = stdEncode b"
    unfolding headerLines_def by (simp only: fold.simps accept_lines comp_apply id_apply)
qed

lemma dial_cut:
  assumes "weDial we = None" and "weKey we = Inr kb"
    and "length (execRequest t c (stdEncode kb) a task cmd) \<le> wr_room w"
  shows "\<exists>x. dialExecWS we t c a task cmd w
      \<lparr>rd_data = take n (bytes_of (switchingProtocols (wsAcceptKey (weSHA1 we) (stdEncode kb))) @ rest), rd_end = e\<rparr> =
    (if length (switchingProtocols (wsAcceptKey (weSHA1 we) (stdEncode kb))) \<le> n
     then Ok \<lparr>rd_data = take (n - length (switchingProtocols (wsAcceptKey (weSHA1 we) (stdEncode kb)))) rest, rd_end = e\<rparr> else Err x,
     snd (io_Write (bytes_of (execRequest t c (stdEncode kb) a task cmd)) w))"
proof -
  define b where "b = weSHA1 we (stdEncode kb @ wsMagicGUID)"
  define H where "H = concat (headerLines b) @ crlf"
  define r where "r = \<lparr>rd_data = take n (bytes_of (statusLine @ H) @ rest), rd_end = e\<rparr>"
  have key: "wsAcceptKey (weSHA1 we) (stdEncode kb) = stdEncode b" by (simp add: wsAcceptKey_def b_def)
  have head: "switchingProtocols (stdEncode b) = statusLine @ H" by (simp add: switching_lines H_def)
  have run: "dialExecWS we t c a task cmd w r =
      (bindR (wrapR ''reading websocket handshake status: '' (readLine r)) (\<lambda>(sl, r1).
         if \<not> containsS sl ''101'' then Err (ENew (''nomad exec websocket handshake failed: '' @ trimSpace sl))
         else bindR (wrapR ''reading websocket handshake headers: '' (readHeaders r1 [])) (\<lambda>(acceptKey, r2).
         if acceptKey \<noteq> stdEncode b then Err (ENew ''nomad exec websocket handshake: Sec-WebSocket-Accept mismatch'') else Ok r2)),
       snd (io_Write (bytes_of (execRequest t c (stdEncode kb) a task cmd)) w))"
    unfolding key [symmetric] using assms by (simp add: dialExecWS_def Let_def io_Write_def)
  show ?thesis
  proof (cases "length statusLine \<le> n")
    case True
    define r1 where "r1 = \<lparr>rd_data = take (n - length statusLine) (bytes_of H @ rest), rd_end = e\<rparr>"
    have "readLine r = Ok (statusLine, r1)"
      using readLine_whole [OF header_lines_OK(1), of "take (n - length statusLine) (bytes_of H @ rest)" e] True
      by (simp add: r_def r1_def)
    moreover have "readHeaders r1 [] =
        (if length H \<le> n - length statusLine
         then Ok (stdEncode b, \<lparr>rd_data = take (n - length statusLine - length H) rest, rd_end = e\<rparr>) else Err e)"
      unfolding H_def r1_def by (subst readHeaders_cut [OF header_lines_OK(3)]) (simp add: header_lines_OK(4))
    moreover have "length H \<le> n - length statusLine \<longleftrightarrow> length (statusLine @ H) \<le> n" using True by auto
    ultimately have "dialExecWS we t c a task cmd w r =
        (if length (statusLine @ H) \<le> n then Ok \<lparr>rd_data = take (n - length (statusLine @ H)) rest, rd_end = e\<rparr>
         else Err (EWrap ''reading websocket handshake headers: '' e []), snd (io_Write (bytes_of (execRequest t c (stdEncode kb) a task cmd)) w))"
      unfolding run by (simp add: wrapR_def header_lines_OK(2))
    then show ?thesis unfolding key head r_def by (rule exI)
  next
    case False
    then have "take n (bytes_of (statusLine @ H) @ rest) = take n (bytes_of statusLine)" by simp
    then have "readLine r = Err e" using readLine_torn [OF header_lines_OK(1), of n e] False by (simp add: r_def)
    then show ?thesis using False unfolding key head r_def [symmetric] run by (simp add: wrapR_def)
  qed
qed

subsection \<open>A whole session\<close>

lemma io_Write_twice: "wr_out (snd (io_Write q (snd (io_Write p w)))) = wr_out w @ take (wr_room w) (p @ q)"
  by (auto simp: io_Write_def)

lemma sendPlain_down: "sendPlainFrames (map (\<lambda>j. ((), wsOpText, bytes_of (jsonText j))) js) w = io_Write (downStream js) w"
  by (simp add: sendPlainFrames_wire downStream_def downWire_def [abs_def] comp_def)

definition sessionUp :: "wire_env \<Rightarrow> bytes \<Rightarrow> bytes" where
  "sessionUp we stdin = upStream we 0 (map stdinDataFrame (chunksOf stdin) @ [stdinCloseFrame])"

definition sessionDown :: "wire_env \<Rightarrow> bytes \<Rightarrow> int \<times> bytes \<times> bytes \<Rightarrow> bytes" where
  "sessionDown we kb res =
    bytes_of (switchingProtocols (wsAcceptKey (weSHA1 we) (stdEncode kb))) @ downStream (replyFrames res)"

definition commandJSON :: "string list \<Rightarrow> json" where
  "commandJSON cmd = JArr (map JStr cmd)"

text \<open>The messages of the session are texts the JSON decoder reads back.\<close>

definition sessionParses :: "wire_env \<Rightarrow> string list \<Rightarrow> bytes \<Rightarrow> int \<times> bytes \<times> bytes \<Rightarrow> bool" where
  "sessionParses we cmd stdin res \<longleftrightarrow> parses we (commandJSON cmd) \<and>
    (\<forall>j \<in> set (map stdinDataFrame (chunksOf stdin) @ [stdinCloseFrame] @ replyFrames res). parses we j)"

definition execClear :: "fserver \<Rightarrow> bool" where
  "execClear s \<longleftrightarrow> fsExecHangups s = 0 \<and> fsExecResets s = 0 \<and> fsExecFails s = 0"

lemma server_session:
  assumes "goodMask we" and "sessionParses we cmd stdin (run a cmd stdin)" and "execClear s" and "map_of (fsAllocs s) a \<noteq> None" and "kb \<noteq> []"
  shows "\<exists>w'. handleExecWS we run a (jsonText (commandJSON cmd)) (stdEncode kb) \<lparr>rd_data = sessionUp we stdin, rd_end = e\<rparr>
      \<lparr>wr_out = [], wr_room = m, wr_err = we1\<rparr> s = (Inr w', s) \<and> wr_out w' = take m (sessionDown we kb (run a cmd stdin))"
proof -
  let ?w = "\<lparr>wr_out = [], wr_room = m, wr_err = we1\<rparr>"
  let ?w1 = "snd (io_Write (bytes_of (switchingProtocols (wsAcceptKey (weSHA1 we) (stdEncode kb)))) ?w)"
  have chunks: "\<forall>c \<in> set (chunksOf stdin). c \<noteq> [] \<and> parses we (stdinDataFrame c)" "parses we stdinCloseFrame"
    using assms(2) chunksOf_nonempty by (auto simp: sessionParses_def)
  have serve: "serveExec we run a cmd \<lparr>rd_data = sessionUp we stdin, rd_end = e\<rparr> [] ?w1 s = runAndReply run a cmd stdin ?w1 s"
    using serveExec_collects [OF assms(1) chunks, of run a cmd 0 "[]" e "[]" ?w1 s] by (simp add: sessionUp_def concat_chunksOf)
  have cmd: "weJSON we (jsonText (commandJSON cmd)) = Some (JArr (map JStr cmd))"
    using assms(2) by (simp add: sessionParses_def parses_def commandJSON_def)
  have ne: "jsonText (commandJSON cmd) \<noteq> []" by (simp add: commandJSON_def)
  let ?w2 = "snd (io_Write (downStream (replyFrames (run a cmd stdin))) ?w1)"
  have "handleExecWS we run a (jsonText (commandJSON cmd)) (stdEncode kb) \<lparr>rd_data = sessionUp we stdin, rd_end = e\<rparr> ?w s = (Inr ?w2, s)"
    using assms(3,4) stdEncode_nonempty [OF assms(5)] serve
    by (auto simp: handleExecWS_def Let_def cmd ne comp_def takeExecHangup_def execClear_def runAndReply_def takeExecReset_def
        takeExecFailure_def sendPlain_down)
  moreover have "wr_out ?w2 = take m (sessionDown we kb (run a cmd stdin))"
    by (simp only: io_Write_twice) (simp add: sessionDown_def)
  ultimately show ?thesis by blast
qed

lemma reply_cut:
  assumes "\<forall>j \<in> set (replyFrames res). parses we j"
  shows "\<exists>x. receiveExec we \<lparr>rd_data = take n (downStream (replyFrames res)), rd_end = e\<rparr> [] [] =
    (if length (downStream (replyFrames res)) \<le> n then Ok res else Err x)"
proof -
  obtain code out err where res: "res = (code, out, err)" by (cases res)
  let ?fs = "[(stdoutFrame out, out, [])] @ (if err \<noteq> [] then [(stderrFrame err, [], err)] else [])"
  have frames: "replyFrames res = map fst ?fs @ [exitedFrame code]" by (simp add: replyFrames_def res)
  have "\<forall>(j, so, se) \<in> set ?fs. parses we j \<and> carries j so se None" "parses we (exitedFrame code)"
    using assms carries_frames unfolding frames by (auto split: if_splits)
  note cut = receive_cut [OF this carries_frames(3), of n e "[]" "[]"]
  have parts: "concat (map (fst \<circ> snd) ?fs) = out" "concat (map (snd \<circ> snd) ?fs) = err" by auto
  from cut show ?thesis unfolding frames [symmetric] parts append_Nil res [symmetric] .
qed

lemma client_session:
  assumes "goodMask we" and "sessionParses we cmd stdin res" and "weDial we = None" and "weKey we = Inr kb"
    and room: "length (execRequest t c (stdEncode kb) a task cmd) + length (sessionUp we stdin) \<le> wr_room w"
  shows "\<exists>r w'. wire_execAllocObserved we t c a task cmd stdin w \<lparr>rd_data = take n (sessionDown we kb res), rd_end = e\<rparr> = (r, w') \<and>
    (if length (sessionDown we kb res) \<le> n
     then r = Ok res \<and> wr_out w' = wr_out w @ bytes_of (execRequest t c (stdEncode kb) a task cmd) @ sessionUp we stdin
     else \<exists>x. r = Err x)"
proof -
  define H where "H = switchingProtocols (wsAcceptKey (weSHA1 we) (stdEncode kb))"
  define P where "P = downStream (replyFrames res)"
  let ?req = "bytes_of (execRequest t c (stdEncode kb) a task cmd)" and ?w1 = "snd (io_Write (bytes_of (execRequest t c (stdEncode kb) a task cmd)) w)"
  let ?data = "upStream we 0 (map stdinDataFrame (chunksOf stdin))" and ?i = "length (chunksOf stdin)"
  have down: "sessionDown we kb res = bytes_of H @ P" by (simp add: sessionDown_def H_def P_def)
  have up: "sessionUp we stdin = ?data @ upWire we ?i stdinCloseFrame" by (simp add: sessionUp_def upStream_append)
  obtain x where dial: "dialExecWS we t c a task cmd w \<lparr>rd_data = take n (bytes_of H @ P), rd_end = e\<rparr> =
      (if length H \<le> n then Ok \<lparr>rd_data = take (n - length H) P, rd_end = e\<rparr> else Err x, ?w1)"
    using dial_cut [OF assms(3,4), of t c a task cmd w n P e] room unfolding H_def by auto
  show ?thesis
  proof (cases "length H \<le> n")
    case False
    then show ?thesis unfolding down wire_execAllocObserved_def dial by simp
  next
    case True
    have room1: "wr_room ?w1 = wr_room w - length ?req" using room by (simp add: io_Write_def)
    have send: "sendStdin we 0 stdin ?w1 = (None, ?i, snd (io_Write ?data ?w1))"
      using sendStdin_wire [OF assms(1), of 0 stdin ?w1] room room1 by (simp add: up)
    let ?w3 = "snd (io_Write (sessionUp we stdin) ?w1)"
    have close: "wsWriteMaskedFrame (weMask we ?i) wsOpText (bytes_of (jsonText stdinCloseFrame)) (snd (io_Write ?data ?w1)) = (None, ?w3)"
      using goodMask_key [OF assms(1), of ?i] room room1 by (auto simp: wsWriteMaskedFrame_wire up upWire_def io_Write_def)
    have "wire_execAllocObserved we t c a task cmd stdin w \<lparr>rd_data = take n (sessionDown we kb res), rd_end = e\<rparr> =
        (receiveExec we \<lparr>rd_data = take (n - length H) P, rd_end = e\<rparr> [] [], ?w3)"
      using True unfolding down wire_execAllocObserved_def dial by (simp add: send close)
    moreover obtain y where "receiveExec we \<lparr>rd_data = take (n - length H) P, rd_end = e\<rparr> [] [] =
        (if length P \<le> n - length H then Ok res else Err y)"
      using reply_cut [of res we "n - length H" e] assms(2) by (auto simp: P_def sessionParses_def)
    moreover have "length P \<le> n - length H \<longleftrightarrow> length (sessionDown we kb res) \<le> n" using True by (auto simp: down)
    moreover have "wr_out ?w3 = wr_out w @ ?req @ sessionUp we stdin"
      using room by (simp only: io_Write_twice) simp
    ultimately show ?thesis by simp
  qed
qed

text \<open>C7. One exec against the fake server, end to end. The client's stdin travels in masked,
  chunked, base64 frames after the handshake; the server runs the command on exactly those bytes and sends
  its output back over a connection that fails after \<open>m\<close> bytes. The client reports exactly
  the command's exit code, stdout and stderr when the whole reply arrived, and an error at
  every other cut, in the handshake, in a frame or between two frames: a partial result is never
  taken for a result.\<close>

theorem exec_session_exact:
  assumes "goodMask we" and "weDial we = None" and "weKey we = Inr kb" and "kb \<noteq> []"
    and "sessionParses we cmd stdin (run a cmd stdin)" and "execClear s" and "map_of (fsAllocs s) a \<noteq> None"
    and "length (execRequest t c (stdEncode kb) a task cmd) + length (sessionUp we stdin) \<le> k"
  shows "\<exists>sw r cw.
    handleExecWS we run a (jsonText (commandJSON cmd)) (stdEncode kb) \<lparr>rd_data = sessionUp we stdin, rd_end = e1\<rparr>
      \<lparr>wr_out = [], wr_room = m, wr_err = e2\<rparr> s = (Inr sw, s) \<and>
    wire_execAllocObserved we t c a task cmd stdin \<lparr>wr_out = [], wr_room = k, wr_err = e3\<rparr> \<lparr>rd_data = wr_out sw, rd_end = e4\<rparr> = (r, cw) \<and>
    (if length (sessionDown we kb (run a cmd stdin)) \<le> m
     then r = Ok (run a cmd stdin) \<and> wr_out cw = bytes_of (execRequest t c (stdEncode kb) a task cmd) @ sessionUp we stdin
     else \<exists>x. r = Err x)"
proof -
  let ?cw = "\<lparr>wr_out = [], wr_room = k, wr_err = e3\<rparr>"
  obtain sw where sw: "handleExecWS we run a (jsonText (commandJSON cmd)) (stdEncode kb) \<lparr>rd_data = sessionUp we stdin, rd_end = e1\<rparr>
      \<lparr>wr_out = [], wr_room = m, wr_err = e2\<rparr> s = (Inr sw, s)" "wr_out sw = take m (sessionDown we kb (run a cmd stdin))"
    using server_session [where run = run and a = a and cmd = cmd and stdin = stdin, OF assms(1,5,6,7,4)] by blast
  have room: "length (execRequest t c (stdEncode kb) a task cmd) + length (sessionUp we stdin) \<le> wr_room ?cw" using assms(8) by simp
  from client_session [OF assms(1,5,2,3) room, of m e4] sw(1) show ?thesis
    unfolding sw(2) [symmetric] writer.select_convs append_Nil by blast
qed

definition echoWire :: wire_env where
  "echoWire = \<lparr>weDial = None, weKey = Inr [1, 2, 3], weMask = (\<lambda>_. Inr [9, 8, 7, 6]), weSHA1 = (\<lambda>_. [5, 5]),
     weJSON = (\<lambda>s. find (\<lambda>j. jsonText j = s)
       [commandJSON [''cat''], stdinDataFrame [104, 105], stdinCloseFrame, stdoutFrame [104, 105], exitedFrame 3])\<rparr>"

definition echoServer :: fserver where
  "echoServer = newServer\<lparr>fsAllocs := [(''a'', pendingAlloc ''a'' ''j'' ''default'' 1 [])]\<rparr>"

lemma echo_parses: "sessionParses echoWire [''cat''] [104, 105] (3, [104, 105], [])"
proof -
  have ch: "chunksOf [104, 105] = [[104, 105 :: byte]]"
    by (subst chunksOf.simps) (simp add: execStdinChunkSize_def)
  have find: "weJSON echoWire (jsonText (commandJSON [''cat''])) = Some (commandJSON [''cat''])"
    "weJSON echoWire (jsonText (stdinDataFrame [104, 105])) = Some (stdinDataFrame [104, 105])"
    "weJSON echoWire (jsonText stdinCloseFrame) = Some stdinCloseFrame"
    "weJSON echoWire (jsonText (stdoutFrame [104, 105])) = Some (stdoutFrame [104, 105])"
    "weJSON echoWire (jsonText (exitedFrame 3)) = Some (exitedFrame 3)"
    by (simp_all add: echoWire_def commandJSON_def stdinDataFrame_def stdinCloseFrame_def stdoutFrame_def exitedFrame_def
        jsonQuote_def jsonEscape_def Let_def stdEncode_def encodeWith_def padding_def stdAlphabet_def intText_def natText.simps)
  have len: "length (jsonText (commandJSON [''cat''])) \<le> 2 ^ 48" "length (jsonText (stdinDataFrame [104, 105])) \<le> 2 ^ 48"
    "length (jsonText stdinCloseFrame) \<le> 2 ^ 48" "length (jsonText (stdoutFrame [104, 105])) \<le> 2 ^ 48" "length (jsonText (exitedFrame 3)) \<le> 2 ^ 48"
    by (simp_all add: commandJSON_def stdinDataFrame_def stdinCloseFrame_def stdoutFrame_def exitedFrame_def
        jsonQuote_def jsonEscape_def Let_def stdEncode_def encodeWith_def padding_def stdAlphabet_def intText_def natText.simps)
  show ?thesis using len by (simp add: sessionParses_def parses_def ch replyFrames_def find)
qed

text \<open>A command that echoes its stdin and exits with 3, over connections with room for the session.\<close>

theorem exec_session_exact_witness:
  "let t = \<lparr>etHost = ''h'', etPath = []\<rparr>; c = \<lparr>clAddr = ''http://h'', clToken = [], clNamespace = ''default''\<rparr>;
       run = (\<lambda>a cmd stdin. (3, stdin, []));
       up = length (execRequest t c (stdEncode [1, 2, 3]) ''a'' ''agent'' [''cat'']) + length (sessionUp echoWire [104, 105]);
       down = length (sessionDown echoWire [1, 2, 3] (3, [104, 105], [])) in
   \<exists>sw cw. handleExecWS echoWire run ''a'' (jsonText (commandJSON [''cat''])) (stdEncode [1, 2, 3])
        \<lparr>rd_data = sessionUp echoWire [104, 105], rd_end = ESent IoEOF\<rparr> \<lparr>wr_out = [], wr_room = down, wr_err = ESent EPIPE\<rparr> echoServer
      = (Inr sw, echoServer) \<and>
     wire_execAllocObserved echoWire t c ''a'' ''agent'' [''cat''] [104, 105] \<lparr>wr_out = [], wr_room = up, wr_err = ESent EPIPE\<rparr>
        \<lparr>rd_data = wr_out sw, rd_end = ESent IoEOF\<rparr> = (Ok (3, [104, 105], []), cw)"
proof -
  let ?t = "\<lparr>etHost = ''h'', etPath = []\<rparr>" and ?c = "\<lparr>clAddr = ''http://h'', clToken = [], clNamespace = ''default''\<rparr>"
  let ?run = "(\<lambda>a cmd stdin. (3, stdin, []))" and ?res = "(3, [104, 105 :: byte], [])"
  have 1: "goodMask echoWire" "weDial echoWire = None" "weKey echoWire = Inr [1, 2, 3]" "[1, 2, 3 :: byte] \<noteq> []"
    by (simp_all add: goodMask_def echoWire_def)
  have 2: "sessionParses echoWire [''cat''] [104, 105] (?run ''a'' [''cat''] [104, 105])" using echo_parses by simp
  have 3: "execClear echoServer" "map_of (fsAllocs echoServer) ''a'' \<noteq> None"
    by (simp_all add: echoServer_def newServer_def execClear_def)
  note session = exec_session_exact [where run = ?run and a = "''a''" and cmd = "[''cat'']" and stdin = "[104, 105]", OF 1 2 3 order_refl,
      where m = "length (sessionDown echoWire [1, 2, 3] ?res)" and ?e1.0 = "ESent IoEOF" and ?e2.0 = "ESent EPIPE" and ?e3.0 = "ESent EPIPE"
        and ?e4.0 = "ESent IoEOF" and t = ?t and c = ?c and task = "''agent''"]
  then show ?thesis unfolding Let_def by (auto simp only: order_refl if_True)
qed

end
