(* ===== verification/Fake_Exec.thy ===== *)
theory Fake_Exec
  imports Exec_Session
begin

text \<open>
  How the fake server runs an exec (\<^verbatim>\<open>fakenomad.go\<close>): every allocation has a directory of its own
  under the server's root, a secrets directory inside it, and the command runs there with
  an environment that names them. The subprocess itself is a parameter.
\<close>

definition allocScratchDir :: "string \<Rightarrow> string \<Rightarrow> string" where
  "allocScratchDir execRoot allocID = pathJoin [execRoot, rawURLEncode allocID]"

definition allocSecretsDir :: "string \<Rightarrow> string \<Rightarrow> string" where
  "allocSecretsDir execRoot allocID = pathJoin [allocScratchDir execRoot allocID, ''secrets'']"

text \<open>How a subprocess ended: \<^verbatim>\<open>exec.ExitError\<close> carries an exit code, any other error means it
  did not run.\<close>

datatype procEnd = Exited int | NotRun goerr

type_synonym subprocess = "string \<Rightarrow> string list \<Rightarrow> string list \<Rightarrow> bytes \<Rightarrow> procEnd \<times> bytes \<times> bytes"

definition runCommand :: "subprocess \<Rightarrow> string list \<Rightarrow> string \<Rightarrow> commandRunner" where
  "runCommand proc environ execRoot allocID command stdin =
    (if command = [] then (0, bytes_of (''ok'' @ [CHR 0x0A]), [])
     else let dir = allocScratchDir execRoot allocID in
       case proc dir (isolatedTmuxEnv environ dir (allocSecretsDir execRoot allocID)) command stdin of
         (Exited code, out, err) \<Rightarrow> (code, out, err)
       | (NotRun e, out, err) \<Rightarrow> (1, out, err @ bytes_of (errText e)))"

text \<open>Two allocations never share a directory, whatever their identifiers contain.\<close>

lemma scratch_dirs_apart:
  assumes "execRoot \<noteq> []" and "a \<noteq> []" and "b \<noteq> []" and "allocScratchDir execRoot a = allocScratchDir execRoot b"
  shows "a = b"
proof -
  have plain: "rawURLEncode x \<noteq> [] \<and> rawURLEncode x \<noteq> ''.'' \<and> rawURLEncode x \<noteq> ''..'' \<and> CHR ''/'' \<notin> set (rawURLEncode x)" if "x \<noteq> []" for x
    using that rawURLEncode_inject [of x "[]"] rawURLEncode_chars [of "CHR ''/''" x] rawURLEncode_chars [of "CHR ''.''" x]
    by (auto simp: rawURLEncode_def encodeWith_def alphabet_chars)
  obtain pre where "\<forall>e. e \<noteq> [] \<and> e \<noteq> ''.'' \<and> e \<noteq> ''..'' \<and> CHR ''/'' \<notin> set e \<longrightarrow> pathJoin [execRoot, e] = pre @ e"
    using pathJoin_plain [OF assms(1)] by blast
  then show ?thesis using assms(2-4) plain by (auto simp: allocScratchDir_def)
qed

end
