(* ===== verification/One_Box.thy ===== *)
theory One_Box
  imports Adoption Waits
begin

text \<open>
  No session gets a second box while its first one is registered. The lifecycle calls
  of provision and start are followed through the whole handler: which programs make
  none, what adopting or reaping a live child does, and how these compose.
\<close>

subsection \<open>Programs that neither dispatch nor deregister\<close>

definition isLifeCall :: "apiCall \<Rightarrow> bool" where
  "isLifeCall c \<longleftrightarrow> isDispatch c \<or> isMethod ''DELETE'' c"

lemma isLifeCall_kinds [simp]:
  "isLifeCall (DispatchCall p m n t)" "isLifeCall (Http rq) \<longleftrightarrow> rqMethod rq = ''DELETE''"
  "\<not> isLifeCall (AllocsCall j i d)" "\<not> isLifeCall (ExecCall a t c)"
  by (simp_all add: isLifeCall_def)

lemma lifeCall_kinds: "boxQuiet isLifeCall" "dispatchKind isLifeCall" "stopKind isLifeCall"
  by (simp_all add: boxQuiet_def readQuiet_def dispatchKind_def stopKind_def)

lemma quiet_jobPlacementFailure [quiet]:
  assumes "\<And>rq. rqMethod rq = ''GET'' \<Longrightarrow> \<not> K (Http rq)"
  shows "keeps (callsAre K ks) (world (jobPlacementFailure (envNomad (traced ev)) c j))"
  unfolding jobPlacementFailure_def by (intro keeps_world_lift keeps_intros quiet_doIndexed assms)

lemma quiet_updateBinding [quiet]: "keeps (callsAre K ks) (updateBinding n w f)" "keeps (callsAre K ks) (peekBinding n)"
  unfolding updateBinding_def peekBinding_def by (intro keeps_intros quiet)+

lemma keeps_retry:
  assumes "keeps I p" and "keeps I (sleepFor ev allocExecReadyDelay)"
  shows "keeps I (retryAllocExecReady ev p)"
proof -
  have "keeps I (retryFrom k ev p)" for k
  proof (induction k)
    case 0
    show ?case by (subst retryFrom.simps) (simp, intro keeps_intros assms)
  next
    case (Suc k)
    show ?case by (subst retryFrom.simps) (simp, intro keeps_intros assms Suc)
  qed
  then show ?thesis by (simp add: retryAllocExecReady_def)
qed

lemmas quiet_retry = keeps_retry [OF _ quiet_calls(2)]

lemma quiet_staging:
  assumes "boxQuiet K"
  shows "keeps (callsAre K ks) (awaitExecAllocReady (traced ev) l n)"
    and "keeps (callsAre K ks) (execStage (traced ev) l n c x)" and "keeps (callsAre K ks) (boxSecretsDir (traced ev) l n)"
    and "keeps (callsAre K ks) (launchWithCommand (traced ev) l n c)"
proof -
  show await: "keeps (callsAre K ks) (awaitExecAllocReady (traced ev) l n)"
    by (rule quiet_await [OF boxQuietD(4) [OF assms]])
  show "keeps (callsAre K ks) (execStage (traced ev) l n c x)"
    unfolding execStage_def by (intro keeps_intros quiet quiet_retry await assms boxQuietD [OF assms])
  show "keeps (callsAre K ks) (boxSecretsDir (traced ev) l n)"
    unfolding boxSecretsDir_def by (intro keeps_intros quiet quiet_retry await assms boxQuietD [OF assms])
  show "keeps (callsAre K ks) (launchWithCommand (traced ev) l n c)"
    unfolding launchWithCommand_def Let_def by (intro keeps_intros quiet quiet_retry await assms boxQuietD [OF assms])
qed

lemma quiet_provisionFailureDetail [quiet]:
  "boxQuiet K \<Longrightarrow> keeps (callsAre K ks) (provisionFailureDetail (traced ev) h l n)"
  unfolding provisionFailureDetail_def Let_def by (intro keeps_intros quiet)

lemma quiet_stage:
  assumes "boxQuiet K"
  shows "keeps (callsAre K ks) (stage (traced ev) h l n cfg)"
proof -
  have archive: "keeps (callsAre K ks) (stageArchive (traced ev) h l n w c fs)" for w c fs
    unfolding stageArchive_def Let_def by (intro keeps_intros quiet quiet_staging assms)
  have args: "keeps (callsAre K ks) (stageArgFiles (traced ev) l n fs)" for fs
    by (induction fs) (auto intro!: keeps_intros quiet quiet_staging assms)
  show ?thesis
    unfolding stage_def by (intro keeps_intros archive args quiet_staging assms)
qed

lemma quiet_stageTracked:
  assumes "boxQuiet K"
  shows "keeps (callsAre K ks) (stageTracked (traced ev) h l n cfg)"
  unfolding stageTracked_def savePromptPending_def saveLifecyclePending_def setStagePending_def Let_def
  by (intro keeps_intros quiet quiet_stage assms)

lemma quiet_confirmLaunched:
  assumes "boxQuiet K"
  shows "keeps (callsAre K ks) (confirmLaunched (traced ev) h l n wd pc lc)"
proof -
  have "keeps (callsAre K ks) (verifyLoop k (traced ev) l n a d lst)" for k a d lst
    by (induction k arbitrary: lst)
      (auto simp: paneCurrentCommand_def boxRunsAnAgent_def Let_def intro!: keeps_intros quiet assms boxQuietD(3) [OF assms])
  then have pane: "keeps (callsAre K ks) (warnIfPaneRunsNoAgent (traced ev) l n)"
    unfolding warnIfPaneRunsNoAgent_def verifyPaneRunsAgent_def Let_def by (intro keeps_intros quiet assms)
  have gc: "keeps (callsAre K ks) (warnIfBoxGCCannotClaim (traced ev) h l n)"
    unfolding warnIfBoxGCCannotClaim_def warnIfBoxGCIsStale_def Let_def
    by (intro keeps_intros quiet assms boxQuietD(3) [OF assms])
  have pid: "keeps (callsAre K ks) (capturePanePID (traced ev) l n)"
    unfolding capturePanePID_def by (intro keeps_intros quiet assms boxQuietD(3) [OF assms])
  show ?thesis
    unfolding confirmLaunched_def by (intro keeps_intros quiet pane gc pid)
qed

lemma keeps_bool [keeps_intros]: "keeps I p \<Longrightarrow> keeps I q \<Longrightarrow> keeps I (case b of True \<Rightarrow> p | False \<Rightarrow> q)"
  by (cases b) auto

lemma quiet_startupPrimeDetached:
  assumes "boxQuiet K"
  shows "keeps (callsAre K ks) (startupPrimeDetached (traced ev) h l n cfg)"
proof -
  have rd: "keeps (callsAre K ks) (readBoxFile (traced ev) l a p)" for a p
    unfolding readBoxFile_def by (intro keeps_intros quiet boxQuietD(1) [OF assms])
  have gone: "keeps (callsAre K ks) (diagnosePaneGone (traced ev) l a)" for a
    unfolding diagnosePaneGone_def Let_def by (intro keeps_intros rd)
  have spawn: "keeps (callsAre K ks) (spawnPrimeWindow (traced ev) l n)"
    unfolding spawnPrimeWindow_def Let_def by (intro keeps_intros quiet gone assms boxQuietD(3) [OF assms])
  have exists: "keeps (callsAre K ks) (primeWindowExists (traced ev) l n)"
    unfolding primeWindowExists_def by (intro keeps_intros quiet assms boxQuietD(3) [OF assms])
  show ?thesis
    unfolding startupPrimeDetached_def Let_def by (intro keeps_intros quiet quiet_staging spawn exists assms)
qed

lemma quiet_markLaunched:
  assumes "boxQuiet K"
  shows "keeps (callsAre K ks) (markLaunched (traced ev) h l n cfg)"
  unfolding markLaunched_def launch_def Let_def
  by (intro keeps_intros quiet quiet_staging quiet_confirmLaunched quiet_startupPrimeDetached assms)

lemma quiet_confirmDispatchPlaced:
  assumes "boxQuiet K"
  shows "keeps (callsAre K ks) (confirmDispatchPlaced (traced ev) l n)"
proof -
  have np: "keeps (callsAre K ks) (notPlaced (traced ev) l n c st)" for c st
    unfolding notPlaced_def Let_def by (intro keeps_intros quiet boxQuietD(1) [OF assms])
  have "keeps (callsAre K ks) (placedLoop k (traced ev) l n c d st)" for k c d st
    by (induction k arbitrary: st) (auto simp: Let_def intro!: keeps_intros quiet np assms boxQuietD(2) [OF assms])
  then show ?thesis
    unfolding confirmDispatchPlaced_def by (intro keeps_intros quiet)
qed

subsection \<open>Adopting or reaping a live child\<close>

lemma at_classifyAdoption:
  assumes "boxQuiet K"
  shows "keeps (at V K ks) (classifyAdoption (traced ev) l n b)" and "keeps (at V K ks) (liveAllocID (traced ev) l b)"
proof -
  show live: "keeps (at V K ks) (liveAllocID (traced ev) l b)"
    unfolding liveAllocID_def by (intro keeps_intros at_boxExec [OF assms])
  show "keeps (at V K ks) (classifyAdoption (traced ev) l n b)"
    unfolding classifyAdoption_def bindingAgentStatus_def probeAgentAlive_def Let_def
    by (intro keeps_intros live at_boxExec [OF assms])
qed

lemma at_local:
  "keeps (at V K ks) (logDecision l m)" "keeps (at V K ks) (warnLine m)" "keeps (at V K ks) (sidecar_tombstone t)"
  by (intro keeps_at keeps_store keeps_tombstone quiet)+

definition adoptOutcome ::
  "(apiCall \<Rightarrow> bool) \<Rightarrow> lifecycle \<Rightarrow> string \<Rightarrow> binding \<Rightarrow> (string \<Rightarrow> binding option) \<Rightarrow> apiCall list \<Rightarrow> bool result
    \<Rightarrow> ('w \<times> apiCall list) lstate \<Rightarrow> bool" where
  "adoptOutcome K l n b V ks r s \<longleftrightarrow>
    (case r of
       Ok True \<Rightarrow> at V K ks s
     | Ok False \<Rightarrow> at (V(n := None)) K (ks @ [Http (deregisterRequest l (ChildJobID b))]) s
     | _ \<Rightarrow> callsAre K ks s \<or> callsAre K (ks @ [Http (deregisterRequest l (ChildJobID b))]) s)"

lemma wp_reapChild:
  assumes "stopKind K" and "at V K ks s" and "V n = Some b" and "SessionName b = n" and "ChildJobID b \<noteq> []"
    and "\<And>r s' b'. r \<noteq> Ok () \<Longrightarrow> evidenceOf b b' \<Longrightarrow>
      at (V(n \<mapsto> b')) K ks s' \<or> at (V(n \<mapsto> b')) K (ks @ [Http (deregisterRequest l (ChildJobID b))]) s' \<Longrightarrow> Q r s'"
    and "\<And>s'. at (V(n := None)) K (ks @ [Http (deregisterRequest l (ChildJobID b))]) s' \<Longrightarrow> accepted K ev l (ChildJobID b) ks \<Longrightarrow> Q (Ok ()) s'"
  shows "wp (reapChild (traced ev) l n b why) Q s"
proof -
  have V: "V(n \<mapsto> b) = V" "evidenceOf b b" using assms(3) by auto
  have early: "Q r s'" if "at V K ks s'" "r \<noteq> Ok ()" for r s'
    by (rule assms(6) [OF that(2), of b]) (use that(1) V in auto)
  have stop: "wp (wrapS w [] (opStop (traced ev) l n)) Q s'" if "at V K ks s'" for w s'
    unfolding wp_wrap
  proof (rule wp_stop [OF assms(1) that assms(3,4,5)], goal_cases)
    case (1 r s'')
    show ?case
      using 1 assms(6,7) by (cases r) (auto simp: stopOutcome_def)
  qed
  have step: "wp (bindS p f) Q s'"
    if "keeps (at V K ks) p" "at V K ks s'" "\<And>x s'. at V K ks s' \<Longrightarrow> wp (f x) Q s'"
    for p :: "(('a \<times> apiCall list) lstate, 'c) prog" and f s'
    unfolding wp_bind by (rule wp_keeps [OF that(2,1)]) (use that(3) early in \<open>auto split: result.split\<close>)
  have wrap: "keeps (at V K ks) (wrapS w [] (sidecar_tombstone t))" for w t
    by (intro keeps_intros at_local)
  show ?thesis
    unfolding reapChild_def
    by (rule step [OF at_classifyAdoption(2) [OF stopKindD(1) [OF assms(1)]] assms(2)])
      (rule step [OF at_boxExec(5) [OF stopKindD(1) [OF assms(1)]]], assumption,
       rule step [OF at_boxExec(5) [OF stopKindD(1) [OF assms(1)]]], assumption,
       rule step [OF wrap], assumption, rule stop)
qed

lemma wp_adoptExisting:
  assumes "stopKind K" and "at V K ks s" and "V n = Some b" and "SessionName b = n" and "ChildJobID b \<noteq> []"
    and "\<And>r s'. adoptOutcome K l n b V ks r s' \<Longrightarrow> Q r s'"
  shows "wp (adoptExisting (traced ev) h l n b op) Q s"
proof -
  have bq: "boxQuiet K" by (rule stopKindD(1) [OF assms(1)])
  have early: "Q r s'" if "at V K ks s'" "\<And>x. r \<noteq> Ok x" for r s'
    by (rule assms(6)) (use that in \<open>cases r, auto simp: adoptOutcome_def at_def\<close>)
  have log: "wp (bindS (logDecision l m) (\<lambda>_. p)) Q s'" if "at V K ks s'" "\<And>s'. at V K ks s' \<Longrightarrow> wp p Q s'" for m p s'
    unfolding wp_bind by (rule wp_keeps [OF that(1) at_local(1)]) (use that(2) early in \<open>auto split: result.split\<close>)
  have heal: "wp (bindS (confirmLaunched (traced ev) h l n wd pc lc) (\<lambda>_. failS e)) Q s'" if "at V K ks s'" for wd pc lc e s'
  proof -
    have "callsAre K ks (snd (confirmLaunched (traced ev) h l n wd pc lc s'))"
      by (rule keepsD [OF quiet_confirmLaunched [OF bq]]) (use that in \<open>simp add: at_def\<close>)
    then show ?thesis
      unfolding wp_bind wp_iff [of "confirmLaunched _ _ _ _ _ _ _"]
      by (auto simp: wp_fail adoptOutcome_def intro!: assms(6) split: result.split)
  qed
  have reap: "wp (bindS (reapChild (traced ev) l n b why) (\<lambda>_. returnS False)) Q s'" if "at V K ks s'" for why s'
    unfolding wp_bind
    by (rule wp_reapChild [OF assms(1) that assms(3-5)])
      (auto simp: wp_return adoptOutcome_def at_def intro!: assms(6) split: result.split)
  have reuse: "wp (returnS True) Q s'" if "at V K ks s'" for s'
    unfolding wp_return by (rule assms(6)) (simp add: adoptOutcome_def that)
  have reject: "wp (failS e) Q s'" if "at V K ks s'" for e s'
    unfolding wp_fail by (rule early [OF that]) simp
  show ?thesis
    unfolding adoptExisting_def Let_def wp_bind [of "classifyAdoption _ _ _ _"]
    by (rule wp_keeps [OF assms(2) at_classifyAdoption(1) [OF bq]])
      (auto intro!: log heal reap reuse reject early split: result.split prod.split adoptPath.split)
qed

subsection \<open>Provision and start\<close>

definition lifeCalls :: "'w env \<Rightarrow> lifecycle \<Rightarrow> string \<Rightarrow> string \<Rightarrow> binding option \<Rightarrow> apiCall list \<Rightarrow> bool" where
  "lifeCalls ev l n img found new \<longleftrightarrow>
    (case found of
       None \<Rightarrow> new = [] \<or> (\<exists>k t. new = [dispatchCallOf ev l n img k t])
     | Some b \<Rightarrow>
         (let dereg = Http (deregisterRequest l (ChildJobID b)) in
          new = [] \<or> new = [dereg] \<or> (\<exists>k t. new = [dereg, dispatchCallOf ev l n img k t])))"

lemma dispatchOutcome_calls:
  "dispatchOutcome K ev l n img V ks r s \<Longrightarrow>
    callsAre K ks s \<or> (\<exists>k t. callsAre K (ks @ [dispatchCallOf ev l n img k t]) s)"
  unfolding dispatchOutcome_def freshOutcome_def at_def by blast

text \<open>A dispatch and then anything that makes no life-cycle call.\<close>

lemma wp_dispatch_then:
  assumes "dispatchKind K" and "at V K ks s" and "\<And>b. V n = Some b \<Longrightarrow> SessionName b = n"
    and "\<And>ks. keeps (callsAre K ks) rest"
    and "\<And>r s'. callsAre K ks s' \<or> (\<exists>k t. callsAre K (ks @ [dispatchCallOf ev l n img k t]) s') \<Longrightarrow> Q r s'"
  shows "wp (bindS (dispatch (traced ev) l n img) (\<lambda>_. rest)) Q s"
  unfolding wp_bind
proof (rule wp_dispatch [OF assms(1-3)], assumption, goal_cases)
  case (1 r s')
  have calls: "callsAre K ks s' \<or> (\<exists>k t. callsAre K (ks @ [dispatchCallOf ev l n img k t]) s')"
    by (rule dispatchOutcome_calls [OF 1])
  then have "callsAre K ks (snd (rest s')) \<or> (\<exists>k t. callsAre K (ks @ [dispatchCallOf ev l n img k t]) (snd (rest s')))"
    using keepsD [OF assms(4)] by blast
  with calls show ?case
    using assms(5) by (auto simp: wp_iff split: result.split)
qed

text \<open>What follows the look-up, in either operation.\<close>

lemma wp_adopt_or_dispatch:
  assumes "at V isLifeCall ks s" and "sidecar_wf s" and "found = None \<or> (\<exists>b. found = Some b \<and> V n = Some b \<and> ChildJobID b \<noteq> [])"
    and "\<And>ks. keeps (callsAre isLifeCall ks) onReuse" and "\<And>ks. keeps (callsAre isLifeCall ks) onFresh"
    and "\<And>r s' new. callsAre isLifeCall (ks @ new) s' \<Longrightarrow> lifeCalls ev l n img found new \<Longrightarrow> Q r s'"
  shows "wp (bindS (case found of None \<Rightarrow> returnS False | Some b \<Rightarrow> adoptExisting (traced ev) h l n b op) (\<lambda>reuse.
      if reuse then onReuse else bindS (dispatch (traced ev) l n img) (\<lambda>_. onFresh))) Q s"
proof -
  have name: "SessionName b = n" if "V n = Some b" for b
    using sc.view_name [OF assms(2)] assms(1) that by (simp add: at_def storeIs_def)
  have none: "Q r s'" if "callsAre isLifeCall ks s'" for r s'
    by (rule assms(6) [of "[]"]) (use that in \<open>simp_all add: lifeCalls_def Let_def split: option.split\<close>)
  show ?thesis
  proof (cases found)
    case None
    have "wp (bindS (dispatch (traced ev) l n img) (\<lambda>_. onFresh)) Q s"
    proof (rule wp_dispatch_then [OF lifeCall_kinds(2) assms(1) name assms(5)], assumption, goal_cases)
      case (1 r s')
      have "Q r s'" if "callsAre isLifeCall (ks @ [dispatchCallOf ev l n img k t]) s'" for k t
        by (rule assms(6) [OF that]) (auto simp: lifeCalls_def None)
      with 1 none show ?case by blast
    qed
    with None show ?thesis by simp
  next
    case (Some b)
    then have b: "V n = Some b" "ChildJobID b \<noteq> []" using assms(3) by auto
    let ?d = "Http (deregisterRequest l (ChildJobID b))"
    have one: "Q r s'" if "callsAre isLifeCall (ks @ [?d]) s'" for r s'
      by (rule assms(6) [OF that]) (simp add: lifeCalls_def Some Let_def)
    have two: "Q r s'" if "callsAre isLifeCall ((ks @ [?d]) @ [dispatchCallOf ev l n img k t]) s'" for r s' k t
      by (rule assms(6) [of "[?d, dispatchCallOf ev l n img k t]"]) (use that in \<open>auto simp: lifeCalls_def Some Let_def\<close>)
    have fresh: "wp (bindS (dispatch (traced ev) l n img) (\<lambda>_. onFresh)) Q s'" if "at (V(n := None)) isLifeCall (ks @ [?d]) s'" for s'
      by (rule wp_dispatch_then [OF lifeCall_kinds(2) that _ assms(5)]) (use one two in auto)
    have reuse: "wp onReuse Q s'" if "at V isLifeCall ks s'" for s'
      using keepsD [OF assms(4)] that none by (simp add: wp_iff at_def)
    have "wp (bindS (adoptExisting (traced ev) h l n b op) (\<lambda>reuse.
        if reuse then onReuse else bindS (dispatch (traced ev) l n img) (\<lambda>_. onFresh))) Q s"
      unfolding wp_bind [of "adoptExisting _ _ _ _ _ _"]
    proof (rule wp_adoptExisting [OF lifeCall_kinds(3) assms(1) b(1) name [OF b(1)] b(2)], goal_cases)
      case (1 r s')
      then show ?case
        using fresh reuse one none by (auto simp: adoptOutcome_def split: result.splits if_splits bool.splits)
    qed
    with Some show ?thesis by simp
  qed
qed

text \<open>A handler that looks something up under the lock first: the look-up runs as it would
  on its own, and the rest from where it ended.\<close>

lemma locked_prefix:
  assumes "fst (bindS w (\<lambda>_. withLock n p) s) = Ok x" and "I s" and "keeps I w" and "keeps I (lockSession n)"
  obtains s1 s2 where "I s1" and "p s1 = (Ok x, s2)"
    and "\<And>f. snd (bindS w (\<lambda>_. withLock n (bindS p f)) s) \<in> {snd (f x s2), unlockSession n (snd (f x s2))}"
    and "\<And>f. fst (bindS w (\<lambda>_. withLock n (bindS p f)) s) = fst (f x s2)"
proof -
  obtain u s0 where w: "w s = (Ok u, s0)"
    using assms(1) by (auto simp: bindS_def split: prod.splits result.splits)
  obtain v s1 where lk: "lockSession n s0 = (Ok v, s1)"
    using assms(1) w by (auto simp: bindS_def withLock_def split: prod.splits result.splits)
  obtain s2 where p: "p s1 = (Ok x, s2)"
    using assms(1) w lk by (auto simp: bindS_def withLock_def finallyS_def split: prod.splits result.splits)
  have "I s1"
    using keepsD [OF assms(3,2)] keepsD [OF assms(4), of s0] w lk by simp
  moreover note p
  moreover have "snd (bindS w (\<lambda>_. withLock n (bindS p f)) s) \<in> {snd (f x s2), unlockSession n (snd (f x s2))}" for f
    using w lk p by (auto simp: bindS_def withLock_def finallyS_def split: prod.splits result.splits)
  moreover have "fst (bindS w (\<lambda>_. withLock n (bindS p f)) s) = fst (f x s2)" for f
    using w lk p by (auto simp: bindS_def withLock_def finallyS_def split: prod.splits result.splits)
  ultimately show ?thesis by (rule that)
qed

lemma at_warnDeclaredSecrets: "keeps (at V K ks) (warnDeclaredSecrets h n cfg)"
  unfolding warnDeclaredSecrets_def Let_def by (intro keeps_intros at_local)

lemma at_lockSession: "keeps (at V K ks) (lockSession n)"
proof (intro keeps_at keeps_store)
  show "keeps (callsAre K ks) (lockSession n)"
    unfolding lockSession_def by (intro keeps_intros keeps_modify quiet) auto
qed

lemma one_box_run:
  assumes "sidecar_wf s"
    and "fst (bindS (warnDeclaredSecrets h n cfg) (\<lambda>_. withLock n (liveChild (traced ev) l n)) s) = Ok found"
    and "\<And>ks. keeps (callsAre isLifeCall ks) onReuse" and "\<And>ks. keeps (callsAre isLifeCall ks) onFresh"
  shows "\<exists>new. lifeCalls ev l n img found new \<and>
    filter isLifeCall (calls (snd (bindS (warnDeclaredSecrets h n cfg) (\<lambda>_. withLock n (bindS (liveChild (traced ev) l n) (\<lambda>live.
      bindS (case live of None \<Rightarrow> returnS False | Some b \<Rightarrow> adoptExisting (traced ev) h l n b op) (\<lambda>reuse.
      if reuse then onReuse else bindS (dispatch (traced ev) l n img) (\<lambda>_. onFresh))))) s)))
    = filter isLifeCall (calls s) @ new"
proof -
  let ?ks = "filter isLifeCall (calls s)" and ?V = "sidecar_view s"
  let ?rest = "\<lambda>live. bindS (case live of None \<Rightarrow> returnS False | Some b \<Rightarrow> adoptExisting (traced ev) h l n b op) (\<lambda>reuse.
      if reuse then onReuse else bindS (dispatch (traced ev) l n img) (\<lambda>_. onFresh))"
  have "at ?V isLifeCall ?ks s" using assms(1) by (simp add: at_def storeIs_def callsAre_def)
  then obtain s1 s2 where s1: "at ?V isLifeCall ?ks s1" and live: "liveChild (traced ev) l n s1 = (Ok found, s2)"
    and run: "snd (bindS (warnDeclaredSecrets h n cfg) (\<lambda>_. withLock n (bindS (liveChild (traced ev) l n) ?rest)) s)
        \<in> {snd (?rest found s2), unlockSession n (snd (?rest found s2))}"
    by (rule locked_prefix [OF assms(2) _ at_warnDeclaredSecrets at_lockSession]) blast
  have "wp (liveChild (traced ev) l n) (\<lambda>r s'. \<exists>V'. at V' isLifeCall ?ks s' \<and> liveOutcome ?V n V' r) s1"
    by (rule wp_liveChild [OF s1 boxQuietD(4) [OF lifeCall_kinds(1)]]) blast
  then obtain V' where V': "at V' isLifeCall ?ks s2" "liveOutcome ?V n V' (Ok found)"
    using live by (auto simp: wp_def)
  have "wp (?rest found) (\<lambda>r s'. \<exists>new. callsAre isLifeCall (?ks @ new) s' \<and> lifeCalls ev l n img found new) s2"
    by (rule wp_adopt_or_dispatch [OF V'(1) _ _ assms(3,4)])
      (use V' in \<open>auto simp: at_def storeIs_def liveOutcome_def split: option.splits\<close>)
  then obtain new where "lifeCalls ev l n img found new" "callsAre isLifeCall (?ks @ new) (snd (?rest found s2))"
    by (auto simp: wp_iff)
  then show ?thesis
    using run by (auto simp: callsAre_def unlockSession_def)
qed

text \<open>The two operations as one look-up followed by the choice, and the rests that make no life-cycle call.\<close>

lemma quiet_rests:
  "keeps (callsAre isLifeCall ks) (stageTracked (traced ev) h l n cfg)"
  "keeps (callsAre isLifeCall ks) (bindS (confirmDispatchPlaced (traced ev) l n) (\<lambda>_. stageTracked (traced ev) h l n cfg))"
  "keeps (callsAre isLifeCall ks) (bindS (stageTracked (traced ev) h l n cfg) (\<lambda>_. markLaunched (traced ev) h l n cfg))"
  by (intro keeps_intros quiet_stageTracked quiet_confirmDispatchPlaced quiet_markLaunched lifeCall_kinds(1))+

lemma reuse_shape:
  "bindS (if reuse then returnS () else d) f = (if reuse then f () else bindS d (\<lambda>_. f ()))"
  by (cases reuse) (auto intro!: arg_cong [of _ _ "bindS d"])

lemmas mint_shapes = opProvisionWithConfig_def opStartWithConfig_def reuse_shape

text \<open>C3. No session gets a second box while its first is registered. When the look-up that
  provision or start makes under the session's lock finds a live child, the operation
  issues, in this order: nothing; or the deregistration of exactly that child; or that
  deregistration and then one dispatch for this session. A dispatch with no
  deregistration before it happens only when the look-up found no live child.\<close>

theorem no_second_box:
  assumes "sidecar_wf s"
    and "p \<in> {opProvisionWithConfig (traced ev) h l n cfg, opStartWithConfig (traced ev) h l n cfg}"
    and "fst (bindS (warnDeclaredSecrets h n cfg) (\<lambda>_. withLock n (liveChild (traced ev) l n)) s) = Ok found"
  shows "\<exists>new. filter isLifeCall (calls (snd (p s))) = filter isLifeCall (calls s) @ new \<and>
    (case found of
       None \<Rightarrow> new = [] \<or> (\<exists>k t. new = [dispatchCallOf ev l n (sessionAgentImage cfg) k t])
     | Some b \<Rightarrow> new = [] \<or> new = [Http (deregisterRequest l (ChildJobID b))] \<or>
         (\<exists>k t. new = [Http (deregisterRequest l (ChildJobID b)), dispatchCallOf ev l n (sessionAgentImage cfg) k t]))"
proof -
  let ?img = "sessionAgentImage cfg"
  note rests = quiet_rests [where ev = ev and h = h and l = l and n = n and cfg = cfg]
  show ?thesis
    using assms(2) one_box_run [OF assms(1,3) rests(1,2), where img = ?img and op = "''provision''"]
      one_box_run [OF assms(1,3) rests(3,3), where img = ?img and op = "''start''"]
    unfolding mint_shapes lifeCalls_def Let_def
    by (auto split: option.splits)
qed

subsection \<open>An example\<close>

definition bareHost :: host where
  "bareHost = \<lparr>hostEnv = (\<lambda>_. None), hostStat = (\<lambda>_. Inl (ENew ''missing'')), hostRead = (\<lambda>_. Inl (ENew ''missing'')),
     hostWalk = (\<lambda>_. []), hostLink = (\<lambda>_. None), hostHome = None, hostTar = (\<lambda>_. []), hostGC = (\<lambda>_. None)\<rparr>"

lemma bareHost_env [simp]: "hostEnv bareHost k = None" "getenv bareHost k = []"
  by (simp_all add: bareHost_def getenv_def)

lemma bare_warn: "warnDeclaredSecrets bareHost n emptyConfig s = (Ok (), s)"
  by (simp add: warnDeclaredSecrets_def extraSecretKeys_def parseExtraSecretKeys_def strFields_def strFields_def
      warnAbsentSecretKeys_def warnIncompleteCityTarget_def warnCredentialShapedNames_def mapGet_def whenS_def Let_def bindS_def returnS_def emptyConfig_def)

lemma lockFile_path: "sidecar_path m \<noteq> lockFile n"
  using lockFile_hidden [of n] unfolding hiddenName_def by metis

lemma stub_lookup:
  assumes "map_of files (sidecar_path ''a'') = Some (CBinding b)" and "ChildJobID b \<noteq> []"
  shows "fst (bindS (warnDeclaredSecrets bareHost ''a'' emptyConfig) (\<lambda>_. withLock ''a'' (liveChild (traced stubEnv) stubLife ''a''))
    (stubState files)) = Ok (Some b)"
  using assms
  by (simp add: bare_warn bindS_def [of "warnDeclaredSecrets _ _ _"] withLock_def lockSession_def prog_defs stubState_def takeFault_def
      liveChild_def checkLive_def lockFile_path sidecar_load_plain listAllocs_def stub_runs someLive_def isTerminalStatus_def)

text \<open>A second provision of a session with a live box.\<close>

theorem no_second_box_witness:
  "let s = stubState [(sidecar_path ''a'', CBinding ((newBinding ''a'')\<lparr>ChildJobID := ''c'', Launched := True\<rparr>))];
       dereg = Http (deregisterRequest stubLife ''c'')
   in \<exists>new. filter isLifeCall (calls (snd (opProvisionWithConfig (traced stubEnv) bareHost stubLife ''a'' emptyConfig s))) = new \<and>
     (new = [] \<or> new = [dereg] \<or> (\<exists>k t. new = [dereg, dispatchCallOf stubEnv stubLife ''a'' (sessionAgentImage emptyConfig) k t]))"
proof -
  let ?b = "(newBinding ''a'')\<lparr>ChildJobID := ''c'', Launched := True\<rparr>"
  let ?s = "stubState [(sidecar_path ''a'', CBinding ?b)]"
  have wf: "sidecar_wf ?s" using entryOK_intros(2) [of ?b] by (simp add: stubState_def sidecar_wf_def)
  have "calls ?s = []" by (simp add: stubState_def)
  then show ?thesis
    using no_second_box [OF wf _ stub_lookup [of _ ?b], of "opProvisionWithConfig (traced stubEnv) bareHost stubLife ''a'' emptyConfig"]
    by (simp add: Let_def)
qed

end
