(* ===== verification/Session_Safety.thy ===== *)
theory Session_Safety
  imports One_Box
begin

text \<open>
  What an operator may rely on when a session is staged and observed, and a behaviour
  that the comments of the code do not promise: a transport launch for a session
  without a box waits for its own lock.
\<close>

subsection \<open>The transport launch of a session without a box\<close>

lemma hang_propagates:
  "fst (p s) = Hang \<Longrightarrow> fst (bindS p f s) = Hang" "fst (p s) = Hang \<Longrightarrow> fst (wrapS a b p s) = Hang"
  "fst (p s) = Hang \<Longrightarrow> fst (attempt p s) = Hang" "fst (p s) = Hang \<Longrightarrow> fst (finallyS p g s) = Hang"
  by (auto simp: bindS_def wrapS_def attempt_def finallyS_def split: prod.split)

text \<open>The session's lock is held and its record names no box.\<close>

definition heldUnbound :: "string \<Rightarrow> 'w lstate \<Rightarrow> bool" where
  "heldUnbound n s \<longleftrightarrow> fs_faults s = [] \<and> n \<in> set (lsLocks s) \<and>
    (map_of (fs_files s) (sidecar_path n) = None \<or>
     (\<exists>b. map_of (fs_files s) (sidecar_path n) = Some (CBinding b) \<and> ChildJobID b = []))"

lemma heldUnbound_load:
  "heldUnbound n s \<Longrightarrow> \<exists>found. sidecar_load n s = (Ok found, s) \<and> (found = None \<or> (\<exists>b. found = Some b \<and> ChildJobID b = []))"
  by (auto simp: heldUnbound_def sidecar_load_plain)

lemma heldUnbound_await:
  assumes "heldUnbound n s"
  shows "fst (awaitExecAllocReady ev l n s) = Hang"
proof -
  have rec: "fst (currentAllocRecord ev l n s') = Hang" if "heldUnbound n s'" for s'
    using heldUnbound_load [OF that] that
    by (auto simp: heldUnbound_def currentAllocRecord_def bindS_def [of "sidecar_load _"] withLock_def lockSession_def takeFault_def prog_defs)
  have loop: "fst (awaitLoop (Suc k) ev l n timeout interval d s') = Hang" if "heldUnbound n s'" for k timeout interval d s'
    unfolding awaitLoop.simps observeAlloc_def by (intro hang_propagates rec that)
  obtain t w where "timeNow ev s = (Ok t, s\<lparr>lsWorld := w\<rparr>)" "heldUnbound n (s\<lparr>lsWorld := w\<rparr>)"
    using assms by (cases "envNow ev (lsWorld s)") (simp add: timeNow_def world_def heldUnbound_def)
  then show ?thesis
    using loop by (simp add: awaitExecAllocReady_def awaitExecAllocReadyWithin_def bindS_def)
qed

text \<open>C32. A transport launch waits for itself when the session has no box: it takes the session's
  lock, and finding the allocation takes it again to repair the missing or unbound record.\<close>

theorem transport_launch_waits_for_itself:
  assumes "separableTransportLaunch command = Some transport" and "fs_faults s = []" and "n \<notin> set (lsLocks s)"
    and "map_of (fs_files s) (sidecar_path n) = None \<or>
      (\<exists>b. map_of (fs_files s) (sidecar_path n) = Some (CBinding b) \<and> ChildJobID b = [])"
  shows "fst (opExec ev h l n command s) = Hang"
proof -
  let ?s1 = "s\<lparr>fs_files := mapSet (lockFile n) CTorn (fs_files s), lsLocks := n # lsLocks s\<rparr>"
  have len: "length transport = 6"
    using assms(1) by (auto simp: separableTransportLaunch_def split: option.splits if_splits)
  have lock: "lockSession n s = (Ok (), ?s1)"
    using assms(2,3) by (simp add: lockSession_def takeFault_def prog_defs)
  have held: "heldUnbound n ?s1"
    using assms(2,4) by (auto simp: heldUnbound_def lockFile_path)
  have launch: "fst (launchWithCommand ev l n c ?s1) = Hang" for c
    unfolding launchWithCommand_def Let_def by (intro hang_propagates heldUnbound_await held)
  obtain found where "peekBinding n ?s1 = (Ok found, ?s1)"
    using heldUnbound_load [OF held] by (auto simp: peekBinding_def bindS_def attempt_def returnS_def)
  then have "fst (markTransportLaunched ev h l n transport ?s1) = Hang"
    using len launch by (simp add: markTransportLaunched_def Let_def bindS_def [of "peekBinding _"] hang_propagates)
  then show ?thesis
    using assms(1) lock
    by (simp add: opExec_def withLock_def bindS_def [of "lockSession _"] hang_propagates)
qed

theorem transport_launch_waits_for_itself_witness:
  "fst (opExec (traced stubEnv) bareHost stubLife ''a'' [''tmux'', ''new-session'', ''-d'', ''-s'', ''main'', ''codex''] (stubState [])) = Hang"
  using transport_launch_waits_for_itself
    [of "[''tmux'', ''new-session'', ''-d'', ''-s'', ''main'', ''codex'']" "[''tmux'', ''new-session'', ''-d'', ''-s'', ''main'', ''codex'']"
      "stubState []" "''a''"]
  by (simp add: separableTransportLaunch_def tmuxSessionName_def stubState_def)

subsection \<open>The answer of is-running\<close>

lemma wf_of_store: "(\<And>v. keeps (storeIs v) p) \<Longrightarrow> keeps sidecar_wf p"
  by (auto simp: keeps_def storeIs_def)

lemma wf_basic [keeps_intros]:
  "keeps sidecar_wf (world p)" "keeps sidecar_wf (logDecision l m)" "keeps sidecar_wf (lockSession n)" "keeps sidecar_wf (warnLine m)"
  "keeps sidecar_wf q \<Longrightarrow> keeps sidecar_wf (withLock n q)"
proof -
  show "keeps sidecar_wf (world p)" "keeps sidecar_wf (logDecision l m)" "keeps sidecar_wf (lockSession n)"
    by (intro wf_of_store keeps_store)+
  show "keeps sidecar_wf (warnLine m)" unfolding warnLine_def by (rule keeps_modify) (simp add: sidecar_wf_def)
  show "keeps sidecar_wf (withLock n q)" if "keeps sidecar_wf q"
    unfolding withLock_def by (intro keeps_intros keeps_finally that wf_of_store keeps_store) (simp add: unlockSession_def sidecar_wf_def)
qed

lemma wf_box [keeps_intros]:
  "keeps sidecar_wf (listAllocs ev l j)" "keeps sidecar_wf (execAlloc ev a t c)" "keeps sidecar_wf (timeNow ev)"
  "keeps sidecar_wf (currentAlloc ev l n)" "keeps sidecar_wf (probeAgentAlive ev l a pid)" "keeps sidecar_wf (peekBinding n)"
proof -
  show basic: "keeps sidecar_wf (listAllocs ev l j)" "keeps sidecar_wf (execAlloc ev a t c)" "keeps sidecar_wf (timeNow ev)" for j a t c
    unfolding listAllocs_def execAlloc_def execAllocStdin_def execAllocObserved_def timeNow_def by (intro keeps_intros)+
  have rec: "keeps sidecar_wf (recoverBinding ev l n p)" for p
    unfolding recoverBinding_def Let_def by (intro keeps_intros)
  have pick: "keeps sidecar_wf (pickAlloc ev l n b)" for b
    unfolding pickAlloc_def by (intro keeps_intros basic)
  show "keeps sidecar_wf (currentAlloc ev l n)"
    unfolding currentAlloc_def currentAllocRecord_def by (intro keeps_intros pick rec)
  show "keeps sidecar_wf (probeAgentAlive ev l a pid)" "keeps sidecar_wf (peekBinding n)"
    unfolding probeAgentAlive_def peekBinding_def Let_def by (intro keeps_intros basic)+
qed

lemma wf_sync [keeps_intros]:
  "keeps sidecar_wf (syncPromptedMarker ev l n)" "keeps sidecar_wf (syncCityCheckoutMarker ev h l n)"
  unfolding syncPromptedMarker_def syncCityCheckoutMarker_def applyPromptMarker_def Let_def by (intro keeps_intros)+

lemma wf_stop [keeps_intros]:
  "keeps sidecar_wf (runDrivingVerb ev l n v c)" "keeps sidecar_wf (flushStep ev l n b)" "keeps sidecar_wf (egressStep ev l n e b)"
proof -
  show "keeps sidecar_wf (runDrivingVerb ev l n v c)"
    unfolding runDrivingVerb_def Let_def by (intro keeps_intros)
  have sl: "keeps sidecar_wf (sleepFor ev d)" for d unfolding sleepFor_def by (intro keeps_intros)
  have "keeps sidecar_wf (flushLoop k ev l a d)" for k a d by (induction k) (auto intro!: keeps_intros sl)
  then show "keeps sidecar_wf (flushStep ev l n b)"
    unfolding flushStep_def flushLogShipper_def by (intro keeps_intros)
  have sink: "keeps sidecar_wf sinkFault" "keeps sidecar_wf (modifyS (\<lambda>s. s\<lparr>lsSink := f s\<rparr>))" for f
    by (auto simp: keeps_def sinkFault_def modifyS_def sidecar_wf_def split: list.split)
  have "keeps sidecar_wf (egressOne ev l d a x)" for d a x
    unfolding egressOne_def sink_MkdirAll_def sink_WriteFile_def sink_Rename_def Let_def by (intro keeps_intros sink)
  then have "keeps sidecar_wf (egressEach ev l d xs)" for d xs by (induction xs) (auto intro!: keeps_intros)
  then have files: "keeps sidecar_wf (egressAllocFiles ev l n j)" for j
    unfolding egressAllocFiles_def sink_MkdirAll_def Let_def by (intro keeps_intros sink)
  have retry: "keeps sidecar_wf (egressRetry k p)" if "keeps sidecar_wf p" for k and p :: "('a lstate, unit) prog"
    by (induction k) (auto intro!: keeps_intros that)
  show "keeps sidecar_wf (egressStep ev l n e b)"
    unfolding egressStep_def by (intro keeps_intros retry files)
qed

text \<open>A stop that succeeds leaves no record.\<close>

lemma stop_forgets:
  assumes "sidecar_wf s" and "opStop ev l n s = (Ok (), s')"
  shows "sidecar_view s' n = None"
proof -
  let ?Q = "\<lambda>r t. r = Ok () \<longrightarrow> sidecar_view t n = None"
  have remove: "wp (sidecar_remove n) ?Q t" if "sidecar_wf t" for t :: "'a lstate"
    using sc.remove_ok [OF that, of n] by (simp add: wp_iff)
  have step: "wp (bindS p q) ?Q t" if "sidecar_wf t" "keeps sidecar_wf p" "\<And>x t. sidecar_wf t \<Longrightarrow> wp (q x) ?Q t"
    for p :: "('a lstate, 'b) prog" and q t
    using that(3) keepsD [OF that(2,1)] unfolding wp_bind wp_iff [of p] by (auto split: result.split)
  have "wp (opStop ev l n) ?Q s"
  proof (cases "sidecar_view s n")
    case None
    then show ?thesis
      using sc.load_value [OF assms(1), of n] sc.load_view [OF assms(1), of n] unfolding opStop_def wp_bind wp_iff [of "sidecar_load n"]
      by (auto simp: wp_return)
  next
    case (Some b)
    have "sidecar_wf (snd (sidecar_load n s))" by (rule sc.load_wf [OF assms(1)])
    then show ?thesis
      using sc.load_value [OF assms(1), of n] Some unfolding opStop_def wp_bind [of "sidecar_load n"] wp_iff [of "sidecar_load n"]
      by (auto intro!: step remove keeps_intros)
  qed
  then show ?thesis using assms(2) by (simp add: wp_def)
qed

lemma wp_peek:
  assumes "sidecar_wf s"
  shows "wp (peekBinding n) (\<lambda>r t. sidecar_wf t \<and> (\<forall>b. r = Ok (Some b) \<longrightarrow> sidecar_view t n = Some b)) s"
  using sc.load_value [OF assms, of n] sc.load_view [OF assms, of n] sc.load_wf [OF assms, of n]
  unfolding peekBinding_def wp_simps wp_iff [of "sidecar_load n"] by (auto split: result.split)

text \<open>The session was retired: its record is gone, after the marker of an acknowledged drain was seen in the pane of a
  one-shot session.\<close>

definition drained :: "'w env \<Rightarrow> lifecycle \<Rightarrow> string \<Rightarrow> string \<Rightarrow> 'w lstate \<Rightarrow> bool" where
  "drained ev l n a s \<longleftrightarrow> sidecar_view s n = None \<and>
    (\<exists>(b :: binding) marker t. SessionName b = n \<and> Lifecycle b = lifecycleOneShot \<and> lcDrainMarker l = Inr marker
      \<and> fst (paneShowsDrainAck ev l a marker t) = Ok True)"

lemma wp_reapDrained:
  assumes "sidecar_wf s" and "SessionName b = n"
  shows "wp (reapDrainedOneShot ev l n b a) (\<lambda>r t. r = Ok True \<longrightarrow> drained ev l n a t) s"
proof -
  let ?Q = "\<lambda>r t. r = Ok True \<longrightarrow> sidecar_view t n = None"
  have step: "wp (bindS p q) ?Q t" if "sidecar_wf t" "keeps sidecar_wf p" "\<And>x t. sidecar_wf t \<Longrightarrow> wp (q x) ?Q t"
    for p :: "('a lstate, 'b) prog" and q t
    using that(3) keepsD [OF that(2,1)] unfolding wp_bind wp_iff [of p] by (auto split: result.split)
  have pane: "keeps sidecar_wf (paneShowsDrainAck ev l a m)" for m
    unfolding paneShowsDrainAck_def by (intro keeps_intros)
  have stop: "wp (bindS (attempt (opStop ev l n)) (\<lambda>rt. case rt of Inr _ \<Rightarrow> returnS True | Inl e \<Rightarrow> bindS (logDecision l (m e)) (\<lambda>_. returnS False))) ?Q t"
    if "sidecar_wf t" for t m
    using stop_forgets [OF that, of ev l n]
    by (cases "opStop ev l n t"; cases "fst (opStop ev l n t)")
      (auto simp: wp_simps wp_iff [of "opStop ev l n"] wp_iff [of "logDecision _ _"] split: result.split)
  have gone: "wp (reapDrainedOneShot ev l n b a) ?Q s"
    using assms(1) unfolding reapDrainedOneShot_def Let_def
    by (auto intro!: step stop keeps_intros pane simp: wp_return split: sum.split)
  have "wp (reapDrainedOneShot ev l n b a) (\<lambda>r t. r = Ok True \<longrightarrow> Lifecycle b = lifecycleOneShot \<and>
      (\<exists>marker t. lcDrainMarker l = Inr marker \<and> fst (paneShowsDrainAck ev l a marker t) = Ok True)) s"
  proof (cases "Lifecycle b \<noteq> lifecycleOneShot \<or> ExitReason b \<noteq> []")
    case True
    then show ?thesis by (simp add: reapDrainedOneShot_def Let_def wp_return)
  next
    case False
    show ?thesis
    proof (cases "lcDrainMarker l")
      case (Inl e)
      then show ?thesis using False by (auto simp: reapDrainedOneShot_def Let_def wp_simps wp_iff [of "logDecision _ _"] split: result.split)
    next
      case (Inr marker)
      show ?thesis
      proof (cases "fst (paneShowsDrainAck ev l a marker s) = Ok True")
        case True
        then show ?thesis using False Inr by (auto simp: wp_iff)
      next
        case no: False
        then show ?thesis
          using False Inr by (cases "fst (paneShowsDrainAck ev l a marker s)")
            (auto simp: reapDrainedOneShot_def Let_def wp_simps wp_iff [of "paneShowsDrainAck _ _ _ _"])
      qed
    qed
  qed
  from wp_conj [OF gone this] show ?thesis
    by (rule wp_mono) (use assms(2) in \<open>auto simp: drained_def\<close>)
qed

text \<open>What is-running answers after the probe did.\<close>

definition answerRunning :: "'w env \<Rightarrow> host \<Rightarrow> lifecycle \<Rightarrow> string \<Rightarrow> string \<Rightarrow> bool \<Rightarrow> ('w lstate, bool) prog" where
  "answerRunning ev h l n a alive =
    bindS (syncPromptedMarker ev l n) (\<lambda>_. bindS (syncCityCheckoutMarker ev h l n) (\<lambda>_. bindS (peekBinding n) (\<lambda>latest.
      if latest \<noteq> None \<and> PromptStatus (the latest) = promptStatusNotReady then returnS False
      else if alive then bindS (peekBinding n) (\<lambda>again. case again of None \<Rightarrow> returnS True
        | Some b' \<Rightarrow> bindS (reapDrainedOneShot ev l n b' a) (\<lambda>reaped. returnS (\<not> reaped)))
      else returnS False)))"

lemma wp_answerRunning:
  fixes ev :: "'w env"
  assumes "sidecar_wf s"
  shows "wp (answerRunning ev h l n a True) (\<lambda>r t. r = Ok False \<longrightarrow>
      (\<exists>b'. sidecar_view t n = Some b' \<and> PromptStatus b' = promptStatusNotReady) \<or> drained ev l n a t) s"
proof -
  let ?Q = "\<lambda>r t. r = Ok False \<longrightarrow>
      (\<exists>b'. sidecar_view t n = Some b' \<and> PromptStatus b' = promptStatusNotReady) \<or> drained ev l n a t"
  have step: "wp (bindS p q) ?Q t" if "sidecar_wf t" "keeps sidecar_wf p" "\<And>x t. sidecar_wf t \<Longrightarrow> wp (q x) ?Q t"
    for p :: "('w lstate, unit) prog" and q t
    using that(3) keepsD [OF that(2,1)] unfolding wp_bind wp_iff [of p] by (auto split: result.split)
  have peek: "wp (bindS (peekBinding n) q) ?Q t"
    if "sidecar_wf t" "\<And>b' t. sidecar_wf t \<Longrightarrow> sidecar_view t n = Some b' \<Longrightarrow> wp (q (Some b')) ?Q t"
      "\<And>t. sidecar_wf t \<Longrightarrow> wp (q None) ?Q t" for q t
  proof (cases "fst (peekBinding n t)")
    case (Ok x)
    then show ?thesis
      using wp_peek [OF that(1), of n] that(2,3) unfolding wp_bind wp_iff [of "peekBinding n"] by (cases x) auto
  qed (simp_all add: wp_bind wp_iff [of "peekBinding n"])
  have retire: "wp (bindS (peekBinding n) (\<lambda>again. case again of None \<Rightarrow> returnS True
      | Some b' \<Rightarrow> bindS (reapDrainedOneShot ev l n b' a) (\<lambda>reaped. returnS (\<not> reaped)))) ?Q t" if "sidecar_wf t" for t
    using that
  proof (rule peek)
    fix b' and t :: "'w lstate" assume t: "sidecar_wf t" "sidecar_view t n = Some b'"
    show "wp (case Some b' of None \<Rightarrow> returnS True | Some b' \<Rightarrow> bindS (reapDrainedOneShot ev l n b' a) (\<lambda>reaped. returnS (\<not> reaped))) ?Q t"
      using wp_reapDrained [OF t(1) sc.view_name [OF t], of ev l a]
      by (auto simp: wp_simps wp_iff [of "reapDrainedOneShot _ _ _ _ _"] split: result.split)
  qed (simp add: wp_return)
  show ?thesis
    unfolding answerRunning_def by (intro step [OF assms] step peek wf_sync; (assumption | simp add: wp_return retire)?)
qed



subsection \<open>The staging marker\<close>

lemma at_staging:
  assumes "bound V n" and "boxQuiet K"
  shows "keeps (at V K ks) (stage (traced ev) h l n cfg)"
proof -
  have sl: "keeps (at V K ks) (sleepFor (traced ev) d)" and tm: "keeps (at V K ks) (timeNow (traced ev))" for d
    using at_boxExec(5,6) [OF assms(2)] by blast+
  have obs: "keeps (at V K ks) (observeAlloc (traced ev) l n)"
    unfolding observeAlloc_def by (intro keeps_intros at_currentAlloc(1) [OF assms])
  have loop: "keeps (at V K ks) (awaitLoop k (traced ev) l n t i d)" for k t i d
    by (induction k) (auto intro!: keeps_intros obs sl tm)
  have await: "keeps (at V K ks) (awaitExecAllocReady (traced ev) l n)"
    unfolding awaitExecAllocReady_def awaitExecAllocReadyWithin_def by (intro keeps_intros loop tm)
  have exec: "keeps (at V K ks) (execStage (traced ev) l n c x)" for c x
    unfolding execStage_def by (intro keeps_intros keeps_retry await sl at_boxExec [OF assms(2)])
  have dir: "keeps (at V K ks) (boxSecretsDir (traced ev) l n)"
    unfolding boxSecretsDir_def by (intro keeps_intros keeps_retry await sl at_boxExec [OF assms(2)])
  have ld: "keeps (at V K ks) (sidecar_load n)"
    by (intro keeps_at keeps_store quiet)
  have detail: "keeps (at V K ks) (provisionFailureDetail (traced ev) h l n)"
    unfolding provisionFailureDetail_def Let_def by (intro keeps_intros ld at_boxExec [OF assms(2)])
  have archive: "keeps (at V K ks) (stageArchive (traced ev) h l n w c fs)" for w c fs
    unfolding stageArchive_def Let_def by (intro keeps_intros exec detail)
  have args: "keeps (at V K ks) (stageArgFiles (traced ev) l n fs)" for fs
    by (induction fs) (auto intro!: keeps_intros exec at_local)
  show ?thesis
    unfolding stage_def by (intro keeps_intros archive args dir)
qed

lemma wp_updateBinding:
  assumes "at V K ks s" and "V n = Some b" and "\<And>b'. f b = Some b' \<Longrightarrow> SessionName b' = n"
    and "\<And>r s'. r \<noteq> Ok () \<Longrightarrow> at V K ks s' \<Longrightarrow> Q r s'"
    and "\<And>s'. at (V(n \<mapsto> (case f b of None \<Rightarrow> b | Some b' \<Rightarrow> b'))) K ks s' \<Longrightarrow> Q (Ok ()) s'"
  shows "wp (updateBinding n w f) Q s"
proof -
  have V: "V(n \<mapsto> b) = V" using assms(2) by auto
  have "wp (case f b of None \<Rightarrow> returnS () | Some b' \<Rightarrow> sidecar_save b') Q s'" if "at V K ks s'" for s'
  proof (cases "f b")
    case None
    then show ?thesis using that assms(5) V by (simp add: wp_return)
  next
    case (Some b')
    have "wp (sidecar_save b') Q s'"
      by (rule wp_save [OF that assms(4)]) (use assms(3) [OF Some] assms(5) Some in auto)
    then show ?thesis using Some by simp
  qed
  then show ?thesis
    unfolding updateBinding_def wp_bind by (intro wp_load [OF assms(1)]) (simp_all add: assms(2,4))
qed

text \<open>Two records of a session that name the same box.\<close>

definition sameBox :: "binding \<Rightarrow> binding \<Rightarrow> bool" where
  "sameBox b b' \<longleftrightarrow> SessionName b' = SessionName b \<and> ChildJobID b' = ChildJobID b"

text \<open>Two records that also agree on the staging mark.\<close>

definition unstaged :: "binding \<Rightarrow> binding \<Rightarrow> bool" where
  "unstaged b b' \<longleftrightarrow> sameBox b b' \<and> StagePending b' = StagePending b"

lemma wp_recordPending:
  assumes "at V K ks s" and "V n = Some b" and "SessionName b = n"
    and "\<And>r s' b'. r \<noteq> Ok () \<Longrightarrow> unstaged b b' \<Longrightarrow> at (V(n \<mapsto> b')) K ks s' \<Longrightarrow> Q r s'"
    and "\<And>s' b'. unstaged b b' \<Longrightarrow> at (V(n \<mapsto> b')) K ks s' \<Longrightarrow> wp p Q s'"
  shows "wp (bindS (savePromptPending n cfg) (\<lambda>_. bindS (saveLifecyclePending n cfg) (\<lambda>_. p))) Q s"
proof -
  have step: "wp (bindS (whenS c (updateBinding n w f)) (\<lambda>_. q)) Q s'"
    if "at (V(n \<mapsto> cur)) K ks s'" "unstaged b cur" "\<And>b'. f cur = Some b' \<Longrightarrow> unstaged b b'"
      "\<And>s' b'. unstaged b b' \<Longrightarrow> at (V(n \<mapsto> b')) K ks s' \<Longrightarrow> wp q Q s'" for c w f q s' cur
  proof (cases c)
    case True
    have "wp (bindS (updateBinding n w f) (\<lambda>_. q)) Q s'"
      unfolding wp_bind
    proof (rule wp_updateBinding [where b = cur, OF that(1)], goal_cases)
      case 1
      then show ?case by simp
    next
      case (2 b')
      then show ?case using that(3) assms(3) by (auto simp: unstaged_def sameBox_def)
    next
      case (3 r s'')
      then show ?case using assms(4) that(2) by (cases r) auto
    next
      case (4 s'')
      then show ?case using that(2-4) by (cases "f cur") auto
    qed
    then show ?thesis by (simp add: True whenS_def)
  next
    case False
    then show ?thesis using that(1,2,4) by (simp add: whenS_def)
  qed
  have V: "V(n \<mapsto> b) = V" "unstaged b b" using assms(2) by (auto simp: unstaged_def sameBox_def)
  show ?thesis
    unfolding savePromptPending_def saveLifecyclePending_def Let_def
    by (rule step [where cur = b]) (use V assms(1) in \<open>auto simp: unstaged_def sameBox_def intro!: step assms(5) split: if_splits\<close>)
qed

lemma quiet_trivial: "boxQuiet (\<lambda>_. False)"
  by (simp add: boxQuiet_def readQuiet_def)

definition markedOutcome ::
  "(string \<Rightarrow> binding option) \<Rightarrow> string \<Rightarrow> binding \<Rightarrow> apiCall list \<Rightarrow> unit result \<Rightarrow> ('w \<times> apiCall list) lstate \<Rightarrow> bool" where
  "markedOutcome V n b ks r s \<longleftrightarrow>
    (\<exists>b'. sameBox b b' \<and> storeIs (V(n \<mapsto> b')) s \<and>
      (if r = Ok () then \<not> StagePending b' else StagePending b' \<or> calls s = ks))"

lemma wp_markedStage:
  assumes "at (V(n \<mapsto> b1)) (\<lambda>_. True) ks s" and "sameBox b b1" and "SessionName b = n" and "ChildJobID b \<noteq> []"
  shows "wp (bindS (setStagePending n True) (\<lambda>_. bindS (stage (traced ev) h l n cfg) (\<lambda>_. setStagePending n False)))
    (markedOutcome V n b ks) s"
proof -
  have same: "sameBox b (b1\<lparr>StagePending := x\<rparr>)" for x using assms(2) by (simp add: sameBox_def)
  have names: "SessionName b1 = n" "ChildJobID b1 \<noteq> []" using assms(2-4) by (auto simp: sameBox_def)
  have set: "(case if StagePending c = x then None else Some (c\<lparr>StagePending := x\<rparr>) of None \<Rightarrow> c | Some b' \<Rightarrow> b') = c\<lparr>StagePending := x\<rparr>"
    for c x by (cases c) auto
  let ?b2 = "b1\<lparr>StagePending := True\<rparr>"
  have pend: "markedOutcome V n b ks r s'" if "at (V(n \<mapsto> ?b2)) (\<lambda>_. False) [] s'" "r \<noteq> Ok ()" for r s'
    using that same [of True] by (auto simp: markedOutcome_def at_def)
  have clear: "wp (setStagePending n False) (markedOutcome V n b ks) s'" if "at (V(n \<mapsto> ?b2)) (\<lambda>_. False) [] s'" for s'
    unfolding setStagePending_def
    by (rule wp_updateBinding [where b = ?b2, OF that])
      (use names pend same [of False] in \<open>auto simp: markedOutcome_def at_def split: if_splits\<close>)
  have bnd: "bound (V(n \<mapsto> ?b2)) n" using names by (simp add: bound_def)
  have body: "wp (bindS (stage (traced ev) h l n cfg) (\<lambda>_. setStagePending n False)) (markedOutcome V n b ks) s'"
    if "at (V(n \<mapsto> ?b2)) (\<lambda>_. False) [] s'" for s'
    unfolding wp_bind by (rule wp_keeps [OF that at_staging [OF bnd quiet_trivial]])
      (use clear pend in \<open>auto split: result.split\<close>)
  show ?thesis
    unfolding setStagePending_def [of _ True] wp_bind [of "updateBinding _ _ _"]
  proof (rule wp_updateBinding [where b = b1, OF assms(1)], goal_cases)
    case (3 r s')
    then show ?case
      using assms(2) by (cases r) (auto simp: markedOutcome_def at_def callsAre_def)
  next
    case (4 s')
    then have "at (V(n \<mapsto> ?b2)) (\<lambda>_. False) [] s'" unfolding set by (simp add: at_def callsAre_def)
    then show ?case using body by simp
  qed (use names in \<open>auto split: if_splits\<close>)
qed

lemma stage_idle:
  assumes "\<not> stagesAnything h cfg" and "lcAgentImage l = []"
  shows "stage ev h l n cfg = returnS ()"
proof -
  obtain keys where "stagedSecretEnv h cfg = ([], keys)"
    using assms(1) by (cases "stagedSecretEnv h cfg") (simp add: stagesAnything_def)
  moreover have "secretFilesOf [] keys [] = Inr []" by (simp add: secretFilesOf_def)
  ultimately show ?thesis
    using assms by (simp add: stage_def stagesAnything_def copyFilesToStageFiles_def whenS_def)
qed

text \<open>C13. A box whose staging did not finish says so. When there is something to stage (a configuration that stages
  anything, or a box of an agent image), a failure leaves the session's record marked pending unless nothing was
  sent to the cluster, and success leaves it unmarked. When there is nothing to stage, nothing is sent and the mark stays as
  it was, set or not. In both cases the record keeps naming its child, and no other session's record changes.\<close>

theorem staging_marked:
  assumes "sidecar_wf s" and "sidecar_view s n = Some b" and "ChildJobID b \<noteq> []" and "stageTracked (traced ev) h l n cfg s = (r, s')"
  shows "sidecar_wf s' \<and> (\<forall>m. m \<noteq> n \<longrightarrow> sidecar_view s' m = sidecar_view s m) \<and>
    (\<exists>b'. sidecar_view s' n = Some b' \<and> ChildJobID b' = ChildJobID b \<and>
      (if stagesAnything h cfg \<or> lcAgentImage l \<noteq> []
       then if r = Ok () then \<not> StagePending b' else StagePending b' \<or> calls s' = calls s
       else StagePending b' = StagePending b \<and> calls s' = calls s))"
proof -
  let ?V = "sidecar_view s" and ?work = "stagesAnything h cfg \<or> lcAgentImage l \<noteq> []"
  let ?Q = "\<lambda>r s'. if ?work then markedOutcome ?V n b (calls s) r s'
    else \<exists>b'. unstaged b b' \<and> storeIs (?V(n \<mapsto> b')) s' \<and> calls s' = calls s"
  have name: "SessionName b = n" by (rule sc.view_name [OF assms(1,2)])
  have start: "at ?V (\<lambda>_. True) (calls s) s" using assms(1) by (simp add: at_def storeIs_def callsAre_def)
  have early: "?Q r s'" if "unstaged b b'" "at (?V(n \<mapsto> b')) (\<lambda>_. True) (calls s) s'" "?work \<Longrightarrow> r \<noteq> Ok ()" for r s' b'
    using that by (auto simp: markedOutcome_def unstaged_def at_def callsAre_def)
  have "wp (stageTracked (traced ev) h l n cfg) ?Q s"
    unfolding stageTracked_def
  proof (rule wp_recordPending [OF start assms(2) name], goal_cases)
    case (1 r s' b')
    then show ?case by (intro early) auto
  next
    case (2 s' b')
    then have same: "sameBox b b'" by (simp add: unstaged_def)
    show ?case
    proof (cases ?work)
      case True
      then show ?thesis using wp_markedStage [OF 2(2) same name assms(3), of ev h l cfg] by auto
    next
      case False
      then show ?thesis using early [OF 2] by (auto simp: stage_idle wp_return)
    qed
  qed
  then have Q: "?Q r s'" using assms(4) by (simp add: wp_def)
  have store: "sidecar_wf s' \<and> (\<forall>m. m \<noteq> n \<longrightarrow> sidecar_view s' m = sidecar_view s m) \<and> sidecar_view s' n = Some b'"
    if "storeIs (?V(n \<mapsto> b')) s'" for b'
    using that by (simp add: storeIs_def)
  show ?thesis
  proof (cases ?work)
    case True
    then obtain b' where "sameBox b b'" "storeIs (?V(n \<mapsto> b')) s'" "if r = Ok () then \<not> StagePending b' else StagePending b' \<or> calls s' = calls s"
      using Q by (auto simp: markedOutcome_def)
    then show ?thesis using store [of b'] True by (simp add: sameBox_def)
  next
    case False
    then obtain b' where "unstaged b b'" "storeIs (?V(n \<mapsto> b')) s'" "calls s' = calls s" using Q by auto
    then show ?thesis using store [of b'] False by (simp add: unstaged_def sameBox_def)
  qed
qed

lemma emptyConfig_fields:
  "cfgCopyFiles emptyConfig = []" "cfgCommand emptyConfig = []" "cfgEnv emptyConfig = []" "cfgLifecycle emptyConfig = []"
  "cfgNudge emptyConfig = []"
  by (simp_all add: emptyConfig_def)

lemma mapSet_single: "mapSet k v (mapDel (k @ ''.tmp'') (mapSet (k @ ''.tmp'') u [(k, w)])) = [(k, v)]"
  by (simp add: mapSet_def mapDel_def)

lemma bare_stage:
  assumes "ChildJobID b \<noteq> []"
  shows "\<exists>e t. stage (traced stubEnv) bareHost stubLife ''a'' emptyConfig (stubState [(sidecar_path ''a'', CBinding b)]) = (Err e, t)
    \<and> calls t \<noteq> []"
proof -
  let ?s = "stubState [(sidecar_path ''a'', CBinding b)]"
  have "awaitExecAllocReady (traced stubEnv) stubLife ''a'' ?s = (Ok ''alloc-1'', ?s\<lparr>lsWorld := w\<rparr>)"
    if "w = snd (listAllocsForJob (envNomad (traced stubEnv)) (lcClient stubLife) (ChildJobID b) 0 0 ((), []))" for w
    using assms that
    by (simp add: awaitExecAllocReady_def awaitExecAllocReadyWithin_def observeAlloc_def currentAllocRecord_def pickAlloc_def
        stubState_def sidecar_load_plain listAllocs_def stub_runs isTerminalStatus_def allocExecReady_def taskStateOf_def prog_defs)
  then have "\<exists>e t. boxSecretsDir (traced stubEnv) stubLife ''a'' ?s = (Err e, t) \<and> calls t \<noteq> []"
    by (simp add: boxSecretsDir_def retryAllocExecReady_def retryFrom.simps bindS_def [of "awaitExecAllocReady _ _ _"] stub_runs validatedSecretsDir_def
        prog_defs)
  then obtain e t where dir: "boxSecretsDir (traced stubEnv) stubLife ''a'' ?s = (Err e, t)" "calls t \<noteq> []" by blast
  obtain env keys where env: "stagedSecretEnv bareHost emptyConfig = (env, keys)" by fastforce
  have "argFilesToStage bareHost [] = []"
    by (simp add: argFilesToStage_def absolutePathArgs_def strFields_def)
  with dir env show ?thesis
    by (simp add: stage_def copyFilesToStageFiles_def emptyConfig_fields whenS_def prog_defs)
qed

theorem staging_marked_witness:
  "let b = (newBinding ''a'')\<lparr>ChildJobID := ''c''\<rparr>; s = stubState [(sidecar_path ''a'', CBinding b)];
       (r, s') = stageTracked (traced stubEnv) bareHost stubLife ''a'' emptyConfig s
   in r \<noteq> Ok () \<and> (\<exists>b'. sidecar_view s' ''a'' = Some b' \<and> ChildJobID b' = ''c'' \<and> StagePending b')"
proof -
  let ?b = "(newBinding ''a'')\<lparr>ChildJobID := ''c''\<rparr>"
  let ?s = "stubState [(sidecar_path ''a'', CBinding ?b)]"
  let ?run = "stageTracked (traced stubEnv) bareHost stubLife ''a'' emptyConfig ?s"
  have st: "sidecar_wf ?s" "sidecar_view ?s ''a'' = Some ?b" "calls ?s = []"
    using entryOK_intros(2) [of ?b] by (simp_all add: stubState_def sidecar_wf_def sidecar_view_def)
  let ?t = "stubState [(sidecar_path ''a'', CBinding (?b\<lparr>StagePending := True\<rparr>))]"
  obtain e t where "stage (traced stubEnv) bareHost stubLife ''a'' emptyConfig ?t = (Err e, t)" "calls t \<noteq> []"
    using bare_stage [of "?b\<lparr>StagePending := True\<rparr>"] by auto
  moreover have pend: "\<not> StagePending (newBinding ''a'')" "SessionName (newBinding ''a'') = ''a''" by (simp_all add: newBinding_def)
  ultimately have "fst ?run \<noteq> Ok () \<and> calls (snd ?run) \<noteq> []"
    by (simp add: stageTracked_def savePromptPending_def saveLifecyclePending_def setStagePending_def updateBinding_def startupPrompt_def
        emptyConfig_fields pend whenS_def stubState_def sidecar_load_plain sidecar_save_plain mapSet_single prog_defs Let_def)
  then show ?thesis
    using staging_marked [OF st(1,2), of stubEnv bareHost stubLife emptyConfig "fst ?run" "snd ?run"] st(3)
    by (auto simp: Let_def stubLife_def)
qed

end
