(* ===== verification/One_Child.thy ===== *)
theory One_Child
  imports Session_Safety
begin

text \<open>
  At most one live child per session, over any sequence of operations. What the lifecycle needs
  of the cluster for this is the locale \<open>child_cluster\<close>: which calls leave the live children
  alone or only end them, that the listings tell the truth, and what a dispatch adds. In it
  every handler keeps the invariant that the live children are one per session and that the
  session's record, when there is one, leads to that child. The second part shows that the
  repository's fake server is such a cluster and follows the operations of several processes on it.
\<close>

subsection \<open>Live children and the records that lead to them\<close>

text \<open>A live child: its session, its job and the nonce it was dispatched with.\<close>

type_synonym child = "string \<times> string \<times> string"

definition onePerSession :: "child set \<Rightarrow> bool" where
  "onePerSession S \<longleftrightarrow> (\<forall>n c k c' k'. (n, c, k) \<in> S \<longrightarrow> (n, c', k') \<in> S \<longrightarrow> c' = c \<and> k' = k)"

text \<open>A record leads to the session's live child by its ID, or as an intent by its nonce, or it
  names nothing, in which case the child is found by its metadata.\<close>

definition leadsTo :: "child set \<Rightarrow> string \<Rightarrow> binding \<Rightarrow> bool" where
  "leadsTo S n b \<longleftrightarrow>
    (\<forall>c k. (n, c, k) \<in> S \<longrightarrow> ChildJobID b = c \<or> ChildJobID b = [] \<and> (Nonce b = k \<or> Nonce b = []))"

lemma onePerSessionD: "onePerSession S \<Longrightarrow> (n, c, k) \<in> S \<Longrightarrow> (n, c', k') \<in> S \<Longrightarrow> c' = c \<and> k' = k"
  unfolding onePerSession_def by blast

lemma onePerSession_mono: "onePerSession S \<Longrightarrow> T \<subseteq> S \<Longrightarrow> onePerSession T"
  unfolding onePerSession_def by blast

lemma leadsTo_mono: "leadsTo S n b \<Longrightarrow> T \<subseteq> S \<Longrightarrow> leadsTo T n b"
  unfolding leadsTo_def by blast

lemma leadsTo_child: "onePerSession S \<Longrightarrow> (n, c, k) \<in> S \<Longrightarrow> ChildJobID b = c \<Longrightarrow> leadsTo S n b"
  unfolding leadsTo_def by (blast dest: onePerSessionD)

lemma leadsTo_same: "ChildJobID b' = ChildJobID b \<Longrightarrow> Nonce b' = Nonce b \<Longrightarrow> leadsTo S n b' = leadsTo S n b"
  unfolding leadsTo_def by simp

lemma leadsTo_free: "(\<And>c k. (n, c, k) \<notin> S) \<Longrightarrow> leadsTo S n b"
  unfolding leadsTo_def by blast

text \<open>A change of the cluster that ends children at most, and keeps the listing short enough to be read.\<close>

definition endsOnly :: "('w \<Rightarrow> child set) \<Rightarrow> ('w \<Rightarrow> bool) \<Rightarrow> ('w \<Rightarrow> bool) \<Rightarrow> 'w \<Rightarrow> 'w \<Rightarrow> bool" where
  "endsOnly kids good fits w w' \<longleftrightarrow> good w' \<and> kids w' \<subseteq> kids w \<and> (fits w \<longrightarrow> fits w')"

lemma save_error_kind:
  assumes "fst (sidecar_save b s) = Err e"
  shows "\<not> errIs e ErrBindingNoMatch" and "\<not> errIs e ErrBindingTerminal"
  using assms
  by (auto simp: sidecar_save_def sidecar_op_defs takeFault_def prog_defs Let_def split: option.splits list.splits if_splits)

subsection \<open>The interface\<close>

named_theorems calm \<open>programs that end children at most\<close>

locale child_cluster =
  fixes ev :: "'w env" and l :: lifecycle
    and kids :: "'w \<Rightarrow> child set" and good :: "'w \<Rightarrow> bool" and fits :: "'w \<Rightarrow> bool"
  assumes read: "good w \<Longrightarrow> rqMethod rq = ''GET'' \<Longrightarrow> endsOnly kids good fits w (snd (httpDo (envNomad ev) rq w))"
    and deregister: "good w \<Longrightarrow> rqMethod rq = ''DELETE'' \<Longrightarrow> rqQuery rq = nsQuery (lcClient l) \<Longrightarrow>
          endsOnly kids good fits w (snd (httpDo (envNomad ev) rq w))"
    and register: "good w \<Longrightarrow> endsOnly kids good fits w (snd (httpDo (envNomad ev) (registerRequest l) w))"
    and allocs: "good w \<Longrightarrow> endsOnly kids good fits w (snd (sdkAllocations (envNomad ev) ns j i d w))"
    and exec: "good w \<Longrightarrow> endsOnly kids good fits w (snd (envExec ev a t c x w))"
    and now: "good w \<Longrightarrow> endsOnly kids good fits w (snd (envNow ev w))"
    and sleep: "good w \<Longrightarrow> endsOnly kids good fits w (envSleep ev dur w)"
    and rand: "good w \<Longrightarrow> endsOnly kids good fits w (snd (envRand ev w))"
    and named: "good w \<Longrightarrow> (n, cid, k) \<in> kids w \<Longrightarrow> cid \<noteq> []"
    and listed: "good w \<Longrightarrow> fst (listChildJobs (envNomad ev) (lcClient l) (lcParentJobID l) w) = Ok cs \<Longrightarrow>
          ((n, cid, k) \<in> kids w \<longleftrightarrow> (\<exists>ch \<in> set cs. \<not> cjTerminal ch \<and> cjID ch = cid
             \<and> mapGet (cjMeta ch) ''gc_session'' = n \<and> mapGet (cjMeta ch) ''gc_nonce'' = k))"
    and listed_here: "good w \<Longrightarrow> fst (listChildJobs (envNomad ev) (lcClient l) (lcParentJobID l) w) = Ok cs \<Longrightarrow>
          ch \<in> set cs \<Longrightarrow> cjNamespace ch = clNamespace (lcClient l)"
    and lists: "good w \<Longrightarrow> fits w \<Longrightarrow> \<exists>cs. fst (listChildJobs (envNomad ev) (lcClient l) (lcParentJobID l) w) = Ok cs"
    and placed: "good w \<Longrightarrow> (n, cid, k) \<in> kids w \<Longrightarrow>
          \<exists>as i. fst (listAllocsForJob (envNomad ev) (lcClient l) cid 0 0 w) = Ok (as, i) \<and> someLive as"
    and dispatched: "good w \<Longrightarrow>
          sdkDispatch (envNomad ev) (lcParentJobID l) (dispatchMeta (envFmtTime ev) n k u img) ns token w = (r, w') \<Longrightarrow>
          good w' \<and> (kids w' \<subseteq> kids w \<or> (\<exists>cid. r = Ok (Some cid) \<and> kids w' \<subseteq> insert (n, cid, k) (kids w)))"
begin

text \<open>The invariant of the lifecycle's state, for an upper bound \<open>S\<close> of the live children.\<close>

definition bounded :: "child set \<Rightarrow> bool \<Rightarrow> 'w lstate \<Rightarrow> bool" where
  "bounded S f s \<longleftrightarrow>
    sidecar_wf s \<and> (\<forall>n b. sidecar_view s n = Some b \<longrightarrow> leadsTo S n b) \<and> onePerSession S
    \<and> good (lsWorld s) \<and> kids (lsWorld s) \<subseteq> S \<and> (f \<longrightarrow> fits (lsWorld s))"

definition sound :: "bool \<Rightarrow> 'w lstate \<Rightarrow> bool" where
  "sound f s \<longleftrightarrow> bounded (kids (lsWorld s)) f s"

lemma bounded_sound: "bounded S f s \<Longrightarrow> sound f s"
  unfolding bounded_def sound_def by (blast intro: leadsTo_mono onePerSession_mono)

lemma sound_weaken: "sound True s \<Longrightarrow> sound f s"
  by (auto simp: sound_def bounded_def)

lemma keeps_sound: "(\<And>S. keeps (bounded S f) p) \<Longrightarrow> keeps (sound f) p"
  by (rule keepsI) (metis keepsD bounded_sound sound_def)

lemma bounded_upd [simp]:
  "bounded S f (s\<lparr>lsLog := g\<rparr>) = bounded S f s" "bounded S f (s\<lparr>lsLocks := k\<rparr>) = bounded S f s"
  "bounded S f (s\<lparr>lsSink := m\<rparr>) = bounded S f s" "bounded S f (s\<lparr>lsSinkFaults := x\<rparr>) = bounded S f s"
  "bounded S f (s\<lparr>fs_faults := x\<rparr>) = bounded S f s"
  by (simp_all add: bounded_def sidecar_wf_def sidecar_view_def)

lemma bounded_store:
  assumes "bounded S f s" and "storeIs (sidecar_view s) s'" and "lsWorld s' = lsWorld s"
  shows "bounded S f s'"
  using assms by (simp add: bounded_def storeIs_def)

subsubsection \<open>Calls\<close>

definition wbounded :: "child set \<Rightarrow> bool \<Rightarrow> 'w \<Rightarrow> bool" where
  "wbounded S f w \<longleftrightarrow> good w \<and> kids w \<subseteq> S \<and> (f \<longrightarrow> fits w)"

lemma wbounded_ends: "(\<And>w. good w \<Longrightarrow> endsOnly kids good fits w (snd (p w))) \<Longrightarrow> keeps (wbounded S f) p"
  by (auto simp: keeps_def wbounded_def endsOnly_def)

lemma bounded_world: "bounded S f s \<Longrightarrow> wbounded S f w \<Longrightarrow> bounded S f (s\<lparr>lsWorld := w\<rparr>)"
  by (simp add: bounded_def wbounded_def sidecar_wf_def sidecar_view_def)

lemma calm_world:
  assumes "keeps (wbounded S f) p"
  shows "keeps (bounded S f) (world p)"
proof (rule keepsI)
  fix s assume b: "bounded S f s"
  then have "wbounded S f (lsWorld s)" by (simp add: bounded_def wbounded_def)
  then show "bounded S f (snd (world p s))"
    using bounded_world [OF b] keepsD [OF assms, of "lsWorld s"] by (simp add: world_def case_prod_beta)
qed

lemma calm_readBody: "keeps (wbounded S f) (readBody what r)"
  unfolding readBody_def by (intro keeps_intros)

lemma calm_doIndexed:
  assumes "m = ''GET'' \<or> m = ''DELETE'' \<and> q = nsQuery (lcClient l)"
  shows "keeps (wbounded S f) (doIndexed (envNomad ev) c m parts q b dec z)"
proof -
  have "keeps (wbounded S f) (httpDo (envNomad ev) \<lparr>rqMethod = m, rqPath = urlPath parts, rqQuery = q, rqBody = b, rqToken = clToken c\<rparr>)"
    using assms by (intro wbounded_ends) (auto intro: read deregister)
  then show ?thesis
    unfolding doIndexed_def by (intro keeps_intros calm_readBody)
qed

lemma calm_calls [calm]:
  "keeps (bounded S f) (world (getJob (envNomad ev) c j))"
  "keeps (bounded S f) (world (listChildJobs (envNomad ev) c j))"
  "keeps (bounded S f) (world (deregisterJob (envNomad ev) (lcClient l) j False))"
  "keeps (bounded S f) (world (jobPlacementFailure (envNomad ev) c j))"
  "keeps (bounded S f) (world (registerJob (envNomad ev) (lcClient l) (lcSpec l)))"
  "keeps (bounded S f) (world (readAllocFile (envNomad ev) c a path))"
  "keeps (bounded S f) (world (listAllocsForJob (envNomad ev) c j i d))"
proof -
  show "keeps (bounded S f) (world (getJob (envNomad ev) c j))" "keeps (bounded S f) (world (listChildJobs (envNomad ev) c j))"
    "keeps (bounded S f) (world (deregisterJob (envNomad ev) (lcClient l) j False))"
    "keeps (bounded S f) (world (jobPlacementFailure (envNomad ev) c j))"
    unfolding getJob_def listChildJobs_def deregisterJob_def jobPlacementFailure_def
    by (intro calm_world keeps_intros calm_doIndexed; simp)+
  have "keeps (wbounded S f) (httpDo (envNomad ev) (registerRequest l))"
    by (intro wbounded_ends register)
  then show "keeps (bounded S f) (world (registerJob (envNomad ev) (lcClient l) (lcSpec l)))"
    unfolding registerJob_def doNoOut_def
    by (intro calm_world keeps_intros calm_readBody) (simp add: registerRequest_def urlPath_def)
  show "keeps (bounded S f) (world (readAllocFile (envNomad ev) c a path))"
    unfolding readAllocFile_def Let_def
    by (intro calm_world keeps_intros calm_readBody wbounded_ends) (simp add: read)
  show "keeps (bounded S f) (world (listAllocsForJob (envNomad ev) c j i d))"
    unfolding listAllocsForJob_def by (intro calm_world keeps_intros wbounded_ends allocs)
qed

lemma calm_effects [calm]:
  "keeps (bounded S f) (timeNow ev)" "keeps (bounded S f) (sleepFor ev dur)" "keeps (bounded S f) (readRandom ev)"
  "keeps (bounded S f) (execAllocObserved ev a t c x)" "keeps (bounded S f) (execAllocStdin ev a t c x)"
  "keeps (bounded S f) (execAlloc ev a t c)" "keeps (bounded S f) (listAllocs ev l j)"
proof -
  show "keeps (bounded S f) (timeNow ev)" "keeps (bounded S f) (sleepFor ev dur)" "keeps (bounded S f) (readRandom ev)"
    unfolding timeNow_def sleepFor_def readRandom_def
    by (intro calm_world wbounded_ends; simp add: case_prod_beta now sleep rand)+
  show x: "keeps (bounded S f) (execAllocObserved ev a t c x)" for a t c x
    unfolding execAllocObserved_def by (intro calm_world wbounded_ends exec)
  show "keeps (bounded S f) (execAllocStdin ev a t c x)" "keeps (bounded S f) (execAlloc ev a t c)"
    unfolding execAllocStdin_def execAlloc_def by (intro keeps_intros x)+
  show "keeps (bounded S f) (listAllocs ev l j)"
    unfolding listAllocs_def by (intro keeps_intros calm)
qed

subsubsection \<open>The sidecar\<close>

lemma calm_store:
  fixes p :: "('w lstate, 'a) prog"
  assumes "\<And>v. keeps (storeIs v) p" and "\<And>w. keeps (\<lambda>s. lsWorld s = w) p"
  shows "keeps (bounded S f) p"
proof (rule keepsI)
  fix s assume b: "bounded S f s"
  then have "storeIs (sidecar_view s) s" by (simp add: bounded_def storeIs_def)
  then show "bounded S f (snd (p s))"
    using bounded_store [OF b] keepsD [OF assms(1)] keepsD [OF assms(2) refl] by blast
qed

lemma calm_local [calm]:
  "keeps (bounded S f) (logDecision c m)" "keeps (bounded S f) (warnLine m)" "keeps (bounded S f) (lockSession n)"
  "keeps (bounded S f) (sidecar_load n)" "keeps (bounded S f) (sidecar_tombstone t)"
proof -
  show "keeps (bounded S f) (logDecision c m)" "keeps (bounded S f) (warnLine m)"
    unfolding logDecision_def warnLine_def by (intro keeps_intros keeps_modify; simp)+
  have w: "keeps (\<lambda>s :: 'w lstate. lsWorld s = w) takeFault" "keeps (\<lambda>s :: 'w lstate. lsWorld s = w) (sidecar_load n)"
    "keeps (\<lambda>s :: 'w lstate. lsWorld s = w) (sidecar_tombstone t)" for w
    by (rule keeps_sidecar; simp)+
  show "keeps (bounded S f) (sidecar_load n)" "keeps (bounded S f) (sidecar_tombstone t)"
    by (intro calm_store keeps_store keeps_tombstone w)+
  have "keeps (\<lambda>s :: 'w lstate. lsWorld s = w) (lockSession n)" for w
    unfolding lockSession_def by (intro keeps_intros keeps_modify w) auto
  then show "keeps (bounded S f) (lockSession n)"
    by (intro calm_store keeps_store)
qed

lemma calm_withLock [calm]: "keeps (bounded S f) p \<Longrightarrow> keeps (bounded S f) (withLock n p)"
  unfolding withLock_def by (intro keeps_intros keeps_finally calm) (auto simp: unlockSession_def)

text \<open>A record that was read leads to the session's child; one that leads there may be saved, and
  any record may be forgotten.\<close>

lemma load_bound:
  assumes "bounded S f s" and "fst (sidecar_load n s) = Ok (Some b)"
  shows "leadsTo S n b \<and> SessionName b = n"
  using assms sc.load_own [of s n b] by (auto simp: bounded_def)

lemma calm_load_then:
  assumes "\<And>b. leadsTo S n b \<Longrightarrow> SessionName b = n \<Longrightarrow> keeps (bounded S f) (q (Some b))" and "keeps (bounded S f) (q None)"
  shows "keeps (bounded S f) (bindS (sidecar_load n) q)"
proof (rule keepsI)
  fix s assume b: "bounded S f s"
  then have s': "bounded S f (snd (sidecar_load n s))" by (rule keepsD [OF calm_local(4)])
  show "bounded S f (snd (bindS (sidecar_load n) q s))"
  proof (cases "fst (sidecar_load n s)")
    case (Ok x)
    have "keeps (bounded S f) (q x)"
      using load_bound [OF b] Ok assms by (cases x) auto
    then show ?thesis
      using Ok s' by (cases "sidecar_load n s") (simp add: bindS_def keepsD)
  qed (use s' in \<open>cases "sidecar_load n s"; simp add: bindS_def\<close>)+
qed

lemma calm_tryLoad_then:
  assumes "\<And>b. leadsTo S n b \<Longrightarrow> SessionName b = n \<Longrightarrow> keeps (bounded S f) (q (Inr (Some b)))"
    and "keeps (bounded S f) (q (Inr None))" and "\<And>e. keeps (bounded S f) (q (Inl e))"
  shows "keeps (bounded S f) (bindS (attempt (sidecar_load n)) q)"
proof (rule keepsI)
  fix s assume b: "bounded S f s"
  then have s': "bounded S f (snd (sidecar_load n s))" by (rule keepsD [OF calm_local(4)])
  have "keeps (bounded S f) (q (Inr x))" if "fst (sidecar_load n s) = Ok x" for x
    using load_bound [OF b] that assms by (cases x) auto
  then show "bounded S f (snd (bindS (attempt (sidecar_load n)) q s))"
    using s' assms(3)
    by (cases "sidecar_load n s"; cases "fst (sidecar_load n s)") (simp_all add: bindS_def attempt_def keepsD)
qed

lemma calm_peek_then:
  assumes "\<And>b. leadsTo S n b \<Longrightarrow> SessionName b = n \<Longrightarrow> keeps (bounded S f) (q (Some b))" and "keeps (bounded S f) (q None)"
  shows "keeps (bounded S f) (bindS (peekBinding n) q)"
  unfolding peekBinding_def bindS_assoc bindS_return by (rule calm_tryLoad_then) (simp_all add: assms)

lemma calm_peek [calm]: "keeps (bounded S f) (peekBinding n)"
  unfolding peekBinding_def by (intro keeps_intros calm)

lemma calm_save:
  assumes "leadsTo S (SessionName b) b"
  shows "keeps (bounded S f) (sidecar_save b)"
proof (rule keepsI)
  fix s assume b: "bounded S f s"
  then have wf: "sidecar_wf s" by (simp add: bounded_def)
  have "keeps (\<lambda>t. lsWorld t = lsWorld s) (sidecar_save b)" by (rule keeps_sidecar) simp_all
  then have "lsWorld (snd (sidecar_save b s)) = lsWorld s" by (rule keepsD) simp
  moreover have "sidecar_view (snd (sidecar_save b s)) = sidecar_view s
      \<or> sidecar_view (snd (sidecar_save b s)) = (sidecar_view s)(SessionName b \<mapsto> b)"
    using sc.save_ok [OF wf] sc.save_err [OF wf] by blast
  ultimately show "bounded S f (snd (sidecar_save b s))"
    using b assms sc.save_wf [OF wf] by (auto simp: bounded_def split: if_splits)
qed

lemma calm_remove [calm]: "keeps (bounded S f) (sidecar_remove n)"
proof (rule keepsI)
  fix s assume b: "bounded S f s"
  then have wf: "sidecar_wf s" by (simp add: bounded_def)
  have "keeps (\<lambda>t. lsWorld t = lsWorld s) (sidecar_remove n)" by (rule keeps_sidecar) simp_all
  then have "lsWorld (snd (sidecar_remove n s)) = lsWorld s" by (rule keepsD) simp
  moreover have "sidecar_view (snd (sidecar_remove n s)) = sidecar_view s
      \<or> sidecar_view (snd (sidecar_remove n s)) = (sidecar_view s)(n := None)"
    using sc.remove_ok [OF wf] sc.remove_err [OF wf] by blast
  ultimately show "bounded S f (snd (sidecar_remove n s))"
    using b sc.remove_wf [OF wf] by (auto simp: bounded_def split: if_splits)
qed

lemma calm_list [calm]: "keeps (bounded S f) sidecar_list"
proof -
  have t: "keeps (bounded S f) takeFault"
    by (auto simp: keeps_def takeFault_def split: list.split)
  have r: "keeps (bounded S f) (os_ReadFile k)" "keeps (bounded S f) os_ReadDir" for k
    unfolding os_ReadFile_def os_ReadDir_def by (intro keeps_intros t)+
  have "keeps (bounded S f) (readEntries es out)" for es out
    by (induction es arbitrary: out) (auto intro!: keeps_intros r)
  then show ?thesis
    unfolding sidecar_list_def by (intro keeps_intros r)
qed

lemma calm_update:
  assumes "\<And>b b'. g b = Some b' \<Longrightarrow> SessionName b' = SessionName b \<and> ChildJobID b' = ChildJobID b \<and> Nonce b' = Nonce b"
  shows "keeps (bounded S f) (updateBinding n w g)"
  unfolding updateBinding_def
proof (rule calm_load_then, unfold option.case)
  fix b assume b: "leadsTo S n b" "SessionName b = n"
  have "keeps (bounded S f) (sidecar_save b')" if "g b = Some b'" for b'
    using assms [OF that] b by (intro calm_save) (simp add: leadsTo_def)
  then show "keeps (bounded S f) (case g b of None \<Rightarrow> returnS () | Some b' \<Rightarrow> sidecar_save b')"
    by (simp add: keeps_intros split: option.split)
qed (rule keeps_fail)

subsubsection \<open>Recovery and the box\<close>

lemma calm_listing_then:
  assumes "\<And>cs. onePerSession S \<Longrightarrow> (\<And>c. c \<in> set cs \<Longrightarrow> \<not> cjTerminal c \<Longrightarrow>
        (mapGet (cjMeta c) ''gc_session'', cjID c, mapGet (cjMeta c) ''gc_nonce'') \<in> S) \<Longrightarrow> keeps (bounded S f) (q cs)"
  shows "keeps (bounded S f) (bindS (wrapS a b (world (listChildJobs (envNomad ev) (lcClient l) (lcParentJobID l)))) q)"
proof (rule keepsI)
  fix s assume b: "bounded S f s"
  let ?p = "listChildJobs (envNomad ev) (lcClient l) (lcParentJobID l)"
  have s': "bounded S f (s\<lparr>lsWorld := snd (?p (lsWorld s))\<rparr>)"
    using keepsD [OF calm_calls(2) b] by (simp add: world_def case_prod_beta)
  have "keeps (bounded S f) (q cs)" if "fst (?p (lsWorld s)) = Ok cs" for cs
  proof (rule assms)
    have g: "good (lsWorld s)" "kids (lsWorld s) \<subseteq> S" using b by (simp_all add: bounded_def)
    show "(mapGet (cjMeta c) ''gc_session'', cjID c, mapGet (cjMeta c) ''gc_nonce'') \<in> S"
      if "c \<in> set cs" "\<not> cjTerminal c" for c
      using that g listed [OF g(1) \<open>fst (?p (lsWorld s)) = Ok cs\<close>] by blast
  qed (use b in \<open>simp add: bounded_def\<close>)
  then show "bounded S f (snd (bindS (wrapS a b (world ?p)) q s))"
    using s' by (cases "?p (lsWorld s)"; cases "fst (?p (lsWorld s))") (simp_all add: bindS_def wrapS_def world_def keepsD)
qed

lemma calm_recover [calm]: "keeps (bounded S f) (recoverBinding ev l n prior)"
  unfolding recoverBinding_def
proof (rule calm_listing_then, goal_cases)
  case (1 cs)
  let ?matches = "filter (\<lambda>c. \<not> cjTerminal c) (filter (ownedBy l n) cs)"
  have "keeps (bounded S f) (sidecar_save (rebuilt ev n child nonce prior))" if "?matches = [child]" for child nonce
  proof -
    have "child \<in> set ?matches" unfolding that by simp
    then have "(n, cjID child, mapGet (cjMeta child) ''gc_nonce'') \<in> S"
      using 1(2) [of child] by (auto simp: ownedBy_def)
    then show ?thesis
      by (intro calm_save) (simp add: leadsTo_child [OF 1(1)])
  qed
  then show ?case
    by (auto simp: Let_def intro!: keeps_intros split: list.split)
qed

lemma calm_box [calm]:
  "keeps (bounded S f) (pickAlloc ev l n b)" "keeps (bounded S f) (currentAllocRecord ev l n)"
  "keeps (bounded S f) (currentAlloc ev l n)" "keeps (bounded S f) (runDrivingVerb ev l n verb command)"
  "keeps (bounded S f) (liveAllocID ev l b)" "keeps (bounded S f) (probeAgentAlive ev l a pid)"
  "keeps (bounded S f) (provisionFailureDetail ev h l n)" "keeps (bounded S f) (childHasLiveAlloc ev l c)"
  "keeps (bounded S f) (deadChildReason ev h l c)" "keeps (bounded S f) (capturePanePID ev l n)"
proof -
  show pick: "keeps (bounded S f) (pickAlloc ev l n b)" for b
    unfolding pickAlloc_def by (intro keeps_intros calm)
  show rec: "keeps (bounded S f) (currentAllocRecord ev l n)"
    unfolding currentAllocRecord_def by (intro keeps_intros calm pick)
  show cur: "keeps (bounded S f) (currentAlloc ev l n)"
    unfolding currentAlloc_def by (intro keeps_intros rec)
  show "keeps (bounded S f) (runDrivingVerb ev l n verb command)" "keeps (bounded S f) (capturePanePID ev l n)"
    unfolding runDrivingVerb_def capturePanePID_def Let_def by (intro keeps_intros calm cur)+
  show "keeps (bounded S f) (liveAllocID ev l b)" "keeps (bounded S f) (probeAgentAlive ev l a pid)"
    "keeps (bounded S f) (provisionFailureDetail ev h l n)" "keeps (bounded S f) (childHasLiveAlloc ev l c)"
    "keeps (bounded S f) (deadChildReason ev h l c)"
    unfolding liveAllocID_def probeAgentAlive_def provisionFailureDetail_def childHasLiveAlloc_def deadChildReason_def Let_def
    by (intro keeps_intros calm)+
qed

lemma calm_await [calm]: "keeps (bounded S f) (awaitExecAllocReady ev l n)"
proof -
  have "keeps (bounded S f) (observeAlloc ev l n)"
    unfolding observeAlloc_def by (intro keeps_intros calm)
  then have "keeps (bounded S f) (awaitLoop k ev l n t i d)" for k t i d
    by (induction k) (auto intro!: keeps_intros calm)
  then show ?thesis
    unfolding awaitExecAllocReady_def awaitExecAllocReadyWithin_def by (intro keeps_intros calm)
qed

lemmas calm_retry = keeps_retry [OF _ calm_effects(2)]

lemma calm_staging [calm]:
  "keeps (bounded S f) (execStage ev l n c x)" "keeps (bounded S f) (boxSecretsDir ev l n)"
  "keeps (bounded S f) (launchWithCommand ev l n c)" "keeps (bounded S f) (stage ev h l n cfg)"
proof -
  show e: "keeps (bounded S f) (execStage ev l n c x)" for c x
    unfolding execStage_def by (intro keeps_intros calm calm_retry)
  show s: "keeps (bounded S f) (boxSecretsDir ev l n)"
    unfolding boxSecretsDir_def by (intro keeps_intros calm calm_retry)
  show "keeps (bounded S f) (launchWithCommand ev l n c)"
    unfolding launchWithCommand_def Let_def by (intro keeps_intros calm calm_retry)
  have archive: "keeps (bounded S f) (stageArchive ev h l n w c fs)" for w c fs
    unfolding stageArchive_def Let_def by (intro keeps_intros calm e)
  have "keeps (bounded S f) (stageArgFiles ev l n fs)" for fs
    by (induction fs) (auto intro!: keeps_intros calm e)
  then show "keeps (bounded S f) (stage ev h l n cfg)"
    unfolding stage_def by (intro keeps_intros archive s)
qed

lemma calm_stageTracked [calm]: "keeps (bounded S f) (stageTracked ev h l n cfg)"
proof -
  have "keeps (bounded S f) (savePromptPending n cfg)" "keeps (bounded S f) (saveLifecyclePending n cfg)"
    "keeps (bounded S f) (setStagePending n p)" for p
    unfolding savePromptPending_def saveLifecyclePending_def setStagePending_def Let_def
    by (intro keeps_when calm_update; auto split: if_splits)+
  then show ?thesis
    unfolding stageTracked_def by (intro keeps_intros calm)
qed

lemma calm_confirmLaunched [calm]: "keeps (bounded S f) (confirmLaunched ev h l n wd pc lc)"
proof -
  have "keeps (bounded S f) (verifyLoop k ev l n a d lst)" for k a d lst
    by (induction k arbitrary: lst)
      (auto simp: paneCurrentCommand_def boxRunsAnAgent_def Let_def intro!: keeps_intros calm)
  then have pane: "keeps (bounded S f) (warnIfPaneRunsNoAgent ev l n)"
    unfolding warnIfPaneRunsNoAgent_def verifyPaneRunsAgent_def Let_def by (intro keeps_intros calm)
  have gc: "keeps (bounded S f) (warnIfBoxGCCannotClaim ev h l n)"
    unfolding warnIfBoxGCCannotClaim_def warnIfBoxGCIsStale_def Let_def by (intro keeps_intros calm)
  show ?thesis
    unfolding confirmLaunched_def
    by (intro keeps_intros calm pane gc calm_update) (auto simp: launchedBinding_def)
qed

lemma calm_prime [calm]: "keeps (bounded S f) (startupPrimeDetached ev h l n cfg)"
proof -
  have rd: "keeps (bounded S f) (readBoxFile ev l a p)" for a p
    unfolding readBoxFile_def Let_def by (intro keeps_intros calm)
  have gone: "keeps (bounded S f) (diagnosePaneGone ev l a)" for a
    unfolding diagnosePaneGone_def Let_def by (intro keeps_intros rd)
  have spawn: "keeps (bounded S f) (spawnPrimeWindow ev l n)"
    unfolding spawnPrimeWindow_def Let_def by (intro keeps_intros calm gone)
  have exists: "keeps (bounded S f) (primeWindowExists ev l n)"
    unfolding primeWindowExists_def by (intro keeps_intros calm)
  show ?thesis
    unfolding startupPrimeDetached_def Let_def by (intro keeps_intros calm spawn exists)
qed

lemma calm_launch [calm]:
  "keeps (bounded S f) (markLaunched ev h l n cfg)" "keeps (bounded S f) (markTransportLaunched ev h l n tr)"
  unfolding markLaunched_def markTransportLaunched_def launch_def Let_def by (intro keeps_intros calm)+

lemma calm_confirmPlaced [calm]: "keeps (bounded S f) (confirmDispatchPlaced ev l n)"
proof -
  have "keeps (bounded S f) (notPlaced ev l n c st)" for c st
    unfolding notPlaced_def Let_def by (intro keeps_intros calm)
  then have "keeps (bounded S f) (placedLoop k ev l n c d st)" for k c d st
    by (induction k arbitrary: st) (auto simp: Let_def intro!: keeps_intros calm)
  then show ?thesis
    unfolding confirmDispatchPlaced_def by (intro keeps_intros calm)
qed

subsubsection \<open>Stopping, adopting, observing\<close>

lemma calm_evidence:
  "keeps (bounded S f) (flushStep ev l n b)" "keeps (bounded S f) (egressStep ev l n need b)"
proof -
  have "keeps (bounded S f) (flushLoop k ev l a d)" for k a d
    by (induction k) (auto intro!: keeps_intros calm)
  then have "keeps (bounded S f) (flushLogShipper ev l a)" for a
    unfolding flushLogShipper_def by (intro keeps_intros calm)
  then show "keeps (bounded S f) (flushStep ev l n b)"
    unfolding flushStep_def by (intro keeps_intros calm)
  have fault: "keeps (bounded S f) sinkFault"
    by (auto simp: keeps_def sinkFault_def split: list.split)
  have sink: "keeps (bounded S f) (sink_MkdirAll p)" "keeps (bounded S f) (sink_WriteFile p x)"
    "keeps (bounded S f) (sink_Rename p q)" for p q x
    unfolding sink_MkdirAll_def sink_WriteFile_def sink_Rename_def
    by (intro keeps_intros keeps_modify fault; simp)+
  have "keeps (bounded S f) (egressOne ev l d a e)" for d a e
    unfolding egressOne_def Let_def by (intro keeps_intros calm sink)
  then have "keeps (bounded S f) (egressEach ev l d es)" for d es
    by (induction es) (auto intro!: keeps_intros)
  then have "keeps (bounded S f) (egressAllocFiles ev l n j)" for j
    unfolding egressAllocFiles_def Let_def by (intro keeps_intros calm sink)
  then show "keeps (bounded S f) (egressStep ev l n need b)"
    unfolding egressStep_def by (intro keeps_intros keeps_egressRetry)
qed

text \<open>The evidence steps pass on the record they were given, up to its flags.\<close>

lemma evidence_result:
  "fst (flushStep ev l n b s) = Ok b' \<Longrightarrow> evidenceOf b b'" "fst (egressStep ev l n need b s) = Ok b' \<Longrightarrow> evidenceOf b b'"
  by (auto simp: flushStep_def egressStep_def prog_defs split: if_splits prod.splits result.splits sum.splits option.splits)

lemma calm_bind_result:
  assumes "keeps I p" and "\<And>s x. fst (p s) = Ok x \<Longrightarrow> keeps I (q x)"
  shows "keeps I (bindS p q)"
proof (rule keepsI)
  fix s assume "I s"
  then have "I (snd (p s))" by (rule keepsD [OF assms(1)])
  then show "I (snd (bindS p q s))"
    using assms(2) [of s] by (cases "p s"; cases "fst (p s)") (auto simp: bindS_def keepsD)
qed

lemma leadsTo_evidence:
  assumes "evidenceOf b b'"
  shows "leadsTo S n b' = leadsTo S n b"
  using evidenceOf_fields(2) [OF assms] arg_cong [OF assms [unfolded evidenceOf_def], of Nonce]
  by (simp add: leadsTo_def)

lemma calm_stop [calm]: "keeps (bounded S f) (opStop ev l n)"
  unfolding opStop_def
proof (rule calm_load_then, unfold option.case)
  fix b assume b: "leadsTo S n b" "SessionName b = n"
  have "keeps (bounded S f) (sidecar_save b2)" if "evidenceOf b b1" "evidenceOf b1 b2" for b1 b2
    using b evidenceOf_trans [OF that] evidenceOf_fields(1) [of b b2] leadsTo_evidence [of b b2]
    by (intro calm_save) simp
  then show "keeps (bounded S f) (if ChildJobID b = [] then sidecar_remove n
        else
          bindS (attempt (runDrivingVerb ev l n ''stop-kill-session'' [''tmux'', ''kill-session'', ''-t'', tmuxSessionName])) (\<lambda>_.
          bindS (flushStep ev l n b) (\<lambda>b1.
          bindS (egressStep ev l n (\<not> EgressComplete b \<and> \<not> EvidenceLost b) b1) (\<lambda>b2.
          bindS (whenS (EgressComplete b2 \<or> EvidenceLost b2) (sidecar_save b2)) (\<lambda>_.
          bindS (world (deregisterJob (envNomad ev) (lcClient l) (ChildJobID b2) False)) (\<lambda>idx.
          bindS (whenS (0 < idx)
            (bindS (attempt (world (listAllocsForJob (envNomad ev) (lcClient l) (ChildJobID b2) (idx - 1) blockingWait)))
               (\<lambda>_. returnS ()))) (\<lambda>_.
          sidecar_remove n)))))))"
    using evidence_result
    by (intro keeps_if keeps_bind [OF keeps_attempt] calm calm_bind_result [OF calm_evidence(1)]
        calm_bind_result [OF calm_evidence(2)] keeps_bind keeps_when keeps_return) blast+
qed (rule keeps_return)

lemma keeps_adoptPath [keeps_intros]:
  "keeps I p1 \<Longrightarrow> keeps I p2 \<Longrightarrow> keeps I p3 \<Longrightarrow> keeps I p4 \<Longrightarrow>
   keeps I (case path of adoptReuse \<Rightarrow> p1 | adoptSelfHealLaunched \<Rightarrow> p2 | adoptReap \<Rightarrow> p3 | adoptReject \<Rightarrow> p4)"
  by (cases path) auto

lemma calm_adopt [calm]: "keeps (bounded S f) (adoptExisting ev h l n b what)"
proof -
  have "keeps (bounded S f) (classifyAdoption ev l n b)"
    unfolding classifyAdoption_def bindingAgentStatus_def Let_def by (intro keeps_intros calm)
  moreover have "keeps (bounded S f) (reapChild ev l n b why)" for why
    unfolding reapChild_def by (intro keeps_intros calm)
  ultimately show ?thesis
    unfolding adoptExisting_def Let_def by (intro keeps_intros calm)
qed

lemma calm_applyMarker:
  assumes "leadsTo S n b" and "SessionName b = n" and "\<And>r. keeps (bounded S f) (q r)"
  shows "keeps (bounded S f) (bindS (applyPromptMarker ev m st p b) (\<lambda>b'. bindS (attempt (sidecar_save b')) q))"
proof (rule calm_bind_result)
  show "keeps (bounded S f) (applyPromptMarker ev m st p b)"
    unfolding applyPromptMarker_def by (intro keeps_intros calm)
  fix s b' assume "fst (applyPromptMarker ev m st p b s) = Ok b'"
  then have "SessionName b' = SessionName b \<and> ChildJobID b' = ChildJobID b \<and> Nonce b' = Nonce b"
    unfolding applyPromptMarker_def prog_defs by (auto split: if_splits option.splits prod.splits result.splits)
  then have "SessionName b' = n" "leadsTo S n b'"
    using assms(1,2) leadsTo_same [of b' b] by auto
  then show "keeps (bounded S f) (bindS (attempt (sidecar_save b')) q)"
    by (intro keeps_bind keeps_attempt calm_save assms(3)) simp
qed

lemma calm_sync [calm]:
  "keeps (bounded S f) (syncPromptedMarker ev l n)" "keeps (bounded S f) (syncCityCheckoutMarker ev h l n)"
proof -
  show "keeps (bounded S f) (syncPromptedMarker ev l n)"
    unfolding syncPromptedMarker_def Let_def
    by (rule calm_tryLoad_then; simp only: sum.case option.case) (intro calm_applyMarker keeps_intros calm | assumption)+
  have "keeps (bounded S f) (sidecar_save (b\<lparr>CityCheckoutSHA := x, CityCheckoutStatus := y\<rparr>))"
    if "leadsTo S n b" "SessionName b = n" for b x y
    using that by (intro calm_save) (simp add: leadsTo_def)
  then show "keeps (bounded S f) (syncCityCheckoutMarker ev h l n)"
    unfolding syncCityCheckoutMarker_def
    by (intro keeps_if keeps_return calm_tryLoad_then; simp only: sum.case option.case) (intro keeps_intros calm | assumption | blast)+
qed

lemma calm_reapDrained:
  assumes "leadsTo S n b" and "SessionName b = n"
  shows "keeps (bounded S f) (reapDrainedOneShot ev l n b a)"
proof -
  have "keeps (bounded S f) (sidecar_save (b\<lparr>ExitReason := x\<rparr>))" for x
    using assms by (intro calm_save) (simp add: leadsTo_def)
  then show ?thesis
    unfolding reapDrainedOneShot_def paneShowsDrainAck_def Let_def by (intro keeps_intros calm)
qed

lemma calm_observe:
  "keeps (bounded S f) (opIsRunning ev h l n)" "keeps (bounded S f) (opListRunning ev h l pre)"
proof -
  have retire: "keeps (bounded S f) (bindS (peekBinding n) (\<lambda>again. case again of
      None \<Rightarrow> returnS True | Some b' \<Rightarrow> bindS (reapDrainedOneShot ev l n b' a) (\<lambda>reaped. returnS (\<not> reaped))))" for a
    by (rule calm_peek_then; simp only: option.case) (intro keeps_bind calm_reapDrained keeps_return | assumption)+
  show "keeps (bounded S f) (opIsRunning ev h l n)"
    unfolding opIsRunning_def by (intro retire keeps_intros calm)
  have "keeps (bounded S f) (listOne ev h l pre launched c)" for launched c
    unfolding listOne_def Let_def by (intro keeps_intros calm)
  then have "keeps (bounded S f) (listEach ev h l pre launched cs)" for launched cs
    by (induction cs) (auto intro!: keeps_intros)
  then show "keeps (bounded S f) (opListRunning ev h l pre)"
    unfolding opListRunning_def by (intro keeps_intros calm)
qed

lemma calm_ops:
  "keeps (bounded S f) (opRelaunch ev h l n)" "keeps (bounded S f) (opExec ev h l n command)"
  "keeps (bounded S f) (opNudge ev l n txt1)" "keeps (bounded S f) (opPeek ev l n lines)" 
  "keeps (bounded S f) (opInterrupt ev l n)" "keeps (bounded S f) (opSendKeys ev l n ks)" "keeps (bounded S f) (opClearScrollback ev l n)"
  unfolding opRelaunch_def opExec_def opNudge_def opPeek_def opInterrupt_def opSendKeys_def opClearScrollback_def bestEffort_def Let_def
  by (intro keeps_intros calm)+

subsubsection \<open>Dispatch\<close>

text \<open>Whether the session has no live child.\<close>

abbreviation vacant :: "child set \<Rightarrow> string \<Rightarrow> bool" where
  "vacant S n \<equiv> \<forall>c k. (n, c, k) \<notin> S"

lemma bounded_exact: "bounded S f s \<Longrightarrow> bounded (kids (lsWorld s)) f s"
  using bounded_sound unfolding sound_def by blast

lemma wp_bounded: "bounded S f s \<Longrightarrow> keeps (bounded S f) p \<Longrightarrow> (\<And>r s'. bounded S f s' \<Longrightarrow> Q r s') \<Longrightarrow> wp p Q s"
  by (simp add: wp_iff keepsD)

lemma wp_bounded_load:
  assumes "bounded S f s" and "\<And>e s'. bounded S f s' \<Longrightarrow> Q (Err e) s'"
    and "\<And>s'. bounded S f s' \<Longrightarrow> sidecar_view s' = sidecar_view s \<Longrightarrow> Q (Ok (sidecar_view s n)) s'"
  shows "wp (sidecar_load n) Q s"
proof -
  have wf: "sidecar_wf s" using assms(1) by (simp add: bounded_def)
  show ?thesis
    using sc.load_value [OF wf, of n] keepsD [OF calm_local(4) assms(1), of n] sc.load_view [OF wf, of n] assms(2,3)
    unfolding wp_iff by metis
qed

text \<open>Looking for the session's child: unless its record is an intent, the answer that there is none
  is right.\<close>

definition noChild :: "string \<Rightarrow> binding option \<Rightarrow> binding option result \<Rightarrow> 'w lstate \<Rightarrow> bool" where
  "noChild n found r s \<longleftrightarrow>
    (\<exists>S. bounded S True s \<and> (r = Ok None \<longrightarrow> vacant S n
       \<or> (\<exists>b. found = Some b \<and> SessionName b = n \<and> ChildJobID b = [] \<and> Nonce b \<noteq> [] \<and> leadsTo S n b)))"

lemma noChild_other: "bounded S True s \<Longrightarrow> r \<noteq> Ok None \<Longrightarrow> noChild n found r s"
  by (auto simp: noChild_def)

lemma noChild_vacant: "bounded S True s \<Longrightarrow> vacant S n \<Longrightarrow> noChild n found r s"
  by (auto simp: noChild_def)

lemma wp_listAllocs:
  assumes "bounded S True s" and "\<And>r s'. bounded (kids (lsWorld s)) True s' \<Longrightarrow>
      (\<And>k. (n, cid, k) \<in> kids (lsWorld s) \<Longrightarrow> \<exists>as. r = Ok as \<and> someLive as) \<Longrightarrow> Q r s'"
  shows "wp (listAllocs ev l cid) Q s"
proof -
  have b: "bounded (kids (lsWorld s)) True s" by (rule bounded_exact [OF assms(1)])
  have "\<exists>as. fst (listAllocs ev l cid s) = Ok as \<and> someLive as" if "(n, cid, k) \<in> kids (lsWorld s)" for k
    using placed [OF _ that] b
    by (cases "listAllocsForJob (envNomad ev) (lcClient l) cid 0 0 (lsWorld s)")
      (auto simp: listAllocs_def world_def bindS_def returnS_def bounded_def)
  then show ?thesis
    unfolding wp_iff by (intro assms(2) keepsD [OF calm_effects(7) b])
qed

lemma wp_checkLive_bound:
  assumes "bounded S True s" and "leadsTo S n b" and "ChildJobID b \<noteq> []"
  shows "wp (checkLive ev l n b rec) (noChild n found) s"
  unfolding checkLive_def if_not_P [OF assms(3)] wp_bind wp_attempt
proof (rule wp_listAllocs [OF assms(1), of n], goal_cases)
  case (1 r s')
  have only: "c = ChildJobID b" if "(n, c, k) \<in> kids (lsWorld s)" for c k
  proof -
    have "(n, c, k) \<in> S" using assms(1) that by (auto simp: bounded_def)
    then show ?thesis using assms(2,3) by (auto simp: leadsTo_def)
  qed
  have "vacant (kids (lsWorld s)) n" if "\<not> (\<exists>as. r = Ok as \<and> someLive as)"
    using 1(2) only that by blast
  then show ?case
    using 1(1) by (cases r) (auto simp: wp_simps intro: noChild_other noChild_vacant)
qed

text \<open>With a listing that can be read, recovery finds the session's child if there is one.\<close>

lemma wp_listing:
  assumes "bounded S True s"
    and "\<And>cs s'. bounded (kids (lsWorld s)) True s' \<Longrightarrow>
      (\<And>n c k. (n, c, k) \<in> kids (lsWorld s) \<longleftrightarrow> (\<exists>ch \<in> set cs. \<not> cjTerminal ch \<and> cjID ch = c
         \<and> mapGet (cjMeta ch) ''gc_session'' = n \<and> mapGet (cjMeta ch) ''gc_nonce'' = k)) \<Longrightarrow>
      (\<And>ch. ch \<in> set cs \<Longrightarrow> cjNamespace ch = clNamespace (lcClient l)) \<Longrightarrow> Q (Ok cs) s'"
  shows "wp (world (listChildJobs (envNomad ev) (lcClient l) (lcParentJobID l))) Q s"
proof -
  let ?p = "listChildJobs (envNomad ev) (lcClient l) (lcParentJobID l)"
  have b: "bounded (kids (lsWorld s)) True s" by (rule bounded_exact [OF assms(1)])
  then have g: "good (lsWorld s)" "fits (lsWorld s)" by (simp_all add: bounded_def)
  obtain cs where cs: "fst (?p (lsWorld s)) = Ok cs" using lists [OF g] by blast
  have "fst (world ?p s) = Ok cs" using cs by (simp add: world_def case_prod_beta)
  then show ?thesis
    using assms(2) [OF keepsD [OF calm_calls(2) b] listed [OF g(1) cs] listed_here [OF g(1) cs]] by (simp add: wp_iff)
qed

definition recovered :: "string \<Rightarrow> binding result \<Rightarrow> 'w lstate \<Rightarrow> bool" where
  "recovered n r s \<longleftrightarrow>
    (\<exists>S. bounded S True s
      \<and> (\<forall>b. r = Ok b \<longrightarrow> leadsTo S n b \<and> ChildJobID b \<noteq> [])
      \<and> (\<forall>e. r = Err e \<longrightarrow> errIs e ErrBindingNoMatch \<or> errIs e ErrBindingTerminal \<longrightarrow> vacant S n))"

lemma wp_recover_bound:
  assumes "bounded S True s"
  shows "wp (recoverBinding ev l n prior) (recovered n) s"
  unfolding recoverBinding_def wp_bind [of "wrapS _ _ _"] wp_wrap
proof (rule wp_listing [OF assms], unfold result.case, goal_cases)
  case (1 cs s')
  let ?T = "kids (lsWorld s)" and ?m = "filter (\<lambda>c. \<not> cjTerminal c) (filter (ownedBy l n) cs)"
  have bad: "recovered n (Err e) s'" if "\<not> errIs e ErrBindingNoMatch" "\<not> errIs e ErrBindingTerminal" for e
    using 1(1) that by (auto simp: recovered_def)
  have none: "recovered n (Err e) s'" if "?m = []" for e
  proof -
    have "vacant ?T n" using that 1(2,3) by (auto simp: filter_empty_conv ownedBy_def)
    then show ?thesis using 1(1) by (auto simp: recovered_def)
  qed
  have one: "wp (bindS (wrapS a [] (sidecar_save (rebuilt ev n ch nonce prior))) (\<lambda>_. returnS (rebuilt ev n ch nonce prior)))
      (recovered n) s'" if "?m = [ch]" for ch a nonce
  proof -
    have "ch \<in> set ?m" unfolding that by simp
    then have ch: "(n, cjID ch, mapGet (cjMeta ch) ''gc_nonce'') \<in> ?T" using 1(2) by (auto simp: ownedBy_def)
    have lead: "leadsTo ?T n (rebuilt ev n ch nonce prior)"
      using 1(1) ch by (intro leadsTo_child) (auto simp: bounded_def)
    then have "bounded ?T True (snd (sidecar_save (rebuilt ev n ch nonce prior) s'))"
      by (intro keepsD [OF calm_save 1(1)]) simp
    then show ?thesis
      using lead named [OF _ ch] assms save_error_kind [of "rebuilt ev n ch nonce prior" s']
      unfolding wp_simps wp_iff [of "sidecar_save _"]
      by (cases "fst (sidecar_save (rebuilt ev n ch nonce prior) s')") (auto simp: recovered_def bounded_def)
  qed
  show ?case
    using bad none one by (auto simp: Let_def wp_fail split: list.split)
qed

lemma wp_useRecovered_bound:
  assumes "recovered n (case r of Inl e \<Rightarrow> Err e | Inr b \<Rightarrow> Ok b) s"
  shows "wp (useRecovered ev l n r) (noChild n found) s"
proof -
  obtain T where T: "bounded T True s" "\<And>b. r = Inr b \<Longrightarrow> leadsTo T n b \<and> ChildJobID b \<noteq> []"
      "\<And>e. r = Inl e \<Longrightarrow> errIs e ErrBindingNoMatch \<or> errIs e ErrBindingTerminal \<Longrightarrow> vacant T n"
    using assms by (auto simp: recovered_def split: sum.splits)
  show ?thesis
  proof (cases r)
    case (Inr b)
    then show ?thesis
      using wp_checkLive_bound [OF T(1)] T(2) by (simp add: useRecovered_def)
  next
    case (Inl e)
    have "wp (bindS (logDecision l m) (\<lambda>_. returnS None)) (noChild n found) s" if "vacant T n" for m
      unfolding wp_bind
      by (rule wp_bounded [OF T(1) calm_local(1)]) (use that in \<open>auto simp: wp_return intro: noChild_vacant split: result.split\<close>)
    then show ?thesis
      using T(1,3) Inl noChild_other [OF T(1)] by (auto simp: useRecovered_def wp_fail)
  qed
qed

lemma wp_liveChild_bound:
  assumes "bounded S True s"
  shows "wp (liveChild ev l n) (noChild n (sidecar_view s n)) s"
proof -
  have rec: "wp (bindS (attempt (recoverBinding ev l n prior)) (useRecovered ev l n)) (noChild n found) s'"
    if "bounded S True s'" for prior found s'
    unfolding wp_bind wp_attempt
  proof (rule wp_mono [OF wp_recover_bound [OF that, of n prior]], goal_cases)
    case (1 r s1)
    then obtain T where T: "bounded T True s1" by (auto simp: recovered_def)
    then show ?case
      using 1 noChild_other [OF T] wp_useRecovered_bound [of n "Inr _" s1 found] wp_useRecovered_bound [of n "Inl _" s1 found]
      by (cases r) auto
  qed
  show ?thesis
    unfolding liveChild_def wp_bind [of "sidecar_load n"]
  proof (rule wp_bounded_load [OF assms], goal_cases)
    case (1 e s')
    then show ?case by (simp add: noChild_other)
  next
    case (2 s')
    show ?case
    proof (cases "sidecar_view s n")
      case None
      then show ?thesis using rec [OF 2(1)] by simp
    next
      case (Some b)
      then have b: "leadsTo S n b" "SessionName b = n"
        using assms sc.view_name [of s n b] by (auto simp: bounded_def)
      have "noChild n (Some b) (Ok None) s'" if "ChildJobID b = []" "Nonce b \<noteq> []"
        using 2(1) b that by (auto simp: noChild_def)
      then show ?thesis
        using wp_checkLive_bound [OF 2(1) b(1)] rec [OF 2(1)] Some by (simp add: wp_return)
    qed
  qed
qed

lemma bounded_added:
  assumes "bounded S f s" and "vacant S n" and "sidecar_view s n = Some b" and "ChildJobID b = []" and "Nonce b = k"
    and "good w" and "kids w \<subseteq> insert (n, c, k) S"
  shows "bounded (insert (n, c, k) S) False (s\<lparr>lsWorld := w\<rparr>)"
proof -
  have "onePerSession (insert (n, c, k) S)"
    using assms(1,2) by (auto simp: bounded_def onePerSession_def)
  moreover have "leadsTo (insert (n, c, k) S) m b'" if "sidecar_view s m = Some b'" for m b'
  proof (cases "m = n")
    case True
    then show ?thesis using that assms(2-5) by (auto simp: leadsTo_def)
  next
    case False
    then show ?thesis using that assms(1) by (auto simp: leadsTo_def bounded_def)
  qed
  ultimately show ?thesis
    using assms(1,6,7) by (simp add: bounded_def sidecar_wf_def sidecar_view_def)
qed

lemma wp_dispatch_call:
  assumes "bounded S f s" and "vacant S n" and "sidecar_view s n = Some b"
    and "SessionName b = n" and "ChildJobID b = []" and "Nonce b = k"
  shows "wp (bindS (world (dispatchChildAt (envNomad ev) (envFmtTime ev) (lcClient l) (lcParentJobID l) n k t img))
      (\<lambda>childID. sidecar_save (b\<lparr>ChildJobID := childID\<rparr>))) (\<lambda>r. sound False) s"
proof -
  let ?tok = "dispatchIdempotencyToken n k"
  obtain r w where call: "sdkDispatch (envNomad ev) (lcParentJobID l) (dispatchMeta (envFmtTime ev) n k t img)
      (clNamespace (lcClient l)) ?tok (lsWorld s) = (r, w)" by fastforce
  let ?s = "s\<lparr>lsWorld := w\<rparr>"
  have out: "good w \<and> (kids w \<subseteq> kids (lsWorld s) \<or> (\<exists>c. r = Ok (Some c) \<and> kids w \<subseteq> insert (n, c, k) (kids (lsWorld s))))"
    using dispatched [OF _ call] assms(1) by (simp add: bounded_def)
  obtain T where T: "bounded T False ?s" "\<And>c. r = Ok (Some c) \<Longrightarrow> c \<noteq> [] \<Longrightarrow> leadsTo T n (b\<lparr>ChildJobID := c\<rparr>)"
  proof (cases "kids w \<subseteq> kids (lsWorld s)")
    case True
    then have "wbounded S False w" using out assms(1) by (auto simp: bounded_def wbounded_def)
    moreover have "bounded S False s" using assms(1) by (simp add: bounded_def)
    ultimately have "bounded S False ?s" by (intro bounded_world)
    then show thesis using that [of S] leadsTo_free [of n S] assms(2) by blast
  next
    case False
    then obtain c where c: "r = Ok (Some c)" "kids w \<subseteq> insert (n, c, k) (kids (lsWorld s))" using out by blast
    then have "bounded (insert (n, c, k) S) False ?s"
      using out assms(1) by (intro bounded_added [OF assms(1-3,5,6)]) (auto simp: bounded_def)
    moreover have "leadsTo (insert (n, c, k) S) n (b\<lparr>ChildJobID := c\<rparr>)" using assms(2) by (auto simp: leadsTo_def)
    ultimately show thesis using that c(1) by fastforce
  qed
  have "sound False (snd (sidecar_save (b\<lparr>ChildJobID := c\<rparr>) ?s))" if "r = Ok (Some c)" "c \<noteq> []" for c
    using keepsD [OF calm_save T(1), of "b\<lparr>ChildJobID := c\<rparr>"] T(2) [OF that] assms(4) by (auto intro: bounded_sound)
  moreover have "sound False ?s" by (rule bounded_sound [OF T(1)])
  ultimately show ?thesis
    by (cases r)
      (auto simp: wp_iff dispatchChildAt_def world_def bindS_def returnS_def failS_def call split: option.split)
qed

lemma wp_dispatchFresh_bound:
  assumes "bounded S True s" and "vacant S n"
  shows "wp (dispatchFresh ev l n img) (\<lambda>r. sound False) s"
proof -
  have bs: "sound False s'" if "bounded S True s'" for s'
    using bounded_sound [OF that] by (rule sound_weaken)
  let ?i = "\<lambda>k t. (newBinding n)\<lparr>Namespace := clNamespace (lcClient l), Nonce := k, CreatedAt := t\<rparr>"
  have commit: "wp (bindS (sidecar_save (?i k t)) (\<lambda>_.
      bindS (world (dispatchChildAt (envNomad ev) (envFmtTime ev) (lcClient l) (lcParentJobID l) n k (CreatedAt (?i k t)) img))
        (\<lambda>childID. sidecar_save ((?i k t)\<lparr>ChildJobID := childID\<rparr>)))) (\<lambda>r. sound False) s'"
    if "bounded S True s'" for k t s'
  proof -
    have wf: "sidecar_wf s'" using that by (simp add: bounded_def)
    have b: "bounded S True (snd (sidecar_save (?i k t) s'))"
      using assms(2) by (intro keepsD [OF calm_save that] leadsTo_free) simp
    have "wp (bindS (world (dispatchChildAt (envNomad ev) (envFmtTime ev) (lcClient l) (lcParentJobID l) n k t' img))
        (\<lambda>childID. sidecar_save ((?i k t)\<lparr>ChildJobID := childID\<rparr>))) (\<lambda>r. sound False) (snd (sidecar_save (?i k t) s'))"
      if "fst (sidecar_save (?i k t) s') = Ok ()" for t'
      using sc.save_ok [OF wf that] by (intro wp_dispatch_call [OF b assms(2)]) (simp_all add: newBinding_def)
    then show ?thesis
      unfolding wp_bind [of "sidecar_save _"] wp_iff [of "sidecar_save _"] using bs [OF b] by (simp split: result.split)
  qed
  have stamp: "wp (bindS (timeNow ev) (\<lambda>now. let intent = ?i k now in
      bindS (sidecar_save intent) (\<lambda>_.
      bindS (world (dispatchChildAt (envNomad ev) (envFmtTime ev) (lcClient l) (lcParentJobID l) n k (CreatedAt intent) img))
        (\<lambda>childID. sidecar_save (intent\<lparr>ChildJobID := childID\<rparr>))))) (\<lambda>r. sound False) s'"
    if "bounded S True s'" for k s'
    unfolding Let_def wp_bind [of "timeNow ev"]
    by (rule wp_bounded [OF that calm_effects(1)]) (simp add: commit [simplified] bs split: result.split)
  show ?thesis
    unfolding dispatchFresh_def wp_bind [of "readRandom ev"] wp_bind [of "liftR _"] wp_lift
    by (rule wp_bounded [OF assms(1) calm_effects(3)]) (auto simp: stamp [simplified] bs split: result.split)
qed

lemma calm_ensureParent: "keeps (bounded S f) (ensureParentRegistered ev l)"
  unfolding ensureParentRegistered_def registerParent_def Let_def by (intro keeps_intros calm)

text \<open>The search for the orphan of an intent is complete.\<close>

lemma wp_findOrphan_bound:
  assumes "bounded S True s" and "SessionName b = n" and "ChildJobID b = []" and "Nonce b \<noteq> []" and "leadsTo S n b"
  shows "wp (findOrphanByNonce ev l n (Nonce b))
    (\<lambda>r s'. \<exists>T. bounded T True s' \<and> (r = Ok None \<and> vacant T n \<or> (\<exists>c k. r = Ok (Some c) \<and> (n, c, k) \<in> T))) s"
  unfolding findOrphanByNonce_def wp_bind
proof (rule wp_listing [OF assms(1)], goal_cases)
  case (1 cs s')
  let ?T = "kids (lsWorld s)"
  show ?case
  proof (cases "find (isOrphan n (Nonce b)) cs")
    case None
    have "vacant ?T n"
    proof (intro allI notI)
      fix c k assume c: "(n, c, k) \<in> ?T"
      then have "(n, c, k) \<in> S" using assms(1) by (auto simp: bounded_def)
      then have "Nonce b = k" using assms(1,3-5) named [OF _ c] by (auto simp: leadsTo_def bounded_def)
      then show False using c 1(2) [of n c k] None by (auto simp: find_None_iff isOrphan_def)
    qed
    then show ?thesis using 1(1) None by (auto simp: wp_return)
  next
    case (Some ch)
    then have "ch \<in> set cs" "isOrphan n (Nonce b) ch"
      by (auto simp: find_Some_iff)
    then have "(n, cjID ch, Nonce b) \<in> ?T" using 1(2) by (auto simp: isOrphan_def)
    then show ?thesis using 1(1) Some by (auto simp: wp_return)
  qed
qed

lemma wp_adoptOrphan_bound:
  assumes "bounded S True s" and "SessionName b = n" and "ChildJobID b = []" and "Nonce b \<noteq> []" and "leadsTo S n b"
  shows "wp (bindS (attempt (findOrphanByNonce ev l n (Nonce b))) (\<lambda>r.
          case r of
            Inr (Some adopted) \<Rightarrow> sidecar_save (b\<lparr>ChildJobID := adopted\<rparr>)
          | _ \<Rightarrow> dispatchFresh ev l n img)) (\<lambda>r. sound False) s"
  unfolding wp_bind wp_attempt
proof (rule wp_mono [OF wp_findOrphan_bound [OF assms]], elim exE conjE disjE, goal_cases)
  case (1 r s' T)
  then show ?case using wp_dispatchFresh_bound [of T s' n img] by simp
next
  case (2 r s' T c k)
  then have "leadsTo T n (b\<lparr>ChildJobID := c\<rparr>)" by (intro leadsTo_child) (auto simp: bounded_def)
  then have "bounded T True (snd (sidecar_save (b\<lparr>ChildJobID := c\<rparr>) s'))"
    using 2(1) assms(2) by (intro keepsD [OF calm_save]) simp
  then show ?case using 2(2) sound_weaken [OF bounded_sound] by (simp add: wp_iff)
qed

lemma wp_dispatch_bound:
  assumes "bounded S True s"
  shows "wp (dispatch ev l n img) (\<lambda>r. sound False) s"
proof -
  have bs: "sound False s'" if "bounded T True s'" for T s'
    using bounded_sound [OF that] by (rule sound_weaken)
  have fresh: "wp (bindS (ensureParentRegistered ev l) (\<lambda>_. case existing of
      Some b \<Rightarrow>
        if Nonce b \<noteq> [] \<and> ChildJobID b = []
        then bindS (attempt (findOrphanByNonce ev l n (Nonce b))) (\<lambda>r.
          case r of
            Inr (Some adopted) \<Rightarrow> sidecar_save (b\<lparr>ChildJobID := adopted\<rparr>)
          | _ \<Rightarrow> dispatchFresh ev l n img)
        else dispatchFresh ev l n img
    | None \<Rightarrow> dispatchFresh ev l n img)) (\<lambda>r. sound False) s'"
    if free: "noChild n existing (Ok None) s'" and own: "\<And>b. existing = Some b \<Longrightarrow> SessionName b = n" for existing s'
  proof -
    obtain T where T: "bounded T True s'" "vacant T n \<or> (\<exists>b. existing = Some b \<and> SessionName b = n \<and> ChildJobID b = [] \<and> Nonce b \<noteq> [] \<and> leadsTo T n b)"
      using free by (auto simp: noChild_def)
    have lead: "leadsTo T n b" if "existing = Some b" "Nonce b \<noteq> [] \<and> ChildJobID b = []" for b
      using T(2) leadsTo_free [of n T b] that by auto
    show ?thesis
      unfolding wp_bind [of "ensureParentRegistered ev l"]
    proof (rule wp_bounded [OF T(1) calm_ensureParent], goal_cases)
      case (1 r s1)
      have "vacant T n" if "\<forall>b. existing = Some b \<longrightarrow> \<not> (Nonce b \<noteq> [] \<and> ChildJobID b = [])"
        using T(2) that by blast
      then show ?case
        using wp_adoptOrphan_bound [OF 1] wp_dispatchFresh_bound [OF 1] bs [OF 1] lead own
        by (cases r; cases existing) auto
    qed
  qed
  show ?thesis
    unfolding dispatch_def wp_bind [of "sidecar_load n"] wp_bind [of "liveChild ev l n"]
  proof (rule wp_bounded_load [OF assms], unfold result.case, goal_cases)
    case (1 e s')
    then show ?case by (rule bs)
  next
    case (2 s')
    have own: "\<And>b. sidecar_view s n = Some b \<Longrightarrow> SessionName b = n"
      using assms sc.view_name [of s n] by (auto simp: bounded_def)
    have "wp (liveChild ev l n) (noChild n (sidecar_view s n)) s'"
      using wp_liveChild_bound [OF 2(1)] 2(2) by simp
    then show ?case
    proof (rule wp_mono, goal_cases)
      case (1 r s1)
      then have "sound False s1" by (auto simp: noChild_def intro: bs)
      then show ?case
        using 1 fresh own by (cases r) (auto simp: wp_fail)
    qed
  qed
qed

subsubsection \<open>The minting operations\<close>

lemma sound_then:
  assumes "sound True s" and "keeps (sound True) p" and "\<And>x s'. sound True s' \<Longrightarrow> wp (q x) (\<lambda>r. sound False) s'"
  shows "wp (bindS p q) (\<lambda>r. sound False) s"
  using assms keepsD [OF assms(2,1)] sound_weaken unfolding wp_bind wp_iff [of p] by (auto split: result.split)

lemma sound_end:
  assumes "wp p (\<lambda>r. sound False) s" and "\<And>x. keeps (sound False) (q x)"
  shows "wp (bindS p q) (\<lambda>r. sound False) s"
  unfolding wp_bind
  by (rule wp_mono [OF assms(1)]) (auto simp: wp_iff keepsD [OF assms(2)] split: result.split)

lemma sound_dispatch: "sound True s \<Longrightarrow> wp (dispatch ev l n img) (\<lambda>r. sound False) s"
  unfolding sound_def by (rule wp_dispatch_bound [unfolded sound_def])

lemma sound_calm: "(\<And>S f. keeps (bounded S f) p) \<Longrightarrow> keeps (sound f) p"
  by (rule keeps_sound)

lemma sound_liveChild: "keeps (sound True) (liveChild ev l n)"
proof (rule keepsI)
  fix s assume "sound True s"
  then have "wp (liveChild ev l n) (noChild n (sidecar_view s n)) s" unfolding sound_def by (rule wp_liveChild_bound)
  then show "sound True (snd (liveChild ev l n s))" by (auto simp: wp_iff noChild_def intro: bounded_sound)
qed

lemma sound_locked:
  assumes "sound True s" and "\<And>s'. sound True s' \<Longrightarrow> wp p (\<lambda>r. sound False) s'"
  shows "wp (withLock n p) (\<lambda>r. sound False) s"
proof -
  have "sound f (unlockSession n s') = sound f s'" for f s'
    by (simp add: sound_def unlockSession_def)
  then have "wp (finallyS p (unlockSession n)) (\<lambda>r. sound False) s'" if "sound True s'" for s'
    unfolding wp_finally by (intro wp_mono [OF assms(2) [OF that]]) simp
  then show ?thesis
    unfolding withLock_def by (intro sound_then [OF assms(1)] sound_calm calm)
qed

lemma calm_warnSecrets: "keeps (bounded S f) (warnDeclaredSecrets h n cfg)"
  unfolding warnDeclaredSecrets_def Let_def by (intro keeps_intros calm)

lemma sound_reuse: "keeps (sound f) (case live of None \<Rightarrow> returnS False | Some b \<Rightarrow> adoptExisting ev h l n b what)"
  by (intro sound_calm keeps_option keeps_return calm)

lemma sound_provision:
  assumes "sound True s"
  shows "wp (opProvisionWithConfig ev h l n cfg) (\<lambda>r. sound False) s"
  unfolding opProvisionWithConfig_def
proof (intro sound_then [OF assms] sound_calm calm_warnSecrets sound_locked, assumption,
    rule sound_then, assumption, rule sound_liveChild, rule sound_then, assumption, rule sound_reuse)
  fix reuse s' assume s': "sound True s'"
  have "wp (stageTracked ev h l n cfg) (\<lambda>r. sound False) s'"
    using keepsD [OF sound_calm [OF calm_stageTracked] sound_weaken [OF s']] by (simp add: wp_iff)
  moreover have "wp (bindS (dispatch ev l n (sessionAgentImage cfg)) (\<lambda>_. bindS (confirmDispatchPlaced ev l n) (\<lambda>_.
      stageTracked ev h l n cfg))) (\<lambda>r. sound False) s'"
    by (intro sound_end sound_dispatch [OF s'] sound_calm keeps_intros calm)
  ultimately show "wp (if reuse then stageTracked ev h l n cfg else
      bindS (dispatch ev l n (sessionAgentImage cfg)) (\<lambda>_. bindS (confirmDispatchPlaced ev l n) (\<lambda>_.
      stageTracked ev h l n cfg))) (\<lambda>r. sound False) s'"
    by simp
qed

lemma sound_start:
  assumes "sound True s"
  shows "wp (opStartWithConfig ev h l n cfg) (\<lambda>r. sound False) s"
  unfolding opStartWithConfig_def
proof (intro sound_then [OF assms] sound_calm calm_warnSecrets sound_locked, assumption,
    rule sound_then, assumption, rule sound_liveChild, rule sound_then, assumption, rule sound_reuse)
  fix reuse s' assume s': "sound True s'"
  have "wp (if reuse then returnS () else dispatch ev l n (sessionAgentImage cfg)) (\<lambda>r. sound False) s'"
    using sound_dispatch [OF s'] sound_weaken [OF s'] by (simp add: wp_return)
  then show "wp (bindS (if reuse then returnS () else dispatch ev l n (sessionAgentImage cfg)) (\<lambda>_.
      bindS (stageTracked ev h l n cfg) (\<lambda>_. markLaunched ev h l n cfg))) (\<lambda>r. sound False) s'"
    by (intro sound_end sound_calm keeps_intros calm)
qed

end

end
