(* ===== verification/Fake_Cluster.thy ===== *)
theory Fake_Cluster
  imports One_Child
begin

text \<open>
  The fake server as the cluster of the lifecycle: its live children, the part of its state that the
  handlers rely on, and the proof that it is a \<open>child_cluster\<close>. On top of it, the runs of several
  processes, one operation after the other, against one server and one sidecar directory.
\<close>

subsection \<open>Paths\<close>

lemma splitPath_parts:
  assumes "ws \<noteq> []" and "\<forall>w \<in> set ws. w \<noteq> [] \<and> CHR ''/'' \<notin> set w"
  shows "splitPath (CHR ''/'' # joinStrings ''/'' ws) = ws"
proof -
  let ?s = "joinStrings ''/'' ws"
  have split: "splitChar (CHR ''/'') ?s = ws" using splitChar_join [of ws] assms by simp
  have hd: "?s \<noteq> [] \<and> hd ?s \<noteq> CHR ''/''"
    using assms by (cases ws; cases "tl ws") (auto simp: hd_append dest: hd_in_set)
  have last: "last ?s \<noteq> CHR ''/''"
  proof -
    obtain us u where us: "ws = us @ [u]" using assms(1) by (cases ws rule: rev_cases) auto
    then have u: "u \<noteq> []" "last u \<noteq> CHR ''/''" using assms(2) last_in_set [of u] by (auto, metis)
    show ?thesis
      using u by (cases "us = []") (simp_all add: us joinStrings_snoc)
  qed
  have "trimLeftChars {CHR ''/''} (CHR ''/'' # ?s) = ?s"
    using hd by (cases ?s) (auto simp: trimLeftChars_def)
  moreover have "trimRightChars {CHR ''/''} ?s = ?s"
    using hd last by (cases ?s rule: rev_cases) (auto simp: trimRightChars_def)
  moreover have "filter (\<lambda>p. p \<noteq> []) ws = ws" using assms(2) by simp
  ultimately show ?thesis by (simp add: splitPath_def split)
qed

text \<open>The second part of a child's ID.\<close>

definition dispatchName :: "int \<Rightarrow> nat \<Rightarrow> string" where
  "dispatchName unix seq = ''dispatch-'' @ intText unix @ ''-'' @ hex6 seq"

lemma childIDOf_parts: "childIDOf p u k = joinStrings ''/'' [p, dispatchName u k]"
  by (simp add: childIDOf_def dispatchName_def)

lemma hexText_plain: "set (hexText n) \<subseteq> set ''0123456789abcdef''"
proof (induction n rule: hexText.induct)
  case (1 n)
  have "''0123456789abcdef'' ! (n mod 16) \<in> set ''0123456789abcdef''" by (intro nth_mem) simp
  then show ?case using 1 by (subst hexText.simps) (auto simp del: List.nth_Cons_numeral)
qed

lemma natText_plain: "CHR ''/'' \<notin> set (natText n)"
proof (induction n rule: natText.induct)
  case (1 n)
  have "CHR ''/'' \<noteq> char_of (48 + d)" if "d < 10" for d :: nat
  proof
    assume "CHR ''/'' = char_of (48 + d)"
    then have "of_char (CHR ''/'') = (of_char (char_of (48 + d)) :: nat)" by simp
    then show False using that by (simp add: of_char_of)
  qed
  then show ?case using 1 by (subst natText.simps) auto
qed

lemma dispatchName_plain: "CHR ''/'' \<notin> set (dispatchName u k)" "dispatchName u k \<noteq> []" "dispatchName u k \<noteq> ''dispatch''"
  "dispatchName u k \<noteq> ''allocations''"
proof -
  show "CHR ''/'' \<notin> set (dispatchName u k)"
    using hexText_plain [of k] natText_plain
    by (auto simp: dispatchName_def intText_def hex6_def Let_def split: if_splits)
qed (simp_all add: dispatchName_def)

subsection \<open>Live children of the fake server\<close>

definition kidsOf :: "string \<Rightarrow> fserver \<Rightarrow> child set" where
  "kidsOf p s =
    {(n, c, k). \<exists>j. map_of (fsJobs s) c = Some j \<and> fjParentID j = p \<and> jobStatus s c = ''running''
       \<and> mapGet (fjMeta j) ''gc_session'' = n \<and> mapGet (fjMeta j) ''gc_nonce'' = k}"

text \<open>The job this configuration registers: its ID, its namespace and the row it has in a listing.\<close>

definition specFields :: "lifecycle \<Rightarrow> (string \<times> json) list" where
  "specFields l = objOf (Some (lcSpec l))"

definition specNamespace :: "lifecycle \<Rightarrow> string" where
  "specNamespace l = (let ns = strOr ''Namespace'' (specFields l) in if ns = [] then ''default'' else ns)"

definition ownSpec :: "lifecycle \<Rightarrow> bool" where
  "ownSpec l \<longleftrightarrow> lcParentJobID l \<noteq> [] \<and> CHR ''/'' \<notin> set (lcParentJobID l)
    \<and> strOr ''ID'' (specFields l) = lcParentJobID l \<and> specNamespace l = clNamespace (lcClient l)"

text \<open>What the lifecycle's own requests keep of the server: a job filed under the parent was dispatched from it, in the
  client's namespace, and no fault is scripted.\<close>

definition jobHere :: "string \<Rightarrow> string \<Rightarrow> string \<times> fjob \<Rightarrow> bool" where
  "jobHere p ns e \<longleftrightarrow>
    (fjParentID (snd e) = p \<longrightarrow> fjNamespace (snd e) = ns \<and> (\<exists>u k. fst e = childIDOf p u k)) \<and> (fst e = p \<longrightarrow> fjNamespace (snd e) = ns)"

definition serverOK :: "string \<Rightarrow> string \<Rightarrow> fserver \<Rightarrow> bool" where
  "serverOK p ns s \<longleftrightarrow> server_inv s \<and> fsFaults s = [] \<and> \<not> fsAllocListErr s \<and> (\<forall>e \<in> set (fsJobs s). jobHere p ns e)"

definition clusterOK :: "lifecycle \<Rightarrow> fserver \<Rightarrow> bool" where
  "clusterOK l s \<longleftrightarrow> ownSpec l \<and> serverOK (lcParentJobID l) (clNamespace (lcClient l)) s"

text \<open>An upper bound of the text of a listing: no status is longer than \<^verbatim>\<open>running\<close>.\<close>

definition rowBulk :: "fjob \<Rightarrow> nat" where
  "rowBulk j = length (jsonText (JObj ([(''ID'', JStr (fjID j)), (''ParentID'', JStr (fjParentID j)), (''Namespace'', JStr (fjNamespace j)),
           (''NodePool'', JStr (fjNodePool j)), (''Status'', JStr ''running'')]
          @ (if fjMeta j \<noteq> [] then [(''Meta'', encStrMap (rev (fjMeta j)))] else []))))"

definition listingBulk :: "(string \<times> fjob) list \<Rightarrow> nat" where
  "listingBulk jobs = sum_list (map (\<lambda>(i, j). rowBulk j + 1) jobs) + 3"

definition specJob :: "lifecycle \<Rightarrow> fjob" where
  "specJob l = \<lparr>fjID = lcParentJobID l, fjNamespace = specNamespace l, fjNodePool = strOr ''NodePool'' (specFields l),
     fjParentID = [], fjDispatched = False, fjMeta = mapOr ''Meta'' (specFields l), fjModifyIndex = 0, fjTasks = [], fjPortLabels = []\<rparr>"

text \<open>The listing fits into a response, before and after the parent is registered.\<close>

definition listingFits :: "lifecycle \<Rightarrow> fserver \<Rightarrow> bool" where
  "listingFits l s \<longleftrightarrow>
    listingBulk (fsJobs s) \<le> maxResponseByte \<and> listingBulk (mapSet (lcParentJobID l) (specJob l) (fsJobs s)) \<le> maxResponseByte"

subsection \<open>What the handlers of the server do to them\<close>

abbreviation ends :: "lifecycle \<Rightarrow> fserver \<Rightarrow> fserver \<Rightarrow> bool" where
  "ends l \<equiv> endsOnly (kidsOf (lcParentJobID l)) (clusterOK l) (listingFits l)"

text \<open>Nothing that matters changed.\<close>

lemma ends_same:
  assumes "clusterOK l s" and "server_inv s'" and "fsJobs s' = fsJobs s" and "fsAllocs s' = fsAllocs s"
    and "fsFaults s' = fsFaults s" and "fsAllocListErr s' = fsAllocListErr s"
  shows "ends l s s'"
  using assms by (auto simp: endsOnly_def clusterOK_def serverOK_def kidsOf_def listingFits_def jobStatus_def)

lemma serve_plain:
  assumes "fsFaults s = []"
  shows "serveHTTP host unix r s =
    (let s1 = s\<lparr>fsTrace := fsTrace s @ [rqMethod r @ '' '' @ rqPath r]\<rparr>; parts = splitPath (rqPath r) in
     if 3 \<le> length parts \<and> take 2 parts = [''v1'', ''job''] then routeJob host unix r (drop 2 parts) s1 else routeOther r parts s1)"
  using assms by (simp add: serveHTTP_def takeFaultFor_def Let_def)

lemma serve_job:
  assumes "fsFaults s = []" and "splitPath (rqPath r) = ''v1'' # ''job'' # rest" and "rest \<noteq> []"
  shows "\<exists>t. serveHTTP host unix r s = routeJob host unix r rest (s\<lparr>fsTrace := t\<rparr>)"
  using assms(3) unfolding serve_plain [OF assms(1)] assms(2) Let_def by (cases rest) auto

lemma ends_trans: "ends l s t \<Longrightarrow> ends l t u \<Longrightarrow> ends l s u"
  by (auto simp: endsOnly_def)

lemma ends_trace: "clusterOK l s \<Longrightarrow> ends l s (s\<lparr>fsTrace := t\<rparr>)"
  by (rule ends_same) (auto simp: clusterOK_def serverOK_def)

lemma clusterOK_trace [simp]: "clusterOK l (s\<lparr>fsTrace := t\<rparr>) = clusterOK l s"
  by (simp add: clusterOK_def serverOK_def)

text \<open>A request is logged and routed.\<close>

lemma ends_route:
  assumes "clusterOK l s"
    and "\<And>t. clusterOK l t \<Longrightarrow> 3 \<le> length (splitPath (rqPath r)) \<Longrightarrow> take 2 (splitPath (rqPath r)) = [''v1'', ''job''] \<Longrightarrow>
      ends l t (snd (routeJob host unix r (drop 2 (splitPath (rqPath r))) t))"
    and "\<And>t. clusterOK l t \<Longrightarrow> ends l t (snd (routeOther r (splitPath (rqPath r)) t))"
  shows "ends l s (snd (serveHTTP host unix r s))"
proof -
  define t where "t = s\<lparr>fsTrace := fsTrace s @ [rqMethod r @ '' '' @ rqPath r]\<rparr>"
  have t: "clusterOK l t" "ends l s t" using assms(1) by (simp_all add: t_def ends_trace)
  have "fsFaults s = []" using assms(1) by (simp add: clusterOK_def serverOK_def)
  from serve_plain [OF this, of host unix r] show ?thesis
    unfolding t_def [symmetric] Let_def
    using ends_trans [OF t(2) assms(2) [OF t(1)]] ends_trans [OF t(2) assms(3) [OF t(1)]] by simp
qed

lemma ends_refl: "clusterOK l s \<Longrightarrow> ends l s s"
  by (simp add: endsOnly_def)

lemma ends_read: "clusterOK l s \<Longrightarrow> rqMethod r = ''GET'' \<Longrightarrow> ends l s (snd (serveHTTP host unix r s))"
  by (rule ends_route) (simp_all add: routeJob_def routeOther_def Let_def handlers_read_only ends_refl)

lemma deregister_ends:
  assumes "clusterOK l s" and "mapGet (rqQuery r) ''purge'' \<noteq> ''true''"
  shows "ends l s (snd (srv_deregisterJob r j s))"
proof (cases "map_of (fsJobs s) j")
  case None
  then show ?thesis using assms(1) by (simp add: srv_deregisterJob_def ends_refl)
next
  case (Some job)
  let ?t = "snd (srv_deregisterJob r j s)"
  have jobs: "fsJobs ?t = fsJobs s" "fsFaults ?t = fsFaults s" "fsAllocListErr ?t = fsAllocListErr s"
    and allocs: "fsAllocs ?t = map (\<lambda>(i, a). (i, stopAlloc j (fsIndex s + 1) a)) (fsAllocs s)"
    using Some assms(2) by (simp_all add: srv_deregisterJob_def bumpIndex_def Let_def)
  have stop: "faJobID (stopAlloc j x a) = faJobID a"
    "terminalAllocStatus (faClientStatus a) \<Longrightarrow> terminalAllocStatus (faClientStatus (stopAlloc j x a))" for x a
    by (auto simp: stopAlloc_def terminalAllocStatus_def)
  have "jobStatus s c = ''running''" if "jobStatus ?t c = ''running''" for c
    using that stop by (fastforce simp: jobStatus_def allocs list_ex_iff split: if_splits)
  then have "kidsOf (lcParentJobID l) ?t \<subseteq> kidsOf (lcParentJobID l) s" by (auto simp: kidsOf_def jobs)
  then show ?thesis
    using assms(1) jobs server_inv_deregister [of s r j] by (simp add: endsOnly_def clusterOK_def serverOK_def listingFits_def)
qed

lemma ends_deregister:
  "clusterOK l s \<Longrightarrow> rqMethod r = ''DELETE'' \<Longrightarrow> mapGet (rqQuery r) ''purge'' \<noteq> ''true'' \<Longrightarrow>
    ends l s (snd (serveHTTP host unix r s))"
  by (rule ends_route) (simp_all add: routeJob_def routeOther_def Let_def handlers_read_only ends_refl deregister_ends)

text \<open>Registering the parent again.\<close>

lemma registered_job:
  assumes "ownSpec l"
  shows "\<exists>J s1. snd (srv_registerJob (registerRequest l) [] s) = s1\<lparr>fsJobs := mapSet (lcParentJobID l) J (fsJobs s)\<rparr>
    \<and> fsAllocs s1 = fsAllocs s \<and> fsFaults s1 = fsFaults s \<and> fsAllocListErr s1 = fsAllocListErr s
    \<and> fjParentID J = [] \<and> fjNamespace J = clNamespace (lcClient l) \<and> rowBulk J = rowBulk (specJob l)"
proof -
  have job: "objOf (jfield ''Job'' (objOf (rqBody (registerRequest l)))) = specFields l"
    by (simp add: registerRequest_def objOf_def specFields_def jfield_def)
  show ?thesis
    using assms unfolding srv_registerJob_def job Let_def
    by (auto simp: ownSpec_def specNamespace_def bumpIndex_def rowBulk_def specJob_def Let_def
        intro!: exI [of _ "s\<lparr>fsIndex := fsIndex s + 1\<rparr>"])
qed

lemma register_ends:
  assumes "clusterOK l s"
  shows "ends l s (snd (srv_registerJob (registerRequest l) [] s))"
proof -
  let ?p = "lcParentJobID l" and ?t = "snd (srv_registerJob (registerRequest l) [] s)"
  have own: "ownSpec l" "?p \<noteq> []" using assms by (simp_all add: clusterOK_def serverOK_def ownSpec_def)
  obtain J s1 where J: "?t = s1\<lparr>fsJobs := mapSet ?p J (fsJobs s)\<rparr>" "fsAllocs s1 = fsAllocs s" "fsFaults s1 = fsFaults s"
      "fsAllocListErr s1 = fsAllocListErr s" "fjParentID J = []" "fjNamespace J = clNamespace (lcClient l)" "rowBulk J = rowBulk (specJob l)"
    using registered_job [OF own(1), of s] by auto
  have "jobStatus ?t c = jobStatus s c" for c by (simp add: J(1,2) jobStatus_def)
  then have "kidsOf (lcParentJobID l) ?t \<subseteq> kidsOf (lcParentJobID l) s"
    using own(2) J(5) by (auto simp: kidsOf_def J(1) split: if_splits)
  moreover have "server_inv ?t" using assms by (intro server_inv_register) (simp add: clusterOK_def serverOK_def)
  moreover have "\<forall>e \<in> set (fsJobs ?t). jobHere (lcParentJobID l) (clNamespace (lcClient l)) e"
    using assms own(2) J(5,6) by (auto simp: J(1) set_mapSet clusterOK_def serverOK_def jobHere_def)
  moreover have "listingFits l ?t" if "listingFits l s"
    using that J(7) by (simp add: listingFits_def J(1) listingBulk_def mapSet_def)
  ultimately show ?thesis
    using assms J(3,4) by (simp add: endsOnly_def clusterOK_def serverOK_def J(1))
qed

lemma ends_register:
  assumes "clusterOK l s"
  shows "ends l s (snd (serveHTTP host unix (registerRequest l) s))"
proof -
  have "splitPath ''/v1/jobs'' = [''v1'', ''jobs'']" by code_simp
  then have "splitPath (rqPath (registerRequest l)) = [''v1'', ''jobs'']" "rqMethod (registerRequest l) = ''POST''"
    by (simp_all add: registerRequest_def)
  then show ?thesis
    using assms by (intro ends_route) (simp_all add: routeOther_def Let_def register_ends)
qed

text \<open>A dispatch adds the child it answers with, and no other.\<close>

lemma jobStatus_frame:
  assumes "distinct (map fst (fsAllocs t))" and "\<And>k. k \<noteq> i \<Longrightarrow> map_of (fsAllocs t) k = map_of (fsAllocs s) k"
    and "\<And>a. map_of (fsAllocs t) i = Some a \<Longrightarrow> faJobID a = c" and "c' \<noteq> c" and "jobStatus t c' = ''running''"
  shows "jobStatus s c' = ''running''"
proof -
  obtain k a where a: "(k, a) \<in> set (fsAllocs t)" "faJobID a = c'" "\<not> terminalAllocStatus (faClientStatus a)"
    using assms(5) by (auto simp: jobStatus_def list_ex_iff split: if_splits)
  then have m: "map_of (fsAllocs t) k = Some a" using assms(1) by simp
  then have "k \<noteq> i" using assms(3,4) a(2) by auto
  then have "(k, a) \<in> set (fsAllocs s)" using m assms(2) map_of_SomeD by metis
  then show ?thesis using a by (auto simp: jobStatus_def list_ex_iff)
qed

lemma startTasks_faults: "fsFaults (startTasksFrom host i k ts s) = fsFaults s"
proof (induction ts arbitrary: k s)
  case (Cons t ts)
  have "fsFaults (startMainTask host i t s) = fsFaults s" "fsFaults (startSideTask host i t s) = fsFaults s"
    by (auto simp: startMainTask_def startSideTask_def touchAlloc_def bumpIndex_def Let_def split: taskFate.split option.split)
  then show ?case by (simp add: Cons)
qed simp

lemma objOf_object: "objOf (Some (JObj fs)) = fs"
  by (simp add: objOf_def)

lemma dispatched_field:
  "strOr ''DispatchedJobID'' [(''DispatchedJobID'', JStr c), (''Index'', x)] = c"
  "strOr ''DispatchedJobID'' [(''DispatchedJobID'', JStr c), (''EvalID'', y), (''Index'', x), (''JobCreateIndex'', z)] = c"
  by (simp_all add: strOr_def strField_def jfield_def)

lemma dispatch_state:
  assumes "server_inv s" and "map_of (fsJobs s) p = Some parent" and "srv_dispatchJob host unix r p s = (rs, t)"
  defines "c \<equiv> childIDOf p unix (fsDispSeq s + 1)" and "i \<equiv> allocIDOf (fsDispSeq s + 1)"
  shows "rsStatus rs = 200 \<and> strOr ''DispatchedJobID'' (objOf (rsDoc rs)) = c
    \<and> fsJobs t = mapSet c (childOf parent p c (mapOr ''Meta'' (objOf (rqBody r))) (fsIndex s + 1)) (fsJobs s)
    \<and> fsFaults t = fsFaults s \<and> fsAllocListErr t = fsAllocListErr s
    \<and> (\<forall>k. k \<noteq> i \<longrightarrow> map_of (fsAllocs t) k = map_of (fsAllocs s) k) \<and> (\<forall>a. map_of (fsAllocs t) i = Some a \<longrightarrow> faJobID a = c)"
proof -
  let ?meta = "mapOr ''Meta'' (objOf (rqBody r))"
  obtain ports s3 where rec: "recordChild unix ?meta p parent s = (c, ports, s3)"
    unfolding c_def recordChild_def Let_def by (simp add: case_prod_beta)
  have s3: "fsJobs s3 = mapSet c (childOf parent p c ?meta (fsIndex s + 1)) (fsJobs s)"
    "fsAllocs s3 = fsAllocs s" "fsFaults s3 = fsFaults s" "fsAllocListErr s3 = fsAllocListErr s" "fsDispSeq s3 = fsDispSeq s + 1"
    using rec by (auto simp: recordChild_def Let_def case_prod_beta)
  obtain s5 where place: "placeChild parent c ports s3 = (i, s5)"
    by (simp add: placeChild_def Let_def i_def s3(5))
  have s5: "fsJobs s5 = fsJobs s3" "fsFaults s5 = fsFaults s3" "fsAllocListErr s5 = fsAllocListErr s3"
    "map_of (fsAllocs s5) = (map_of (fsAllocs s))(i \<mapsto> pendingAlloc i c (fjNamespace parent) (fsIndex s3 + 1) ports)"
    using place s3(2,5) by (auto simp: placeChild_def Let_def i_def)
  have t: "t = (if fsNoPlaceAllocs s3 then s3 else startTasksFrom host i 0 (fjTasks parent) s5)"
    and rs: "rsStatus rs = 200" "strOr ''DispatchedJobID'' (objOf (rsDoc rs)) = c"
    using assms(2,3) by (auto simp: srv_dispatchJob_def rec place startAllTasks_def writeJSON_def objOf_object dispatched_field split: if_splits)
  have none: "map_of (fsAllocs s) i = None" using fresh_alloc [OF assms(1)] by (simp add: i_def)
  obtain a where a: "map_of (fsAllocs (startTasksFrom host i 0 (fjTasks parent) s5)) i = Some a" "faJobID a = c"
    using startTasks_main [of s5 i _ host "fjTasks parent"] s5(4) by (auto simp: pendingAlloc_def)
  show ?thesis
    using rs s3 s5 a none startTasks_frame [of host i 0 "fjTasks parent" s5] by (auto simp: t startTasks_faults)
qed

lemma dispatch_adds:
  assumes "clusterOK l s" and "srv_dispatchJob host unix r (lcParentJobID l) s = (rs, t)"
    and "mapGet (mapOr ''Meta'' (objOf (rqBody r))) ''gc_session'' = n" and "mapGet (mapOr ''Meta'' (objOf (rqBody r))) ''gc_nonce'' = k"
  shows "clusterOK l t \<and> (rsStatus rs \<noteq> 200 \<and> kidsOf (lcParentJobID l) t \<subseteq> kidsOf (lcParentJobID l) s
    \<or> rsStatus rs = 200 \<and> kidsOf (lcParentJobID l) t \<subseteq> insert (n, strOr ''DispatchedJobID'' (objOf (rsDoc rs)), k) (kidsOf (lcParentJobID l) s))"
proof (cases "map_of (fsJobs s) (lcParentJobID l)")
  case None
  then show ?thesis
    using assms(1,2) by (auto simp: srv_dispatchJob_def writeJSONError_def writeJSON_def)
next
  case (Some parent)
  let ?p = "lcParentJobID l"
  have inv: "server_inv s" and here: "\<forall>e \<in> set (fsJobs s). jobHere (lcParentJobID l) (clNamespace (lcClient l)) e" and p: "?p \<noteq> []" "CHR ''/'' \<notin> set ?p"
    using assms(1) by (simp_all add: clusterOK_def serverOK_def ownSpec_def)
  have inv': "server_inv t" using server_inv_dispatch [OF inv, of host unix r ?p] assms(2) by simp
  define c where "c = childIDOf ?p unix (fsDispSeq s + 1)"
  note st = dispatch_state [OF inv Some assms(2), folded c_def]
  have np: "c \<noteq> ?p" using p(2) by (auto simp: c_def childIDOf_def)
  have ns: "fjNamespace parent = clNamespace (lcClient l)"
    using here map_of_SomeD [OF Some] by (auto simp: jobHere_def)
  have "\<exists>u k. c = childIDOf ?p u k" unfolding c_def by blast
  then have "jobHere (lcParentJobID l) (clNamespace (lcClient l)) (c, childOf parent ?p c m x)" for m x
    using np ns by (simp add: jobHere_def childOf_def)
  moreover have jobs: "fsJobs t = mapSet c (childOf parent ?p c (mapOr ''Meta'' (objOf (rqBody r))) (fsIndex s + 1)) (fsJobs s)"
    using st by blast
  ultimately have "jobHere (lcParentJobID l) (clNamespace (lcClient l)) e" if "e \<in> set (fsJobs t)" for e
    using that here unfolding jobs set_mapSet by auto
  then have "clusterOK l t" using assms(1) st inv' by (simp add: clusterOK_def serverOK_def)
  moreover have "kidsOf (lcParentJobID l) t \<subseteq> insert (n, c, k) (kidsOf (lcParentJobID l) s)"
  proof
    fix e assume "e \<in> kidsOf (lcParentJobID l) t"
    then obtain n' c' k' j where e: "e = (n', c', k')" "map_of (fsJobs t) c' = Some j" "fjParentID j = ?p"
        "jobStatus t c' = ''running''" "mapGet (fjMeta j) ''gc_session'' = n'" "mapGet (fjMeta j) ''gc_nonce'' = k'"
      by (auto simp: kidsOf_def)
    show "e \<in> insert (n, c, k) (kidsOf (lcParentJobID l) s)"
    proof (cases "c' = c")
      case True
      then show ?thesis using e st assms(3,4) by (auto simp: childOf_def)
    next
      case False
      then have "jobStatus s c' = ''running''"
        using jobStatus_frame [of t "allocIDOf (fsDispSeq s + 1)" s c c'] st e(4) inv' by (simp add: server_inv_def)
      then show ?thesis using e st False by (auto simp: kidsOf_def)
    qed
  qed
  ultimately show ?thesis using st by auto
qed

subsection \<open>What the client reads\<close>

lemma row_fields:
  defines "base i p ns np st \<equiv> [(''ID'', JStr i), (''ParentID'', JStr p), (''Namespace'', JStr ns), (''NodePool'', JStr np), (''Status'', JStr st)]"
  shows "decJobRow (base i p ns np st) = Some \<lparr>jrID = i, jrParentID = p, jrNamespace = ns, jrStatus = st, jrMeta = []\<rparr>"
    and "decStrMap fs = Some m \<Longrightarrow> decJobRow (base i p ns np st @ [(''Meta'', JObj fs)])
      = Some \<lparr>jrID = i, jrParentID = p, jrNamespace = ns, jrStatus = st, jrMeta = m\<rparr>"
proof -
  have "lowerChar (CHR ''N'') \<noteq> lowerChar (CHR ''P'')" by code_simp
  then show "decJobRow (base i p ns np st) = Some \<lparr>jrID = i, jrParentID = p, jrNamespace = ns, jrStatus = st, jrMeta = []\<rparr>"
    and "decStrMap fs = Some m \<Longrightarrow> decJobRow (base i p ns np st @ [(''Meta'', JObj fs)])
      = Some \<lparr>jrID = i, jrParentID = p, jrNamespace = ns, jrStatus = st, jrMeta = m\<rparr>"
    unfolding base_def by (simp_all add: decJobRow_def strField_def mapField_def jfield_def)
qed

lemma decStrMap_enc: "decStrMap (map (\<lambda>(k, v). (k, JStr v)) m) = Some (rev m)"
proof -
  have "those (map (\<lambda>(k, v). case v of JStr s \<Rightarrow> Some (k, s) | JNull \<Rightarrow> Some (k, []) | _ \<Rightarrow> None) (map (\<lambda>(k, v). (k, JStr v)) xs)) = Some xs"
    for xs :: gomap by (induction xs) auto
  from this [of "rev m"] show ?thesis by (simp add: decStrMap_def rev_map)
qed

definition rowOf :: "fserver \<Rightarrow> fjob \<Rightarrow> jobRow" where
  "rowOf s j = \<lparr>jrID = fjID j, jrParentID = fjParentID j, jrNamespace = fjNamespace j, jrStatus = jobStatus s (fjID j), jrMeta = fjMeta j\<rparr>"

lemma decJobRow_entry: "\<exists>fs. jobListEntry True s j = JObj fs \<and> decJobRow fs = Some (rowOf s j)"
  using row_fields(1) row_fields(2) [OF decStrMap_enc, of _ _ _ _ _ "rev (fjMeta j)"]
  by (auto simp: jobListEntry_def rowOf_def encStrMap_def)

lemma decList_entries: "decList decJobRow (JArr (map (\<lambda>(i, j). jobListEntry True s j) jobs)) = Some (map (\<lambda>(i, j). rowOf s j) jobs)"
proof -
  have "(case jobListEntry True s j of JObj fs \<Rightarrow> decJobRow fs | JNull \<Rightarrow> decJobRow [] | _ \<Rightarrow> None) = Some (rowOf s j)" for j
    using decJobRow_entry [of s j] by auto
  then show ?thesis
    by (induction jobs) (auto simp: decList_def)
qed

lemma fakeHttp_run:
  "fakeHttp host rq w = (Ok (fst (serveHTTP host (fwClock w div second) rq (fwServer w))),
     \<lparr>fwServer = snd (serveHTTP host (fwClock w div second) rq (fwServer w)), fwClock = fwClock w + 1\<rparr>)"
  by (simp add: fakeHttp_def case_prod_beta)

lemma joinStrings_length: "length (joinStrings d xs) \<le> sum_list (map (\<lambda>x. length x + length d) xs)"
  by (induction d xs rule: joinStrings.induct) auto

lemma entry_length: "length (jsonText (jobListEntry True s j)) \<le> rowBulk j"
proof -
  have "length (jsonQuote ''dead'') \<le> length (jsonQuote ''running'')" by code_simp
  moreover have "jobStatus s (fjID j) = ''running'' \<or> jobStatus s (fjID j) = ''dead''" by (simp add: jobStatus_def)
  ultimately show ?thesis by (auto simp: jobListEntry_def rowBulk_def)
qed

lemma listing_length: "length (jsonText (JArr (map (\<lambda>(i, j). jobListEntry True s j) jobs)) @ [CHR 0x0A]) \<le> listingBulk jobs"
proof -
  have "sum_list (map (\<lambda>x. length x + length '','') (map jsonText (map (\<lambda>(i, j). jobListEntry True s j) jobs)))
      \<le> sum_list (map (\<lambda>(i, j). rowBulk j + 1) jobs)"
    using entry_length by (induction jobs) (auto simp: add_mono)
  from order_trans [OF joinStrings_length this] show ?thesis by (simp add: listingBulk_def)
qed

text \<open>The listing of the jobs: the rows, or an error when the text is too long.\<close>

lemma fake_listing:
  fixes host run
  assumes "clusterOK l (fwServer w)"
  shows "fst (listChildJobs (envNomad (fakeEnv host run)) (lcClient l) (lcParentJobID l) w) = Ok cs \<Longrightarrow>
      cs = childrenOf (lcParentJobID l) (map (\<lambda>(i, j). rowOf (fwServer w) j) (fsJobs (fwServer w)))" (is "?r = _ \<Longrightarrow> _")
    and "listingFits l (fwServer w) \<Longrightarrow>
      \<exists>cs. fst (listChildJobs (envNomad (fakeEnv host run)) (lcClient l) (lcParentJobID l) w) = Ok cs"
proof -
  let ?s = "fwServer w" and ?c = "lcClient l"
  let ?q = "mapSet ''meta'' ''true'' (nsQuery ?c)"
  let ?rq = "\<lparr>rqMethod = ''GET'', rqPath = urlPath [''v1'', ''jobs''], rqQuery = ?q, rqBody = None, rqToken = clToken ?c\<rparr>"
  let ?body = "JArr (map (\<lambda>(i, j). jobListEntry True ?s j) (fsJobs ?s))"
  let ?text = "jsonText ?body @ [CHR 0x0A]"
  let ?cs = "childrenOf (lcParentJobID l) (map (\<lambda>(i, j). rowOf ?s j) (fsJobs ?s))"
  have rs: "fst (serveHTTP host u ?rq ?s) = writeJSON 200 (natText (fsIndex ?s)) ?body" for u
  proof -
    have "splitPath (urlPath [''v1'', ''jobs'']) = [''v1'', ''jobs'']" by code_simp
    moreover have "jobStatus (?s\<lparr>fsTrace := t\<rparr>) = jobStatus ?s" for t by (simp add: jobStatus_def fun_eq_iff)
    moreover have "mapGet ?q ''meta'' = ''true''" by (simp add: mapGet_def)
    ultimately show ?thesis
      using assms by (simp add: serve_plain clusterOK_def serverOK_def routeOther_def srv_listJobs_def jobListEntry_def Let_def)
  qed
  have bracket: "\<forall>p \<in> set spaceCodes. CHR ''['' \<notin> set p" by code_simp
  have run: "fst (doIndexed (envNomad (fakeEnv host run)) ?c ''GET'' [''v1'', ''jobs''] ?q None (decList decJobRow) [] w) =
      (if length ?text \<le> maxResponseByte
       then Ok (parsedUint64 (natText (fsIndex ?s)), map (\<lambda>(i, j). rowOf ?s j) (fsJobs ?s))
       else Err (EWrap ''decoding nomad response: '' (ENew ''invalid JSON'') []))"
  proof (cases "length ?text \<le> maxResponseByte")
    case True
    have "trimSpace ?text \<noteq> []" by (rule trimSpace_nonempty [OF bracket]) simp
    then show ?thesis
      using True decList_entries [of ?s "fsJobs ?s"]
      by (simp add: doIndexed_def bindS_def wrapS_def fakeHttp_run rs readBody_def returnS_def limitBody_def writeJSON_def Let_def del: jsonText.simps)
  next
    case False
    have "trimSpace (take maxResponseByte ?text) \<noteq> []"
      by (rule trimSpace_nonempty [OF bracket]) (simp add: maxResponseByte_def)
    then show ?thesis
      using False
      by (simp add: doIndexed_def bindS_def wrapS_def fakeHttp_run rs readBody_def returnS_def failS_def limitBody_def writeJSON_def Let_def del: jsonText.simps)
  qed
  then have r: "fst (listChildJobs (envNomad (fakeEnv host run)) ?c (lcParentJobID l) w) = Ok ?cs
      \<or> \<not> length ?text \<le> maxResponseByte \<and> (\<exists>e. fst (listChildJobs (envNomad (fakeEnv host run)) ?c (lcParentJobID l) w) = Err e)"
    by (cases "doIndexed (envNomad (fakeEnv host run)) ?c ''GET'' [''v1'', ''jobs''] ?q None (decList decJobRow) [] w")
      (auto simp: listChildJobs_def bindS_def wrapS_def returnS_def split: if_splits simp del: jsonText.simps)
  then show "?r = Ok cs \<Longrightarrow> cs = ?cs" by auto
  show "\<exists>cs. ?r = Ok cs" if "listingFits l ?s"
    using r that listing_length [of ?s "fsJobs ?s"] unfolding listingFits_def by (meson order_trans)
qed

text \<open>The children in the listing that are not terminal are the live ones.\<close>

lemma listed_children:
  assumes "clusterOK l s"
  defines "cs \<equiv> childrenOf (lcParentJobID l) (map (\<lambda>(i, j). rowOf s j) (fsJobs s))"
  shows "(n, c, k) \<in> kidsOf (lcParentJobID l) s \<longleftrightarrow> (\<exists>ch \<in> set cs. \<not> cjTerminal ch \<and> cjID ch = c
      \<and> mapGet (cjMeta ch) ''gc_session'' = n \<and> mapGet (cjMeta ch) ''gc_nonce'' = k)"
    and "ch \<in> set cs \<Longrightarrow> cjNamespace ch = clNamespace (lcClient l)"
proof -
  have inv: "distinct (map fst (fsJobs s))" "\<And>i j. (i, j) \<in> set (fsJobs s) \<Longrightarrow> fjID j = i"
    using assms(1) by (auto simp: clusterOK_def serverOK_def server_inv_def jobOK_def)
  have lookup: "map_of (fsJobs s) i = Some j \<longleftrightarrow> (i, j) \<in> set (fsJobs s)" for i j
    using inv(1) map_of_SomeD by fastforce
  show "(n, c, k) \<in> kidsOf (lcParentJobID l) s \<longleftrightarrow> (\<exists>ch \<in> set cs. \<not> cjTerminal ch \<and> cjID ch = c
      \<and> mapGet (cjMeta ch) ''gc_session'' = n \<and> mapGet (cjMeta ch) ''gc_nonce'' = k)"
    using inv(2) unfolding cs_def childrenOf_def kidsOf_def rowOf_def lookup
    by (force simp: image_iff)
  show "ch \<in> set cs \<Longrightarrow> cjNamespace ch = clNamespace (lcClient l)"
    using assms(1) unfolding cs_def childrenOf_def rowOf_def clusterOK_def serverOK_def jobHere_def by fastforce
qed

text \<open>The allocations of a live child.\<close>

lemma allocations_path:
  assumes "ownSpec l"
  shows "splitPath (''/v1/job/'' @ childIDOf (lcParentJobID l) u k @ ''/allocations'') =
    [''v1'', ''job'', lcParentJobID l, dispatchName u k, ''allocations'']"
  using splitPath_parts [of "[''v1'', ''job'', lcParentJobID l, dispatchName u k, ''allocations'']"] assms dispatchName_plain [of u k]
  by (simp add: ownSpec_def childIDOf_parts)

lemma status_field: "strOr ''ClientStatus'' (objOf (Some (allocJSON a))) = faClientStatus a"
proof -
  have "lowerChar (CHR ''l'') \<noteq> lowerChar (CHR ''o'')" by code_simp
  then show ?thesis by (simp add: allocJSON_def objOf_object strOr_def strField_def jfield_def)
qed

lemma fake_placed:
  assumes "clusterOK l (fwServer w)" and "(n, c, k) \<in> kidsOf (lcParentJobID l) (fwServer w)"
  shows "\<exists>as i. fst (listAllocsForJob (envNomad (fakeEnv host run)) (lcClient l) c 0 0 w) = Ok (as, i) \<and> someLive as"
proof -
  let ?s = "fwServer w"
  obtain j where j: "map_of (fsJobs ?s) c = Some j" "fjParentID j = lcParentJobID l" "jobStatus ?s c = ''running''"
    using assms(2) by (auto simp: kidsOf_def)
  then obtain u q where c: "c = childIDOf (lcParentJobID l) u q"
    using assms(1) map_of_SomeD [OF j(1)] by (auto simp: clusterOK_def serverOK_def jobHere_def)
  define rq where "rq = \<lparr>rqMethod = ''GET'', rqPath = ''/v1/job/'' @ c @ ''/allocations'', rqQuery = [(''namespace'', clNamespace (lcClient l))],
      rqBody = None, rqToken = []\<rparr>"
  let ?out = "map (\<lambda>(i, a). allocJSON a) (filter (\<lambda>(i, a). faJobID a = c) (fsAllocs ?s))"
  have own: "ownSpec l" using assms(1) by (simp add: clusterOK_def serverOK_def)
  have live: "\<exists>a. (\<exists>i. (i, a) \<in> set (fsAllocs ?s)) \<and> faJobID a = c \<and> \<not> terminalAllocStatus (faClientStatus a)"
    using j(3) by (auto simp: jobStatus_def list_ex_iff split: if_splits)
  then have some: "?out \<noteq> []" by (auto simp: filter_empty_conv)
  have rq: "fst (serveHTTP host x rq ?s) = writeJSON 200 (natText (fsIndex ?s)) (JArr ?out)" for x
  proof -
    have path: "splitPath (rqPath rq) = ''v1'' # ''job'' # [lcParentJobID l, dispatchName u q, ''allocations'']" and m: "rqMethod rq = ''GET''"
      using allocations_path [OF own, of u q] by (simp_all add: rq_def c)
    have clean: "fsFaults ?s = []" "\<not> fsAllocListErr ?s" using assms(1) by (simp_all add: clusterOK_def serverOK_def)
    obtain t where "serveHTTP host x rq ?s = routeJob host x rq [lcParentJobID l, dispatchName u q, ''allocations''] (?s\<lparr>fsTrace := t\<rparr>)"
      using serve_job [OF clean(1) path] by auto
    moreover have "joinStrings ''/'' [lcParentJobID l, dispatchName u q] = c" by (simp add: c childIDOf_parts)
    ultimately show ?thesis
      using m clean(2) some by (simp add: routeJob_def srv_listAllocsForJob_def Let_def del: joinStrings.simps)
  qed
  have "fst (listAllocsForJob (envNomad (fakeEnv host run)) (lcClient l) c 0 0 w) =
      Ok (map (\<lambda>j. allocRecordOf (decSdkAlloc j)) ?out, case parseUint64 (natText (fsIndex ?s)) of None \<Rightarrow> 0 | Some i \<Rightarrow> i)"
    unfolding listAllocsForJob_def fakeEnv_sel fakeAllocations_def rq_def [symmetric]
    by (simp add: bindS_def fakeHttp_run rq returnS_def writeJSON_def arrOf_def comp_def)
  moreover have "someLive (map (\<lambda>j. allocRecordOf (decSdkAlloc j)) ?out)"
    using live by (auto simp: someLive_def list_ex_iff allocRecordOf_def decSdkAlloc_def Let_def status_field
        isTerminalStatus_def terminalAllocStatus_def) 
  ultimately show ?thesis by blast
qed

subsection \<open>The fake server is such a cluster\<close>

lemma dispatchMeta_kept:
  "mapGet (rev (dispatchMeta fmt n k t img)) ''gc_session'' = n" "mapGet (rev (dispatchMeta fmt n k t img)) ''gc_nonce'' = k"
  by (simp_all add: dispatchMeta_def mapGet_def createdAtMetaKey_def agentImageMetaKey_def)

lemma fake_dispatched:
  assumes "clusterOK l (fwServer w)" and "fakeDispatch host (lcParentJobID l) (dispatchMeta fmt n k u img) ns token w = (r, w')"
  shows "clusterOK l (fwServer w') \<and> (kidsOf (lcParentJobID l) (fwServer w') \<subseteq> kidsOf (lcParentJobID l) (fwServer w)
    \<or> (\<exists>c. r = Ok (Some c) \<and> kidsOf (lcParentJobID l) (fwServer w') \<subseteq> insert (n, c, k) (kidsOf (lcParentJobID l) (fwServer w))))"
proof -
  let ?s = "fwServer w" and ?p = "lcParentJobID l" and ?x = "fwClock w div second" and ?m = "dispatchMeta fmt n k u img"
  define rq where "rq = \<lparr>rqMethod = ''POST'', rqPath = ''/v1/job/'' @ ?p @ ''/dispatch'',
      rqQuery = [(''namespace'', ns), (''idempotency_token'', token)], rqBody = Some (JObj [(''Meta'', encStrMap ?m)]), rqToken = []\<rparr>"
  have own: "ownSpec l" "fsFaults ?s = []" using assms(1) by (simp_all add: clusterOK_def serverOK_def)
  have path: "splitPath (rqPath rq) = ''v1'' # ''job'' # [?p, ''dispatch'']" and verb: "rqMethod rq = ''POST''"
    using splitPath_parts [of "[''v1'', ''job'', ?p, ''dispatch'']"] own(1) by (simp_all add: rq_def ownSpec_def)
  obtain t where "serveHTTP host ?x rq ?s = routeJob host ?x rq [?p, ''dispatch''] (?s\<lparr>fsTrace := t\<rparr>)"
    using serve_job [OF own(2) path] by auto
  then have serve: "serveHTTP host ?x rq ?s = srv_dispatchJob host ?x rq ?p (?s\<lparr>fsTrace := t\<rparr>)"
    using verb by (simp add: routeJob_def Let_def)
  obtain rs s' where out: "srv_dispatchJob host ?x rq ?p (?s\<lparr>fsTrace := t\<rparr>) = (rs, s')" by fastforce
  have meta: "mapOr ''Meta'' (objOf (rqBody rq)) = rev ?m"
    by (simp add: rq_def objOf_object mapOr_def mapField_def jfield_def encStrMap_def decStrMap_enc)
  have same: "kidsOf (lcParentJobID l) (?s\<lparr>fsTrace := t\<rparr>) = kidsOf (lcParentJobID l) ?s" by (simp add: kidsOf_def jobStatus_def)
  have adds: "clusterOK l s' \<and> (rsStatus rs \<noteq> 200 \<and> kidsOf (lcParentJobID l) s' \<subseteq> kidsOf (lcParentJobID l) ?s
      \<or> rsStatus rs = 200 \<and> kidsOf (lcParentJobID l) s' \<subseteq> insert (n, strOr ''DispatchedJobID'' (objOf (rsDoc rs)), k) (kidsOf (lcParentJobID l) ?s))"
    using dispatch_adds [OF _ out, where n = n and k = k] assms(1) dispatchMeta_kept unfolding meta same by simp
  have "r = (if rsStatus rs \<noteq> 200 then Err (sdkError rs) else Ok (Some (strOr ''DispatchedJobID'' (objOf (rsDoc rs)))))" "fwServer w' = s'"
    using assms(2) unfolding fakeDispatch_def rq_def [symmetric]
    by (auto simp: bindS_def fakeHttp_run serve out failS_def returnS_def split: if_splits)
  then show ?thesis using adds by auto
qed

interpretation fc: child_cluster "fakeEnv host run" l "\<lambda>w. kidsOf (lcParentJobID l) (fwServer w)" "\<lambda>w. clusterOK l (fwServer w)"
  "\<lambda>w. listingFits l (fwServer w)" for host run l
proof
  fix w :: fworld and rq ns j i d a t c x dur n cid k cs ch u img token r w'
  assume ok: "clusterOK l (fwServer w)"
  let ?E = "endsOnly (\<lambda>w. kidsOf (lcParentJobID l) (fwServer w)) (\<lambda>w. clusterOK l (fwServer w)) (\<lambda>w. listingFits l (fwServer w))"
  have E: "?E w \<lparr>fwServer = s, fwClock = y\<rparr>" if "ends l (fwServer w) s" for s y
    using that by (simp add: endsOnly_def)
  have read: "?E w (snd (fakeHttp host rq w))" if "rqMethod rq = ''GET''" for rq
    unfolding fakeHttp_run by (simp add: E ends_read ok that)
  show "?E w (snd (httpDo (envNomad (fakeEnv host run)) rq w))" if "rqMethod rq = ''GET''"
    using read that by simp
  show "?E w (snd (httpDo (envNomad (fakeEnv host run)) rq w))" if "rqMethod rq = ''DELETE''" "rqQuery rq = nsQuery (lcClient l)"
  proof -
    have "mapGet (rqQuery rq) ''purge'' \<noteq> ''true''" by (simp add: that nsQuery_def mapGet_def)
    then show ?thesis using that unfolding fakeEnv_sel fakeHttp_run by (simp add: E ends_deregister ok)
  qed
  show "?E w (snd (httpDo (envNomad (fakeEnv host run)) (registerRequest l) w))"
    unfolding fakeEnv_sel fakeHttp_run by (simp add: E ends_register ok)
  show "?E w (snd (sdkAllocations (envNomad (fakeEnv host run)) ns j i d w))"
    using read unfolding fakeEnv_sel fakeAllocations_def by (simp add: bindS_def fakeHttp_run failS_def returnS_def)
  show "?E w (snd (envExec (fakeEnv host run) a t c x w))" "?E w (snd (envNow (fakeEnv host run) w))"
    "?E w (envSleep (fakeEnv host run) dur w)" "?E w (snd (envRand (fakeEnv host run) w))"
    using ok by (simp_all add: fakeEnv_def endsOnly_def)
  show "cid \<noteq> []" if "(n, cid, k) \<in> kidsOf (lcParentJobID l) (fwServer w)"
    using that ok by (auto simp: kidsOf_def clusterOK_def serverOK_def server_inv_def jobOK_def dest!: map_of_SomeD)
  show "((n, cid, k) \<in> kidsOf (lcParentJobID l) (fwServer w)) = (\<exists>ch \<in> set cs. \<not> cjTerminal ch \<and> cjID ch = cid
      \<and> mapGet (cjMeta ch) ''gc_session'' = n \<and> mapGet (cjMeta ch) ''gc_nonce'' = k)"
    if "fst (listChildJobs (envNomad (fakeEnv host run)) (lcClient l) (lcParentJobID l) w) = Ok cs"
    using listed_children(1) [OF ok] fake_listing(1) [OF ok that] by simp
  show "cjNamespace ch = clNamespace (lcClient l)"
    if "fst (listChildJobs (envNomad (fakeEnv host run)) (lcClient l) (lcParentJobID l) w) = Ok cs" "ch \<in> set cs"
    using listed_children(2) [OF ok] fake_listing(1) [OF ok that(1)] that(2) by simp
  show "\<exists>cs. fst (listChildJobs (envNomad (fakeEnv host run)) (lcClient l) (lcParentJobID l) w) = Ok cs" if "listingFits l (fwServer w)"
    using fake_listing(2) [OF ok that] .
  show "\<exists>as i. fst (listAllocsForJob (envNomad (fakeEnv host run)) (lcClient l) cid 0 0 w) = Ok (as, i) \<and> someLive as"
    if "(n, cid, k) \<in> kidsOf (lcParentJobID l) (fwServer w)"
    using fake_placed [OF ok that] .
  show "clusterOK l (fwServer w') \<and> (kidsOf (lcParentJobID l) (fwServer w') \<subseteq> kidsOf (lcParentJobID l) (fwServer w)
      \<or> (\<exists>cid. r = Ok (Some cid) \<and> kidsOf (lcParentJobID l) (fwServer w') \<subseteq> insert (n, cid, k) (kidsOf (lcParentJobID l) (fwServer w))))"
    if "sdkDispatch (envNomad (fakeEnv host run)) (lcParentJobID l) (dispatchMeta (envFmtTime (fakeEnv host run)) n k u img) ns token w = (r, w')"
    using fake_dispatched [OF ok that [unfolded fakeEnv_sel]] .
qed

end
