(* ===== verification/Settings.thy ===== *)
theory Settings
  imports Adoption
begin

text \<open>
  How a process is configured (\<^verbatim>\<open>main.go\<close>, parts of \<^verbatim>\<open>client.go\<close>, \<^verbatim>\<open>sidecar.go\<close>, \<^verbatim>\<open>drain_ack.go\<close>
  and \<^verbatim>\<open>ops.go\<close>): the environment is read once into the lifecycle every operation runs
  with, and a setting that cannot be read stops the operation. The URL parser, the
  Nomad SDK, SHA-256, the regular expression compiler and the fraction arithmetic of
  \<^verbatim>\<open>time.ParseDuration\<close> are parameters.
\<close>

text \<open>\<^verbatim>\<open>nomadapi.TLSConfig\<close>, the part the pack sets.\<close>

record tlsSettings =
  tlsCACert :: string
  tlsClientCert :: string
  tlsClientKey :: string
  tlsServerName :: string

text \<open>
  \<open>libURL\<close> is \<^verbatim>\<open>url.Parse\<close>: the scheme, the host and the printed URL. \<open>libTLSDefaults\<close> is what
  the SDK's \<^verbatim>\<open>DefaultConfig\<close> reads from its own variables, \<open>libConfigureTLS\<close> answers whether
  verification ends up disabled, \<open>libNewSDK\<close> is \<^verbatim>\<open>nomadapi.NewClient\<close>. \<open>libFrac f digits unit\<close> is
  the whole number of nanoseconds of the fraction \<open>f / 10 ^ digits\<close> of a unit. \<open>libJSON\<close> is the
  tree a JSON text parses to.
\<close>

record libs =
  libURL :: "string \<Rightarrow> goerr + (string \<times> string \<times> string)"
  libTLSDefaults :: tlsSettings
  libConfigureTLS :: "tlsSettings \<Rightarrow> goerr + bool"
  libNewSDK :: "string \<Rightarrow> string \<Rightarrow> string \<Rightarrow> goerr option"
  libSHA :: "string \<Rightarrow> bytes"
  libRegexp :: "string \<Rightarrow> goerr option"
  libFrac :: "nat \<Rightarrow> nat \<Rightarrow> nat \<Rightarrow> nat"
  libJSON :: "string \<Rightarrow> json option"

subsection \<open>The client\<close>

definition envAlias :: "host \<Rightarrow> string \<Rightarrow> string \<Rightarrow> string \<Rightarrow> string" where
  "envAlias h primary fallback current =
    (if getenv h primary \<noteq> [] then getenv h primary
     else if getenv h fallback \<noteq> [] then getenv h fallback else current)"

definition applyGCNomadTLSConfig :: "host \<Rightarrow> tlsSettings \<Rightarrow> tlsSettings" where
  "applyGCNomadTLSConfig h c =
    \<lparr>tlsCACert = envAlias h ''GC_NOMAD_CACERT'' ''NOMAD_CACERT'' (tlsCACert c),
     tlsClientCert = envAlias h ''GC_NOMAD_CLIENT_CERT'' ''NOMAD_CLIENT_CERT'' (tlsClientCert c),
     tlsClientKey = envAlias h ''GC_NOMAD_CLIENT_KEY'' ''NOMAD_CLIENT_KEY'' (tlsClientKey c),
     tlsServerName = envAlias h ''GC_NOMAD_TLS_SERVER_NAME'' ''NOMAD_TLS_SERVER_NAME'' (tlsServerName c)\<rparr>"

definition tlsVerificationDisabledWarning :: string where
  "tlsVerificationDisabledWarning = ''warning: TLS certificate verification is DISABLED ''
    @ ''for the Nomad API and for the alloc-exec channel that carries staged secrets ''
    @ ''(NOMAD_SKIP_VERIFY is set in this environment). Unset it, or accept that secrets ''
    @ ''are staged over an unauthenticated TLS connection.''"

definition tlsVerificationWarning :: "bool \<Rightarrow> string" where
  "tlsVerificationWarning insecure = (if insecure then tlsVerificationDisabledWarning else [])"

text \<open>\<^verbatim>\<open>strconv.ParseBool\<close>.\<close>

definition parseBool :: "string \<Rightarrow> bool option" where
  "parseBool s =
    (if s \<in> {''1'', ''t'', ''T'', ''TRUE'', ''true'', ''True''} then Some True
     else if s \<in> {''0'', ''f'', ''F'', ''FALSE'', ''false'', ''False''} then Some False else None)"

definition skipVerifyRequested :: "host \<Rightarrow> bool" where
  "skipVerifyRequested h \<longleftrightarrow> parseBool (trimSpace (getenv h ''NOMAD_SKIP_VERIFY'')) = Some True"

definition newClient :: "libs \<Rightarrow> host \<Rightarrow> string \<Rightarrow> string \<Rightarrow> string \<Rightarrow> ('w lstate, client) prog" where
  "newClient lb h addr0 token namespace0 =
    (let addr = trimSpace addr0; namespace = (if namespace0 = [] then ''default'' else namespace0) in
     if addr = [] then failS (ENew ''nomad API address is required (set GC_NOMAD_ADDR)'')
     else case libURL lb addr of
       Inl e \<Rightarrow> failS (EWrap ''parsing nomad API address: '' e [])
     | Inr (scheme, hst, printed) \<Rightarrow>
         if scheme = [] \<or> hst = [] then failS (ENew (''nomad API address must be an absolute URL, got '' @ goQuote addr))
         else case libConfigureTLS lb (applyGCNomadTLSConfig h (libTLSDefaults lb)) of
           Inl e \<Rightarrow> failS (EWrap ''configuring nomad TLS: '' e [])
         | Inr insecure \<Rightarrow>
             bindS (whenS (tlsVerificationWarning insecure \<noteq> []) (warnLine (tlsVerificationWarning insecure @ [newline]))) (\<lambda>_.
             case libNewSDK lb printed token namespace of
               Some e \<Rightarrow> failS (EWrap ''creating nomad API client: '' e [])
             | None \<Rightarrow> returnS \<lparr>clAddr = printed, clToken = token, clNamespace = namespace\<rparr>))"

subsection \<open>The other settings\<close>

definition resolveNomadToken :: "host \<Rightarrow> goerr + string" where
  "resolveNomadToken h =
    (let t = trimSpace (getenv h ''GC_NOMAD_TOKEN''); path = trimSpace (getenv h ''GC_NOMAD_ACL_FILE'') in
     if t \<noteq> [] then Inr t
     else if path = [] then Inr []
     else case hostRead h path of
       Inl e \<Rightarrow> Inl (EWrap (''reading the Nomad ACL token from GC_NOMAD_ACL_FILE='' @ goQuote path @ '': '') e
         ('' (the file must exist and be readable by the process running this pack; ''
          @ ''an unreadable one is refused rather than quietly running with no token, ''
          @ ''because no token means every session reports healthy while claiming nothing)''))
     | Inr raw \<Rightarrow>
         if trimSpace raw = [] then Inl (ENew (''the Nomad ACL token file GC_NOMAD_ACL_FILE='' @ goQuote path @ '' is empty''))
         else Inr (trimSpace raw))"

definition newSidecar :: "string \<Rightarrow> ('w lstate, unit) prog" where
  "newSidecar dir =
    (if trimSpace dir = [] then failS (ENew ''nomad sidecar directory is required (set GC_NOMAD_SIDECAR_DIR)'')
     else bindS takeFault (\<lambda>f. case f of
       Some e \<Rightarrow> failS (EWrap ''creating nomad sidecar directory: '' e [])
     | None \<Rightarrow> returnS ()))"

definition parseForbidRegistration :: "string \<Rightarrow> goerr + bool" where
  "parseForbidRegistration raw =
    (if raw = [] then Inr False
     else case parseBool raw of
       None \<Rightarrow> Inl (EWrap (''parsing GC_NOMAD_FORBID_REGISTER='' @ goQuote raw @ '': '')
         (ENew (''strconv.ParseBool: parsing '' @ goQuote raw @ '': invalid syntax''))
         '' (want true or false; omit the variable to leave parent registration allowed)'')
     | Some b \<Rightarrow> Inr b)"

subsection \<open>Durations\<close>

text \<open>\<^verbatim>\<open>time.ParseDuration\<close>: the quoting of its errors, the fraction digits that fit, the units,
  one number with its unit, the sum with 64-bit wrap-around, the sign.\<close>

definition timeQuote :: "string \<Rightarrow> string" where
  "timeQuote s = [CHR 0x22] @ concat (map (\<lambda>c. let n = of_char c :: nat in
      if n < 32 \<or> 128 \<le> n then [CHR 0x5C, CHR ''x'', ''0123456789abcdef'' ! (n div 16), ''0123456789abcdef'' ! (n mod 16)]
      else if n = 34 \<or> n = 92 then [CHR 0x5C, c] else [c]) s) @ [CHR 0x22]"

fun leadingFraction :: "nat \<Rightarrow> nat \<Rightarrow> string \<Rightarrow> nat \<times> nat" where
  "leadingFraction x k [] = (x, k)"
| "leadingFraction x k (c # cs) =
    (let y = x * 10 + (of_char c - 48) in
     if (2 ^ 63 - 1) div 10 < x \<or> 2 ^ 63 < y then (x, k) else leadingFraction y (k + 1) cs)"

definition unitMap :: "(string \<times> nat) list" where
  "unitMap = [(''ns'', 1), (''us'', 1000), ([CHR 0xC2, CHR 0xB5, CHR ''s''], 1000), ([CHR 0xCE, CHR 0xBC, CHR ''s''], 1000),
    (''ms'', 10 ^ 6), (''s'', 10 ^ 9), (''m'', 60 * 10 ^ 9), (''h'', 3600 * 10 ^ 9)]"

definition durationPart :: "libs \<Rightarrow> string \<Rightarrow> string \<Rightarrow> goerr + (nat \<times> string)" where
  "durationPart lb orig s =
    (let invalid = Inl (ENew (''time: invalid duration '' @ timeQuote orig));
         whole = takeWhile isDigit s; s1 = dropWhile isDigit s;
         dotted = (s1 \<noteq> [] \<and> hd s1 = CHR ''.'');
         frac = (if dotted then takeWhile isDigit (tl s1) else []);
         s2 = (if dotted then dropWhile isDigit (tl s1) else s1);
         u = takeWhile (\<lambda>c. c \<noteq> CHR ''.'' \<and> \<not> isDigit c) s2; rest = dropWhile (\<lambda>c. c \<noteq> CHR ''.'' \<and> \<not> isDigit c) s2;
         v = digitsVal whole in
     if whole = [] \<and> \<not> dotted then invalid
     else if 2 ^ 63 < v then invalid
     else if whole = [] \<and> frac = [] then invalid
     else if u = [] then Inl (ENew (''time: missing unit in duration '' @ timeQuote orig))
     else case map_of unitMap u of
       None \<Rightarrow> Inl (ENew (''time: unknown unit '' @ timeQuote u @ '' in duration '' @ timeQuote orig))
     | Some unit \<Rightarrow>
         if 2 ^ 63 div unit < v then invalid
         else (case leadingFraction 0 0 frac of (f, digits) \<Rightarrow>
           let total = v * unit + (if 0 < f then libFrac lb f digits unit else 0) in
           if 0 < f \<and> 2 ^ 63 < total then invalid else Inr (total, rest)))"

lemma durationPart_shorter:
  assumes "durationPart lb orig s = Inr (v, rest)"
  shows "length rest < length s"
proof -
  let ?P = "\<lambda>c. c \<noteq> CHR ''.'' \<and> \<not> isDigit c" and ?s1 = "dropWhile isDigit s"
  define t where "t = (if ?s1 \<noteq> [] \<and> hd ?s1 = CHR ''.'' then dropWhile isDigit (tl ?s1) else ?s1)"
  have len: "length t \<le> length s"
    using length_dropWhile_le [of isDigit s] length_dropWhile_le [of isDigit "tl ?s1"] by (auto simp: t_def)
  have "takeWhile ?P t \<noteq> []" "rest = dropWhile ?P t"
    using assms unfolding durationPart_def Let_def t_def [symmetric]
    by (simp_all split: if_splits option.splits prod.splits)
  moreover have "length t = length (takeWhile ?P t) + length (dropWhile ?P t)"
    by (metis length_append takeWhile_dropWhile_id)
  ultimately show ?thesis using len by (cases "takeWhile ?P t") auto
qed

function durationLoop :: "libs \<Rightarrow> string \<Rightarrow> nat \<Rightarrow> string \<Rightarrow> goerr + nat" where
  "durationLoop lb orig d s =
    (if s = [] then Inr d
     else case durationPart lb orig s of
       Inl e \<Rightarrow> Inl e
     | Inr (v, rest) \<Rightarrow>
         let d' = (d + v) mod 2 ^ 64 in
         if 2 ^ 63 < d' then Inl (ENew (''time: invalid duration '' @ timeQuote orig)) else durationLoop lb orig d' rest)"
  by pat_completeness auto
termination
  by (relation "measure (\<lambda>(lb, orig, d, s). length s)") (auto dest: durationPart_shorter)

declare durationLoop.simps [simp del]

definition parseDuration :: "libs \<Rightarrow> string \<Rightarrow> goerr + duration" where
  "parseDuration lb orig =
    (let signed = (orig \<noteq> [] \<and> (hd orig = CHR ''-'' \<or> hd orig = CHR ''+'')); neg = (signed \<and> hd orig = CHR ''-'');
         s = (if signed then tl orig else orig); invalid = Inl (ENew (''time: invalid duration '' @ timeQuote orig)) in
     if s = ''0'' then Inr 0
     else if s = [] then invalid
     else case durationLoop lb orig 0 s of
       Inl e \<Rightarrow> Inl e
     | Inr d \<Rightarrow> if neg then Inr (- int d) else if 2 ^ 63 - 1 < d then invalid else Inr (int d))"

definition parseAdoptMaxAge :: "libs \<Rightarrow> string \<Rightarrow> goerr + duration" where
  "parseAdoptMaxAge lb raw =
    (if raw = [] then Inr defaultAdoptMaxAge
     else case parseDuration lb raw of
       Inl e \<Rightarrow> Inl (EWrap (''parsing GC_NOMAD_ADOPT_MAX_AGE='' @ goQuote raw @ '': '') e '' (want a Go duration such as 30m)'')
     | Inr d \<Rightarrow>
         if d \<le> 0 then Inl (ENew (''GC_NOMAD_ADOPT_MAX_AGE='' @ durationText d @ '' disables the adoption age limit; omit the variable to get the ''
           @ durationText defaultAdoptMaxAge @ '' default instead''))
         else Inr d)"

subsection \<open>The lifecycle\<close>

definition defaultDrainAckMarker :: string where
  \<open>defaultDrainAckMarker = ''(?i)"drain_ack"'' @ [CHR 0x5C] @ ''s*:'' @ [CHR 0x5C] @ ''s*true''\<close>

definition drainAckMarker :: "libs \<Rightarrow> host \<Rightarrow> goerr + string" where
  "drainAckMarker lb h =
    (let raw = trimSpace (getenv h ''GC_NOMAD_DRAIN_ACK_MARKER'') in
     if raw = [] then Inr defaultDrainAckMarker
     else case libRegexp lb raw of
       None \<Rightarrow> Inr raw
     | Some e \<Rightarrow> Inl (EWrap (''GC_NOMAD_DRAIN_ACK_MARKER='' @ goQuote raw @ '' does not compile: '') e []))"

definition execTaskName :: "host \<Rightarrow> string" where
  "execTaskName h = (if getenv h ''GC_NOMAD_EXEC_TASK'' \<noteq> [] then getenv h ''GC_NOMAD_EXEC_TASK'' else ''agent'')"

text \<open>The job the lifecycle registers, with its hash, is computed from the settings.\<close>

definition withSpec :: "libs \<Rightarrow> host \<Rightarrow> logShipperConfig \<Rightarrow> placementConfig \<Rightarrow> lifecycle \<Rightarrow> lifecycle" where
  "withSpec lb h shipper dep l =
    (let job = life_parentJobSpec h (libSHA lb) l shipper dep in
     l\<lparr>lcSpec := encJob job, lcSpecHash := mapGet (njMeta job) jobspecHashMetaKey\<rparr>)"

definition liftSum :: "goerr + 'a \<Rightarrow> ('s, 'a) prog" where
  "liftSum r = (case r of Inl e \<Rightarrow> failS e | Inr x \<Rightarrow> returnS x)"

definition newLifecycle :: "libs \<Rightarrow> host \<Rightarrow> ('w lstate, lifecycle) prog" where
  "newLifecycle lb h =
    bindS (liftSum (resolveNomadToken h)) (\<lambda>token.
    bindS (newClient lb h (getenv h ''GC_NOMAD_ADDR'') token (getenv h ''GC_NOMAD_NAMESPACE'')) (\<lambda>c.
    bindS (newSidecar (getenv h ''GC_NOMAD_SIDECAR_DIR'')) (\<lambda>_.
    bindS (liftSum (parseForbidRegistration (getenv h ''GC_NOMAD_FORBID_REGISTER''))) (\<lambda>forbid.
    bindS (liftSum (parseAdoptMaxAge lb (getenv h ''GC_NOMAD_ADOPT_MAX_AGE''))) (\<lambda>maxAge.
    bindS (liftSum (parseDNSServers (getenv h ''GC_NOMAD_DNS_SERVERS''))) (\<lambda>dns.
    bindS (liftSum (parseNodeConstraints (getenv h ''GC_NOMAD_NODE_CONSTRAINT''))) (\<lambda>constraints.
    let img = getenv h ''GC_NOMAD_AGENT_IMAGE'';
        shipper = \<lparr>lgSink = getenv h ''GC_NOMAD_LOG_SINK'', lgTokenFile = getenv h ''GC_NOMAD_LOG_SINK_TOKEN_FILE'',
          lgLabels = getenv h ''GC_NOMAD_LOG_LABELS'', lgArtifact = getenv h ''GC_NOMAD_LOG_SHIPPER_ARTIFACT''\<rparr>;
        parentJob = (if getenv h ''GC_NOMAD_PARENT_JOB'' = [] then ''gc-sessions'' else getenv h ''GC_NOMAD_PARENT_JOB'') in
    if img = [] then failS (ENew (''GC_NOMAD_AGENT_IMAGE is required: the session agent task is a docker task ''
      @ ''and there is no other session shape to fall back to''))
    else returnS (withSpec lb h shipper \<lparr>plDnsServers = dns, plNodeConstraints = constraints\<rparr>
      \<lparr>lcClient = c, lcParentJobID = parentJob, lcNodePool = getenv h ''GC_NOMAD_NODE_POOL'', lcEgressDir = getenv h ''GC_NOMAD_EGRESS_DIR'',
       lcForbidRegistration = forbid, lcLogShipper = logShipper_enabled shipper, lcAgentImage = img, lcAdoptMaxAge = maxAge,
       lcLogf = True, lcExecTask = execTaskName h, lcSpec = JNull, lcSpecHash = [], lcDrainMarker = drainAckMarker lb h\<rparr>))))))))"

end
