(* ===== verification/Command_Line.thy ===== *)
theory Command_Line
  imports Settings One_Box
begin

text \<open>
  The process (\<^verbatim>\<open>main.go\<close>, \<^verbatim>\<open>usage.go\<close>, \<^verbatim>\<open>diagnostics.go\<close>, \<^verbatim>\<open>gc_requirements.go\<close>, the refusals of
  \<^verbatim>\<open>gc_capability.go\<close>): the durable diagnostics file, the usage text, the readiness
  check, and \<^verbatim>\<open>run\<close>, which maps an operation to a handler and its result to an exit
  code. Text for the standard error stream goes to the log of the state; the result
  of a run is the exit code and what it printed on the standard output.
\<close>

subsection \<open>The durable diagnostics file\<close>

definition diagnosticsFile :: string where
  "diagnosticsFile = ''diagnostics.log''"

definition diagnosticsCap :: nat where
  "diagnosticsCap = 4 * 2 ^ 20"

definition truncationNote :: string where
  "truncationNote = ''-- diagnostics truncated at cap --'' @ [newline]"

text \<open>\<^verbatim>\<open>(diagnosticsSink) write\<close>: the file is \<^const>\<open>None\<close> when it does not exist; \<open>rewrites\<close> and \<open>opens\<close>
  tell whether the truncating write and the open for appending succeed.\<close>

definition sinkWrite :: "bool \<Rightarrow> bool \<Rightarrow> string \<Rightarrow> string \<Rightarrow> string \<Rightarrow> string \<Rightarrow> string option \<Rightarrow> string option" where
  "sinkWrite rewrites opens dir stamp op line f0 =
    (if dir = [] then f0
     else
       let f = (case f0 of Some body \<Rightarrow> if diagnosticsCap < length body \<and> rewrites then Some truncationNote else f0 | None \<Rightarrow> None);
           name = (if trimSpace op = [] then ''-'' else trimSpace op) in
       if \<not> opens then f
       else Some ((case f of Some body \<Rightarrow> body | None \<Rightarrow> []) @ stamp @ '' '' @ name @ '' '' @ trimRightChars {newline} line @ [newline]))"

text \<open>What \<^verbatim>\<open>durableWarn\<close> hands to the file for a piece of text.\<close>

definition durableLine :: "string \<Rightarrow> string option" where
  "durableLine p = (let line = trimRightChars {newline} p in if line = [] then None else Some line)"

subsection \<open>Usage\<close>

definition lifecycleOps :: "string list" where
  "lifecycleOps = [''start'', ''stop'', ''is-running'', ''list-running'', ''provision'', ''relaunch'', ''exec'', ''nudge'', ''peek'',
    ''interrupt'', ''send-keys'', ''clear-scrollback'', ''process-alive'']"

definition mintsABox :: "string list" where
  "mintsABox = [''start'', ''provision'', ''relaunch'']"

definition opHelp :: gomap where
  "opHelp =
    [(''protocol'', ''print the RPP handshake (capabilities this build implements) and exit''),
     (''check'', ''report this deployment's readiness: warnings for every unset knob that changes behaviour, and a hard failure for a gc that cannot run a worker''),
     (''start'', ''dispatch a session box and launch its agent (start config arrives on stdin)''),
     (''provision'', ''dispatch a session box WITHOUT launching the agent''),
     (''relaunch'', ''launch the agent in a box that already exists''),
     (''stop'', ''stop a session's box''),
     (''is-running'', ''exit 0 if the named session's box is running''),
     (''process-alive'', ''exit 0 if the named process is alive inside the box''),
     (''list-running'', ''print the session names this runtime currently holds''),
     (''exec'', ''run a command inside the box (the command arrives on stdin, not in argv)''),
     (''nudge'', ''send the configured nudge keystrokes to the agent''),
     (''peek'', ''print the tail of the agent's pane''),
     (''interrupt'', ''interrupt the agent without stopping the box''),
     (''send-keys'', ''send literal keystrokes to the agent's pane''),
     (''clear-scrollback'', ''clear the agent pane's scrollback'')]"

definition usageOps :: "string list" where
  "usageOps =
    (let ordered = [''protocol'', ''check'', ''start'', ''provision'', ''relaunch'', ''stop''] in
     ordered @ sort (filter (\<lambda>op. op \<notin> set ordered) lifecycleOps))"

definition padRight :: "nat \<Rightarrow> string \<Rightarrow> string" where
  "padRight n s = s @ replicate (n - length s) (CHR '' '')"

definition nl :: string where
  "nl = [newline]"

definition writeUsage :: string where
  "writeUsage =
    ''gc-runtime-nomad '' @ emDash @ '' the Nomad runtime for Gas City sessions (RPP v0).'' @ nl @ nl
    @ ''gc invokes this binary; you invoke it directly to check a deployment or'' @ nl
    @ ''debug a box. Configuration is entirely environment: run `check` first, which'' @ nl
    @ ''names every variable it wants and what goes wrong without it.'' @ nl @ nl
    @ ''usage: gc-runtime-nomad <operation> [session]'' @ nl @ nl @ ''operations:'' @ nl
    @ concat (map (\<lambda>op. ''  '' @ padRight 17 op @ '' '' @ mapGet opHelp op @ nl) usageOps)
    @ nl @ ''An operation this build does not implement exits 2 and prints nothing: that'' @ nl
    @ ''is the forward-compatibility answer gc reads, not an error.'' @ nl
    @ nl @ ''FRONT-DOOR.md is the install path; README.md is the reference; docs/ carries'' @ nl
    @ ''the pin dependencies and the debug skill.'' @ nl"

subsection \<open>What the pack requires of gc\<close>

definition gcMissingWorkerSurfaceError :: goerr where
  \<open>gcMissingWorkerSurfaceError = ENew (''refusing to start: the `gc` on PATH does not carry the remote-worker-lifecycle ''
    @ ''family, so a seat in an allocation cannot claim work through ''
    @ ''/v0/city/{city}/worker/*. This pack cannot function on it. Starting anyway ''
    @ ''would produce the failure this check exists to prevent: the box would come up, ''
    @ ''the agent would launch, the pane would look healthy, and the seat would drain ''
    @ ''with {"action":"drain","reason":"no_work"} while the city listed its work ''
    @ ''as ready. See docs/PIN-DEPENDENCIES.md for the full family table and ''
    @ ''COMPATIBILITY.md for what this pack requires of gc. (Probe: '' @ goQuote edgeWorkerSurfaceMarker @ '' absent from ''
    @ ''`gc bd claim` under a remote target.)'')\<close>

definition gcAbsentWorkerSurfaceError :: goerr where
  "gcAbsentWorkerSurfaceError = ENew (''refusing to start: no `gc` on PATH answered the capability probe, so this pack ''
    @ ''cannot tell whether a seat in an allocation could claim work '' @ emDash @ '' and it shells ''
    @ ''out to `gc` for everything such a seat does, so an absent gc cannot work ''
    @ ''regardless. Install gc and put it on the PATH of the process running this pack ''
    @ ''(the SUPERVISOR's PATH, not an interactive shell's), or set '' @ envSkipCapabilityGate @ ''=1 if you are ''
    @ ''running an offline harness that mints no real sessions. See COMPATIBILITY.md ''
    @ ''for the gc this pack requires.'')"

record gcRequirement =
  grFamily :: string
  grUpstream :: string
  grProbeable :: bool
  grWhy :: string

definition tier1Requirements :: "gcRequirement list" where
  "tier1Requirements =
    [\<lparr>grFamily = ''remote-worker-lifecycle'', grUpstream = ''https://github.com/gastownhall/gascity/pull/6146'', grProbeable = True,
      grWhy = ''a seat in an allocation cannot claim at all: the box comes up, the agent ''
        @ ''launches, the pane looks healthy, and the seat drains no_work forever while the ''
        @ ''city lists its work as ready''\<rparr>,
     \<lparr>grFamily = ''remote-worker-env-city-target'', grUpstream = ''https://github.com/gastownhall/gascity/pull/5864'', grProbeable = False,
      grWhy = ''the in-box gc cannot resolve the city it was told to use''\<rparr>,
     \<lparr>grFamily = ''remote-worker-claim-dispatch'', grUpstream = ''https://github.com/gastownhall/gascity/pull/6146'', grProbeable = False,
      grWhy = ''the remote claim bypasses the conditional fence, so two seats can each believe ''
        @ ''they hold the same bead and the lost update is silent''\<rparr>,
     \<lparr>grFamily = ''remote-worker-session-identity'', grUpstream = ''https://github.com/gastownhall/gascity/pull/6146'', grProbeable = False,
      grWhy = ''a typed close of a hook-claimed bead from inside a box is refused''\<rparr>,
     \<lparr>grFamily = ''policy-conditional-writer-forwarding'', grUpstream = ''https://github.com/gastownhall/gascity/pull/6146'', grProbeable = False,
      grWhy = ''remote claim and heartbeat writes are unfenced''\<rparr>,
     \<lparr>grFamily = ''remote-step-accept-list'', grUpstream = ''unfiled'', grProbeable = False,
      grWhy = ''a step inside a box cannot stamp its own outcome before closing, so terminal ''
        @ ''bookkeeping is lost and the work is re-run''\<rparr>]"

definition reportGCRequirements :: "gcWorkerSurface \<Rightarrow> string" where
  \<open>reportGCRequirements probed =
    (let unprobeable = filter (\<lambda>r. \<not> grProbeable r) tier1Requirements in
     ''declared minimum: '' @ natText (length tier1Requirements) @ '' gc behaviour families are required (docs/PIN-DEPENDENCIES.md ''
     @ ''Tier 1). There is no version to compare '' @ emDash @ '' every build of the required lineage reports the ''
     @ ''literal string "dev" from `gc version`, so the declaration is a CAPABILITY set.'' @ nl
     @ (case probed of
          gcWorkerSurfacePresent \<Rightarrow> ''  verified present: remote-worker-lifecycle''
        | gcWorkerSurfaceMissing \<Rightarrow> ''  verified ABSENT: remote-worker-lifecycle (this is the FAIL below)''
        | gcWorkerSurfaceAbsent \<Rightarrow> ''  not verified: no gc answered the probe (this is the FAIL below)''
        | gcWorkerSurfaceUnknown \<Rightarrow> ''  not verified: the gc on PATH answered in an unrecognised shape'') @ nl
     @ ''  DECLARED BUT NOT VERIFIABLE by this pack ('' @ natText (length unprobeable) @ '') '' @ emDash @ '' a green check above does NOT ''
     @ ''mean these are present:'' @ nl
     @ concat (map (\<lambda>r. ''    - '' @ padRight 38 (grFamily r) @ '' '' @ grUpstream r @ nl @ ''      without it: '' @ grWhy r @ nl) unprobeable))\<close>

definition registrylessImageWarning :: "string \<Rightarrow> string" where
  "registrylessImageWarning ref =
    (if \<not> imageIsRegistryless ref then []
     else ''warning: the agent image '' @ goQuote ref @ '' names no registry, so it can only ever resolve ''
       @ ''from a node's LOCAL image cache. Nothing can pull it: a bare name resolves against Docker ''
       @ ''Hub, which will not have a privately built agent image. Every session is therefore pinned to ''
       @ ''whichever nodes already hold a copy, and that pin is INVISIBLE '' @ emDash @ '' the jobspec carries no ''
       @ ''constraint for it, the scheduler places freely, and the allocation fails to start on any ''
       @ ''other node. For a cluster that should be able to place a session anywhere, push the image to ''
       @ ''a registry your clients can reach and reference it by that name; otherwise pre-load it on ''
       @ ''every eligible node and expect to redo that on every image change.'')"

subsection \<open>The start configuration\<close>

definition strsField :: "string \<Rightarrow> (string \<times> json) list \<Rightarrow> string list option" where
  "strsField k fs =
    (case jfield k fs of
       None \<Rightarrow> Some [] | Some JNull \<Rightarrow> Some []
     | Some (JArr js) \<Rightarrow> those (map (\<lambda>v. case v of JStr s \<Rightarrow> Some s | JNull \<Rightarrow> Some [] | _ \<Rightarrow> None) js)
     | _ \<Rightarrow> None)"

definition decCopyEntry :: "(string \<times> json) list \<Rightarrow> copyEntry option" where
  "decCopyEntry fs =
    (case (strField ''src'' fs, strField ''rel_dst'' fs) of (Some a, Some b) \<Rightarrow> Some \<lparr>Src = a, RelDst = b\<rparr> | _ \<Rightarrow> None)"

definition decStageConfig :: "(string \<times> json) list \<Rightarrow> stageConfig option" where
  "decStageConfig fs =
    Option.bind (strField ''work_dir'' fs) (\<lambda>workDir.
    Option.bind (mapField ''env'' fs) (\<lambda>env.
    Option.bind (strField ''command'' fs) (\<lambda>command.
    Option.bind (strField ''nudge'' fs) (\<lambda>nudge.
    Option.bind (strsField ''process_names'' fs) (\<lambda>names.
    Option.bind (strField ''ready_prompt_prefix'' fs) (\<lambda>prefix.
    Option.bind (intField ''ready_delay_ms'' fs) (\<lambda>delay.
    Option.bind (strField ''lifecycle'' fs) (\<lambda>lc.
    Option.bind (strsField ''pre_start'' fs) (\<lambda>pre.
    Option.bind (strsField ''session_setup'' fs) (\<lambda>setup.
    Option.bind (strField ''session_setup_script'' fs) (\<lambda>script.
    Option.bind (strsField ''session_live'' fs) (\<lambda>live.
    Option.bind (strsField ''pack_overlay_dirs'' fs) (\<lambda>overlays.
    Option.bind (strField ''overlay_dir'' fs) (\<lambda>overlay.
    Option.bind (case jfield ''copy_files'' fs of None \<Rightarrow> Some [] | Some j \<Rightarrow> decList decCopyEntry j) (\<lambda>copies.
    Some \<lparr>cfgWorkDir = workDir, cfgEnv = env, cfgCommand = command, cfgNudge = nudge, cfgProcessNames = names,
      cfgReadyPromptPrefix = prefix, cfgReadyDelayMs = delay, cfgLifecycle = lc, cfgPreStart = pre, cfgSessionSetup = setup,
      cfgSessionSetupScript = script, cfgSessionLive = live, cfgPackOverlayDirs = overlays, cfgOverlayDir = overlay,
      cfgCopyFiles = copies\<rparr>)))))))))))))))"

definition readStageConfig :: "libs \<Rightarrow> goerr + string \<Rightarrow> goerr + stageConfig" where
  "readStageConfig lb stdin =
    (case stdin of
       Inl e \<Rightarrow> Inl (EWrap ''reading start config: '' e [])
     | Inr raw \<Rightarrow>
         if trimSpace raw = [] then Inr emptyConfig
         else case libJSON lb (trimSpace raw) of
           None \<Rightarrow> Inl (EWrap ''decoding start config: '' (ENew ''invalid JSON'') [])
         | Some j \<Rightarrow>
             (case decObj decStageConfig j of
                None \<Rightarrow> Inl (EWrap ''decoding start config: '' (ENew ''cannot unmarshal'') [])
              | Some cfg \<Rightarrow> Inr cfg))"

subsection \<open>The readiness check\<close>

definition exitOK :: int where "exitOK = 0"

definition exitError :: int where "exitError = 1"

definition exitUnknown :: int where "exitUnknown = 2"

definition allocReadForbiddenMessage :: "string \<Rightarrow> string" where
  \<open>allocReadForbiddenMessage namespace =
    ''FAIL: this deployment's Nomad credential may not list allocations (403). ''
    @ ''Minting a box would still work, so nothing would look broken '' @ emDash @ '' but is-running has no ''
    @ ''evidence except the allocation list, so it would answer last-known-good on every call and ''
    @ ''EVERY SESSION WOULD REPORT HEALTHY until the credential changes. A pool whose seats all ''
    @ ''report healthy sees no starvation and mints no replacement, so routed work sits unclaimed ''
    @ ''against a lane that looks alive. Grant this token read access to the job and allocation ''
    @ ''endpoints in namespace '' @ goQuote namespace @ '' (Nomad policy: namespace "'' @ namespace @ ''" { policy = "read" }, or ''
    @ ''capabilities including "read-job"), or supply a token that has it.'' @ nl\<close>

definition allocListProbeJob :: string where
  "allocListProbeJob = ''gc-runtime-nomad-capability-probe-no-such-job''"

definition errJobGoneOrEmpty :: "goerr \<Rightarrow> bool" where
  "errJobGoneOrEmpty e \<longleftrightarrow> errIs e ErrJobGone \<or> containsS (errText e) ''404''"

definition checkAllocListCapability :: "libs \<Rightarrow> 'w env \<Rightarrow> host \<Rightarrow> ('w lstate, int) prog" where
  "checkAllocListCapability lb ev h =
    (if trimSpace (getenv h ''GC_NOMAD_ADDR'') = []
     then bindS (warnLine (''warning: cannot check whether this deployment may list allocations (GC_NOMAD_ADDR unset); ''
       @ ''a token that can dispatch but not list allocations makes every session report healthy forever'' @ nl)) (\<lambda>_. returnS exitOK)
     else bindS (attempt (newLifecycle lb h)) (\<lambda>rl. case rl of
       Inl e \<Rightarrow> bindS (warnLine (''warning: could not build a client to check the allocation-read capability: '' @ errText e @ nl))
         (\<lambda>_. returnS exitOK)
     | Inr l \<Rightarrow>
         bindS (attempt (listAllocs ev l allocListProbeJob)) (\<lambda>r. case r of
           Inr _ \<Rightarrow> returnS exitOK
         | Inl e \<Rightarrow>
             if errJobGoneOrEmpty e then returnS exitOK
             else if isForbiddenErr e
               then bindS (warnLine (allocReadForbiddenMessage (clNamespace (lcClient l)))) (\<lambda>_. returnS exitError)
             else bindS (warnLine (''warning: could not confirm the allocation-read capability ('' @ errText e @ ''); ''
               @ ''this check fails only on a definitive refusal, not on an unreachable cluster'' @ nl)) (\<lambda>_. returnS exitOK))))"

definition warnIf :: "bool \<Rightarrow> string \<Rightarrow> ('w lstate, unit) prog" where
  "warnIf b line = whenS b (warnLine (line @ nl))"

text \<open>The warnings before and after the two probes of \<^verbatim>\<open>check\<close>.\<close>

definition checkSettings :: "host \<Rightarrow> ('w lstate, unit) prog" where
  "checkSettings h =
    (let dir = trimSpace (getenv h ''GC_NOMAD_SIDECAR_DIR''); path = pathJoin [dir, diagnosticsFile];
         img = getenv h ''GC_NOMAD_AGENT_IMAGE'' in
     bindS (warnIf (getenv h ''GC_NOMAD_LOG_SINK'' = []) ''warning: session logs will not be shipped (GC_NOMAD_LOG_SINK unset)'') (\<lambda>_.
     bindS (warnIf (getenv h ''GC_NOMAD_LOG_SINK'' \<noteq> [] \<and> getenv h ''GC_NOMAD_LOG_SHIPPER_ARTIFACT'' = [])
       ''warning: log-shipper artifact source will use network default (GC_NOMAD_LOG_SHIPPER_ARTIFACT unset)'') (\<lambda>_.
     bindS (warnIf (registrylessImageWarning img \<noteq> []) (registrylessImageWarning img)) (\<lambda>_.
     bindS (warnIf (img = []) (''warning: GC_NOMAD_AGENT_IMAGE unset '' @ emDash
       @ '' the session agent task is a Docker task and there is no other session shape, so every lifecycle op will fail closed'')) (\<lambda>_.
     bindS (warnIf (skipVerifyRequested h) tlsVerificationDisabledWarning) (\<lambda>_.
     if dir = []
     then warnIf True (''warning: GC_NOMAD_SIDECAR_DIR is unset, so there is no sidecar directory and no durable '' @ diagnosticsFile
       @ '' '' @ emDash @ '' this pack's account of a failure will exist only on a stderr gc discards'')
     else warnIf True (''diagnostics: '' @ path @ (case hostStat h path of Inr _ \<Rightarrow> [] | Inl e \<Rightarrow> '' (nothing recorded yet)''))))))))"

definition opCheck :: "libs \<Rightarrow> 'w env \<Rightarrow> host \<Rightarrow> ('w lstate, int) prog" where
  "opCheck lb ev h =
    bindS (checkSettings h) (\<lambda>_.
    bindS (checkAllocListCapability lb ev h) (\<lambda>code.
    if code \<noteq> exitOK then returnS code
    else case gcWorkerSurfaceForCheck h of (surface, said) \<Rightarrow>
      bindS (whenS (said \<noteq> []) (warnLine said)) (\<lambda>_.
      bindS (warnLine (reportGCRequirements surface)) (\<lambda>_.
      case surface of
        gcWorkerSurfaceMissing \<Rightarrow> bindS (warnIf True (''FAIL: '' @ errText gcMissingWorkerSurfaceError)) (\<lambda>_. returnS exitError)
      | gcWorkerSurfaceAbsent \<Rightarrow> bindS (warnIf True (''FAIL: '' @ errText gcAbsentWorkerSurfaceError)) (\<lambda>_. returnS exitError)
      | _ \<Rightarrow>
          bindS (warnIf (surface = gcWorkerSurfaceUnknown) (''warning: the `gc` on PATH answered the capability probe in a ''
            @ ''shape this pack does not recognise, so whether it carries the ''
            @ ''remote-worker-lifecycle family is undetermined. Proceeding: an unrecognised ''
            @ ''answer is not evidence of a missing family. (An ABSENT gc is a different ''
            @ ''case and is refused, not warned.) See docs/PIN-DEPENDENCIES.md.'')) (\<lambda>_.
          bindS (warnIf (getenv h ''GC_NOMAD_DNS_SERVERS'' = [])
            (''warning: session boxes will declare no dns stanza and inherit the client host's resolv.conf (GC_NOMAD_DNS_SERVERS unset) ''
             @ emDash @ '' on a systemd-resolved host that stub resolver is unreachable from a bridge alloc'')) (\<lambda>_.
          returnS exitOK))))))"

subsection \<open>One operation\<close>

definition protocolHandshakeJSON :: string where
  \<open>protocolHandshakeJSON = ''{"version":0,"capabilities":["proc.provision","proc.exec"]}''\<close>

definition boolText :: "bool \<Rightarrow> string" where
  "boolText b = (if b then ''true'' else ''false'')"

text \<open>A process's standard input, and whether writing to its standard output fails.\<close>

record procIO =
  pioStdin :: "goerr + string"
  pioStdout :: "goerr option"

definition failOp :: "string \<Rightarrow> goerr \<Rightarrow> ('w lstate, int \<times> string) prog" where
  "failOp op e =
    bindS (warnLine (''gc-runtime-nomad '' @ op @ '': '' @ errText e @ nl)) (\<lambda>_.
    bindS (warnLine (''FAILED: '' @ errText e)) (\<lambda>_. returnS (exitError, [])))"

definition refuseOp :: "string \<Rightarrow> string \<Rightarrow> ('w lstate, int \<times> string) prog" where
  "refuseOp op line = bindS (warnLine (''gc-runtime-nomad '' @ op @ '': '' @ line @ nl)) (\<lambda>_. returnS (exitError, []))"

text \<open>A handler's result: its error through \<open>failOp\<close>, its value through \<open>f\<close>.\<close>

definition reported :: "string \<Rightarrow> ('w lstate, 'a) prog \<Rightarrow> ('a \<Rightarrow> ('w lstate, int \<times> string) prog) \<Rightarrow> ('w lstate, int \<times> string) prog" where
  "reported op p f = bindS (attempt p) (\<lambda>r. case r of Inl e \<Rightarrow> failOp op e | Inr x \<Rightarrow> f x)"

definition succeeded :: "('w lstate, int \<times> string) prog" where
  "succeeded = returnS (exitOK, [])"

definition written :: "procIO \<Rightarrow> string \<Rightarrow> string \<Rightarrow> int \<Rightarrow> ('w lstate, int \<times> string) prog" where
  "written pio op out code =
    (case pioStdout pio of
       Some e \<Rightarrow> refuseOp op (''writing stdout: '' @ errText e)
     | None \<Rightarrow> returnS (code, out))"

definition runExec :: "'w env \<Rightarrow> host \<Rightarrow> lifecycle \<Rightarrow> procIO \<Rightarrow> string \<Rightarrow> ('w lstate, int \<times> string) prog" where
  "runExec ev h l pio name =
    (case pioStdin pio of
       Inl e \<Rightarrow> refuseOp ''exec'' (''reading command: '' @ errText e)
     | Inr cmd \<Rightarrow>
         if cmd = [] then refuseOp ''exec'' ''missing command''
         else reported ''exec'' (opExec ev h l name [''/bin/sh'', ''-c'', cmd]) (\<lambda>(code, out). written pio ''exec'' out code))"

definition runPeek :: "'w env \<Rightarrow> lifecycle \<Rightarrow> procIO \<Rightarrow> string \<Rightarrow> string list \<Rightarrow> ('w lstate, int \<times> string) prog" where
  "runPeek ev l pio name args =
    (let go = (\<lambda>lines. reported ''peek'' (opPeek ev l name lines) (\<lambda>out. written pio ''peek'' out exitOK)) in
     case args of
       [] \<Rightarrow> go 0
     | a # _ \<Rightarrow> (case parseInt a of
         None \<Rightarrow> refuseOp ''peek'' (''invalid line count '' @ goQuote a @ '': '' @ errText (atoiError a))
       | Some n \<Rightarrow> go n))"

definition runProcessAlive :: "'w env \<Rightarrow> lifecycle \<Rightarrow> procIO \<Rightarrow> string \<Rightarrow> ('w lstate, int \<times> string) prog" where
  "runProcessAlive ev l pio name =
    (case pioStdin pio of
       Inl e \<Rightarrow> failOp ''process-alive'' (EWrap ''reading process names from stdin: '' e [])
     | Inr raw \<Rightarrow>
         bindS (namedProcessAlive ev l name (splitChar newline raw)) (\<lambda>(alive, observed, err). case err of
           Some e \<Rightarrow> failOp ''process-alive'' e
         | None \<Rightarrow> returnS (exitOK, boolText (if observed then alive else True) @ nl)))"

text \<open>The operations that name a session, with the arguments after the name.\<close>

definition runNamed :: "libs \<Rightarrow> 'w env \<Rightarrow> host \<Rightarrow> lifecycle \<Rightarrow> procIO \<Rightarrow> string \<Rightarrow> string \<Rightarrow> string list \<Rightarrow> ('w lstate, int \<times> string) prog" where
  "runNamed lb ev h l pio op name args =
    (if op = ''start'' then
       reported op (liftSum (readStageConfig lb (pioStdin pio))) (\<lambda>cfg. reported op (opStartWithConfig ev h l name cfg) (\<lambda>_. succeeded))
     else if op = ''stop'' then reported op (opStop ev l name) (\<lambda>_. succeeded)
     else if op = ''is-running'' then reported op (opIsRunning ev h l name) (\<lambda>running. returnS (exitOK, boolText running @ nl))
     else if op = ''process-alive'' then runProcessAlive ev l pio name
     else if op = ''provision'' then
       reported op (liftSum (readStageConfig lb (pioStdin pio))) (\<lambda>cfg. reported op (opProvisionWithConfig ev h l name cfg) (\<lambda>_. succeeded))
     else if op = ''relaunch'' then reported op (opRelaunch ev h l name) (\<lambda>_. succeeded)
     else if op = ''exec'' then runExec ev h l pio name
     else if op = ''nudge'' then
       (case pioStdin pio of
          Inl e \<Rightarrow> refuseOp op (''reading nudge text: '' @ errText e)
        | Inr txt \<Rightarrow> reported op (opNudge ev l name txt) (\<lambda>_. succeeded))
     else if op = ''peek'' then runPeek ev l pio name args
     else if op = ''interrupt'' then reported op (opInterrupt ev l name) (\<lambda>_. succeeded)
     else if op = ''send-keys'' then reported op (opSendKeys ev l name args) (\<lambda>_. succeeded)
     else if op = ''clear-scrollback'' then reported op (opClearScrollback ev l name) (\<lambda>_. succeeded)
     else returnS (exitUnknown, []))"

definition runLifecycle :: "libs \<Rightarrow> 'w env \<Rightarrow> host \<Rightarrow> lifecycle \<Rightarrow> procIO \<Rightarrow> string \<Rightarrow> string list \<Rightarrow> ('w lstate, int \<times> string) prog" where
  "runLifecycle lb ev h l pio op rest =
    (if op = ''list-running'' then
       reported op (opListRunning ev h l (case rest of [] \<Rightarrow> [] | p # _ \<Rightarrow> p)) (\<lambda>names. returnS (exitOK, concat (map (\<lambda>n. n @ nl) names)))
     else case rest of
       [] \<Rightarrow> refuseOp op ''missing session name''
     | name # args \<Rightarrow> runNamed lb ev h l pio op name args)"

text \<open>The gate on the operations that mint a box: its refusal, if any.\<close>

definition capabilityGate :: "host \<Rightarrow> string \<Rightarrow> ('w lstate, goerr option) prog" where
  "capabilityGate h op =
    (if op \<notin> set mintsABox then returnS None
     else case capabilityGateSkipped h of (skipped, said) \<Rightarrow>
       bindS (whenS (said \<noteq> []) (warnLine said)) (\<lambda>_.
       returnS (if skipped then None
         else case probeGCWorkerSurface h of
           gcWorkerSurfaceMissing \<Rightarrow> Some gcMissingWorkerSurfaceError
         | gcWorkerSurfaceAbsent \<Rightarrow> Some gcAbsentWorkerSurfaceError
         | _ \<Rightarrow> None)))"

definition run :: "libs \<Rightarrow> 'w env \<Rightarrow> host \<Rightarrow> procIO \<Rightarrow> string list \<Rightarrow> ('w lstate, int \<times> string) prog" where
  "run lb ev h pio args =
    (case args of
       [] \<Rightarrow> bindS (warnLine (''gc-runtime-nomad: missing operation'' @ nl @ nl @ writeUsage)) (\<lambda>_. returnS (exitError, []))
     | op # rest \<Rightarrow>
         if op \<in> {''help'', ''--help'', ''-h''} then returnS (exitOK, writeUsage)
         else if op = ''protocol'' then returnS (exitOK, protocolHandshakeJSON @ nl)
         else if op = ''check'' then bindS (opCheck lb ev h) (\<lambda>code. returnS (code, []))
         else if op \<notin> set lifecycleOps then returnS (exitUnknown, [])
         else bindS (capabilityGate h op) (\<lambda>refused. case refused of
           Some e \<Rightarrow> refuseOp op (errText e)
         | None \<Rightarrow>
             bindS (attempt (newLifecycle lb h)) (\<lambda>rl. case rl of
               Inl e \<Rightarrow> bindS (warnLine (''gc-runtime-nomad: '' @ errText e @ nl)) (\<lambda>_. returnS (exitError, []))
             | Inr l \<Rightarrow> runLifecycle lb ev h l pio op rest)))"

text \<open>The exit status the caller sees: \<^verbatim>\<open>os.Exit\<close> keeps the low byte, a panic that nobody
  recovers exits with 2, a process that does not return has none.\<close>

definition exitStatus :: "(int \<times> string) result \<Rightarrow> nat option" where
  "exitStatus r = (case r of Ok (code, out) \<Rightarrow> Some (nat (code mod 256)) | Panic m \<Rightarrow> Some 2 | Err e \<Rightarrow> Some 1 | Hang \<Rightarrow> None)"

subsection \<open>The capability gate\<close>

text \<open>Libraries that reject everything, for the examples.\<close>

definition bareLibs :: libs where
  "bareLibs = \<lparr>libURL = (\<lambda>_. Inl (ENew ''no url'')), libTLSDefaults = \<lparr>tlsCACert = [], tlsClientCert = [], tlsClientKey = [], tlsServerName = []\<rparr>,
     libConfigureTLS = (\<lambda>_. Inr False), libNewSDK = (\<lambda>_ _ _. None), libSHA = (\<lambda>_. []), libRegexp = (\<lambda>_. None),
     libFrac = (\<lambda>_ _ _. 0), libJSON = (\<lambda>_. None)\<rparr>"

definition bareIO :: procIO where
  "bareIO = \<lparr>pioStdin = Inr [], pioStdout = None\<rparr>"

text \<open>C40. On a host whose gc is known not to carry the worker surface, or is absent, and whose gate
  is not disabled, an operation that mints a box is refused before anything happens: exit 1, one line
  of explanation, no call, no lock, no file. The gate never stands in the way of the operations
  that read or stop a box that already exists.\<close>

theorem gate_refuses_before_minting:
  assumes "fst (capabilityGateSkipped h) = False"
    and "probeGCWorkerSurface h = gcWorkerSurfaceMissing \<or> probeGCWorkerSurface h = gcWorkerSurfaceAbsent"
    and "op \<in> set lifecycleOps"
  shows "if op \<in> set mintsABox
    then \<exists>line. run lb ev h pio (op # rest) s = (Ok (1, []), s\<lparr>lsLog := lsLog s @ [line]\<rparr>)
    else capabilityGate h op s = (Ok None, s)"
proof (cases "op \<in> set mintsABox")
  case True
  have skip: "capabilityGateSkipped h = (False, [])"
    using assms(1) by (auto simp: capabilityGateSkipped_def split: if_splits)
  obtain e where e: "capabilityGate h op s = (Ok (Some e), s)"
    using True assms(2) skip by (auto simp: capabilityGate_def whenS_def returnS_def)
  have op: "op \<notin> {''help'', ''--help'', ''-h''}" "op \<noteq> ''protocol''" "op \<noteq> ''check''"
    using True by (auto simp: mintsABox_def)
  have "run lb ev h pio (op # rest) s = refuseOp op (errText e) s"
    using op assms(3) by (simp add: run_def bindS_def e)
  then have "run lb ev h pio (op # rest) s =
      (Ok (1, []), s\<lparr>lsLog := lsLog s @ [''gc-runtime-nomad '' @ op @ '': '' @ errText e @ nl]\<rparr>)"
    by (simp add: refuseOp_def warnLine_def prog_defs exitError_def)
  then show ?thesis using True by (simp only: if_True) (rule exI, rule refl)
qed (simp add: capabilityGate_def returnS_def)

theorem gate_refuses_before_minting_witness:
  "\<exists>line. run bareLibs (traced stubEnv) bareHost bareIO [''provision'', ''a''] (stubState [])
    = (Ok (1, []), (stubState [])\<lparr>lsLog := lsLog (stubState []) @ [line]\<rparr>)"
proof -
  have "probeGCWorkerSurface bareHost = gcWorkerSurfaceAbsent" by (simp add: probeGCWorkerSurface_def bareHost_def)
  then show ?thesis
    using gate_refuses_before_minting [of bareHost "''provision''" bareLibs "traced stubEnv" bareIO "[''a'']" "stubState []"]
    by (simp add: capabilityGateSkipped_def lifecycleOps_def mintsABox_def)
qed

subsection \<open>The diagnostics file is a bounded tail\<close>

lemma trimRight_le: "length (trimRightChars cs s) \<le> length s"
  by (simp add: trimRightChars_def length_dropWhile_le [THEN le_trans])

text \<open>A record, with its newline, on a directory where the writes succeed.\<close>

definition recordOf :: "string \<Rightarrow> string \<Rightarrow> string \<Rightarrow> string" where
  "recordOf stamp op line = stamp @ '' '' @ (if trimSpace op = [] then ''-'' else trimSpace op) @ '' '' @ trimRightChars {newline} line @ nl"

lemma sinkWrite_bounded:
  assumes "dir \<noteq> []"
  shows "\<exists>kept. sinkWrite True True dir stamp op line f0 = Some (kept @ recordOf stamp op line)
    \<and> length kept \<le> diagnosticsCap \<and> (case f0 of Some body \<Rightarrow> kept = body \<or> kept = truncationNote \<and> diagnosticsCap < length body | None \<Rightarrow> kept = [])"
  using assms by (cases f0) (auto simp: sinkWrite_def recordOf_def Let_def nl_def diagnosticsCap_def truncationNote_def)

end
