(* ===== verification/Fleet.thy ===== *)
theory Fleet
  imports Fake_Cluster Command_Line
begin

text \<open>
  The whole program against the fake cluster: processes, each started with its own arguments, environment and
  standard input, run one after the other on one sidecar directory and one server. File-system faults,
  the answers inside the boxes and the fate of the tasks are arbitrary at every step, and between
  the processes tasks end and the clock moves. However such a run goes, no session ever has two live children.
\<close>

subsection \<open>One process\<close>

context child_cluster
begin

lemma calm_reporting [calm]:
  "keeps (bounded S f) (failOp op e)" "keeps (bounded S f) (refuseOp op m)" "keeps (bounded S f) succeeded"
  "keeps (bounded S f) (written pio op out code)" "keeps (bounded S f) (warnIf b m)"
  unfolding failOp_def refuseOp_def succeeded_def written_def warnIf_def by (intro keeps_intros calm)+

lemma calm_reported: "keeps (bounded S f) p \<Longrightarrow> (\<And>x. keeps (bounded S f) (q x)) \<Longrightarrow> keeps (bounded S f) (reported op p q)"
  unfolding reported_def by (intro keeps_intros calm)

lemma calm_named [calm]:
  "keeps (bounded S f) (namedProcessAlive ev l n names)" "keeps (bounded S f) (runExec ev h l pio n)"
  "keeps (bounded S f) (runPeek ev l pio n args)" "keeps (bounded S f) (runProcessAlive ev l pio n)"
proof -
  show alive: "keeps (bounded S f) (namedProcessAlive ev l n names)" for names
    unfolding namedProcessAlive_def Let_def by (intro keeps_intros calm)
  have "keeps (bounded S f) (case args of [] \<Rightarrow> p | a # as \<Rightarrow> q a as)"
    if "keeps (bounded S f) p" "\<And>a as. keeps (bounded S f) (q a as)" for p :: "('w lstate, int \<times> string) prog" and q
    using that by (cases args) auto
  then show "keeps (bounded S f) (runExec ev h l pio n)" "keeps (bounded S f) (runPeek ev l pio n args)"
    "keeps (bounded S f) (runProcessAlive ev l pio n)"
    unfolding runExec_def runPeek_def runProcessAlive_def Let_def
    by (intro keeps_intros calm calm_reported calm_ops alive | assumption)+
qed

lemma calm_settings [calm]: "keeps (bounded S f) (newLifecycle lb h)"
proof -
  have t: "keeps (bounded S f) takeFault" by (auto simp: keeps_def takeFault_def split: list.split)
  have lift: "keeps (bounded S f) (liftSum r)" for r :: "goerr + 'b"
    unfolding liftSum_def by (intro keeps_intros)
  have "keeps (bounded S f) (newClient lb h a tk ns)" "keeps (bounded S f) (newSidecar d)" for a tk ns d
    unfolding newClient_def newSidecar_def Let_def by (intro keeps_intros calm t)+
  then show ?thesis
    unfolding newLifecycle_def Let_def by (intro keeps_intros lift)
qed

lemma calm_check [calm]: "keeps (bounded S f) (opCheck lb ev h)"
proof -
  have allocs: "keeps (bounded S f) (listAllocs ev c j)" for c j
    unfolding listAllocs_def by (intro keeps_intros calm)
  have cap: "keeps (bounded S f) (checkAllocListCapability lb ev h)"
    unfolding checkAllocListCapability_def by (intro keeps_intros calm allocs)
  have settings: "keeps (bounded S f) (checkSettings h)"
    unfolding checkSettings_def Let_def by (intro keeps_intros calm)
  have surface: "keeps (bounded S f) (case x of gcWorkerSurfaceMissing \<Rightarrow> p | gcWorkerSurfaceAbsent \<Rightarrow> q | _ \<Rightarrow> r)"
    if "keeps (bounded S f) p" "keeps (bounded S f) q" "keeps (bounded S f) r" for x and p q r :: "('w lstate, int) prog"
    using that by (cases x) auto
  show ?thesis
    unfolding opCheck_def by (intro keeps_intros calm cap settings) (auto intro!: keeps_intros calm split: gcWorkerSurface.split)
qed

text \<open>What one operation does to the invariant. Only the operations that mint a box need the listing to be
  readable, and only they may leave it longer.\<close>

lemma sound_reported:
  assumes "wp p (\<lambda>r. sound False) s"
  shows "wp (reported op p (\<lambda>_. succeeded)) (\<lambda>r. sound False) s"
  unfolding reported_def wp_bind wp_attempt
proof (rule wp_mono [OF assms], goal_cases)
  case (1 r s')
  have "keeps (sound False) (failOp op e)" "keeps (sound False) succeeded" for e
    by (intro sound_calm calm)+
  then show ?case using 1 by (cases r) (simp_all add: wp_iff keepsD)
qed

lemma reported_lift: "reported op (liftSum (Inl e)) q = failOp op e" "reported op (liftSum (Inr x)) q = q x"
  by (simp_all add: fun_eq_iff reported_def liftSum_def attempt_def bindS_def returnS_def failS_def)

lemma sound_minted:
  assumes "\<And>cfg. wp (p cfg) (\<lambda>r. sound False) s" and "sound False s"
  shows "wp (reported op (liftSum r) (\<lambda>cfg. reported op (p cfg) (\<lambda>_. succeeded))) (\<lambda>r. sound False) s"
proof -
  have "keeps (sound False) (failOp op e)" for e
    by (intro sound_calm calm)
  then show ?thesis
    using sound_reported [OF assms(1), of op] assms(2)
    by (cases r) (simp_all add: reported_lift, simp_all add: wp_iff keepsD)
qed

lemma sound_runNamed:
  assumes "sound (op \<in> set mintsABox) s"
  shows "wp (runNamed lb ev h l pio op n args) (\<lambda>r. sound False) s"
proof -
  have weak: "sound False s" using assms by (cases "op \<in> set mintsABox") (auto intro: sound_weaken)
  have still: "wp p (\<lambda>r. sound False) s" if "\<And>S f. keeps (bounded S f) p" for p :: "('w lstate, int \<times> string) prog"
    using keepsD [OF sound_calm [OF that] weak] by (simp add: wp_iff)
  have start: "wp (reported op (liftSum r) (\<lambda>cfg. reported op (opStartWithConfig ev h l n cfg) (\<lambda>_. succeeded))) (\<lambda>r. sound False) s"
    if "op = ''start''" for r
    using assms that by (intro sound_minted sound_start weak) (simp add: mintsABox_def)
  have prov: "wp (reported op (liftSum r) (\<lambda>cfg. reported op (opProvisionWithConfig ev h l n cfg) (\<lambda>_. succeeded))) (\<lambda>r. sound False) s"
    if "op = ''provision''" for r
    using assms that by (intro sound_minted sound_provision weak) (simp add: mintsABox_def)
  have "keeps (bounded S f) (runNamed lb ev h l pio op n args)" if "op \<noteq> ''start''" "op \<noteq> ''provision''" for S f
    unfolding runNamed_def if_not_P [OF that(1)] if_not_P [OF that(2)]
    by (intro keeps_intros calm calm_reported calm_ops calm_observe)
  then show ?thesis
    using start prov still by (cases "op = ''start''"; cases "op = ''provision''") (simp_all add: runNamed_def [of _ _ _ _ _ "''start''"] runNamed_def [of _ _ _ _ _ "''provision''"])
qed

lemma sound_runLifecycle:
  assumes "sound (op \<in> set mintsABox) s"
  shows "wp (runLifecycle lb ev h l pio op rest) (\<lambda>r. sound False) s"
proof -
  have weak: "sound False s" using assms by (cases "op \<in> set mintsABox") (auto intro: sound_weaken)
  have still: "wp p (\<lambda>r. sound False) s" if "\<And>S f. keeps (bounded S f) p" for p :: "('w lstate, int \<times> string) prog"
    using keepsD [OF sound_calm [OF that] weak] by (simp add: wp_iff)
  have "wp (reported op (opListRunning ev h l pre) (\<lambda>names. returnS (exitOK, concat (map (\<lambda>n. n @ nl) names)))) (\<lambda>r. sound False) s" for pre
    by (intro still calm_reported calm_observe keeps_return)
  moreover have "wp (refuseOp op m) (\<lambda>r. sound False) s" for m by (intro still calm)
  ultimately show ?thesis
    using sound_runNamed [OF assms] by (auto simp: runLifecycle_def split: list.split)
qed

end

subsection \<open>The configuration registers its own job\<close>

definition parentJobOf :: "host \<Rightarrow> string" where
  "parentJobOf h = (if getenv h ''GC_NOMAD_PARENT_JOB'' = [] then ''gc-sessions'' else getenv h ''GC_NOMAD_PARENT_JOB'')"

definition namespaceOf :: "host \<Rightarrow> string" where
  "namespaceOf h = (if getenv h ''GC_NOMAD_NAMESPACE'' = [] then ''default'' else getenv h ''GC_NOMAD_NAMESPACE'')"

lemma ok_bind: "fst (bindS p f s) = Ok y \<Longrightarrow> \<exists>x s'. fst (p s) = Ok x \<and> fst (f x s') = Ok y"
  by (cases "p s"; cases "fst (p s)") (auto simp: bindS_def)

lemma newClient_namespace:
  assumes "fst (newClient lb h a t ns s) = Ok c"
  shows "clNamespace c = (if ns = [] then ''default'' else ns)"
  using assms unfolding newClient_def Let_def
  by (auto simp: failS_def returnS_def split: if_splits sum.splits option.splits prod.splits dest!: ok_bind)

definition sameJob :: "lifecycle \<Rightarrow> bool" where
  "sameJob l \<longleftrightarrow> (\<exists>job. lcSpec l = encJob job \<and> njID job = lcParentJobID l \<and> njNamespace job = clNamespace (lcClient l))"

lemma withSpec_fields:
  "lcParentJobID (withSpec lb h sh dep l) = lcParentJobID l" "lcClient (withSpec lb h sh dep l) = lcClient l" "sameJob (withSpec lb h sh dep l)"
proof -
  show "sameJob (withSpec lb h sh dep l)"
    unfolding sameJob_def
    by (rule exI [of _ "life_parentJobSpec h (libSHA lb) l sh dep"])
      (simp add: withSpec_def Let_def life_parentJobSpec_def parentJobSpec_def case_prod_beta)
qed (simp_all add: withSpec_def Let_def)

lemma newLifecycle_settings:
  assumes "fst (newLifecycle lb h s) = Ok l"
  shows "lcParentJobID l = parentJobOf h \<and> clNamespace (lcClient l) = namespaceOf h \<and> sameJob l"
  using assms unfolding newLifecycle_def Let_def
  by (auto dest!: ok_bind newClient_namespace split: if_splits
      simp: returnS_def failS_def withSpec_fields parentJobOf_def namespaceOf_def)

lemma encJob_identity: "strOr ''ID'' (objOf (Some (encJob job))) = njID job" "strOr ''Namespace'' (objOf (Some (encJob job))) = njNamespace job"
proof -
  show "strOr ''ID'' (objOf (Some (encJob job))) = njID job"
    by (simp add: encJob_def objOf_object strOr_def strField_def jfield_def omitStr_def omitArr_def omitMap_def split: option.split)
  show "strOr ''Namespace'' (objOf (Some (encJob job))) = njNamespace job"
    by (simp add: encJob_def objOf_object strOr_def strField_def jfield_def omitStr_def omitArr_def omitMap_def split: option.split)
qed

lemma settings_own:
  assumes "fst (newLifecycle lb h s) = Ok l" and "CHR ''/'' \<notin> set (parentJobOf h)"
  shows "ownSpec l \<and> lcParentJobID l = parentJobOf h \<and> clNamespace (lcClient l) = namespaceOf h"
proof -
  have "namespaceOf h \<noteq> []" "parentJobOf h \<noteq> []" by (simp_all add: namespaceOf_def parentJobOf_def)
  then show ?thesis
    using newLifecycle_settings [OF assms(1)] assms(2) encJob_identity
    by (auto simp: ownSpec_def specNamespace_def specFields_def sameJob_def Let_def)
qed

subsection \<open>The invariant of the fleet\<close>

abbreviation serverIn :: "fworld lstate \<Rightarrow> fserver" where
  "serverIn s \<equiv> fwServer (lsWorld s)"

definition fleetOK :: "string \<Rightarrow> string \<Rightarrow> fworld lstate \<Rightarrow> bool" where
  "fleetOK p ns s \<longleftrightarrow> sidecar_wf s \<and> serverOK p ns (serverIn s) \<and> onePerSession (kidsOf p (serverIn s))
    \<and> (\<forall>n b. sidecar_view s n = Some b \<longrightarrow> leadsTo (kidsOf p (serverIn s)) n b)"

lemma store_frame [simp]:
  "sidecar_wf (s\<lparr>lsWorld := w\<rparr>) = sidecar_wf s" "sidecar_view (s\<lparr>lsWorld := w\<rparr>) = sidecar_view s"
  "sidecar_wf (s\<lparr>lsLocks := k\<rparr>) = sidecar_wf s" "sidecar_view (s\<lparr>lsLocks := k\<rparr>) = sidecar_view s"
  "sidecar_wf (s\<lparr>lsSinkFaults := g\<rparr>) = sidecar_wf s" "sidecar_view (s\<lparr>lsSinkFaults := g\<rparr>) = sidecar_view s"
  by (simp_all add: sidecar_wf_def sidecar_view_def fun_eq_iff)

lemma fleetOK_sound:
  assumes "ownSpec l"
  shows "fc.sound l f s \<longleftrightarrow> fleetOK (lcParentJobID l) (clNamespace (lcClient l)) s \<and> (f \<longrightarrow> listingFits l (serverIn s))"
  using assms unfolding fc.sound_def fc.bounded_def by (auto simp: fleetOK_def clusterOK_def)

text \<open>The settings of a process leave room for its requests: the listing of the jobs fits into one response.\<close>

definition roomFor :: "libs \<Rightarrow> host \<Rightarrow> fserver \<Rightarrow> bool" where
  "roomFor lb h sv \<longleftrightarrow> (\<forall>l (s :: fworld lstate). fst (newLifecycle lb h s) = Ok l \<longrightarrow> listingFits l sv)"

lemma keeps_fleet:
  assumes "p \<noteq> []" and "CHR ''/'' \<notin> set p" and "ns \<noteq> []" and "\<And>l S f. keeps (fc.bounded l S f) q"
  shows "keeps (fleetOK p ns) q"
proof -
  define l where "l = stubLife\<lparr>lcParentJobID := p, lcClient := \<lparr>clAddr = [], clToken = [], clNamespace = ns\<rparr>,
    lcSpec := JObj [(''ID'', JStr p), (''Namespace'', JStr ns)]\<rparr>"
  have l: "ownSpec l" "lcParentJobID l = p" "clNamespace (lcClient l) = ns"
    using assms(1-3) by (simp_all add: l_def ownSpec_def specNamespace_def specFields_def objOf_object strOr_def strField_def jfield_def Let_def)
  show ?thesis
    using fc.keeps_sound [of l False q, OF assms(4)] fleetOK_sound [OF l(1), of False] unfolding l(2,3) by (simp add: keeps_def)
qed

text \<open>What a process does before it has its configuration does not reach the server.\<close>

lemma world_untouched:
  fixes w :: fworld
  defines "W \<equiv> \<lambda>s :: fworld lstate. lsWorld s = w"
  shows "keeps W (capabilityGate h op)" "keeps W (newLifecycle lb h)"
proof -
  have warn: "keeps W (warnLine m)" for m unfolding warnLine_def by (rule keeps_modify) (simp add: W_def)
  have fault: "keeps W takeFault" by (auto simp: keeps_def W_def takeFault_def split: list.split)
  have lift: "keeps W (liftSum r)" for r :: "goerr + 'b" unfolding liftSum_def by (intro keeps_intros)
  show "keeps W (capabilityGate h op)"
    unfolding capabilityGate_def by (intro keeps_intros warn)
  have "keeps W (newClient lb h a tk ns)" "keeps W (newSidecar d)" for a tk ns d
    unfolding newClient_def newSidecar_def Let_def by (intro keeps_intros warn fault)+
  then show "keeps W (newLifecycle lb h)"
    unfolding newLifecycle_def Let_def by (intro keeps_intros lift)
qed

context child_cluster
begin

lemma calm_gate: "keeps (bounded S f) (capabilityGate h op)"
  unfolding capabilityGate_def by (intro keeps_intros calm)

end

lemma process_keeps:
  assumes "fleetOK (parentJobOf h) (namespaceOf h) s" and "CHR ''/'' \<notin> set (parentJobOf h)"
    and "args \<noteq> [] \<Longrightarrow> hd args \<in> set mintsABox \<Longrightarrow> roomFor lb h (serverIn s)"
  shows "fleetOK (parentJobOf h) (namespaceOf h) (snd (run lb (fakeEnv host exec) h pio args s))"
proof -
  let ?p = "parentJobOf h" and ?ns = "namespaceOf h" and ?ev = "fakeEnv host exec"
  let ?Q = "\<lambda>r. fleetOK ?p ?ns"
  have ne: "?p \<noteq> []" "?ns \<noteq> []" by (simp_all add: namespaceOf_def parentJobOf_def)
  note fleet = keeps_fleet [OF ne(1) assms(2) ne(2)]
  have quiet: "keeps (fleetOK ?p ?ns) (warnLine m)" "keeps (fleetOK ?p ?ns) (opCheck lb ?ev h)" "keeps (fleetOK ?p ?ns) (refuseOp op m)"
    "keeps (fleetOK ?p ?ns) (capabilityGate h op)" "keeps (fleetOK ?p ?ns) (newLifecycle lb h)" for m op
    by (intro fleet fc.calm_local(2) fc.calm_check fc.calm_reporting(2) fc.calm_gate fc.calm_settings)+
  have life: "wp (runLifecycle lb ?ev h l pio op rest) ?Q s'"
    if l: "fst (newLifecycle lb h s0) = Ok l" and s': "fleetOK ?p ?ns s'" "lsWorld s' = lsWorld s" and args: "args = op # rest"
    for l op rest s' and s0 :: "fworld lstate"
  proof -
    have own: "ownSpec l" "lcParentJobID l = ?p" "clNamespace (lcClient l) = ?ns" using settings_own [OF l assms(2)] by auto
    have "listingFits l (serverIn s')" if "op \<in> set mintsABox"
      using assms(3) l s'(2) args that unfolding roomFor_def by auto
    then have "fc.sound l (op \<in> set mintsABox) s'"
      using fleetOK_sound [OF own(1)] s'(1) by (simp add: own)
    from fc.sound_runLifecycle [OF this, of lb host exec h pio rest] show ?thesis
      using fleetOK_sound [OF own(1), of False] by (simp add: wp_iff own)
  qed
  have start: "wp (bindS (attempt (newLifecycle lb h)) (\<lambda>rl. case rl of
               Inl e \<Rightarrow> bindS (warnLine (''gc-runtime-nomad: '' @ errText e @ nl)) (\<lambda>_. returnS (exitError, []))
             | Inr l \<Rightarrow> runLifecycle lb ?ev h l pio op rest)) ?Q s'"
    if s': "fleetOK ?p ?ns s'" "lsWorld s' = lsWorld s" and args: "args = op # rest" for op rest s'
  proof -
    have s1: "fleetOK ?p ?ns (snd (newLifecycle lb h s'))" "lsWorld (snd (newLifecycle lb h s')) = lsWorld s"
      using keepsD [OF quiet(5) s'(1)] keepsD [OF world_untouched(2), OF s'(2)] by auto
    have "wp (bindS (warnLine m) (\<lambda>_. returnS (exitError, []))) ?Q (snd (newLifecycle lb h s'))" for m
      using keepsD [OF keeps_bind [OF quiet(1) keeps_return] s1(1)] by (simp add: wp_iff)
    then show ?thesis
      unfolding wp_bind [of "attempt _"] wp_attempt wp_iff [of "newLifecycle lb h"]
      using s1 life [OF _ s1 args] by (cases "fst (newLifecycle lb h s')") auto
  qed
  have "wp (run lb ?ev h pio args) ?Q s"
  proof (cases args)
    case Nil
    then show ?thesis
      using keepsD [OF keeps_bind [OF quiet(1) keeps_return] assms(1)] by (simp add: run_def wp_iff)
  next
    case (Cons op rest)
    have gate: "fleetOK ?p ?ns (snd (capabilityGate h op s))" "lsWorld (snd (capabilityGate h op s)) = lsWorld s"
      using keepsD [OF quiet(4) assms(1)] keepsD [OF world_untouched(1)] by auto
    have refuse: "wp (refuseOp op m) ?Q (snd (capabilityGate h op s))" for m
      using keepsD [OF quiet(3) gate(1)] by (simp add: wp_iff)
    have check: "wp (bindS (opCheck lb ?ev h) (\<lambda>code. returnS (code, []))) ?Q s"
      using keepsD [OF keeps_bind [OF quiet(2) keeps_return] assms(1)] by (simp add: wp_iff)
    show ?thesis
      unfolding run_def Cons list.case
      using assms(1) check refuse gate start [OF gate Cons]
      by (auto simp: wp_return wp_bind [of "capabilityGate h op"] wp_iff [of "capabilityGate h op"] split: result.split option.split)
  qed
  then show ?thesis by (simp add: wp_iff)
qed

subsection \<open>Runs\<close>

definition onServer :: "(fserver \<Rightarrow> fserver) \<Rightarrow> fworld lstate \<Rightarrow> fworld lstate" where
  "onServer f s = s\<lparr>lsWorld := (lsWorld s)\<lparr>fwServer := f (serverIn s)\<rparr>\<rparr>"

text \<open>One step of the deployment \<open>p\<close> in the namespace \<open>ns\<close>: a process with any arguments and any faults ahead of it, a main
  task that exits, an allocation that is lost, the cluster refusing or resuming placement, and time.\<close>

inductive fleetRun :: "string \<Rightarrow> string \<Rightarrow> fworld lstate \<Rightarrow> bool" for p ns where
  fresh: "sidecar_wf s \<Longrightarrow> serverIn s = newServer \<Longrightarrow> fleetRun p ns s"
| process: "fleetRun p ns s \<Longrightarrow> parentJobOf h = p \<Longrightarrow> namespaceOf h = ns \<Longrightarrow>
    (args \<noteq> [] \<Longrightarrow> hd args \<in> set mintsABox \<Longrightarrow> roomFor lb h (serverIn s)) \<Longrightarrow>
    fleetRun p ns (snd (run lb (fakeEnv host exec) h pio args (s\<lparr>fs_faults := faults, lsSinkFaults := sinkFaults, lsLocks := []\<rparr>)))"
| exited: "fleetRun p ns s \<Longrightarrow> fleetRun p ns (onServer (mainTaskExited a t ok) s)"
| lost: "fleetRun p ns s \<Longrightarrow> terminalAllocStatus st \<Longrightarrow> fleetRun p ns (onServer (\<lambda>sv. snd (SetAllocStatus a st sv)) s)"
| placing: "fleetRun p ns s \<Longrightarrow> fleetRun p ns (onServer (SetPlaceAllocs b) s)"
| tick: "fleetRun p ns s \<Longrightarrow> fleetRun p ns (s\<lparr>lsWorld := (lsWorld s)\<lparr>fwClock := now\<rparr>\<rparr>)"

definition liveChildren :: "string \<Rightarrow> string \<Rightarrow> fserver \<Rightarrow> string list" where
  "liveChildren p n s =
    map fst (filter (\<lambda>(c, j). fjParentID j = p \<and> mapGet (fjMeta j) ''gc_session'' = n \<and> jobStatus s c = ''running'') (fsJobs s))"

lemma fleet_server:
  assumes "fleetOK p ns s" and "server_inv sv" and "fsJobs sv = fsJobs (serverIn s)" and "fsFaults sv = []" and "\<not> fsAllocListErr sv"
    and "\<And>c. jobStatus sv c = ''running'' \<Longrightarrow> jobStatus (serverIn s) c = ''running''"
  shows "fleetOK p ns (s\<lparr>lsWorld := (lsWorld s)\<lparr>fwServer := sv\<rparr>\<rparr>)"
proof -
  have "kidsOf p sv \<subseteq> kidsOf p (serverIn s)" using assms(3,6) by (auto simp: kidsOf_def)
  moreover have "serverOK p ns sv" using assms by (simp add: fleetOK_def serverOK_def)
  ultimately show ?thesis
    using assms(1) by (auto simp: fleetOK_def intro: onePerSession_mono leadsTo_mono)
qed

text \<open>An allocation that becomes terminal ends children at most.\<close>

lemma touch_terminal:
  assumes "\<And>a. faJobID (f a) = faJobID a" and "\<And>a. terminalAllocStatus (faClientStatus (f a))"
    and "jobStatus (snd (touchAlloc i f sv)) c = ''running''"
  shows "jobStatus sv c = ''running''"
  using assms
  by (fastforce simp: touchAlloc_def Let_def bumpIndex_def jobStatus_def list_ex_iff set_mapSet split: option.splits if_splits)

lemma touchAlloc_frame: "fsFaults (snd (touchAlloc i f sv)) = fsFaults sv"
  by (auto simp: touchAlloc_def Let_def bumpIndex_def split: option.split)

lemma fleetRun_OK:
  assumes "fleetRun p ns s" and "CHR ''/'' \<notin> set p"
  shows "fleetOK p ns s"
  using assms
proof (induction rule: fleetRun.induct)
  case (fresh s)
  then show ?case by (simp add: fleetOK_def serverOK_def newServer_def server_inv_def kidsOf_def onePerSession_def leadsTo_def)
next
  case (process s h args lb host exec pio sinkFaults faults)
  let ?s = "s\<lparr>fs_faults := faults, lsSinkFaults := sinkFaults, lsLocks := []\<rparr>"
  have "fleetOK p ns ?s" using process by (simp add: fleetOK_def)
  then show ?case
    using process_keeps [of h ?s args lb host exec pio] process by simp
next
  case (exited s a t ok)
  let ?sv = "serverIn s" and ?t = "mainTaskExited a t ok (serverIn s)"
  have inv: "server_inv ?sv" "fsFaults ?sv = []" "\<not> fsAllocListErr ?sv" using exited by (auto simp: fleetOK_def serverOK_def)
  have "jobStatus ?sv c = ''running''" if "jobStatus ?t c = ''running''" for c
    using that touch_terminal [of "\<lambda>b. setTaskStateLocked t (if ok then ''complete'' else ''failed'') (b\<lparr>faClientStatus := if ok then ''complete'' else ''failed''\<rparr>)" a ?sv c]
    by (auto simp: mainTaskExited_def setTaskStateLocked_def terminalAllocStatus_def Let_def split: option.splits if_splits)
  then show ?case
    using fleet_server [of p ns s ?t] exited inv server_inv_exited [OF inv(1)]
    by (auto simp: onServer_def mainTaskExited_def Let_def touchAlloc_frame split: option.splits)
next
  case (lost s st a)
  let ?sv = "serverIn s" and ?t = "snd (SetAllocStatus a st (serverIn s))"
  have inv: "server_inv ?sv" "fsFaults ?sv = []" "\<not> fsAllocListErr ?sv" using lost by (auto simp: fleetOK_def serverOK_def)
  have "jobStatus ?sv c = ''running''" if "jobStatus ?t c = ''running''" for c
    using that lost(2) touch_terminal [of "\<lambda>b. b\<lparr>faClientStatus := st\<rparr>" a ?sv c] by (simp add: SetAllocStatus_def)
  moreover have "server_inv ?t" unfolding SetAllocStatus_def by (rule server_inv_touch [OF inv(1)]) simp
  ultimately show ?case
    using fleet_server [of p ns s ?t] lost inv by (simp add: onServer_def SetAllocStatus_def touchAlloc_frame)
next
  case (placing s b)
  then show ?case
    using fleet_server [of p ns s "SetPlaceAllocs b (serverIn s)"]
    by (simp add: onServer_def SetPlaceAllocs_def fleetOK_def serverOK_def jobStatus_def)
next
  case (tick s now)
  then show ?case by (simp add: fleetOK_def)
qed

lemma distinct_single:
  assumes "distinct xs" and "\<And>x y. x \<in> set xs \<Longrightarrow> y \<in> set xs \<Longrightarrow> y = x"
  shows "length xs \<le> 1"
proof (cases xs)
  case (Cons a ys)
  have "y \<notin> set ys" for y using assms(2) [of a y] assms(1) by (auto simp: Cons)
  then have "ys = []" by (cases ys) auto
  then show ?thesis by (simp add: Cons)
qed simp

subsection \<open>A deployment with room\<close>

text \<open>The parent job of a deployment with the default names is small, so the first process that starts a session has
  room for its requests.\<close>

lemma newLifecycle_spec:
  assumes "fst (newLifecycle lb h s) = Ok l"
  shows "\<exists>sh dep base. l = withSpec lb h sh dep base \<and> lcNodePool base = getenv h ''GC_NOMAD_NODE_POOL'' \<and> lcAgentImage base = getenv h ''GC_NOMAD_AGENT_IMAGE''"
  using assms unfolding newLifecycle_def Let_def
  by (auto dest!: ok_bind split: if_splits simp: returnS_def failS_def) ((rule exI)+, rule conjI, rule refl, simp)+

lemma encJob_rest: "strOr ''NodePool'' (objOf (Some (encJob job))) = njNodePool job"
  "njMeta job \<noteq> [] \<Longrightarrow> mapOr ''Meta'' (objOf (Some (encJob job))) = rev (map (\<lambda>k. (k, mapGet (njMeta job) k)) (sortedKeys (njMeta job)))"
proof -
  have "lowerChar (CHR ''P'') \<noteq> lowerChar (CHR ''N'')" by code_simp
  then show "strOr ''NodePool'' (objOf (Some (encJob job))) = njNodePool job"
    by (simp add: encJob_def objOf_object strOr_def strField_def jfield_def omitStr_def omitArr_def omitMap_def split: option.split)
  show "mapOr ''Meta'' (objOf (Some (encJob job))) = rev (map (\<lambda>k. (k, mapGet (njMeta job) k)) (sortedKeys (njMeta job)))"
    if "njMeta job \<noteq> []"
    using decStrMap_enc [of "map (\<lambda>k. (k, mapGet (njMeta job) k)) (sortedKeys (njMeta job))"] that
    by (simp add: encJob_def objOf_object mapOr_def mapField_def jfield_def omitMap_def encSortedMap_def comp_def)
qed

definition demoHost :: host where
  "demoHost = bareHost\<lparr>hostEnv := map_of [(''GC_NOMAD_ADDR'', ''http://n''), (''GC_NOMAD_SIDECAR_DIR'', ''/s''), (''GC_NOMAD_AGENT_IMAGE'', ''img''),
     (''GC_NOMAD_SKIP_GC_CAPABILITY_GATE'', ''1'')]\<rparr>"

definition demoLibs :: libs where
  "demoLibs = bareLibs\<lparr>libURL := (\<lambda>_. Inr (''http'', ''n'', ''http://n''))\<rparr>"

lemma demo_env: "getenv demoHost ''GC_NOMAD_NODE_POOL'' = []" "getenv demoHost ''GC_NOMAD_AGENT_IMAGE'' = ''img''"
  "gcArtifact demoHost = noArtifact" "imageTar demoHost = noImageTar" "parentJobOf demoHost = ''gc-sessions''" "namespaceOf demoHost = ''default''"
  by (simp_all add: demoHost_def getenv_def gcArtifact_def imageTar_def parentJobOf_def namespaceOf_def trimSpace_def)

definition demoMeta :: gomap where
  "demoMeta = mapSet jobspecHashMetaKey [] [(agentImageMetaKey, ''img''), (gcArtifactMetaKey, []), (gcArtifactSumMetaKey, []),
     (imageTarMetaKey, []), (imageTarSumMetaKey, [])]"

lemma demo_row:
  assumes "fst (newLifecycle demoLibs demoHost s) = Ok l"
  shows "specJob l = (specJob l)\<lparr>fjID := ''gc-sessions'', fjNamespace := ''default'', fjNodePool := [], fjParentID := [],
    fjMeta := rev (map (\<lambda>k. (k, mapGet demoMeta k)) (sortedKeys demoMeta))\<rparr>"
proof -
  obtain sh dep base where l: "l = withSpec demoLibs demoHost sh dep base" "lcNodePool base = []" "lcAgentImage base = ''img''"
    using newLifecycle_spec [OF assms] demo_env by auto
  have job: "njMeta (life_parentJobSpec demoHost (libSHA demoLibs) base sh dep) = demoMeta"
    "njNodePool (life_parentJobSpec demoHost (libSHA demoLibs) base sh dep) = []"
    using l(2,3) by (simp_all add: life_parentJobSpec_def parentJobSpec_def Let_def demo_env demoMeta_def jobspecHash_def demoLibs_def
        bareLibs_def noArtifact_def noImageTar_def hexEncode_def)
  have "demoMeta \<noteq> []" by (simp add: demoMeta_def mapSet_def)
  moreover have "lcParentJobID l = ''gc-sessions''" "specNamespace l = ''default''"
    using settings_own [OF assms] demo_env by (auto simp: ownSpec_def)
  ultimately show ?thesis
    using encJob_rest [of "life_parentJobSpec demoHost (libSHA demoLibs) base sh dep"] job
    by (simp add: specJob_def specFields_def l(1) withSpec_def Let_def)
qed

definition demoRow :: fjob where
  "demoRow = \<lparr>fjID = ''gc-sessions'', fjNamespace = ''default'', fjNodePool = [], fjParentID = [], fjDispatched = False,
     fjMeta = rev (map (\<lambda>k. (k, mapGet demoMeta k)) (sortedKeys demoMeta)), fjModifyIndex = 0, fjTasks = [], fjPortLabels = []\<rparr>"

lemma demo_bulk: "rowBulk demoRow \<le> 1000"
  by code_simp

lemma demo_room: "roomFor demoLibs demoHost newServer"
  unfolding roomFor_def
proof (intro allI impI)
  fix l and s :: "fworld lstate"
  assume l: "fst (newLifecycle demoLibs demoHost s) = Ok l"
  have "specJob l = demoRow" using demo_row [OF l] by (simp add: specJob_def demoRow_def)
  moreover have "(1004 :: nat) \<le> maxResponseByte" by (simp add: maxResponseByte_def)
  ultimately show "listingFits l newServer"
    using demo_bulk by (simp add: listingFits_def listingBulk_def newServer_def mapSet_def)
qed

definition demoRun :: "fworld lstate" where
  "demoRun = snd (run demoLibs (fakeEnv (\<lambda>_ _. Starts) (\<lambda>_ _ _ _. (0, [], []))) demoHost bareIO [''provision'', ''a'']
     ((fakeState [])\<lparr>fs_faults := [], lsSinkFaults := [], lsLocks := []\<rparr>))"

lemma demo_runs: "fleetRun ''gc-sessions'' ''default'' demoRun"
  unfolding demoRun_def
proof (rule fleetRun.process)
  show "fleetRun ''gc-sessions'' ''default'' (fakeState [])"
    by (rule fleetRun.fresh) (simp_all add: fakeState_def sidecar_wf_def)
  show "roomFor demoLibs demoHost (serverIn (fakeState []))" using demo_room by (simp add: fakeState_def)
qed (rule demo_env)+

subsection \<open>One live child per session\<close>

text \<open>C1. However the processes of a deployment run, whatever fails in their file system, in their boxes or in
  their tasks, no session has two live children, and a binding that names a child
  names the live one if there is one.\<close>

theorem one_live_child:
  assumes "fleetRun p ns s" and "CHR ''/'' \<notin> set p"
  shows "length (liveChildren p n (serverIn s)) \<le> 1
    \<and> (\<forall>b. sidecar_view s n = Some b \<longrightarrow> ChildJobID b \<noteq> [] \<longrightarrow> set (liveChildren p n (serverIn s)) \<subseteq> {ChildJobID b})"
proof -
  let ?sv = "serverIn s" and ?xs = "liveChildren p n (serverIn s)"
  have ok: "fleetOK p ns s" by (rule fleetRun_OK [OF assms])
  then have inv: "distinct (map fst (fsJobs ?sv))" "onePerSession (kidsOf p ?sv)"
    by (auto simp: fleetOK_def serverOK_def server_inv_def)
  have kid: "\<exists>k. (n, c, k) \<in> kidsOf p ?sv" if "c \<in> set ?xs" for c
    using that inv(1) by (auto simp: liveChildren_def kidsOf_def)
  have one: "c' = c" if "c \<in> set ?xs" "c' \<in> set ?xs" for c c'
    using kid that onePerSessionD [OF inv(2)] by blast
  have "distinct ?xs"
    unfolding liveChildren_def using inv(1) by (rule distinct_map_filter)
  then have "length ?xs \<le> 1" using one by (rule distinct_single)
  moreover have "set ?xs \<subseteq> {ChildJobID b}" if "sidecar_view s n = Some b" "ChildJobID b \<noteq> []" for b
  proof
    fix c assume "c \<in> set ?xs"
    then obtain k where "(n, c, k) \<in> kidsOf p ?sv" using kid by blast
    moreover have "leadsTo (kidsOf p ?sv) n b" using ok that(1) by (simp add: fleetOK_def)
    ultimately show "c \<in> {ChildJobID b}" using that(2) by (auto simp: leadsTo_def)
  qed
  ultimately show ?thesis by blast
qed

theorem one_live_child_witness:
  "fleetRun ''gc-sessions'' ''default'' demoRun \<and> CHR ''/'' \<notin> set ''gc-sessions''
   \<and> length (liveChildren ''gc-sessions'' ''a'' (serverIn demoRun)) \<le> 1"
  using one_live_child [OF demo_runs, of "''a''"] demo_runs by simp

end
