(* ===== verification/Drills.thy ===== *)
theory Drills
  imports Settings
begin

text \<open>
  The reconciler drills (\<^verbatim>\<open>src/drills\<close>): a harness that drives the runtime's binary as a subprocess, reads
  Nomad on its own, and judges from those observations alone whether an agent or a box
  died, whether an answer under a fault was honest, and whether evidence left the box before the job
  was removed. The subprocess, the connection, the certificate loader and the proxy's listener are
  parameters.
\<close>

subsection \<open>Verdicts\<close>

datatype DeathClass = DeathUnknown | DeathAgent | DeathBox

fun deathText :: "DeathClass \<Rightarrow> string" where
  "deathText DeathAgent = ''agent-death''"
| "deathText DeathBox = ''box-death''"
| "deathText DeathUnknown = ''unknown''"

record drillAlloc =
  daID :: string
  daClientStatus :: string
  daDesiredStatus :: string
  daModifyIndex :: nat

definition runningAllocStatuses :: "string list" where
  "runningAllocStatuses = [''pending'', ''running'']"

definition ClassifyDeath :: "drillAlloc \<Rightarrow> drillAlloc \<Rightarrow> bool \<Rightarrow> DeathClass" where
  "ClassifyDeath before after isRunningAfter =
    (let aliveBefore = (daClientStatus before \<in> set runningAllocStatuses);
         aliveAfter = (daClientStatus after \<in> set runningAllocStatuses) in
     if \<not> aliveBefore then DeathUnknown
     else if aliveAfter \<and> \<not> isRunningAfter then DeathAgent
     else if \<not> aliveAfter then DeathBox
     else DeathUnknown)"

record HonestyVerdict =
  hvHonest :: bool
  hvDetail :: string

definition CheckIsRunningHonesty :: "bool \<Rightarrow> bool \<Rightarrow> goerr option \<Rightarrow> HonestyVerdict" where
  "CheckIsRunningHonesty wasRunningBefore observedRunning lookupErr =
    (if lookupErr \<noteq> None
     then (if wasRunningBefore
           then \<lparr>hvHonest = False, hvDetail = ''is-running returned an error for a session last known running; ''
             @ ''want last-known-good true, not a surfaced error''\<rparr>
           else \<lparr>hvHonest = True, hvDetail = []\<rparr>)
     else if wasRunningBefore \<and> \<not> observedRunning
     then \<lparr>hvHonest = False, hvDetail = ''is-running flipped to false during a fault window for a session last known running; ''
       @ ''want last-known-good true''\<rparr>
     else \<lparr>hvHonest = True, hvDetail = []\<rparr>)"

definition StalenessAge :: "gotime \<Rightarrow> gotime \<Rightarrow> duration" where
  "StalenessAge lastGood now = (if now < lastGood then 0 else timeSub now lastGood)"

definition CountReplacementAllocs :: "drillAlloc list \<Rightarrow> nat" where
  "CountReplacementAllocs allocs = (if allocs = [] then 0 else length allocs - 1)"

record EgressOrdering =
  eoEgressObservedAt :: gotime
  eoDeregisterObservedAt :: gotime
  eoEgressCompleted :: bool
  eoEvidenceLostMarked :: bool

definition Ordered :: "EgressOrdering \<Rightarrow> bool" where
  "Ordered eo =
    (if eoEvidenceLostMarked eo then True
     else if \<not> eoEgressCompleted eo then False
     else \<not> eoDeregisterObservedAt eo < eoEgressObservedAt eo)"

subsection \<open>Configuration\<close>

record drillTLS =
  dtCACertPath :: string
  dtCertPath :: string
  dtKeyPath :: string

definition tls_empty :: "drillTLS \<Rightarrow> bool" where
  "tls_empty t \<longleftrightarrow> dtCACertPath t = [] \<and> dtCertPath t = [] \<and> dtKeyPath t = []"

record drillConfig =
  dcAddr :: string
  dcToken :: string
  dcNamespace :: string
  dcParentJob :: string
  dcTLS :: drillTLS
  dcRuntimeBin :: string

definition orDefault :: "string \<Rightarrow> string \<Rightarrow> string" where
  "orDefault v d = (if v = [] then d else v)"

definition ConfigFromEnv :: "host \<Rightarrow> drillConfig" where
  "ConfigFromEnv h =
    \<lparr>dcAddr = getenv h ''GC_NOMAD_ADDR'', dcToken = getenv h ''GC_NOMAD_TOKEN'', dcNamespace = getenv h ''GC_NOMAD_NAMESPACE'',
     dcParentJob = orDefault (getenv h ''GC_NOMAD_PARENT_JOB'') ''gc-sessions'',
     dcTLS = \<lparr>dtCACertPath = getenv h ''GC_NOMAD_TLS_CACERT'', dtCertPath = getenv h ''GC_NOMAD_TLS_CERT'', dtKeyPath = getenv h ''GC_NOMAD_TLS_KEY''\<rparr>,
     dcRuntimeBin = orDefault (getenv h ''GC_RUNTIME_NOMAD_BIN'') ''gc-runtime-nomad''\<rparr>"

subsection \<open>The observer\<close>

text \<open>
  \<open>dwURL\<close> is \<^verbatim>\<open>url.Parse\<close> (scheme, host, printed form), \<open>dwPEM\<close> tells whether a text holds usable certificates,
  \<open>dwKeyPair\<close> is \<^verbatim>\<open>tls.LoadX509KeyPair\<close>, \<open>dwHttp\<close> sends a request, \<open>dwListen\<close> opens the proxy's listener,
  \<open>dwExec\<close> runs a binary with an environment, arguments and stdin: a failure to start, or stdout, stderr and exit code.
\<close>

record 'w drillWorld =
  dwURL :: "string \<Rightarrow> goerr + (string \<times> string \<times> string)"
  dwPEM :: "string \<Rightarrow> bool"
  dwKeyPair :: "string \<Rightarrow> string \<Rightarrow> goerr option"
  dwHttp :: "http_request \<Rightarrow> ('w, http_response) prog"
  dwListen :: "goerr + string"
  dwExec :: "string \<Rightarrow> string list \<Rightarrow> string list \<Rightarrow> string option \<Rightarrow> ('w, string \<times> string \<times> int) prog"
  dwNow :: "('w, gotime) prog"

record drillClient =
  dlAddr :: string
  dlToken :: string
  dlNamespace :: string

definition tlsTransport :: "'w drillWorld \<Rightarrow> host \<Rightarrow> drillTLS \<Rightarrow> goerr option" where
  "tlsTransport dw h cfg =
    (if dtCACertPath cfg = [] \<or> dtCertPath cfg = [] \<or> dtKeyPath cfg = []
     then Some (ENew (''TLS config requires CA cert, client cert, and client key (got ca='' @ goQuote (dtCACertPath cfg)
       @ '' cert='' @ goQuote (dtCertPath cfg) @ '' key='' @ goQuote (dtKeyPath cfg) @ '')''))
     else case hostRead h (dtCACertPath cfg) of
       Inl e \<Rightarrow> Some (EWrap ''reading CA cert: '' e [])
     | Inr caPEM \<Rightarrow>
         if \<not> dwPEM dw caPEM then Some (ENew (''CA cert at '' @ dtCACertPath cfg @ '' contained no usable certificates''))
         else map_option (\<lambda>e. EWrap ''loading client cert/key: '' e []) (dwKeyPair dw (dtCertPath cfg) (dtKeyPath cfg)))"

definition drill_NewClient :: "'w drillWorld \<Rightarrow> host \<Rightarrow> string \<Rightarrow> string \<Rightarrow> string \<Rightarrow> drillTLS \<Rightarrow> goerr + drillClient" where
  "drill_NewClient dw h addr0 token namespace tls =
    (let addr = trimSpace addr0 in
     if addr = [] then Inl (ENew ''nomad API address is required'')
     else case dwURL dw addr of
       Inl e \<Rightarrow> Inl (EWrap ''parsing nomad API address: '' e [])
     | Inr (scheme, hst, printed) \<Rightarrow>
         if scheme = [] \<or> hst = [] then Inl (ENew (''nomad API address must be an absolute URL, got '' @ goQuote addr))
         else case (if tls_empty tls then None else tlsTransport dw h tls) of
           Some e \<Rightarrow> Inl (EWrap ''building mTLS transport: '' e [])
         | None \<Rightarrow> Inr \<lparr>dlAddr = printed, dlToken = token, dlNamespace = orDefault namespace ''default''\<rparr>)"

definition drill_nsQuery :: "drillClient \<Rightarrow> gomap" where
  "drill_nsQuery c = (if dlNamespace c \<noteq> [] \<and> dlNamespace c \<noteq> ''default'' then [(''namespace'', dlNamespace c)] else [])"

text \<open>The request's path is the joined parts; the address has no path of its own.\<close>

definition drill_get ::
  "'w drillWorld \<Rightarrow> drillClient \<Rightarrow> string list \<Rightarrow> gomap \<Rightarrow> (json \<Rightarrow> 'a option) \<Rightarrow> ('w, 'a) prog" where
  "drill_get dw c parts query dec =
    (let path = ''/'' @ joinStrings ''/'' parts in
     bindS (dwHttp dw \<lparr>rqMethod = ''GET'', rqPath = path, rqQuery = query, rqBody = None, rqToken = dlToken c\<rparr>) (\<lambda>resp.
     if rsStatus resp = 404 then failS (ENew (''nomad: '' @ path @ '' not found''))
     else if rsStatus resp div 100 \<noteq> 2
     then failS (ENew (''nomad: GET '' @ path @ '': unexpected status '' @ natText (rsStatus resp) @ '' '' @ httpStatusText (rsStatus resp)))
     else case rsReadErr resp of
       Some e \<Rightarrow> failS e
     | None \<Rightarrow> (case Option.bind (rsDoc resp) dec of
         None \<Rightarrow> failS (ENew ''invalid JSON'')
       | Some x \<Rightarrow> returnS x)))"

definition decDrillAlloc :: "(string \<times> json) list \<Rightarrow> drillAlloc option" where
  "decDrillAlloc fs =
    (case (strField ''ID'' fs, strField ''ClientStatus'' fs, strField ''DesiredStatus'' fs, natField ''ModifyIndex'' fs) of
       (Some i, Some cs, Some ds, Some m) \<Rightarrow> Some \<lparr>daID = i, daClientStatus = cs, daDesiredStatus = ds, daModifyIndex = m\<rparr>
     | _ \<Rightarrow> None)"

definition ListAllocsForJob :: "'w drillWorld \<Rightarrow> drillClient \<Rightarrow> string \<Rightarrow> ('w, drillAlloc list) prog" where
  "ListAllocsForJob dw c jobID =
    wrapS (''listing allocations for job '' @ jobID @ '': '') []
      (drill_get dw c [''v1'', ''job'', jobID, ''allocations''] (drill_nsQuery c) (decList decDrillAlloc))"

definition decDrillJob :: "(string \<times> json) list \<Rightarrow> (string \<times> string \<times> string \<times> gomap) option" where
  "decDrillJob fs =
    (case (strField ''ID'' fs, strField ''ParentID'' fs, strField ''Status'' fs, mapField ''Meta'' fs) of
       (Some i, Some p, Some s, Some m) \<Rightarrow> Some (i, p, s, m)
     | _ \<Rightarrow> None)"

record drillChild =
  dhID :: string
  dhStatus :: string
  dhTerminal :: bool
  dhMeta :: gomap

definition ListChildJobs :: "'w drillWorld \<Rightarrow> drillClient \<Rightarrow> string \<Rightarrow> ('w, drillChild list) prog" where
  "ListChildJobs dw c parentJobID =
    bindS (wrapS ''listing nomad jobs: '' []
      (drill_get dw c [''v1'', ''jobs''] (mapSet ''meta'' ''true'' (drill_nsQuery c)) (decList decDrillJob))) (\<lambda>rows.
    returnS (map (\<lambda>(i, p, st, m). \<lparr>dhID = i, dhStatus = st, dhTerminal = (st \<noteq> ''running''), dhMeta = m\<rparr>)
      (filter (\<lambda>(i, p, st, m). p = parentJobID) rows)))"

fun latestOf :: "drillAlloc \<Rightarrow> drillAlloc list \<Rightarrow> drillAlloc" where
  "latestOf a [] = a"
| "latestOf a (b # bs) = latestOf (if daModifyIndex a < daModifyIndex b then b else a) bs"

definition LatestAlloc :: "'w drillWorld \<Rightarrow> drillClient \<Rightarrow> string \<Rightarrow> ('w, drillAlloc) prog" where
  "LatestAlloc dw c jobID =
    bindS (ListAllocsForJob dw c jobID) (\<lambda>allocs. case allocs of
      [] \<Rightarrow> failS (ENew (''job '' @ jobID @ '' has no allocations''))
    | a # as \<Rightarrow> returnS (latestOf a as))"

lemma latestOf_max: "latestOf a as \<in> set (a # as) \<and> (\<forall>b \<in> set (a # as). daModifyIndex b \<le> daModifyIndex (latestOf a as))"
proof (induction as arbitrary: a)
  case (Cons b bs)
  show ?case
    using Cons.IH [of "if daModifyIndex a < daModifyIndex b then b else a"] by (auto split: if_splits)
qed simp

subsection \<open>The driver\<close>

text \<open>\<open>dvProxy\<close> is the address of the front proxy, when one runs.\<close>

record driver =
  dvBinPath :: string
  dvEnv :: "string list"
  dvObserver :: drillClient
  dvProxy :: "string option"

definition filterEnv :: "string list \<Rightarrow> string list \<Rightarrow> string list" where
  "filterEnv env blocked = filter (\<lambda>kv. takeWhile (\<lambda>c. c \<noteq> CHR ''='') kv \<notin> set blocked) env"

definition StartTLSProxy :: "'w drillWorld \<Rightarrow> host \<Rightarrow> string \<Rightarrow> drillTLS \<Rightarrow> goerr + string" where
  "StartTLSProxy dw h targetAddr cfg =
    (case dwURL dw targetAddr of
       Inl e \<Rightarrow> Inl (EWrap (''parsing proxy target '' @ goQuote targetAddr @ '': '') e [])
     | Inr _ \<Rightarrow>
    (case tlsTransport dw h cfg of
       Some e \<Rightarrow> Inl (EWrap ''building proxy mTLS transport: '' e [])
     | None \<Rightarrow>
    (case dwListen dw of
       Inl e \<Rightarrow> Inl (EWrap ''listening for mTLS proxy: '' e [])
     | Inr listenAddr \<Rightarrow> Inr (''http://'' @ listenAddr))))"

definition driverEnv :: "host \<Rightarrow> string list \<Rightarrow> drillConfig \<Rightarrow> string \<Rightarrow> string list" where
  "driverEnv h environ cfg cliAddr =
    filterEnv environ [''GC_NOMAD_ADDR'', ''GC_NOMAD_TOKEN'', ''GC_NOMAD_NAMESPACE'', ''GC_NOMAD_PARENT_JOB'']
    @ [''GC_NOMAD_ADDR='' @ cliAddr, ''GC_NOMAD_TOKEN='' @ dcToken cfg, ''GC_NOMAD_NAMESPACE='' @ dcNamespace cfg,
       ''GC_NOMAD_PARENT_JOB='' @ dcParentJob cfg]
    @ (if getenv h ''GC_NOMAD_AGENT_IMAGE'' = [] then [''GC_NOMAD_AGENT_IMAGE=gc-runtime-nomad-drill-placeholder:offline''] else [])
    @ (if getenv h ''GC_NOMAD_SKIP_GC_CAPABILITY_GATE'' = [] then [''GC_NOMAD_SKIP_GC_CAPABILITY_GATE=1''] else [])"

definition driver_New :: "'w drillWorld \<Rightarrow> host \<Rightarrow> string list \<Rightarrow> drillConfig \<Rightarrow> goerr + driver" where
  "driver_New dw h environ cfg =
    (case drill_NewClient dw h (dcAddr cfg) (dcToken cfg) (dcNamespace cfg) (dcTLS cfg) of
       Inl e \<Rightarrow> Inl (EWrap ''building observer client: '' e [])
     | Inr observer \<Rightarrow>
         if tls_empty (dcTLS cfg)
         then Inr \<lparr>dvBinPath = dcRuntimeBin cfg, dvEnv = driverEnv h environ cfg (dcAddr cfg), dvObserver = observer, dvProxy = None\<rparr>
         else case StartTLSProxy dw h (dcAddr cfg) (dcTLS cfg) of
           Inl e \<Rightarrow> Inl (EWrap ''starting mTLS front proxy for the pack CLI: '' e [])
         | Inr url \<Rightarrow>
             Inr \<lparr>dvBinPath = dcRuntimeBin cfg, dvEnv = driverEnv h environ cfg url, dvObserver = observer, dvProxy = Some url\<rparr>)"

definition WithEnv :: "driver \<Rightarrow> string list \<Rightarrow> driver" where
  "WithEnv d extra = d\<lparr>dvEnv := dvEnv d @ extra\<rparr>"

definition StartPayload :: "string \<Rightarrow> string" where
  "StartPayload command = jsonText (JObj [(''command'', JStr (orDefault command ''sleep 86400''))])"

record OpResult =
  opStdout :: string
  opStderr :: string
  opExitCode :: int

definition RunOp :: "'w drillWorld \<Rightarrow> driver \<Rightarrow> string \<Rightarrow> string option \<Rightarrow> string list \<Rightarrow> ('w, OpResult) prog" where
  "RunOp dw d op stdin args =
    bindS (wrapS (''starting '' @ dvBinPath d @ '' '' @ joinStrings '' '' (op # args) @ '': '') []
      (dwExec dw (dvBinPath d) (dvEnv d) (op # args) stdin)) (\<lambda>(out, err, code).
    returnS \<lparr>opStdout = out, opStderr = err, opExitCode = code\<rparr>)"

definition driver_IsRunning :: "'w drillWorld \<Rightarrow> driver \<Rightarrow> string \<Rightarrow> ('w, bool) prog" where
  "driver_IsRunning dw d session =
    bindS (RunOp dw d ''is-running'' None [session]) (\<lambda>res.
    if opExitCode res \<noteq> 0
    then failS (ENew (''is-running '' @ session @ '': exit '' @ intText (opExitCode res) @ '': '' @ trimSpace (opStderr res)))
    else case parseBool (trimSpace (opStdout res)) of
      None \<Rightarrow> failS (ENew (''strconv.ParseBool: parsing '' @ goQuote (trimSpace (opStdout res)) @ '': invalid syntax''))
    | Some b \<Rightarrow> returnS b)"

subsection \<open>Scripts\<close>

text \<open>An absent \<^verbatim>\<open>Inject\<close>, \<^verbatim>\<open>Do\<close> or \<^verbatim>\<open>Assert\<close> is \<^const>\<open>None\<close>.\<close>

record 'w step =
  stName :: string
  stInject :: "('w, unit) prog option"
  stDo :: "('w, unit) prog option"
  stAssert :: "(goerr option \<Rightarrow> string) option"

record StepResult =
  srName :: string
  srElapsed :: duration
  srPassed :: bool
  srFailMsg :: string
  srDoErr :: "goerr option"

definition AllPassed :: "StepResult list \<Rightarrow> bool" where
  "AllPassed steps \<longleftrightarrow> list_all srPassed steps"

definition errOf :: "(goerr + unit) \<Rightarrow> goerr option" where
  "errOf r = (case r of Inl e \<Rightarrow> Some e | Inr _ \<Rightarrow> None)"

definition optRun :: "('w, unit) prog option \<Rightarrow> ('w, goerr option) prog" where
  "optRun p = (case p of None \<Rightarrow> returnS None | Some q \<Rightarrow> bindS (attempt q) (\<lambda>r. returnS (errOf r)))"

definition judge :: "'w step \<Rightarrow> goerr option \<Rightarrow> bool \<times> string" where
  "judge st doErr =
    (case stAssert st of
       Some check \<Rightarrow> (check doErr = [], check doErr)
     | None \<Rightarrow> (doErr = None, case doErr of None \<Rightarrow> [] | Some e \<Rightarrow> errText e))"

definition runStep :: "'w drillWorld \<Rightarrow> 'w step \<Rightarrow> ('w, StepResult) prog" where
  "runStep dw st =
    bindS (dwNow dw) (\<lambda>start.
    bindS (optRun (stInject st)) (\<lambda>injErr. case injErr of
      Some e \<Rightarrow> bindS (dwNow dw) (\<lambda>fin.
        returnS \<lparr>srName = stName st, srElapsed = timeSub fin start, srPassed = False,
          srFailMsg = ''inject failed: '' @ errText e, srDoErr = None\<rparr>)
    | None \<Rightarrow>
        bindS (optRun (stDo st)) (\<lambda>doErr.
        bindS (dwNow dw) (\<lambda>fin.
        returnS \<lparr>srName = stName st, srElapsed = timeSub fin start, srPassed = fst (judge st doErr),
          srFailMsg = snd (judge st doErr), srDoErr = doErr\<rparr>))))"

fun RunScript :: "'w drillWorld \<Rightarrow> 'w step list \<Rightarrow> ('w, StepResult list) prog" where
  "RunScript dw [] = returnS []"
| "RunScript dw (st # sts) = bindS (runStep dw st) (\<lambda>r. bindS (RunScript dw sts) (\<lambda>rs. returnS (r # rs)))"

definition childJobIDFor :: "'w drillWorld \<Rightarrow> driver \<Rightarrow> string \<Rightarrow> string \<Rightarrow> ('w, string) prog" where
  "childJobIDFor dw d session parentJob =
    bindS (ListChildJobs dw (dvObserver d) parentJob) (\<lambda>children.
    case find (\<lambda>c. mapGet (dhMeta c) ''gc_session'' = session) children of
      Some c \<Rightarrow> returnS (dhID c)
    | None \<Rightarrow> failS (ENew (''no child job found with gc_session='' @ session @ '' under parent '' @ parentJob)))"

definition opStep :: "'w drillWorld \<Rightarrow> driver \<Rightarrow> string \<Rightarrow> string option \<Rightarrow> string \<Rightarrow> ('w, unit) prog" where
  "opStep dw d op stdin session =
    bindS (RunOp dw d op stdin [session]) (\<lambda>res.
    if opExitCode res \<noteq> 0 then failS (ENew (op @ '' exited '' @ intText (opExitCode res) @ '': '' @ opStderr res)) else returnS ())"

definition observeStep :: "'w drillWorld \<Rightarrow> driver \<Rightarrow> string \<Rightarrow> string \<Rightarrow> ('w, unit) prog" where
  "observeStep dw d session parentJob =
    bindS (childJobIDFor dw d session parentJob) (\<lambda>childJobID.
    bindS (ListAllocsForJob dw (dvObserver d) childJobID) (\<lambda>allocs.
    if CountReplacementAllocs allocs \<noteq> 0
    then failS (ENew (''observer saw '' @ natText (CountReplacementAllocs allocs) @ '' replacement alloc(s), want 0''))
    else bindS (LatestAlloc dw (dvObserver d) childJobID) (\<lambda>latest.
      if daClientStatus latest \<noteq> ''running'' \<and> daClientStatus latest \<noteq> ''pending''
      then failS (ENew (''latest alloc ClientStatus = '' @ goQuote (daClientStatus latest) @ '', want running/pending''))
      else returnS ())))"

definition runningStep :: "'w drillWorld \<Rightarrow> driver \<Rightarrow> string \<Rightarrow> bool \<Rightarrow> ('w, unit) prog" where
  "runningStep dw d session want =
    bindS (driver_IsRunning dw d session) (\<lambda>running.
    if running \<noteq> want
    then failS (ENew (if want then ''is-running = false, want true'' else ''is-running = true after stop, want false''))
    else returnS ())"

definition doStep :: "string \<Rightarrow> ('w, unit) prog \<Rightarrow> 'w step" where
  "doStep name p = \<lparr>stName = name, stInject = None, stDo = Some p, stAssert = None\<rparr>"

definition LifecycleRoundtripSteps :: "'w drillWorld \<Rightarrow> driver \<Rightarrow> string \<Rightarrow> string \<Rightarrow> 'w step list" where
  "LifecycleRoundtripSteps dw d session parentJob =
    [doStep ''start'' (opStep dw d ''start'' (Some (StartPayload [])) session),
     doStep ''observer sees exactly one unreplaced running alloc'' (observeStep dw d session parentJob),
     doStep ''is-running via pack CLI'' (runningStep dw d session True),
     doStep ''stop'' (opStep dw d ''stop'' None session),
     doStep ''is-running false after stop'' (runningStep dw d session False)]"

text \<open>The exit code, the report written to stdout and the text for stderr; \<open>outErr\<close> is the failure of writing the report.\<close>

definition drill_run ::
  "'w drillWorld \<Rightarrow> host \<Rightarrow> string list \<Rightarrow> goerr option \<Rightarrow> string list \<Rightarrow> ('w, int \<times> StepResult list option \<times> string) prog" where
  "drill_run dw h environ outErr args =
    (let scenario = (case args of [] \<Rightarrow> ''lifecycle-roundtrip'' | a # _ \<Rightarrow> a); cfg = ConfigFromEnv h in
     if scenario \<noteq> ''lifecycle-roundtrip''
     then returnS (2, None, ''reconcilersim-drill: unknown scenario '' @ goQuote scenario @ '' (only '' @ [CHR 0x22] @ ''lifecycle-roundtrip'' @ [CHR 0x22]
       @ '' ships in this binary)'' @ [newline])
     else if dcAddr cfg = [] then returnS (1, None, ''reconcilersim-drill: GC_NOMAD_ADDR is required'' @ [newline])
     else case driver_New dw h environ cfg of
       Inl e \<Rightarrow> returnS (1, None, ''reconcilersim-drill: '' @ errText e @ [newline])
     | Inr d \<Rightarrow>
         bindS (dwNow dw) (\<lambda>now.
         let session = ''drill-selfcheck-'' @ intText (unixNano now) in
         bindS (RunScript dw (LifecycleRoundtripSteps dw d session (dcParentJob cfg))) (\<lambda>report.
         returnS (case outErr of
             Some e \<Rightarrow> (1, None, ''reconcilersim-drill: encoding report: '' @ errText e @ [newline])
           | None \<Rightarrow> (if AllPassed report then 0 else 1, Some report, [])))))"

subsection \<open>What the verdicts mean\<close>

text \<open>A death is called by the status of the same allocation; the agent's only while the box lives on.\<close>

lemma ClassifyDeath_iff:
  defines "alive \<equiv> \<lambda>a. daClientStatus a \<in> {''pending'', ''running''}"
  shows "ClassifyDeath b a r = DeathAgent \<longleftrightarrow> alive b \<and> alive a \<and> \<not> r"
    and "ClassifyDeath b a r = DeathBox \<longleftrightarrow> alive b \<and> \<not> alive a"
  by (auto simp: ClassifyDeath_def runningAllocStatuses_def Let_def alive_def)

text \<open>Only a false negative about a session last known running is dishonest, and it is explained.\<close>

lemma honesty_iff:
  "hvHonest (CheckIsRunningHonesty was obs err) \<longleftrightarrow> \<not> (was \<and> (err \<noteq> None \<or> \<not> obs))"
  "hvDetail (CheckIsRunningHonesty was obs err) = [] \<longleftrightarrow> hvHonest (CheckIsRunningHonesty was obs err)"
  by (auto simp: CheckIsRunningHonesty_def)

text \<open>The subprocess sees exactly one value for each variable the driver controls.\<close>

lemma driverEnv_controls:
  assumes "k \<in> {''GC_NOMAD_ADDR'', ''GC_NOMAD_TOKEN'', ''GC_NOMAD_NAMESPACE'', ''GC_NOMAD_PARENT_JOB''}"
  shows "\<exists>v. filter (\<lambda>kv. takeWhile (\<lambda>c. c \<noteq> CHR ''='') kv = k) (driverEnv h environ cfg addr) = [k @ ''='' @ v]"
proof -
  have "filter (\<lambda>kv. takeWhile (\<lambda>c. c \<noteq> CHR ''='') kv = k)
      (filterEnv environ [''GC_NOMAD_ADDR'', ''GC_NOMAD_TOKEN'', ''GC_NOMAD_NAMESPACE'', ''GC_NOMAD_PARENT_JOB'']) = []"
    using assms by (auto simp: filterEnv_def filter_empty_conv)
  then have "filter (\<lambda>kv. takeWhile (\<lambda>c. c \<noteq> CHR ''='') kv = k) (driverEnv h environ cfg addr) =
      filter (\<lambda>kv. takeWhile (\<lambda>c. c \<noteq> CHR ''='') kv = k)
        [''GC_NOMAD_ADDR='' @ addr, ''GC_NOMAD_TOKEN='' @ dcToken cfg, ''GC_NOMAD_NAMESPACE='' @ dcNamespace cfg, ''GC_NOMAD_PARENT_JOB='' @ dcParentJob cfg]"
    using assms by (elim insertE emptyE) (simp_all add: driverEnv_def)
  then show ?thesis using assms by (elim insertE emptyE) simp_all
qed

text \<open>A report has one result per step, in order, and a step without an assertion passes only when its action
  succeeded.\<close>

lemma bindS_Ok: "bindS p f s = (Ok y, s') \<Longrightarrow> \<exists>x s1. p s = (Ok x, s1) \<and> f x s1 = (Ok y, s')"
  by (auto simp: bindS_def split: prod.splits result.splits)

lemma runStep_name: "runStep dw st s = (Ok r, s') \<Longrightarrow> srName r = stName st"
  by (auto simp: runStep_def returnS_def split: option.splits dest!: bindS_Ok)

lemma RunScript_names: "RunScript dw sts s = (Ok rs, s') \<Longrightarrow> map srName rs = map stName sts"
proof (induction sts arbitrary: s rs)
  case (Cons st sts)
  then obtain r s1 rs' where "runStep dw st s = (Ok r, s1)" "RunScript dw sts s1 = (Ok rs', s')" "rs = r # rs'"
    by (auto simp: returnS_def dest!: bindS_Ok)
  then show ?case using Cons.IH runStep_name by simp
qed (simp add: returnS_def)

lemma doStep_passed:
  assumes "runStep dw (doStep n p) s = (Ok r, s')" and "srPassed r"
  shows "\<exists>s1 s2. p s1 = (Ok (), s2)"
  using assms
  by (auto simp: runStep_def doStep_def optRun_def judge_def errOf_def attempt_def returnS_def
      split: option.splits sum.splits prod.splits result.splits dest!: bindS_Ok) blast+

lemma script_passed:
  assumes "RunScript dw (map (\<lambda>(n, p). doStep n p) nps) s = (Ok rs, s')" and "AllPassed rs" and "(n, p) \<in> set nps"
  shows "\<exists>s1 s2. p s1 = (Ok (), s2)"
  using assms
proof (induction nps arbitrary: s rs)
  case (Cons np nps)
  obtain m q where np: "np = (m, q)" by (cases np)
  from Cons.prems(1) obtain r s1 rs' where run: "runStep dw (doStep m q) s = (Ok r, s1)"
      "RunScript dw (map (\<lambda>(n, p). doStep n p) nps) s1 = (Ok rs', s')" "rs = r # rs'"
    by (auto simp: returnS_def np dest!: bindS_Ok)
  then have "srPassed r" "AllPassed rs'" using Cons.prems(2) by (auto simp: AllPassed_def)
  then show ?case
    using doStep_passed [OF run(1)] Cons.IH [OF run(2)] Cons.prems(3) np by auto
qed simp

text \<open>The self-check exits 0 only when \<^verbatim>\<open>is-running\<close> answered true once and false once.\<close>

lemma drill_run_sound:
  assumes "drill_run dw h environ None args s = (Ok (0, rep, msg), s')"
  shows "\<exists>d session s1 s2 s3 s4. driver_IsRunning dw d session s1 = (Ok True, s2) \<and> driver_IsRunning dw d session s3 = (Ok False, s4)"
proof -
  obtain d session s0 rs where run: "RunScript dw (LifecycleRoundtripSteps dw d session (dcParentJob (ConfigFromEnv h))) s0 = (Ok rs, s')" "AllPassed rs"
    using assms
    by (auto simp: drill_run_def Let_def returnS_def split: if_splits sum.splits list.splits dest!: bindS_Ok)
  let ?nps = "[(''start'', opStep dw d ''start'' (Some (StartPayload [])) session),
     (''observer sees exactly one unreplaced running alloc'', observeStep dw d session (dcParentJob (ConfigFromEnv h))),
     (''is-running via pack CLI'', runningStep dw d session True), (''stop'', opStep dw d ''stop'' None session),
     (''is-running false after stop'', runningStep dw d session False)]"
  have steps: "LifecycleRoundtripSteps dw d session (dcParentJob (ConfigFromEnv h)) = map (\<lambda>(n, p). doStep n p) ?nps"
    by (simp add: LifecycleRoundtripSteps_def)
  have ok: "\<exists>s1 s2. driver_IsRunning dw d session s1 = (Ok b, s2)" if "\<exists>s1 s2. runningStep dw d session b s1 = (Ok (), s2)" for b
    using that by (auto simp: runningStep_def returnS_def failS_def split: if_splits dest!: bindS_Ok) blast+
  have "\<exists>s1 s2. runningStep dw d session True s1 = (Ok (), s2)" "\<exists>s1 s2. runningStep dw d session False s1 = (Ok (), s2)"
    by (rule script_passed [OF run(1) [unfolded steps] run(2), of "''is-running via pack CLI''"], simp,
        rule script_passed [OF run(1) [unfolded steps] run(2), of "''is-running false after stop''"], simp)
  then show ?thesis using ok [of True] ok [of False] by blast
qed

end
