(* ===== verification/Adoption_Safety.thy ===== *)
theory Adoption_Safety
  imports Session_Safety
begin

text \<open>
  What provision and start do with a box that is already there: the decision for every combination of age, launch marker and
  probe, together with what is then done to the box and to the record, and the fate of a session past
  the age limit through the whole operation.
\<close>

subsection \<open>The decision and what follows from it\<close>

definition decided :: "bool \<Rightarrow> bool \<Rightarrow> bool \<Rightarrow> bool option \<Rightarrow> adoptPath" where
  "decided known young launched status =
    (if \<not> known \<or> young \<and> launched \<and> status \<noteq> Some False then adoptReject
     else if \<not> young \<or> status = (if launched then Some False else None) then adoptReap
     else if status = Some False then adoptReuse else adoptSelfHealLaunched)"

lemma classify_decided:
  assumes "timeNow ev s = (Ok t0, s0)" and "timeNow ev s0 = (Ok t1, s1)" and "bindingAgentStatus ev l b s1 = (Ok status, s2)"
  shows "\<exists>why s'. classifyAdoption ev l n b s =
    (Ok (decided (CreatedAt b \<noteq> 0) (CreatedAt b \<noteq> 0 \<and> timeSub t1 (CreatedAt b) \<le> adoptAgeLimit l) (Launched b) status, why), s')"
  using assms
  by (cases "CreatedAt b = 0"; cases "Launched b"; cases status)
    (auto simp: classifyAdoption_def bindS_def returnS_def judgeAgent_def decided_def Let_def split: if_splits bool.splits)

lemma at_launchChecks:
  assumes "bound V n" and "boxQuiet K"
  shows "keeps (at V K ks) (warnIfPaneRunsNoAgent (traced ev) l n)" and "keeps (at V K ks) (warnIfBoxGCCannotClaim (traced ev) h l n)"
    and "keeps (at V K ks) (capturePanePID (traced ev) l n)"
proof -
  note box = at_boxExec [OF assms(2)] at_currentAlloc(2) [OF assms] at_local
  have "keeps (at V K ks) (verifyLoop k (traced ev) l n a d lst)" for k a d lst
    by (induction k arbitrary: lst)
      (auto simp: paneCurrentCommand_def boxRunsAnAgent_def Let_def intro!: keeps_intros box)
  then show "keeps (at V K ks) (warnIfPaneRunsNoAgent (traced ev) l n)"
    unfolding warnIfPaneRunsNoAgent_def verifyPaneRunsAgent_def Let_def by (intro keeps_intros box)
  show "keeps (at V K ks) (warnIfBoxGCCannotClaim (traced ev) h l n)" "keeps (at V K ks) (capturePanePID (traced ev) l n)"
    unfolding warnIfBoxGCCannotClaim_def warnIfBoxGCIsStale_def capturePanePID_def Let_def by (intro keeps_intros box)+
qed

lemma wp_confirmLaunched:
  assumes "at V K ks s" and "V n = Some b" and "SessionName b = n" and "ChildJobID b \<noteq> []" and "boxQuiet K"
    and "\<And>r s'. r \<noteq> Ok () \<Longrightarrow> at V K ks s' \<Longrightarrow> Q r s'"
    and "\<And>s' b'. Launched b' \<Longrightarrow> sameBox b b' \<Longrightarrow> at (V(n \<mapsto> b')) K ks s' \<Longrightarrow> Q (Ok ()) s'"
  shows "wp (confirmLaunched (traced ev) h l n wd pc lc) Q s"
proof -
  have bnd: "bound V n" using assms(2,4) by (auto simp: bound_def)
  have step: "wp (bindS p f) Q s'" if "at V K ks s'" "keeps (at V K ks) p" "\<And>x s'. at V K ks s' \<Longrightarrow> wp (f x) Q s'"
    for p :: "(('a \<times> apiCall list) lstate, 'c) prog" and f s'
    unfolding wp_bind by (rule wp_keeps [OF that(1,2)]) (use that(3) assms(6) in \<open>auto split: result.split\<close>)
  have save: "wp (updateBinding n w (\<lambda>b. Some (launchedBinding pid wd pc lc b))) Q s'" if "at V K ks s'" for s' w pid
    by (rule wp_updateBinding [OF that assms(2)])
      (use assms(3,6) in \<open>auto simp: launchedBinding_def sameBox_def intro: assms(7) [of "launchedBinding pid wd pc lc b"]\<close>)
  show ?thesis
    unfolding confirmLaunched_def
    by (intro step [OF assms(1)] step save keeps_attempt at_launchChecks [OF bnd assms(5)]; assumption?)
qed

text \<open>What each decision does to the cluster and to the record.\<close>

definition treated ::
  "adoptPath \<Rightarrow> lifecycle \<Rightarrow> string \<Rightarrow> binding \<Rightarrow> (string \<Rightarrow> binding option) \<Rightarrow> apiCall list \<Rightarrow> bool result
    \<Rightarrow> ('w \<times> apiCall list) lstate \<Rightarrow> bool" where
  "treated path l n b V ks r s \<longleftrightarrow>
    (let dereg = Http (deregisterRequest l (ChildJobID b)); here = (\<lambda>V' ks'. at V' isLifeCall ks' s) in
     case path of
       adoptReject \<Rightarrow> (\<forall>x. r \<noteq> Ok x) \<and> here V ks
     | adoptReap \<Rightarrow> r = Ok False \<and> here (V(n := None)) (ks @ [dereg])
         \<or> (\<forall>x. r \<noteq> Ok x) \<and> (\<exists>b'. ChildJobID b' = ChildJobID b \<and> (here (V(n \<mapsto> b')) ks \<or> here (V(n \<mapsto> b')) (ks @ [dereg])))
     | adoptReuse \<Rightarrow> r = Ok True \<and> here V ks
     | adoptSelfHealLaunched \<Rightarrow> (\<forall>x. r \<noteq> Ok x)
         \<and> (here V ks \<or> (\<exists>b'. ChildJobID b' = ChildJobID b \<and> Launched b' \<and> here (V(n \<mapsto> b')) ks)))"

lemma wp_treated:
  assumes "at V isLifeCall ks s" and "V n = Some b" and "SessionName b = n" and "ChildJobID b \<noteq> []"
    and "classifyAdoption (traced ev) l n b s = (Ok (path, why), s1)"
  shows "wp (adoptExisting (traced ev) h l n b op) (treated path l n b V ks) s"
proof -
  have bq: "boxQuiet isLifeCall" by (rule lifeCall_kinds(1))
  have s1: "at V isLifeCall ks s1" using keepsD [OF at_classifyAdoption(1) [OF bq] assms(1)] assms(5) by (metis snd_conv)
  have log: "wp (bindS (logDecision l m) (\<lambda>_. p)) Q s1" if "\<And>t. at V isLifeCall ks t \<Longrightarrow> wp p Q t"
    for m and p :: "(('a \<times> apiCall list) lstate, bool) prog" and Q
  proof -
    have "fst (logDecision l m s1) = Ok ()" by (simp add: logDecision_def whenS_def modifyS_def returnS_def)
    then show ?thesis using that [OF keepsD [OF at_local(1) s1]] by (simp add: wp_bind wp_iff [of "logDecision l m"])
  qed
  have reuse: "wp (returnS True) (treated adoptReuse l n b V ks) t" if "at V isLifeCall ks t" for t :: "('a \<times> apiCall list) lstate"
    using that by (simp add: treated_def wp_return)
  have reject: "wp (failS e) (treated adoptReject l n b V ks) t" if "at V isLifeCall ks t" for e and t :: "('a \<times> apiCall list) lstate"
    using that by (simp add: treated_def wp_fail)
  have reap: "wp (bindS (reapChild (traced ev) l n b why) (\<lambda>_. returnS False)) (treated adoptReap l n b V ks) t"
    if "at V isLifeCall ks t" for t why
    unfolding wp_bind
  proof (rule wp_reapChild [OF lifeCall_kinds(3) that assms(2-4)], goal_cases)
    case (1 r t' b')
    then show ?case using evidenceOf_fields(2) [OF 1(2)] by (cases r) (auto simp: treated_def)
  qed (simp add: treated_def wp_return)
  have heal: "wp (bindS (confirmLaunched (traced ev) h l n wd pc lc) (\<lambda>_. failS e)) (treated adoptSelfHealLaunched l n b V ks) t"
    if "at V isLifeCall ks t" for t wd pc lc e
    unfolding wp_bind
  proof (rule wp_confirmLaunched [OF that assms(2-4) bq], goal_cases)
    case (1 r t')
    then show ?case by (cases r) (auto simp: treated_def)
  next
    case (2 t' b')
    then show ?case by (auto simp: treated_def wp_fail sameBox_def)
  qed
  show ?thesis
    unfolding adoptExisting_def Let_def wp_bind [of "classifyAdoption _ _ _ _"] wp_iff [of "classifyAdoption _ _ _ _"] assms(5)
    by (cases path) (auto intro!: log reuse reject reap heal)
qed


lemma stub_probe:
  "\<exists>s'. bindingAgentStatus (traced stubEnv) stubLife b s = (Ok (Some True), s')"
  by (simp add: bindingAgentStatus_def liveAllocID_def probeAgentAlive_def listAllocs_def stub_runs isTerminalStatus_def prog_defs)


subsection \<open>A session past the age limit\<close>

text \<open>Adoption that never reuses the box: when the rest succeeds, the box was deregistered and one child was asked for.\<close>

lemma wp_never_reused:
  assumes "at V isLifeCall ks s" and "V n = Some b" and "SessionName b = n" and "ChildJobID b \<noteq> []"
    and "fst (adoptExisting (traced ev) h l n b op s) \<noteq> Ok True" and "\<And>ks. keeps (callsAre isLifeCall ks) onFresh"
  shows "wp (bindS (adoptExisting (traced ev) h l n b op) (\<lambda>reuse. if reuse then onReuse else bindS (dispatch (traced ev) l n img) (\<lambda>_. onFresh)))
    (\<lambda>r t. r = Ok () \<longrightarrow> (\<exists>k u. callsAre isLifeCall (ks @ [Http (deregisterRequest l (ChildJobID b)), dispatchCallOf ev l n img k u]) t)) s"
    (is "wp _ ?Q s")
proof -
  let ?d = "Http (deregisterRequest l (ChildJobID b))"
  have fresh: "wp (bindS (dispatch (traced ev) l n img) (\<lambda>_. onFresh)) ?Q t" if t: "at (V(n := None)) isLifeCall (ks @ [?d]) t" for t
    unfolding wp_bind
  proof (rule wp_dispatch [OF lifeCall_kinds(2) t], simp, goal_cases)
    case (1 r t')
    have "\<exists>k u. callsAre isLifeCall ((ks @ [?d]) @ [dispatchCallOf ev l n img k u]) t'" if "r = Ok ()"
      using 1 that by (auto simp: dispatchOutcome_def freshOutcome_def at_def)
    then have "\<exists>k u. callsAre isLifeCall (ks @ [?d, dispatchCallOf ev l n img k u]) (snd (onFresh t'))" if "r = Ok ()"
      using that keepsD [OF assms(6)] by fastforce
    then show ?case by (cases r) (auto simp: wp_iff)
  qed
  have "wp (adoptExisting (traced ev) h l n b op) (\<lambda>r t. adoptOutcome isLifeCall l n b V ks r t \<and> r \<noteq> Ok True) s"
  proof (rule wp_conj)
    show "wp (adoptExisting (traced ev) h l n b op) (adoptOutcome isLifeCall l n b V ks) s"
      by (rule wp_adoptExisting [OF lifeCall_kinds(3) assms(1-4)])
    show "wp (adoptExisting (traced ev) h l n b op) (\<lambda>r t. r \<noteq> Ok True) s" using assms(5) by (simp add: wp_iff)
  qed
  then show ?thesis
    unfolding wp_bind by (rule wp_mono) (auto simp: adoptOutcome_def fresh split: result.splits bool.splits)
qed

lemma aged_run:
  assumes "sidecar_wf s"
    and "fst (bindS (warnDeclaredSecrets h n cfg) (\<lambda>_. withLock n (liveChild (traced ev) l n)) s) = Ok (Some b)"
    and "\<And>t. fst (adoptExisting (traced ev) h l n b op t) \<noteq> Ok True" and "\<And>ks. keeps (callsAre isLifeCall ks) onFresh"
    and "bindS (warnDeclaredSecrets h n cfg) (\<lambda>_. withLock n (bindS (liveChild (traced ev) l n) (\<lambda>live.
      bindS (case live of None \<Rightarrow> returnS False | Some b \<Rightarrow> adoptExisting (traced ev) h l n b op) (\<lambda>reuse.
      if reuse then onReuse else bindS (dispatch (traced ev) l n img) (\<lambda>_. onFresh))))) s = (Ok (), s')"
  shows "\<exists>k u. filter isLifeCall (calls s') = filter isLifeCall (calls s)
    @ [Http (deregisterRequest l (ChildJobID b)), dispatchCallOf ev l n img k u]"
proof -
  let ?ks = "filter isLifeCall (calls s)" and ?V = "sidecar_view s"
  let ?rest = "\<lambda>live. bindS (case live of None \<Rightarrow> returnS False | Some b \<Rightarrow> adoptExisting (traced ev) h l n b op) (\<lambda>reuse.
      if reuse then onReuse else bindS (dispatch (traced ev) l n img) (\<lambda>_. onFresh))"
  have "at ?V isLifeCall ?ks s" using assms(1) by (simp add: at_def storeIs_def callsAre_def)
  then obtain s1 s2 where s1: "at ?V isLifeCall ?ks s1" and live: "liveChild (traced ev) l n s1 = (Ok (Some b), s2)"
    and run: "snd (bindS (warnDeclaredSecrets h n cfg) (\<lambda>_. withLock n (bindS (liveChild (traced ev) l n) ?rest)) s)
        \<in> {snd (?rest (Some b) s2), unlockSession n (snd (?rest (Some b) s2))}"
    and res: "fst (bindS (warnDeclaredSecrets h n cfg) (\<lambda>_. withLock n (bindS (liveChild (traced ev) l n) ?rest)) s) = fst (?rest (Some b) s2)"
    by (rule locked_prefix [OF assms(2) _ at_warnDeclaredSecrets at_lockSession]) blast
  have "wp (liveChild (traced ev) l n) (\<lambda>r s'. \<exists>V'. at V' isLifeCall ?ks s' \<and> liveOutcome ?V n V' r) s1"
    by (rule wp_liveChild [OF s1 boxQuietD(4) [OF lifeCall_kinds(1)]]) blast
  then obtain V' where V': "at V' isLifeCall ?ks s2" "liveOutcome ?V n V' (Ok (Some b))"
    using live by (auto simp: wp_def)
  then have b: "V' n = Some b" "ChildJobID b \<noteq> []" by (auto simp: liveOutcome_def)
  have name: "SessionName b = n" using sc.view_name V'(1) b(1) by (auto simp: at_def storeIs_def)
  from wp_never_reused [OF V'(1) b(1) name b(2) assms(3,4), where img = img and onReuse = onReuse]
  have "\<exists>k u. callsAre isLifeCall (?ks @ [Http (deregisterRequest l (ChildJobID b)), dispatchCallOf ev l n img k u]) (snd (?rest (Some b) s2))"
    using res assms(5) by (simp add: wp_iff)
  moreover have "calls s' = calls (snd (?rest (Some b) s2))" using run assms(5) by (auto simp: unlockSession_def)
  ultimately show ?thesis by (simp add: callsAre_def)
qed

lemma bind_never: "(\<And>x t. fst (q x t) \<noteq> Ok y) \<Longrightarrow> fst (bindS p q s) \<noteq> Ok y"
  by (cases "p s"; cases "fst (p s)") (auto simp: bindS_def)


definition agedBinding :: binding where
  "agedBinding = (newBinding ''a'')\<lparr>ChildJobID := ''c'', Launched := True, CreatedAt := - 2000 * second\<rparr>"


end
