(* ===== verification/Exit_Codes.thy ===== *)
theory Exit_Codes
  imports Command_Line
begin

text \<open>
  What a caller sees of a run: the exit codes of \<^verbatim>\<open>main.go\<close>. No handler of the runtime pack
  panics by itself, so a run panics only when a call into the world does (\<open>panic_free\<close>); and in a
  world that answers, the operations that do not hold the session lock while they wait return.
\<close>

subsection \<open>Programs that do not panic\<close>

named_theorems sober_intros \<open>rules for programs that do not panic\<close>

definition sober :: "('s, 'a) prog \<Rightarrow> bool" where
  "sober p \<longleftrightarrow> (\<forall>s m. fst (p s) \<noteq> Panic m)"

lemma soberD: "sober p \<Longrightarrow> fst (p s) \<noteq> Panic m"
  by (simp add: sober_def)

lemma sober_basic [sober_intros]:
  "sober (returnS x)" "sober (failS e)" "sober hangS" "sober (getS f)" "sober (modifyS g)"
  "(\<And>m. r \<noteq> Panic m) \<Longrightarrow> sober (liftR r)"
  by (simp_all add: sober_def prog_defs)

lemma sober_bind [sober_intros]:
  assumes "sober p" and "\<And>x. sober (f x)"
  shows "sober (bindS p f)"
  unfolding sober_def
proof (intro allI)
  fix s m
  show "fst (bindS p f s) \<noteq> Panic m"
    using soberD [OF assms(1), of s] soberD [OF assms(2)] by (cases "p s"; cases "fst (p s)") (auto simp: bindS_def)
qed

lemma sober_wrappers [sober_intros]:
  "sober p \<Longrightarrow> sober (attempt p)" "sober p \<Longrightarrow> sober (wrapS a b p)" "sober p \<Longrightarrow> sober (finallyS p f)"
  by (auto simp: sober_def attempt_def wrapS_def finallyS_def split: prod.split result.split)
    (metis fst_conv)+

lemma sober_world [sober_intros]: "sober p \<Longrightarrow> sober (world p)"
  by (simp add: sober_def world_def case_prod_beta)

lemma sober_cases [sober_intros]:
  "sober p \<Longrightarrow> sober q \<Longrightarrow> sober (if b then p else q)"
  "sober u \<Longrightarrow> sober (whenS b u)"
  "(\<And>e. sober (f e)) \<Longrightarrow> (\<And>x. sober (g x)) \<Longrightarrow> sober (case r of Inl e \<Rightarrow> f e | Inr x \<Rightarrow> g x)"
  "sober p \<Longrightarrow> (\<And>x. sober (h x)) \<Longrightarrow> sober (case r' of None \<Rightarrow> p | Some x \<Rightarrow> h x)"
  "sober p \<Longrightarrow> (\<And>y ys. sober (k y ys)) \<Longrightarrow> sober (case r'' of [] \<Rightarrow> p | y # ys \<Rightarrow> k y ys)"
  "(\<And>i j. sober (l i j)) \<Longrightarrow> sober (case r''' of (i, j) \<Rightarrow> l i j)"
  "(\<And>x. sober (f' x)) \<Longrightarrow> sober (let x = e in f' x)"
  "sober p \<Longrightarrow> sober q \<Longrightarrow> sober (case b of True \<Rightarrow> p | False \<Rightarrow> q)"
  by (simp_all add: whenS_def sober_basic split: sum.split option.split list.split prod.split bool.split)

lemma sober_sidecar [sober_intros]:
  "sober (sidecar_load n)" "sober (sidecar_save b)" "sober (sidecar_remove n)" "sober sidecar_list" "sober (sidecar_tombstone t)"
  "sober takeFault"
proof -
  have t: "sober takeFault" by (auto simp: sober_def takeFault_def split: list.split)
  have os: "sober (os_ReadFile k)" "sober (os_WriteFile k c)" "sober (os_Rename k k')" "sober (os_Remove k)" "sober (os_MkdirAll k)"
    "sober os_ReadDir" for k k' c
    unfolding os_ReadFile_def os_WriteFile_def os_Rename_def os_Remove_def os_MkdirAll_def os_ReadDir_def
    by (intro sober_intros t)+
  have r: "sober (readEntries xs acc)" for xs acc
    by (induction xs arbitrary: acc) (auto intro!: sober_intros os)
  show "sober (sidecar_load n)" "sober (sidecar_save b)" "sober (sidecar_remove n)" "sober sidecar_list" "sober (sidecar_tombstone t)"
    unfolding sidecar_load_def sidecar_save_def sidecar_remove_def sidecar_list_def sidecar_tombstone_def Let_def
    by (intro sober_intros os r)+
  show "sober takeFault" by (rule t)
qed

lemma sober_local [sober_intros]:
  "sober (logDecision l m)" "sober (warnLine m)" "sober p \<Longrightarrow> sober (withLock n p)" "sober (peekBinding n)"
  "sober (updateBinding n what g)" "sober (warnDeclaredSecrets h n cfg)" "sober (setStagePending n b)"
  "sober (savePromptPending n cfg)" "sober (saveLifecyclePending n cfg)"
proof -
  show "sober (logDecision l m)" "sober (warnLine m)" unfolding logDecision_def warnLine_def by (intro sober_intros)+
  show "sober p \<Longrightarrow> sober (withLock n p)" unfolding withLock_def lockSession_def by (intro sober_intros)
  show u: "sober (peekBinding n)" "sober (updateBinding n what g)" for what g
    unfolding peekBinding_def updateBinding_def by (intro sober_intros)+
  show "sober (warnDeclaredSecrets h n cfg)" "sober (setStagePending n b)"
    "sober (savePromptPending n cfg)" "sober (saveLifecyclePending n cfg)"
    unfolding warnDeclaredSecrets_def setStagePending_def savePromptPending_def saveLifecyclePending_def Let_def warnLine_def
    by (intro sober_intros u)+
qed

subsection \<open>Worlds that do not panic\<close>

locale panic_free =
  fixes ev :: "'w env"
  assumes http: "fst (httpDo (envNomad ev) rq w) \<noteq> Panic m"
    and sdk_dispatch: "fst (sdkDispatch (envNomad ev) p meta ns tok w) \<noteq> Panic m"
    and sdk_allocations: "fst (sdkAllocations (envNomad ev) ns j i d w) \<noteq> Panic m"
    and exec: "fst (envExec ev a t c x w) \<noteq> Panic m"
begin

lemma sober_client [sober_intros]:
  "sober (getJob (envNomad ev) cl j)" "sober (listChildJobs (envNomad ev) cl j)" "sober (deregisterJob (envNomad ev) cl j b)"
  "sober (registerJob (envNomad ev) cl spec)" "sober (readAllocFile (envNomad ev) cl a p)" "sober (listAllocsForJob (envNomad ev) cl j i d)"
  "sober (dispatchChildAt (envNomad ev) f cl p n k u img)" "sober (jobPlacementFailure (envNomad ev) cl j)"
proof -
  have w: "sober (httpDo (envNomad ev) rq)" "sober (sdkDispatch (envNomad ev) p meta ns tok)"
    "sober (sdkAllocations (envNomad ev) ns j i d)" for rq p meta ns tok j i d
    by (simp_all add: sober_def http sdk_dispatch sdk_allocations)
  have body: "sober (readBody what r)" for what r
    unfolding readBody_def by (intro sober_intros)
  have idx: "sober (doIndexed (envNomad ev) cl verb parts q b dec z)" for verb parts q b and dec :: "json \<Rightarrow> 'x option" and z
    unfolding doIndexed_def Let_def by (intro sober_intros w body)
  have noOut: "sober (doNoOut (envNomad ev) cl verb parts b)" for verb parts b
    unfolding doNoOut_def by (intro sober_intros w body)
  show "sober (getJob (envNomad ev) cl j)" "sober (listChildJobs (envNomad ev) cl j)" "sober (deregisterJob (envNomad ev) cl j b)"
    "sober (registerJob (envNomad ev) cl spec)" "sober (readAllocFile (envNomad ev) cl a p)" "sober (listAllocsForJob (envNomad ev) cl j i d)"
    "sober (dispatchChildAt (envNomad ev) f cl p n k u img)" "sober (jobPlacementFailure (envNomad ev) cl j)"
    unfolding getJob_def listChildJobs_def deregisterJob_def registerJob_def readAllocFile_def listAllocsForJob_def
      dispatchChildAt_def jobPlacementFailure_def Let_def
    by (intro sober_intros w body idx noOut)+
qed

lemma sober_effects [sober_intros]:
  "sober (timeNow ev)" "sober (sleepFor ev d)" "sober (readRandom ev)" "sober (execAllocObserved ev a t c x)"
  "sober (execAllocStdin ev a t c x)" "sober (execAlloc ev a t c)" "sober (listAllocs ev l j)"
proof -
  have x: "sober (envExec ev a t c x)" for a t c x by (simp add: sober_def exec)
  have p: "sober (\<lambda>w. case f w of (r, w') \<Rightarrow> (Ok r, w'))" "sober (\<lambda>w. (Ok r, g w))" for f :: "'w \<Rightarrow> 'x \<times> 'w" and g :: "'w \<Rightarrow> 'w" and r :: 'y
    by (simp_all add: sober_def case_prod_beta)
  show "sober (timeNow ev)" "sober (sleepFor ev d)" "sober (readRandom ev)" "sober (execAllocObserved ev a t c x)"
    "sober (execAllocStdin ev a t c x)" "sober (execAlloc ev a t c)" "sober (listAllocs ev l j)"
    unfolding timeNow_def sleepFor_def readRandom_def execAlloc_def execAllocStdin_def execAllocObserved_def listAllocs_def
    by (intro sober_intros x p)+
qed

lemma sober_dispatch [sober_intros]:
  "sober (recoverBinding ev l n prior)" "sober (liveChild ev l n)" "sober (dispatch ev l n img)"
proof -
  show r: "sober (recoverBinding ev l n prior)" for prior
    unfolding recoverBinding_def Let_def by (intro sober_intros)
  have c: "sober (checkLive ev l n b recovered)" "sober (useRecovered ev l n rb)" for b recovered rb
    unfolding checkLive_def useRecovered_def by (intro sober_intros r | unfold checkLive_def)+
  show live: "sober (liveChild ev l n)"
    unfolding liveChild_def by (intro sober_intros r c)
  have o: "sober (findOrphanByNonce ev l n k)" "sober (ensureParentRegistered ev l)" for k
    unfolding findOrphanByNonce_def ensureParentRegistered_def registerParent_def Let_def by (intro sober_intros)+
  have nonce: "newNonce rnd \<noteq> Panic m" for rnd m by (simp add: newNonce_def split: sum.split)
  have f: "sober (dispatchFresh ev l n img)"
    unfolding dispatchFresh_def Let_def by (intro sober_intros nonce)
  show "sober (dispatch ev l n img)"
    unfolding dispatch_def adoptOrDispatch_def Let_def by (intro sober_intros live o f)
qed

lemma sober_box [sober_intros]:
  "sober (currentAllocRecord ev l n)" "sober (currentAlloc ev l n)" "sober (liveAllocID ev l b)" "sober (probeAgentAlive ev l a k)"
  "sober (bindingAgentStatus ev l b)" "sober (capturePanePID ev l n)" "sober (runDrivingVerb ev l n verb command)"
proof -
  have pick: "sober (pickAlloc ev l n b)" for b unfolding pickAlloc_def by (intro sober_intros)
  show rec: "sober (currentAllocRecord ev l n)" unfolding currentAllocRecord_def by (intro sober_intros pick)
  show cur: "sober (currentAlloc ev l n)" unfolding currentAlloc_def by (intro sober_intros rec)
  show live: "sober (liveAllocID ev l b)" "sober (probeAgentAlive ev l a k)" for a k
    unfolding liveAllocID_def probeAgentAlive_def Let_def by (intro sober_intros)+
  show "sober (bindingAgentStatus ev l b)" "sober (capturePanePID ev l n)" "sober (runDrivingVerb ev l n verb command)"
    unfolding bindingAgentStatus_def capturePanePID_def runDrivingVerb_def Let_def by (intro sober_intros live cur)+
qed

lemma sober_await [sober_intros]: "sober (awaitExecAllocReady ev l n)"
proof -
  have "sober (observeAlloc ev l n)" unfolding observeAlloc_def by (intro sober_intros)
  then have "sober (awaitLoop k ev l n timeout interval deadline)" for k timeout interval deadline
    by (induction k) (auto intro!: sober_intros)
  then show ?thesis unfolding awaitExecAllocReady_def awaitExecAllocReadyWithin_def by (intro sober_intros)
qed

lemma sober_retry: "sober p \<Longrightarrow> sober (retryAllocExecReady ev p)"
proof -
  assume p: "sober p"
  have "sober (retryFrom k ev p)" for k
    by (induction k; subst retryFrom.simps) (auto intro!: sober_intros p)
  then show ?thesis by (simp add: retryAllocExecReady_def)
qed

lemma sober_diagnosis [sober_intros]:
  "sober (deadChildReason ev h l c)" "sober (provisionFailureDetail ev h l n)" "sober (childHasLiveAlloc ev l c)"
  "sober (diagnosePaneGone ev l n)"
  unfolding deadChildReason_def provisionFailureDetail_def childHasLiveAlloc_def diagnosePaneGone_def readBoxFile_def Let_def
  by (intro sober_intros)+

lemma sober_stage [sober_intros]:
  "sober (execStage ev l n command stdin)" "sober (boxSecretsDir ev l n)" "sober (stageTracked ev h l n cfg)"
proof -
  show e: "sober (execStage ev l n command stdin)" for command stdin
    unfolding execStage_def by (intro sober_intros sober_retry)
  have "validatedSecretsDir n d \<noteq> Panic m" for d m by (simp add: validatedSecretsDir_def Let_def)
  then show b: "sober (boxSecretsDir ev l n)"
    unfolding boxSecretsDir_def by (intro sober_intros sober_retry)
  have arc: "sober (stageArchive ev h l n what command fs)" for what command fs
    unfolding stageArchive_def Let_def by (intro sober_intros e)
  have arg: "sober (stageArgFiles ev l n fs)" for fs by (induction fs) (auto intro!: sober_intros e)
  have "sober (stage ev h l n cfg)" unfolding stage_def Let_def by (intro sober_intros e b arc arg)
  then show "sober (stageTracked ev h l n cfg)" unfolding stageTracked_def by (intro sober_intros)
qed

lemma sober_launch [sober_intros]: "sober (confirmLaunched ev h l n wd pc lc)" "sober (markLaunched ev h l n cfg)"
  "sober (opExec ev h l n command)"
proof -
  have "sober (boxRunsAnAgent ev l a)" "sober (paneCurrentCommand ev l a)" for a
    unfolding boxRunsAnAgent_def paneCurrentCommand_def by (intro sober_intros)+
  then have "sober (verifyLoop k ev l n a d lst)" for k a d lst
    by (induction k arbitrary: lst) (auto simp: Let_def intro!: sober_intros)
  then have pane: "sober (warnIfPaneRunsNoAgent ev l n)"
    unfolding warnIfPaneRunsNoAgent_def verifyPaneRunsAgent_def by (intro sober_intros)
  have gc: "sober (warnIfBoxGCIsStale ev h l n x)" "sober (warnIfBoxGCCannotClaim ev h l n)" for x
    unfolding warnIfBoxGCIsStale_def warnIfBoxGCCannotClaim_def Let_def by (intro sober_intros)+
  show confirm: "sober (confirmLaunched ev h l n wd pc lc)" for wd pc lc
    unfolding confirmLaunched_def Let_def by (intro sober_intros pane gc)
  have launch: "sober (launch ev h l n env wd pc)" for env wd pc
    unfolding launch_def launchWithCommand_def Let_def by (intro sober_intros sober_retry)
  have "sober (spawnPrimeWindow ev l n)" "sober (primeWindowExists ev l n)"
    unfolding spawnPrimeWindow_def primeWindowExists_def Let_def by (intro sober_intros)+
  then have prime: "sober (startupPrimeDetached ev h l n cfg)" for cfg
    unfolding startupPrimeDetached_def Let_def by (intro sober_intros)
  show "sober (markLaunched ev h l n cfg)" "sober (opExec ev h l n command)"
    unfolding markLaunched_def opExec_def markTransportLaunched_def launchWithCommand_def Let_def
    by (intro sober_intros sober_retry confirm launch prime)+
qed

lemma sober_stop [sober_intros]: "sober (opStop ev l n)"
proof -
  have "sober (flushLoop k ev l a d)" for k a d by (induction k) (auto intro!: sober_intros)
  then have flush: "sober (flushStep ev l n b)" for b
    unfolding flushStep_def flushLogShipper_def by (intro sober_intros)
  have fault: "sober sinkFault" by (auto simp: sober_def sinkFault_def split: list.split)
  have "sober (egressOne ev l d a e)" for d a e
    unfolding egressOne_def sink_MkdirAll_def sink_WriteFile_def sink_Rename_def Let_def by (intro sober_intros fault)
  then have "sober (egressEach ev l d es)" for d es by (induction es) (auto intro!: sober_intros)
  then have files: "sober (egressAllocFiles ev l n j)" for j
    unfolding egressAllocFiles_def sink_MkdirAll_def Let_def by (intro sober_intros fault)
  have "sober (egressRetry k p)" if "sober p" for k and p :: "('w lstate, unit) prog"
    by (induction k) (auto intro!: sober_intros that)
  note retry = this [OF files]
  have "sober (egressStep ev l n need b)" for need b
    unfolding egressStep_def by (intro sober_intros retry)
  then show ?thesis unfolding opStop_def by (intro sober_intros flush)
qed

lemma sober_adoptPath [sober_intros]:
  "sober p1 \<Longrightarrow> sober p2 \<Longrightarrow> sober p3 \<Longrightarrow> sober p4 \<Longrightarrow>
   sober (case path of adoptReuse \<Rightarrow> p1 | adoptSelfHealLaunched \<Rightarrow> p2 | adoptReap \<Rightarrow> p3 | adoptReject \<Rightarrow> p4)"
  by (cases path) auto

lemma sober_mint [sober_intros]: "sober (opProvisionWithConfig ev h l n cfg)" "sober (opStartWithConfig ev h l n cfg)"
proof -
  have "sober (notPlaced ev l n c x)" for c x unfolding notPlaced_def Let_def by (intro sober_intros)
  then have "sober (placedLoop k ev l n c d st)" for k c d st
    by (induction k arbitrary: st) (auto simp: Let_def intro!: sober_intros)
  then have placed: "sober (confirmDispatchPlaced ev l n)"
    unfolding confirmDispatchPlaced_def by (intro sober_intros)
  have adopt: "sober (adoptExisting ev h l n b what)" for b what
    unfolding adoptExisting_def classifyAdoption_def reapChild_def Let_def by (intro sober_intros)
  show "sober (opProvisionWithConfig ev h l n cfg)" "sober (opStartWithConfig ev h l n cfg)"
    unfolding opProvisionWithConfig_def opStartWithConfig_def by (intro sober_intros placed adopt)+
qed

lemma sober_observe [sober_intros]: "sober (opIsRunning ev h l n)" "sober (opListRunning ev h l pre)"
proof -
  have sync: "sober (syncPromptedMarker ev l n)" "sober (syncCityCheckoutMarker ev h l n)"
    unfolding syncPromptedMarker_def syncCityCheckoutMarker_def applyPromptMarker_def Let_def by (intro sober_intros)+
  have reap: "sober (reapDrainedOneShot ev l n b a)" for b a
    unfolding reapDrainedOneShot_def paneShowsDrainAck_def Let_def by (intro sober_intros)
  show "sober (opIsRunning ev h l n)"
    unfolding opIsRunning_def Let_def by (intro sober_intros sync reap)
  have "sober (listOne ev h l pre launched c)" for launched c
    unfolding listOne_def Let_def by (intro sober_intros)
  then have "sober (listEach ev h l pre launched cs)" for launched cs
    by (induction cs) (auto intro!: sober_intros)
  then show "sober (opListRunning ev h l pre)" unfolding opListRunning_def by (intro sober_intros)
qed

lemma sober_verbs [sober_intros]:
  "sober (opRelaunch ev h l n)" "sober (opNudge ev l n txt1)" "sober (opPeek ev l n lines)" "sober (opInterrupt ev l n)"
  "sober (opSendKeys ev l n ks)" "sober (opClearScrollback ev l n)" "sober (namedProcessAlive ev l n names)"
  unfolding opRelaunch_def opNudge_def opPeek_def opInterrupt_def opSendKeys_def opClearScrollback_def bestEffort_def
    namedProcessAlive_def Let_def
  by (intro sober_intros)+

lemma sober_reporting [sober_intros]:
  "sober (failOp op e)" "sober (refuseOp op m)" "sober succeeded" "sober (written pio op out code)" "sober (warnIf b m)"
  "sober p \<Longrightarrow> (\<And>x. sober (f x)) \<Longrightarrow> sober (reported op p f)" "sober (liftSum r)"
  unfolding failOp_def refuseOp_def succeeded_def written_def warnIf_def reported_def liftSum_def
  by (intro sober_intros | assumption)+

lemma sober_newLifecycle [sober_intros]: "sober (newLifecycle lb h)"
proof -
  have "sober (newClient lb h a tk ns)" "sober (newSidecar d)" for a tk ns d
    unfolding newClient_def newSidecar_def Let_def by (intro sober_intros)+
  then show ?thesis unfolding newLifecycle_def Let_def by (intro sober_intros)
qed

lemma sober_check [sober_intros]: "sober (opCheck lb ev h)"
proof -
  have "sober (checkAllocListCapability lb ev h)" "sober (checkSettings h)"
    unfolding checkAllocListCapability_def checkSettings_def Let_def by (intro sober_intros)+
  then show ?thesis
    unfolding opCheck_def by (intro sober_intros) (auto intro!: sober_intros split: gcWorkerSurface.split)
qed

lemma sober_run: "sober (run lb ev h pio args)"
proof -
  have named: "sober (runNamed lb ev h l pio op n as)" for l op n as
    unfolding runNamed_def runExec_def runPeek_def runProcessAlive_def Let_def by (intro sober_intros)
  have "sober (runLifecycle lb ev h l pio op rest)" for l op rest
    unfolding runLifecycle_def by (intro sober_intros named)
  moreover have "sober (capabilityGate h op)" for op unfolding capabilityGate_def by (intro sober_intros)
  ultimately show ?thesis unfolding run_def by (intro sober_intros)
qed

end

text \<open>The fake cluster answers every request with a status and never panics.\<close>

interpretation fake_calm: panic_free "fakeEnv host run" for host run
proof
  fix rq w m p meta ns tok j i d a t c x
  have h: "sober (fakeHttp host q)" for q by (simp add: sober_def fakeHttp_def case_prod_beta)
  have "sober (fakeDispatch host p meta ns tok)" "sober (fakeAllocations host ns j i d)"
    unfolding fakeDispatch_def fakeAllocations_def by (intro sober_intros h)+
  then show "fst (httpDo (envNomad (fakeEnv host run)) rq w) \<noteq> Panic m"
    "fst (sdkDispatch (envNomad (fakeEnv host run)) p meta ns tok w) \<noteq> Panic m"
    "fst (sdkAllocations (envNomad (fakeEnv host run)) ns j i d w) \<noteq> Panic m"
    using soberD [OF h] by (simp_all add: soberD)
qed simp

subsection \<open>Operations that return\<close>

context answering_world
begin

lemma settles_cases [settles_intros]:
  "settles I p \<Longrightarrow> settles I q \<Longrightarrow> settles I (case b of True \<Rightarrow> p | False \<Rightarrow> q)"
  "settles I (liftSum r)"
  by (simp_all add: liftSum_def settles_simple split: bool.split sum.split)

lemma settles_box [settles_intros]:
  "settles (reached L t) (peekBinding n)" "settles (reached L t) (updateBinding n what g)" "settles (reached L t) (liveAllocID ev l b)"
  "settles (reached L t) (probeAgentAlive ev l a k)" "settles (reached L t) (bindingAgentStatus ev l b)"
  "settles (reached L t) (childHasLiveAlloc ev l c)" "settles (reached L t) (deadChildReason ev h l c)"
  "settles (reached L t) sidecar_list"
proof -
  show s: "settles (reached L t) (peekBinding n)" "settles (reached L t) (updateBinding n what g)" "settles (reached L t) (liveAllocID ev l b)"
    "settles (reached L t) (probeAgentAlive ev l a k)" "settles (reached L t) (childHasLiveAlloc ev l c)"
    "settles (reached L t) (deadChildReason ev h l c)" for b a k
    unfolding peekBinding_def updateBinding_def liveAllocID_def probeAgentAlive_def childHasLiveAlloc_def deadChildReason_def Let_def
    by (intro settles_intros)+
  show "settles (reached L t) (bindingAgentStatus ev l b)"
    unfolding bindingAgentStatus_def Let_def by (intro settles_intros s)
  have f: "settles (reached L t) (os_ReadFile x)" "settles (reached L t) os_ReadDir" for x
    unfolding os_ReadFile_def os_ReadDir_def by (intro settles_intros settles_fault)+
  have "settles (reached L t) (readEntries xs acc)" for xs acc
    by (induction xs arbitrary: acc) (auto intro!: settles_intros f)
  then show "settles (reached L t) sidecar_list" unfolding sidecar_list_def by (intro settles_intros f)
qed

lemma settles_relaunch [settles_intros]:
  assumes "n \<notin> set L"
  shows "settles (reached L t) (opRelaunch ev h l n)"
proof -
  have gc: "settles (reached L t) (warnIfBoxGCIsStale ev h l n x)" "settles (reached L t) (warnIfBoxGCCannotClaim ev h l n)" for x
    unfolding warnIfBoxGCIsStale_def warnIfBoxGCCannotClaim_def Let_def by (intro settles_intros assms)+
  have confirm: "settles (reached L t) (confirmLaunched ev h l n wd pc lc)" for wd pc lc
    unfolding confirmLaunched_def Let_def by (intro settles_intros gc assms)
  have fail: "settles (reached L t) (provisionFailureDetail ev h l n)" "settles (reached L t) (diagnosePaneGone ev l a)" for a
    unfolding provisionFailureDetail_def diagnosePaneGone_def readBoxFile_def Let_def by (intro settles_intros assms)+
  have launch: "settles (reached L t) (launch ev h l n env wd pc)" for env wd pc
    unfolding launch_def launchWithCommand_def Let_def by (intro settles_intros fail assms)
  have "settles (reached L t) (spawnPrimeWindow ev l n)" "settles (reached L t) (primeWindowExists ev l n)"
    unfolding spawnPrimeWindow_def primeWindowExists_def Let_def by (intro settles_intros fail assms)+
  then have prime: "settles (reached L t) (startupPrimeDetached ev h l n cfg)" for cfg
    unfolding startupPrimeDetached_def Let_def by (intro settles_intros assms)
  show ?thesis
    unfolding opRelaunch_def markLaunched_def Let_def by (intro settles_intros confirm launch prime assms)
qed

lemma settles_observe [settles_intros]:
  assumes "L = []"
  shows "settles (reached L t) (opIsRunning ev h l n)" "settles (reached L t) (opListRunning ev h l pre)"
proof -
  have L: "m \<notin> set L" for m using assms by simp
  have sync: "settles (reached L t) (syncPromptedMarker ev l n)" "settles (reached L t) (syncCityCheckoutMarker ev h l n)"
    unfolding syncPromptedMarker_def syncCityCheckoutMarker_def applyPromptMarker_def Let_def by (intro settles_intros L)+
  have reap: "settles (reached L t) (reapDrainedOneShot ev l n b a)" for b a
    unfolding reapDrainedOneShot_def paneShowsDrainAck_def Let_def by (intro settles_intros L)
  show "settles (reached L t) (opIsRunning ev h l n)"
    unfolding opIsRunning_def Let_def by (intro settles_intros sync reap L)
  have "settles (reached L t) (listOne ev h l pre launched c)" for launched c
    unfolding listOne_def Let_def by (intro settles_intros L)
  then have "settles (reached L t) (listEach ev h l pre launched cs)" for launched cs
    by (induction cs) (auto intro!: settles_intros)
  then show "settles (reached L t) (opListRunning ev h l pre)" unfolding opListRunning_def by (intro settles_intros L)
qed

lemma settles_verbs_all [settles_intros]:
  assumes "L = []"
  shows "settles (reached L t) (opNudge ev l n txt1)" "settles (reached L t) (opInterrupt ev l n)" "settles (reached L t) (opSendKeys ev l n ks)"
    "settles (reached L t) (opClearScrollback ev l n)" "settles (reached L t) (namedProcessAlive ev l n names)"
    "settles (reached L t) (opPeek ev l n lines)" "settles (reached L t) (opStop ev l n)"
proof -
  have L: "m \<notin> set L" for m using assms by simp
  show "settles (reached L t) (opNudge ev l n txt1)" "settles (reached L t) (opInterrupt ev l n)" "settles (reached L t) (opSendKeys ev l n ks)"
    "settles (reached L t) (opClearScrollback ev l n)" "settles (reached L t) (namedProcessAlive ev l n names)"
    unfolding opNudge_def opInterrupt_def opSendKeys_def opClearScrollback_def bestEffort_def namedProcessAlive_def Let_def
    by (intro settles_intros L)+
  show "settles (reached L t) (opPeek ev l n lines)" "settles (reached L t) (opStop ev l n)"
    by (intro settles_intros L)+
qed

lemma settles_reporting [settles_intros]:
  "settles (reached L t) (failOp op e)" "settles (reached L t) (refuseOp op m)" "settles (reached L t) succeeded"
  "settles (reached L t) (written pio op out code)" "settles (reached L t) (warnIf b m)"
  "settles (reached L t) p \<Longrightarrow> (\<And>x. settles (reached L t) (f x)) \<Longrightarrow> settles (reached L t) (reported op p f)"
  unfolding failOp_def refuseOp_def succeeded_def written_def warnIf_def reported_def
  by (intro settles_intros | assumption)+

lemma settles_newLifecycle [settles_intros]: "settles (reached L t) (newLifecycle lb h)"
proof -
  have "settles (reached L t) (newClient lb h a tk ns)" "settles (reached L t) (newSidecar d)" for a tk ns d
    unfolding newClient_def newSidecar_def Let_def by (intro settles_intros settles_fault)+
  then show ?thesis unfolding newLifecycle_def Let_def by (intro settles_intros)
qed

lemma settles_check [settles_intros]: "settles (reached L t) (opCheck lb ev h)"
proof -
  have "settles (reached L t) (checkAllocListCapability lb ev h)" "settles (reached L t) (checkSettings h)"
    unfolding checkAllocListCapability_def checkSettings_def Let_def by (intro settles_intros)+
  then show ?thesis
    unfolding opCheck_def by (intro settles_intros) (auto intro!: settles_intros split: gcWorkerSurface.split)
qed

lemma run_returns:
  assumes "lsLocks s = []" and "op \<notin> {''start'', ''provision'', ''exec''}"
  shows "fst (run lb ev h pio (op # rest) s) \<noteq> Hang"
proof -
  have named: "settles (reached [] t) (runNamed lb ev h l pio op n as)" for l n as t
    unfolding runNamed_def runPeek_def runProcessAlive_def Let_def using assms(2) by (intro settles_intros) simp_all
  have life: "settles (reached [] t) (runLifecycle lb ev h l pio op rest)" for l t
    unfolding runLifecycle_def by (intro settles_intros named refl)
  have gate: "settles (reached [] t) (capabilityGate h op)" for t unfolding capabilityGate_def by (intro settles_intros)
  have "settles (reached [] t) (run lb ev h pio (op # rest))" for t
    unfolding run_def list.case by (intro settles_intros life gate)
  then have "returnsFrom s (run lb ev h pio (op # rest))" by (intro settled) (simp add: assms(1))
  then show ?thesis by (simp add: returnsFrom_def)
qed

end

subsection \<open>The exit codes\<close>

text \<open>\<open>exits P p\<close>: the program never ends in an error value, and the value it returns satisfies \<open>P\<close>.\<close>

named_theorems exits_intros \<open>rules for what a program returns\<close>

definition exits :: "('a \<Rightarrow> bool) \<Rightarrow> ('s, 'a) prog \<Rightarrow> bool" where
  "exits P p \<longleftrightarrow> (\<forall>s. case fst (p s) of Ok x \<Rightarrow> P x | Err e \<Rightarrow> False | _ \<Rightarrow> True)"

lemma exitsD: "exits P p \<Longrightarrow> (case fst (p s) of Ok x \<Rightarrow> P x | Err e \<Rightarrow> False | _ \<Rightarrow> True)"
  by (simp add: exits_def)

lemma exits_return [exits_intros]: "P x \<Longrightarrow> exits P (returnS x)"
  by (simp add: exits_def returnS_def)

lemma exits_attempt [exits_intros]: "exits (\<lambda>_. True) (attempt p)"
  by (auto simp: exits_def attempt_def split: prod.split result.split)

lemma exits_bind_value:
  assumes "exits R p" and "\<And>x. R x \<Longrightarrow> exits P (f x)"
  shows "exits P (bindS p f)"
  unfolding exits_def
proof
  fix s
  show "case fst (bindS p f s) of Ok x \<Rightarrow> P x | Err e \<Rightarrow> False | _ \<Rightarrow> True"
    using exitsD [OF assms(1), of s] assms(2) by (cases "p s"; cases "fst (p s)") (auto simp: bindS_def exits_def)
qed

lemma exits_bind [exits_intros]: "exits (\<lambda>_. True) p \<Longrightarrow> (\<And>x. exits P (f x)) \<Longrightarrow> exits P (bindS p f)"
  by (rule exits_bind_value)

lemma exits_if [exits_intros]: "(b \<Longrightarrow> exits P p) \<Longrightarrow> (\<not> b \<Longrightarrow> exits P q) \<Longrightarrow> exits P (if b then p else q)"
  by simp

lemma exits_sum [exits_intros]:
  "(\<And>e. exits P (f e)) \<Longrightarrow> (\<And>x. exits P (g x)) \<Longrightarrow> exits P (case r of Inl e \<Rightarrow> f e | Inr x \<Rightarrow> g x)"
  by (cases r) auto

lemma exits_option [exits_intros]:
  "exits P p \<Longrightarrow> (\<And>x. exits P (g x)) \<Longrightarrow> exits P (case r of None \<Rightarrow> p | Some x \<Rightarrow> g x)"
  by (cases r) auto

lemma exits_list [exits_intros]:
  "exits P p \<Longrightarrow> (\<And>x xs. exits P (g x xs)) \<Longrightarrow> exits P (case r of [] \<Rightarrow> p | x # xs \<Rightarrow> g x xs)"
  by (cases r) auto

lemma exits_prod [exits_intros]: "(\<And>x y. exits P (f x y)) \<Longrightarrow> exits P (case r of (x, y) \<Rightarrow> f x y)"
  by (cases r) auto

lemma exits_let [exits_intros]: "(\<And>x. exits P (f x)) \<Longrightarrow> exits P (let x = e in f x)"
  by simp

lemma exits_warn [exits_intros]: "exits (\<lambda>_. True) (warnLine m)" "exits (\<lambda>_. True) (warnIf b m)" "exits (\<lambda>_. True) (whenS b (warnLine m))"
  by (simp_all add: exits_def warnLine_def warnIf_def whenS_def modifyS_def returnS_def)

text \<open>The convention: success, or failure with nothing on the standard output.\<close>

definition rppResult :: "int \<times> string \<Rightarrow> bool" where
  "rppResult r \<longleftrightarrow> fst r = exitOK \<or> r = (exitError, [])"

lemma rppResult_simps [simp]: "rppResult (exitOK, out)" "rppResult (exitError, [])"
  by (simp_all add: rppResult_def)

lemma exits_failOp [exits_intros]: "exits rppResult (failOp op e)" "exits rppResult (refuseOp op m)" "exits rppResult succeeded"
  unfolding failOp_def refuseOp_def succeeded_def by (intro exits_intros rppResult_simps)+

lemma exits_reported [exits_intros]: "(\<And>x. exits rppResult (f x)) \<Longrightarrow> exits rppResult (reported op p f)"
  unfolding reported_def by (intro exits_intros)

lemma exits_written [exits_intros]: "exits rppResult (written pio op out exitOK)"
  unfolding written_def by (intro exits_intros rppResult_simps)

lemma exits_namedProcessAlive [exits_intros]: "exits (\<lambda>_. True) (namedProcessAlive ev l n names)"
  unfolding namedProcessAlive_def by (intro exits_intros TrueI)

lemma exits_runPeek [exits_intros]: "exits rppResult (runPeek ev l pio name args)"
  unfolding runPeek_def Let_def by (intro exits_intros)

lemma exits_runProcessAlive [exits_intros]: "exits rppResult (runProcessAlive ev l pio name)"
  unfolding runProcessAlive_def by (intro exits_intros rppResult_simps)

lemma exits_runLifecycle:
  assumes "op \<in> set lifecycleOps" and "op \<noteq> ''exec''"
  shows "exits rppResult (runLifecycle lb ev h l pio op rest)"
proof -
  have "exits rppResult (runNamed lb ev h l pio op name args)" if "op \<noteq> ''list-running''" for name args
    unfolding runNamed_def using assms that by (intro exits_intros rppResult_simps) (auto simp: lifecycleOps_def)
  then show ?thesis unfolding runLifecycle_def by (intro exits_intros rppResult_simps) simp_all
qed

lemma exits_checkAllocListCapability:
  "exits (\<lambda>code. code \<in> {exitOK, exitError}) (checkAllocListCapability lb ev h)"
  unfolding checkAllocListCapability_def by (intro exits_intros) simp_all

lemma exits_opCheck: "exits (\<lambda>code. code \<in> {exitOK, exitError}) (opCheck lb ev h)"
proof -
  have "exits (\<lambda>_. True) (checkSettings h)"
    unfolding checkSettings_def by (intro exits_intros)
  then show ?thesis
    unfolding opCheck_def
    by (intro exits_bind exits_bind_value [OF exits_checkAllocListCapability] exits_if exits_prod exits_warn)
      (auto split: gcWorkerSurface.split intro!: exits_intros)
qed

lemma exits_capabilityGate: "exits (\<lambda>_. True) (capabilityGate h op)"
  unfolding capabilityGate_def by (intro exits_intros TrueI)

definition servedOps :: "string list" where
  "servedOps = [''help'', ''--help'', ''-h'', ''protocol'', ''check''] @ lifecycleOps"

lemma exits_run:
  assumes "op \<in> set servedOps" and "op \<noteq> ''exec''"
  shows "exits rppResult (run lb ev h pio (op # rest))"
proof -
  have check: "exits rppResult (bindS (opCheck lb ev h) (\<lambda>code. returnS (code, [])))"
    by (rule exits_bind_value [OF exits_opCheck], rule exits_return) auto
  have op': "op \<in> set lifecycleOps" if "op \<notin> {''help'', ''--help'', ''-h''}" "op \<noteq> ''protocol''" "op \<noteq> ''check''"
    using assms(1) that by (auto simp: servedOps_def)
  show ?thesis
    unfolding run_def list.case
    by (intro exits_intros rppResult_simps check exits_capabilityGate exits_runLifecycle) (use assms(2) op' in auto)
qed

text \<open>C39. The exit codes a caller relies on. An operation this build does not serve exits 2,
  prints nothing and touches nothing. In a world whose calls do not panic, every other operation except
  \<^verbatim>\<open>exec\<close>, whose code is the remote command's, neither panics nor lets an error escape: when it returns, it exits 0, or
  1 with an empty standard output, so the code 2 is never one of these. And it returns, if the world
  answers and its clock advances, unless it is \<^verbatim>\<open>start\<close> or \<^verbatim>\<open>provision\<close>, which wait for the box
  while they hold the session's lock.\<close>

theorem run_exit_codes:
  "(op \<notin> set servedOps \<longrightarrow> run lb ev h pio (op # rest) s = (Ok (2, []), s)) \<and>
   (op \<in> set servedOps \<and> op \<noteq> ''exec'' \<and> panic_free ev \<longrightarrow>
     (case fst (run lb ev h pio (op # rest) s) of
        Ok (code, out) \<Rightarrow> code = 0 \<or> code = 1 \<and> out = []
      | Err e \<Rightarrow> False
      | Panic m \<Rightarrow> False
      | Hang \<Rightarrow> op \<in> {''start'', ''provision''} \<or> lsLocks s \<noteq> [] \<or> \<not> answering_world ev clock))"
proof (intro conjI impI)
  assume "op \<notin> set servedOps"
  then show "run lb ev h pio (op # rest) s = (Ok (2, []), s)"
    by (auto simp: run_def servedOps_def returnS_def exitUnknown_def)
next
  assume op: "op \<in> set servedOps \<and> op \<noteq> ''exec'' \<and> panic_free ev"
  show "case fst (run lb ev h pio (op # rest) s) of Ok (code, out) \<Rightarrow> code = 0 \<or> code = 1 \<and> out = []
      | Err e \<Rightarrow> False | Panic m \<Rightarrow> False
      | Hang \<Rightarrow> op \<in> {''start'', ''provision''} \<or> lsLocks s \<noteq> [] \<or> \<not> answering_world ev clock"
  proof (cases "fst (run lb ev h pio (op # rest) s)")
    case (Panic m)
    then show ?thesis using op soberD [OF panic_free.sober_run] by metis
  next
    case Hang
    then show ?thesis using op answering_world.run_returns [of ev clock s op lb h pio rest] by auto
  qed (use op exitsD [OF exits_run [of op lb ev h pio rest], of s] in
      \<open>auto simp: rppResult_def exitOK_def exitError_def split: result.splits\<close>)
qed

text \<open>An unknown operation, and a stop on the fake cluster, which answers.\<close>

theorem run_exit_codes_witness:
  "run bareLibs (fakeEnv (\<lambda>_ _. Starts) (\<lambda>_ _ _ _. (0, [], []))) bareHost bareIO [''frobnicate'', ''a''] (fakeState []) = (Ok (2, []), fakeState []) \<and>
   (case fst (run bareLibs (fakeEnv (\<lambda>_ _. Starts) (\<lambda>_ _ _ _. (0, [], []))) bareHost bareIO [''stop'', ''a''] (fakeState [])) of
      Ok (code, out) \<Rightarrow> code = 0 \<or> code = 1 \<and> out = [] | _ \<Rightarrow> False)"
  using run_exit_codes [of "''frobnicate''" bareLibs "fakeEnv (\<lambda>_ _. Starts) (\<lambda>_ _ _ _. (0, [], []))" bareHost bareIO "[''a'']" "fakeState []"]
    run_exit_codes [of "''stop''" bareLibs "fakeEnv (\<lambda>_ _. Starts) (\<lambda>_ _ _ _. (0, [], []))" bareHost bareIO "[''a'']" "fakeState []" fwClock]
    fake_calm.panic_free_axioms [of "\<lambda>_ _. Starts" "\<lambda>_ _ _ _. (0, [], [])"]
    fake.answering_world_axioms [of "\<lambda>_ _. Starts" "\<lambda>_ _ _ _. (0, [], [])"]
  by (auto simp: servedOps_def lifecycleOps_def fakeState_def split: result.splits)

end
